(* ===== verification/Prelude.thy ===== *)
theory Prelude
  imports Main "HOL-Library.Word"
begin

text \<open>
  Shared vocabulary of the development: the Go types and primitive operations that the
  bridge uses everywhere (signed machine integers, the truncating remainder, error values)
  and the generic lemmas on lists, options and finite maps that the component theories
  share. Every component theory imports this one.

  Conventions. A Go \<open>string\<close> and a \<open>[]byte\<close> are byte sequences: a string is a
  \<open>char list\<close> (a HOL character is one byte), a byte slice a list of \<open>8 word\<close>.
  Go's \<open>int\<close>, \<open>int64\<close> and \<open>int32\<close> are \<open>int\<close> with the two's complement
  wrap-around written out; \<open>uint64\<close>, \<open>uint32\<close>, \<open>uint16\<close> and \<open>uint8\<close> are words. A
  pointer that may be nil is an \<open>option\<close>.
\<close>

named_theorems bridge_defs "definitions unfolded by the component proofs"
named_theorems bridge_inv "preservation lemmas of the component invariants"

type_synonym byte = "8 word"
type_synonym bytes = "8 word list"

subsection \<open>Signed machine integers\<close>

definition wrap64 :: "int \<Rightarrow> int" where
  "wrap64 k = (k + 2 ^ 63) mod 2 ^ 64 - 2 ^ 63"

definition wrap32 :: "int \<Rightarrow> int" where
  "wrap32 k = (k + 2 ^ 31) mod 2 ^ 32 - 2 ^ 31"

text \<open>Go's \<open>%\<close> truncates towards zero: the remainder has the sign of the dividend.\<close>

definition go_rem :: "int \<Rightarrow> int \<Rightarrow> int" where
  "go_rem a b = (if a < 0 then - ((- a) mod \<bar>b\<bar>) else a mod \<bar>b\<bar>)"

definition go_div :: "int \<Rightarrow> int \<Rightarrow> int" where
  "go_div a b = sgn a * sgn b * (\<bar>a\<bar> div \<bar>b\<bar>)"

lemma wrap64_id: "- (2 ^ 63) \<le> k \<Longrightarrow> k < 2 ^ 63 \<Longrightarrow> wrap64 k = k"
  by (simp add: wrap64_def)

lemma wrap64_bounds: "- (2 ^ 63) \<le> wrap64 k \<and> wrap64 k < 2 ^ 63"
  using pos_mod_bound [of "2 ^ 64" "k + 2 ^ 63"] pos_mod_sign [of "2 ^ 64" "k + 2 ^ 63"]
  by (simp add: wrap64_def)

lemma wrap32_id: "- (2 ^ 31) \<le> k \<Longrightarrow> k < 2 ^ 31 \<Longrightarrow> wrap32 k = k"
  by (simp add: wrap32_def)

lemma wrap32_bounds: "- (2 ^ 31) \<le> wrap32 k \<and> wrap32 k < 2 ^ 31"
  using pos_mod_bound [of "2 ^ 32" "k + 2 ^ 31"] pos_mod_sign [of "2 ^ 32" "k + 2 ^ 31"]
  by (simp add: wrap32_def)

lemma go_rem_nonneg: "0 \<le> a \<Longrightarrow> 0 < b \<Longrightarrow> go_rem a b = a mod b"
  by (simp add: go_rem_def)

lemma go_rem_bounds:
  assumes "0 < b"
  shows "- b < go_rem a b \<and> go_rem a b < b"
proof -
  have "0 \<le> a mod b" "a mod b < b" "0 \<le> - a mod b" "- a mod b < b"
    using assms by simp_all
  moreover have "go_rem a b = - (- a mod b) \<or> go_rem a b = a mod b"
    using assms by (simp add: go_rem_def)
  ultimately show ?thesis using assms by linarith
qed

subsection \<open>Error values\<close>

text \<open>
  A Go error is compared by identity (\<open>==\<close>, \<open>errors.Is\<close>) or through its message
  (\<open>err.Error()\<close>). The sentinel errors of the bridge are constructors; every other error
  carries its message, and \<open>Wrap\<close> is \<open>errors.Wrap\<close>, \<open>errors.Wrapf\<close> and
  \<open>fmt.Errorf\<close> with \<open>%w\<close>.
\<close>

datatype go_error =
    ErrorDisconnected
  | ErrWriteBlocked
  | ErrStaleShare
  | ErrMsg string
  | Wrap string go_error

primrec error_string :: "go_error \<Rightarrow> string" where
  "error_string ErrorDisconnected = ''disconnecting''"
| "error_string ErrWriteBlocked = ''error writing to socket, previous write pending''"
| "error_string ErrStaleShare = ''stale share''"
| "error_string (ErrMsg m) = m"
| "error_string (Wrap m e) = m @ '': '' @ error_string e"

fun error_is :: "go_error \<Rightarrow> go_error \<Rightarrow> bool" where
  "error_is (Wrap m e) target = (Wrap m e = target \<or> error_is e target)"
| "error_is e target = (e = target)"

text \<open>A computation of the source that returns, panics, or does not return.\<close>

datatype 'a outcome = Ret 'a | Panic string | Hang

primrec out_bind :: "'a outcome \<Rightarrow> ('a \<Rightarrow> 'b outcome) \<Rightarrow> 'b outcome" where
  "out_bind (Ret x) f = f x"
| "out_bind (Panic m) f = Panic m"
| "out_bind Hang f = Hang"

text \<open>
  Sequencing in a handler that also changes a state: the state reached is kept when a step panics.
\<close>

type_synonym ('s, 'a) handler = "'s \<Rightarrow> 'a outcome \<times> 's"

definition wret :: "'a \<Rightarrow> ('s, 'a) handler" where
  "wret x s = (Ret x, s)"

definition wbind :: "('s, 'a) handler \<Rightarrow> ('a \<Rightarrow> ('s, 'b) handler) \<Rightarrow> ('s, 'b) handler" where
  "wbind m f s =
     (case m s of
        (Ret x, s') \<Rightarrow> f x s'
      | (Panic e, s') \<Rightarrow> (Panic e, s')
      | (Hang, s') \<Rightarrow> (Hang, s'))"

definition wmodify :: "('s \<Rightarrow> 's) \<Rightarrow> ('s, unit) handler" where
  "wmodify f s = (Ret (), f s)"

definition wpanic :: "string \<Rightarrow> ('s, 'a) handler" where
  "wpanic m s = (Panic m, s)"

lemma wbind_wret [simp]: "wbind (wret x) f = f x"
  by (simp add: fun_eq_iff wbind_def wret_def)

lemma wbind_wmodify [simp]: "wbind (wmodify g) f s = f () (g s)"
  by (simp add: wbind_def wmodify_def)

lemma wbind_wpanic [simp]: "wbind (wpanic m) f = wpanic m"
  by (simp add: fun_eq_iff wbind_def wpanic_def)

lemma wbind_Ret: "m s = (Ret x, s') \<Longrightarrow> wbind m f s = f x s'"
  by (simp add: wbind_def)

lemma wbind_assoc: "wbind (wbind m f) g = wbind m (\<lambda>x. wbind (f x) g)"
  by (auto simp: fun_eq_iff wbind_def split: prod.split outcome.split)

text \<open>A property of the state that each step keeps is kept by the sequence.\<close>

lemma wbind_preserves:
  assumes "P (snd (m s))" "\<And>x s'. m s = (Ret x, s') \<Longrightarrow> P s' \<Longrightarrow> P (snd (f x s'))"
  shows "P (snd (wbind m f s))"
  using assms by (cases "m s"; cases "fst (m s)") (auto simp: wbind_def)

text \<open>
  A frame: a reflexive and transitive relation between the states before and after a step. Steps
  that respect it compose.
\<close>

definition keeps :: "('s \<Rightarrow> 's \<Rightarrow> bool) \<Rightarrow> ('s, 'a) handler \<Rightarrow> bool" where
  "keeps R m \<longleftrightarrow> (\<forall>s. R s (snd (m s)))"

lemma keepsI: "(\<And>s. R s (snd (m s))) \<Longrightarrow> keeps R m"
  by (simp add: keeps_def)

lemma keepsD: "keeps R m \<Longrightarrow> R s (snd (m s))"
  by (simp add: keeps_def)

lemma keeps_Ret: "keeps R m \<Longrightarrow> m s = (r, s') \<Longrightarrow> R s s'"
  by (metis keepsD snd_conv)

locale frame =
  fixes R :: "'s \<Rightarrow> 's \<Rightarrow> bool"
  assumes frame_refl: "R s s"
    and frame_trans: "R a b \<Longrightarrow> R b c \<Longrightarrow> R a c"
begin

lemma keeps_wret: "keeps R (wret x)"
  by (simp add: keeps_def wret_def frame_refl)

lemma keeps_wpanic: "keeps R (wpanic m)"
  by (simp add: keeps_def wpanic_def frame_refl)

lemma keeps_wmodify: "(\<And>s. R s (f s)) \<Longrightarrow> keeps R (wmodify f)"
  by (simp add: keeps_def wmodify_def)

lemma keeps_wbind:
  assumes "keeps R m" "\<And>x. keeps R (f x)"
  shows "keeps R (wbind m f)"
  unfolding keeps_def
proof
  fix s
  obtain r s1 where m: "m s = (r, s1)" by (cases "m s")
  have s1: "R s s1" using assms(1) m by (metis keeps_def snd_conv)
  have "R s1 (snd (f x s1))" for x using assms(2) by (simp add: keeps_def)
  then show "R s (snd (wbind m f s))" using s1 frame_trans [OF s1] by (cases r) (simp_all add: wbind_def m)
qed

end

text \<open>A step that, from a state of the invariant, does not panic and stays in the invariant.\<close>

definition safe :: "('s \<Rightarrow> bool) \<Rightarrow> ('s, 'a) handler \<Rightarrow> bool" where
  "safe I m \<longleftrightarrow> (\<forall>s. I s \<longrightarrow> I (snd (m s)) \<and> (\<forall>e. fst (m s) \<noteq> Panic e))"

lemma safeI: "(\<And>s. I s \<Longrightarrow> I (snd (m s)) \<and> (\<forall>e. fst (m s) \<noteq> Panic e)) \<Longrightarrow> safe I m"
  by (simp add: safe_def)

lemma safeD: "safe I m \<Longrightarrow> I s \<Longrightarrow> I (snd (m s)) \<and> (\<forall>e. fst (m s) \<noteq> Panic e)"
  by (simp add: safe_def)

lemma safe_wbind:
  assumes "safe I m" "\<And>x. safe I (f x)"
  shows "safe I (wbind m f)"
proof (rule safeI)
  fix s assume "I s"
  with assms(1) have "I (snd (m s)) \<and> (\<forall>e. fst (m s) \<noteq> Panic e)" by (rule safeD)
  then show "I (snd (wbind m f s)) \<and> (\<forall>e. fst (wbind m f s) \<noteq> Panic e)"
    using safeD [OF assms(2)] by (cases "m s"; cases "fst (m s)") (auto simp: wbind_def)
qed

lemma safe_wret: "safe I (wret x)"
  by (simp add: safe_def wret_def)

lemma safe_wmodify: "(\<And>s. I s \<Longrightarrow> I (f s)) \<Longrightarrow> safe I (wmodify f)"
  by (simp add: safe_def wmodify_def)

text \<open>A step that always comes back, with a value or a panic.\<close>

definition halts :: "('s, 'a) handler \<Rightarrow> bool" where
  "halts m \<longleftrightarrow> (\<forall>s. fst (m s) \<noteq> Hang)"

named_theorems halting "steps that come back"

lemma haltsI: "(\<And>s. fst (m s) \<noteq> Hang) \<Longrightarrow> halts m"
  by (simp add: halts_def)

lemma haltsD: "halts m \<Longrightarrow> fst (m s) \<noteq> Hang"
  by (simp add: halts_def)

lemma halts_basic [halting]: "halts (wret x)" "halts (wpanic e)" "halts (wmodify g)"
  by (simp_all add: halts_def wret_def wpanic_def wmodify_def)

lemma halts_wbind [halting]:
  assumes "halts m" "\<And>x. halts (f x)"
  shows "halts (wbind m f)"
proof (rule haltsI)
  fix s show "fst (wbind m f s) \<noteq> Hang"
    using haltsD [OF assms(1), of s] haltsD [OF assms(2)] by (cases "m s"; cases "fst (m s)") (auto simp: wbind_def)
qed

lemma halts_safe_Ret: "halts m \<Longrightarrow> safe I m \<Longrightarrow> I s \<Longrightarrow> \<exists>x s'. m s = (Ret x, s') \<and> I s'"
  using haltsD [of m s] safeD [of I m s] by (cases "m s"; cases "fst (m s)") auto

lemma wbind_RetD: "wbind m f s = (Ret y, s') \<Longrightarrow> \<exists>x s1. m s = (Ret x, s1) \<and> f x s1 = (Ret y, s')"
  by (auto simp: wbind_def split: prod.splits outcome.splits)

lemma out_bind_eq_Ret [simp]: "out_bind m f = Ret y \<longleftrightarrow> (\<exists>x. m = Ret x \<and> f x = Ret y)"
  by (cases m) auto

subsection \<open>Words\<close>

lemma unat_drop_bit_div: "unat (drop_bit n w) = unat w div 2 ^ n"
  by (subst unat_drop_bit_eq) (simp only: drop_bit_eq_div)

lemma unat_take_bit_mod: "unat (take_bit n w) = unat w mod 2 ^ n"
  by (subst unsigned_take_bit_eq) (simp only: take_bit_eq_mod)

subsection \<open>Lists, options and maps\<close>

lemma fold_invariant_list:
  assumes "P s" and "\<And>x s. x \<in> set xs \<Longrightarrow> P s \<Longrightarrow> P (f x s)"
  shows "P (fold f xs s)"
  using assms by (induction xs arbitrary: s) auto

lemma dom_map_restrict_filter: "dom (\<lambda>k. if P k then m k else None) = {k \<in> dom m. P k}"
  by (auto split: if_splits)

lemma map_drop_key [simp]: "(m(k := None)) k' = (if k' = k then None else m k')"
  by simp

lemma ran_upd_subset: "ran (m(k \<mapsto> v)) \<subseteq> insert v (ran m)"
  by (auto simp: ran_def split: if_splits)

lemma ran_drop_subset: "ran (m(k := None)) \<subseteq> ran m"
  by (auto simp: ran_def)

lemma sum_list_map_const: "sum_list (map (\<lambda>_. c) xs) = (of_nat (length xs) :: 'a::comm_semiring_1) * c"
  by (induction xs) (auto simp: algebra_simps)

end
