(* ===== verification/Go_Bytes.thy ===== *)
theory Go_Bytes
  imports Prelude
begin

text \<open>
  Byte order (\<open>encoding/binary\<close>), hexadecimal text (\<open>encoding/hex\<close>) and number formatting and
  parsing (\<open>fmt\<close>, \<open>strconv\<close>) as the bridge uses them, with the round trips the component
  theories rely on. The fixed-width codecs are stated once as the locale \<open>byte_codec\<close>.
\<close>

subsection \<open>Byte order\<close>

primrec put_le :: "nat \<Rightarrow> nat \<Rightarrow> bytes" where
  "put_le 0 v = []"
| "put_le (Suc k) v = word_of_nat v # put_le k (v div 256)"

primrec get_le :: "bytes \<Rightarrow> nat" where
  "get_le [] = 0"
| "get_le (b # bs) = unat b + 256 * get_le bs"

text \<open>
  \<open>PutUint64\<close> writes into a buffer that the callers allocate with room enough: the model
  returns the bytes. \<open>Uint64\<close> reads the first eight bytes and panics on a shorter slice.
\<close>

definition le64 :: "64 word \<Rightarrow> bytes" where
  "le64 v = put_le 8 (unat v)"

definition be64 :: "64 word \<Rightarrow> bytes" where
  "be64 v = rev (put_le 8 (unat v))"

definition le32 :: "32 word \<Rightarrow> bytes" where
  "le32 v = put_le 4 (unat v)"

definition le16 :: "16 word \<Rightarrow> bytes" where
  "le16 v = put_le 2 (unat v)"

definition le_uint64 :: "bytes \<Rightarrow> 64 word option" where
  "le_uint64 bs = (if length bs < 8 then None else Some (word_of_nat (get_le (take 8 bs))))"

definition be_uint64 :: "bytes \<Rightarrow> 64 word option" where
  "be_uint64 bs = (if length bs < 8 then None else Some (word_of_nat (get_le (rev (take 8 bs)))))"

definition le_uint16 :: "bytes \<Rightarrow> 16 word option" where
  "le_uint16 bs = (if length bs < 2 then None else Some (word_of_nat (get_le (take 2 bs))))"

subsection \<open>Hexadecimal text\<close>

definition hex_val :: "char \<Rightarrow> nat option" where
  "hex_val c =
     (let n = of_char c :: nat
      in if 48 \<le> n \<and> n \<le> 57 then Some (n - 48)
         else if 97 \<le> n \<and> n \<le> 102 then Some (n - 87)
         else if 65 \<le> n \<and> n \<le> 70 then Some (n - 55)
         else None)"

text \<open>
  \<open>hex.DecodeString\<close>: the bytes decoded before the first error, and whether there was none.
\<close>

fun hex_decode :: "string \<Rightarrow> bytes \<times> bool" where
  "hex_decode [] = ([], True)"
| "hex_decode [c] = ([], False)"
| "hex_decode (p # q # r) =
     (case (hex_val p, hex_val q) of
        (Some a, Some b) \<Rightarrow> (let (bs, ok) = hex_decode r in (word_of_nat (16 * a + b) # bs, ok))
      | _ \<Rightarrow> ([], False))"

definition hex_char :: "nat \<Rightarrow> char" where
  "hex_char d = (if d < 10 then char_of (48 + d) else char_of (87 + d))"

definition hex_byte :: "byte \<Rightarrow> string" where
  "hex_byte b = [hex_char (unat b div 16), hex_char (unat b mod 16)]"

definition hex_encode :: "bytes \<Rightarrow> string" where
  "hex_encode bs = concat (map hex_byte bs)"

subsection \<open>Formatting and parsing numbers\<close>

fun hex_str :: "nat \<Rightarrow> string" where
  "hex_str n = (if n < 16 then [hex_char n] else hex_str (n div 16) @ [hex_char (n mod 16)])"

fun dec_str :: "nat \<Rightarrow> string" where
  "dec_str n = (if n < 10 then [hex_char n] else dec_str (n div 10) @ [hex_char (n mod 10)])"

declare hex_str.simps [simp del] dec_str.simps [simp del]

text \<open>\<open>%d\<close> of a signed number, \<open>%0wx\<close> of a nonnegative one.\<close>

definition int_str :: "int \<Rightarrow> string" where
  "int_str i = (if i < 0 then CHR ''-'' # dec_str (nat (- i)) else dec_str (nat i))"

definition hex_pad :: "nat \<Rightarrow> nat \<Rightarrow> string" where
  "hex_pad w n = replicate (w - length (hex_str n)) (CHR ''0'') @ hex_str n"

text \<open>Digits of \<open>strconv\<close>: letters of either case count as digits above nine.\<close>

definition digit_val :: "char \<Rightarrow> nat option" where
  "digit_val c =
     (let n = of_char c :: nat
      in if 48 \<le> n \<and> n \<le> 57 then Some (n - 48)
         else if 97 \<le> n \<and> n \<le> 122 then Some (n - 87)
         else if 65 \<le> n \<and> n \<le> 90 then Some (n - 55)
         else None)"

fun parse_digits :: "nat \<Rightarrow> nat \<Rightarrow> string \<Rightarrow> nat option" where
  "parse_digits base acc [] = Some acc"
| "parse_digits base acc (c # cs) =
     (case digit_val c of
        None \<Rightarrow> None
      | Some d \<Rightarrow> if d < base then parse_digits base (base * acc + d) cs else None)"

text \<open>\<open>strconv.ParseUint(s, base, 64)\<close>: None for a syntax or a range error.\<close>

definition ParseUint :: "string \<Rightarrow> nat \<Rightarrow> 64 word option" where
  "ParseUint s base =
     (if s = [] then None
      else case parse_digits base 0 s of
             None \<Rightarrow> None
           | Some n \<Rightarrow> if n < 2 ^ 64 then Some (word_of_nat n) else None)"

text \<open>\<open>strconv.ParseInt(s, 10, 0)\<close> and \<open>strconv.Atoi\<close>, with 64-bit \<open>int\<close>.\<close>

definition ParseInt10 :: "string \<Rightarrow> int option" where
  "ParseInt10 s =
     (case s of
        [] \<Rightarrow> None
      | c # cs \<Rightarrow>
          let neg = (c = CHR ''-''); ds = (if c = CHR ''+'' \<or> c = CHR ''-'' then cs else s)
          in if ds = [] then None
             else case parse_digits 10 0 ds of
                    None \<Rightarrow> None
                  | Some n \<Rightarrow>
                      if neg then (if n \<le> 2 ^ 63 then Some (- int n) else None)
                      else (if n < 2 ^ 63 then Some (int n) else None))"

subsection \<open>Fixed-width codecs\<close>

lemma length_put_le [simp]: "length (put_le k v) = k"
  by (induction k arbitrary: v) auto

lemma get_put_le: "get_le (put_le k v) = v mod 256 ^ k"
proof (induction k arbitrary: v)
  case (Suc k)
  have "v mod 256 ^ Suc k = v mod 256 + 256 * (v div 256 mod 256 ^ k)"
    by (simp add: mod_mult2_eq)
  then show ?case using Suc.IH by (simp add: unat_of_nat)
qed simp

lemma unat_byte_less [simp]: "unat (b :: byte) < 256"
  using unsigned_less [of b] by simp

lemma get_le_bound: "get_le bs < 256 ^ length bs"
proof (induction bs)
  case (Cons b bs)
  have "unat b + 256 * get_le bs < 256 * 256 ^ length bs" using unat_byte_less [of b] Cons by linarith
  then show ?case by simp
qed simp

lemma put_get_le: "put_le (length bs) (get_le bs) = bs"
proof (induction bs)
  case (Cons b bs)
  have "(unat b + 256 * get_le bs) div 256 = get_le bs" by simp
  moreover have "word_of_nat (256 * get_le bs) = (0 :: byte)"
    by (subst word_of_nat_eq_0_iff) simp
  then have "word_of_nat (unat b + 256 * get_le bs) = b" by (simp only: of_nat_add) simp
  ultimately show ?case using Cons.IH by simp
qed simp

text \<open>
  A fixed-width codec: every encoding has the same width, decoding reads it back from the front
  of a longer slice, and decoding fails exactly on slices that are too short.
\<close>

locale byte_codec =
  fixes enc :: "'a \<Rightarrow> bytes" and dec :: "bytes \<Rightarrow> 'a option" and width :: nat
  assumes enc_width: "length (enc x) = width"
    and dec_enc: "dec (enc x @ rest) = Some x"
    and enc_dec: "dec bs = Some x \<Longrightarrow> enc x = take width bs"
    and dec_short: "dec bs = None \<longleftrightarrow> length bs < width"
begin

lemma enc_append_inject: "enc x @ r = enc y @ s \<longleftrightarrow> x = y \<and> r = s"
  by (metis dec_enc enc_width append_eq_append_conv option.inject)

lemma enc_inject: "enc x = enc y \<longleftrightarrow> x = y"
  using enc_append_inject [of x "[]" y "[]"] by simp

lemma dec_exact: "length bs = width \<Longrightarrow> \<exists>x. dec bs = Some x \<and> enc x = bs"
  by (cases "dec bs") (use dec_short [of bs] enc_dec [of bs] in auto)

end

lemma put_le_codec:
  assumes "2 ^ LENGTH('w::len) = (256 :: nat) ^ k"
  shows "byte_codec (\<lambda>v :: 'w word. put_le k (unat v))
    (\<lambda>bs. if length bs < k then None else Some (word_of_nat (get_le (take k bs)))) k"
proof unfold_locales
  fix v :: "'w word" and bs :: bytes
  show "length (put_le k (unat v)) = k" by simp
  show "(if length (put_le k (unat v) @ bs) < k then None
    else Some (word_of_nat (get_le (take k (put_le k (unat v) @ bs))))) = Some v"
  proof -
    have "unat v mod 256 ^ k = unat v" using assms unsigned_less [of v] by (metis mod_less)
    then show ?thesis by (simp add: get_put_le)
  qed
  show "put_le k (unat v) = take k bs"
    if "(if length bs < k then None else Some (word_of_nat (get_le (take k bs)))) = Some v"
  proof -
    from that have k: "k \<le> length bs" and v: "v = word_of_nat (get_le (take k bs))"
      by (auto split: if_splits)
    have "get_le (take k bs) < 256 ^ k"
      using get_put_le [of k "get_le (take k bs)"] put_get_le [of "take k bs"] k
      by (metis length_take min.absorb2 mod_less_divisor zero_less_numeral zero_less_power)
    then have "unat v = get_le (take k bs)" using assms by (simp add: v unat_of_nat take_bit_eq_mod)
    then show ?thesis using put_get_le [of "take k bs"] k by simp
  qed
  show "((if length bs < k then None else Some (word_of_nat (get_le (take k bs)) :: 'w word)) = None)
    = (length bs < k)" by simp
qed

interpretation le64c: byte_codec le64 le_uint64 8
  using put_le_codec [where 'w = 64 and k = 8] by (simp add: le64_def [abs_def] le_uint64_def [abs_def])

interpretation le16c: byte_codec le16 le_uint16 2
  using put_le_codec [where 'w = 16 and k = 2] by (simp add: le16_def [abs_def] le_uint16_def [abs_def])

interpretation be64c: byte_codec be64 be_uint64 8
proof unfold_locales
  have le: "be64 x = rev (le64 x)" "be_uint64 bs = le_uint64 (rev (take 8 bs))" for x bs
    by (simp_all add: be64_def le64_def be_uint64_def le_uint64_def)
  fix x bs
  show "length (be64 x) = 8" by (simp add: le le64c.enc_width)
  show "be_uint64 (be64 x @ bs) = Some x"
    using le64c.dec_enc [of x "[]"] by (simp add: le le64c.enc_width)
  show "be64 x = take 8 bs" if "be_uint64 bs = Some x"
  proof -
    from that have "le64 x = take 8 (rev (take 8 bs))" by (simp add: le le64c.enc_dec)
    then show ?thesis by (simp add: le)
  qed
  show "(be_uint64 bs = None) = (length bs < 8)" by (simp add: be_uint64_def)
qed


subsection \<open>Round trips of hexadecimal text\<close>

lemma of_char_char_of_nat: "n < 256 \<Longrightarrow> (of_char (char_of n) :: nat) = n"
  by (simp add: of_char_of)

lemma hex_val_hex_char [simp]: "d < 16 \<Longrightarrow> hex_val (hex_char d) = Some d"
  by (auto simp: hex_val_def hex_char_def of_char_char_of_nat Let_def)

lemma digit_val_hex_char [simp]: "d < 16 \<Longrightarrow> digit_val (hex_char d) = Some d"
  by (auto simp: digit_val_def hex_char_def of_char_char_of_nat Let_def)

lemma hex_decode_encode: "hex_decode (hex_encode bs) = (bs, True)"
proof (induction bs)
  case (Cons b bs)
  have "16 * (unat b div 16) + unat b mod 16 = unat b" by simp
  moreover have "unat b div 16 < 16" using less_mult_imp_div_less [of "unat b" 16 16] by simp
  ultimately show ?case using Cons.IH by (simp add: hex_encode_def hex_byte_def del: unat_byte_less)
qed (simp add: hex_encode_def)

lemma length_hex_encode [simp]: "length (hex_encode bs) = 2 * length bs"
  by (induction bs) (auto simp: hex_encode_def hex_byte_def)

lemma parse_digits_append:
  "parse_digits base acc (xs @ ys) = Option.bind (parse_digits base acc xs) (\<lambda>a. parse_digits base a ys)"
  by (induction xs arbitrary: acc) (auto split: option.splits)

lemma parse_hex_str: "parse_digits 16 0 (hex_str n) = Some n"
proof (induction n rule: hex_str.induct)
  case (1 n)
  show ?case
  proof (cases "n < 16")
    case False
    with 1 have "parse_digits 16 0 (hex_str (n div 16)) = Some (n div 16)" by simp
    with False show ?thesis
      by (subst hex_str.simps) (simp add: parse_digits_append)
  qed (simp add: hex_str.simps [of n])
qed

lemma parse_dec_str: "parse_digits 10 0 (dec_str n) = Some n"
proof (induction n rule: dec_str.induct)
  case (1 n)
  show ?case
  proof (cases "n < 10")
    case False
    with 1 have "parse_digits 10 0 (dec_str (n div 10)) = Some (n div 10)" by simp
    with False show ?thesis
      by (subst dec_str.simps) (simp add: parse_digits_append)
  qed (simp add: dec_str.simps [of n])
qed

lemma dec_str_hd: "\<exists>d ds. dec_str n = hex_char d # ds \<and> d < 10"
proof (induction n rule: dec_str.induct)
  case (1 n)
  show ?case
  proof (cases "n < 10")
    case False
    with 1 obtain d ds where "dec_str (n div 10) = hex_char d # ds" "d < 10" by auto
    with False show ?thesis by (subst dec_str.simps) auto
  qed (auto simp: dec_str.simps [of n])
qed

lemma hex_char_sign:
  assumes "d < 10"
  shows "hex_char d \<noteq> CHR ''+'' \<and> hex_char d \<noteq> CHR ''-''"
proof -
  have "(of_char (hex_char d) :: nat) = 48 + d"
    using assms by (simp add: hex_char_def of_char_char_of_nat)
  then have "(of_char (hex_char d) :: nat) \<noteq> of_char (CHR ''+'')"
    "(of_char (hex_char d) :: nat) \<noteq> of_char (CHR ''-'')" by simp_all
  then show ?thesis by metis
qed

text \<open>A job id printed with \<open>%d\<close> is read back by \<open>strconv.ParseInt\<close>.\<close>

lemma ParseInt10_int_str:
  assumes "- (2 ^ 63) \<le> i" "i < 2 ^ 63"
  shows "ParseInt10 (int_str i) = Some i"
proof -
  obtain d ds where d: "dec_str (nat \<bar>i\<bar>) = hex_char d # ds" "d < 10" using dec_str_hd by metis
  have "parse_digits 10 0 (hex_char d # ds) = Some (nat \<bar>i\<bar>)"
    using parse_dec_str [of "nat \<bar>i\<bar>"] d by simp
  then show ?thesis using d assms hex_char_sign [OF d(2)]
    by (auto simp: ParseInt10_def int_str_def Let_def nat_le_iff nat_less_iff)
qed

text \<open>Padded hexadecimal of a value that fits its width.\<close>

lemma length_hex_str: "n < 16 ^ w \<Longrightarrow> 0 < w \<Longrightarrow> length (hex_str n) \<le> w"
proof (induction n arbitrary: w rule: hex_str.induct)
  case (1 n)
  show ?case
  proof (cases "n < 16")
    case False
    then have w: "1 < w" using "1.prems" by (cases "w = 1") auto
    then have "n div 16 < 16 ^ (w - 1)"
      using "1.prems"(1) by (cases w) (auto simp: less_mult_imp_div_less mult.commute)
    with 1 False w have "length (hex_str (n div 16)) \<le> w - 1" by simp
    with False w show ?thesis by (subst hex_str.simps) simp
  qed (use "1.prems" in \<open>simp add: hex_str.simps [of n]\<close>)
qed

lemma length_hex_pad: "n < 16 ^ w \<Longrightarrow> 0 < w \<Longrightarrow> length (hex_pad w n) = w"
  using length_hex_str [of n w] by (simp add: hex_pad_def)

end
