(* ===== verification/Bridge_Fee.thy ===== *)
theory Bridge_Fee
  imports Go_Bytes
begin

text \<open>
  \<open>src/bridgefee/bridgefee.go\<close>: the decision whether a block template is requested for the
  bridge's own address. The decision is a keyed hash of the job key, reduced to one of 10000
  buckets; the standard library's SHA-256 and HMAC are written out so that the decision is
  computable.
\<close>

unbundle bit_operations_syntax

subsection \<open>SHA-256\<close>

text \<open>The round constants and the initial state of FIPS 180-4, in decimal.\<close>

definition sha_k :: "32 word list" where
  "sha_k =
     [1116352408, 1899447441, 3049323471, 3921009573, 961987163, 1508970993, 2453635748,
      2870763221, 3624381080, 310598401, 607225278, 1426881987, 1925078388, 2162078206,
      2614888103, 3248222580, 3835390401, 4022224774, 264347078, 604807628, 770255983,
      1249150122, 1555081692, 1996064986, 2554220882, 2821834349, 2952996808, 3210313671,
      3336571891, 3584528711, 113926993, 338241895, 666307205, 773529912, 1294757372,
      1396182291, 1695183700, 1986661051, 2177026350, 2456956037, 2730485921, 2820302411,
      3259730800, 3345764771, 3516065817, 3600352804, 4094571909, 275423344, 430227734,
      506948616, 659060556, 883997877, 958139571, 1322822218, 1537002063, 1747873779,
      1955562222, 2024104815, 2227730452, 2361852424, 2428436474, 2756734187, 3204031479,
      3329325298]"

type_synonym sha_state = "32 word \<times> 32 word \<times> 32 word \<times> 32 word \<times> 32 word \<times> 32 word \<times> 32 word \<times> 32 word"

definition sha_init :: sha_state where
  "sha_init =
     (1779033703, 3144134277, 1013904242, 2773480762,
      1359893119, 2600822924, 528734635, 1541459225)"

definition rotr :: "nat \<Rightarrow> 32 word \<Rightarrow> 32 word" where
  "rotr n w = (drop_bit n w OR push_bit (32 - n) w)"

definition sha_sig0 :: "32 word \<Rightarrow> 32 word" where
  "sha_sig0 w = (rotr 7 w XOR rotr 18 w XOR drop_bit 3 w)"

definition sha_sig1 :: "32 word \<Rightarrow> 32 word" where
  "sha_sig1 w = (rotr 17 w XOR rotr 19 w XOR drop_bit 10 w)"

text \<open>The message schedule, sixteen words at a time: \<open>win\<close> is the window of the last sixteen.\<close>

fun sha_schedule :: "nat \<Rightarrow> 32 word list \<Rightarrow> 32 word list" where
  "sha_schedule 0 win = win"
| "sha_schedule (Suc n) win =
     hd win # sha_schedule n (tl win @ [sha_sig1 (win ! 14) + win ! 9 + sha_sig0 (win ! 1) + win ! 0])"

fun sha_round :: "32 word \<times> 32 word \<Rightarrow> sha_state \<Rightarrow> sha_state" where
  "sha_round (k, w) (a, b, c, d, e, f, g, h) =
     (let t1 = h + (rotr 6 e XOR rotr 11 e XOR rotr 25 e) + ((e AND f) XOR (NOT e AND g)) + k + w;
          t2 = (rotr 2 a XOR rotr 13 a XOR rotr 22 a) + ((a AND b) XOR (a AND c) XOR (b AND c))
      in (t1 + t2, a, b, c, d + t1, e, f, g))"

fun sha_add :: "sha_state \<Rightarrow> sha_state \<Rightarrow> sha_state" where
  "sha_add (a, b, c, d, e, f, g, h) (a', b', c', d', e', f', g', h') =
     (a + a', b + b', c + c', d + d', e + e', f + f', g + g', h + h')"

definition be_word32 :: "bytes \<Rightarrow> 32 word" where
  "be_word32 bs = word_of_nat (get_le (rev bs))"

definition be32 :: "32 word \<Rightarrow> bytes" where
  "be32 w = rev (put_le 4 (unat w))"

function chunks :: "nat \<Rightarrow> 'a list \<Rightarrow> 'a list list" where
  "chunks n xs = (if n = 0 \<or> xs = [] then [] else take n xs # chunks n (drop n xs))"
  by pat_completeness auto
termination by (relation "measure (\<lambda>(n, xs). length xs)") auto

declare chunks.simps [simp del]

definition sha_block :: "sha_state \<Rightarrow> bytes \<Rightarrow> sha_state" where
  "sha_block st blk =
     sha_add st (fold sha_round (zip sha_k (sha_schedule 48 (map be_word32 (chunks 4 blk)))) st)"

definition sha_pad :: "bytes \<Rightarrow> bytes" where
  "sha_pad m = m @ [0x80] @ replicate ((119 - length m mod 64) mod 64) 0 @ be64 (word_of_nat (8 * length m))"

fun sha_out :: "sha_state \<Rightarrow> bytes" where
  "sha_out (a, b, c, d, e, f, g, h) = concat (map be32 [a, b, c, d, e, f, g, h])"

definition sha256 :: "bytes \<Rightarrow> bytes" where
  "sha256 m = sha_out (foldl sha_block sha_init (chunks 64 (sha_pad m)))"

definition hmac_sha256 :: "bytes \<Rightarrow> bytes \<Rightarrow> bytes" where
  "hmac_sha256 key m =
     (let k0 = (if 64 < length key then sha256 key else key);
          k = k0 @ replicate (64 - length k0) 0
      in sha256 (map (\<lambda>b. b XOR 0x5c) k @ sha256 (map (\<lambda>b. b XOR 0x36) k @ m)))"

subsection \<open>The fee decision\<close>

definition ShouldReplaceGBT :: "string \<Rightarrow> int \<Rightarrow> bytes \<Rightarrow> bool" where
  "ShouldReplaceGBT serverSalt ratePpm jobKey =
     (if serverSalt = [] then False
      else if ratePpm \<le> 0 then False
      else if 10000 \<le> ratePpm then True
      else case be_uint64 (take 8 (hmac_sha256 (map of_char serverSalt) jobKey)) of
             None \<Rightarrow> False \<comment> \<open>unreachable: the digest has 32 bytes\<close>
           | Some value \<Rightarrow> value mod 10000 < word_of_int ratePpm)"

text \<open>The bucket of a job key: the reference for the decision.\<close>

definition fee_bucket :: "string \<Rightarrow> bytes \<Rightarrow> nat" where
  "fee_bucket salt key = get_le (rev (take 8 (hmac_sha256 (map of_char salt) key))) mod 10000"

subsection \<open>Laws\<close>

lemma length_be32 [simp]: "length (be32 w) = 4"
  by (simp add: be32_def)

lemma length_sha_out [simp]: "length (sha_out st) = 32"
  by (cases st rule: sha_out.cases) simp

lemma length_sha256 [simp]: "length (sha256 m) = 32"
  by (simp add: sha256_def)

lemma length_hmac [simp]: "length (hmac_sha256 k m) = 32"
  by (simp add: hmac_sha256_def Let_def)

lemma fee_bucket_lt [simp]: "fee_bucket salt key < 10000"
  by (simp add: fee_bucket_def)

lemma fee_value:
  "be_uint64 (take 8 (hmac_sha256 (map of_char salt) key)) =
     Some (word_of_nat (get_le (rev (take 8 (hmac_sha256 (map of_char salt) key)))))"
  by (simp add: be_uint64_def)

lemma bucket_less_iff:
  fixes v :: nat
  assumes "v < 2 ^ 64" "0 < r" "r < 10000"
  shows "(word_of_nat v :: 64 word) mod 10000 < word_of_int r \<longleftrightarrow> int (v mod 10000) < r"
proof -
  have "unat ((word_of_nat v :: 64 word) mod 10000) = v mod 10000"
    using assms(1) by (simp add: unat_mod_distrib unsigned_of_nat take_bit_nat_eq_self)
  moreover have "unat (word_of_int r :: 64 word) = nat r"
    using assms by (simp add: unsigned_of_int take_bit_int_eq_self)
  ultimately show ?thesis using assms(2) by (simp add: word_less_nat_alt nat_less_iff zless_nat_eq_int_zless)
qed

text \<open>
  C21: the fee decision is exactly a threshold on the bucket of the job key: with a salt, a rate
  of \<open>r\<close> out of 10000 diverts the jobs whose bucket, a number below 10000 that does not depend on
  the rate, is smaller than \<open>r\<close>; without a salt nothing is diverted.
\<close>

theorem ShouldReplaceGBT_threshold:
  "ShouldReplaceGBT salt rate key \<longleftrightarrow> salt \<noteq> [] \<and> int (fee_bucket salt key) < rate"
proof -
  let ?v = "get_le (rev (take 8 (hmac_sha256 (map of_char salt) key)))"
  have "?v < 256 ^ 8" using get_le_bound [of "rev (take 8 (hmac_sha256 (map of_char salt) key))"] by simp
  then have "?v < 2 ^ 64" by simp
  then show ?thesis
    using bucket_less_iff [of ?v rate] fee_bucket_lt [of salt key]
    by (auto simp: ShouldReplaceGBT_def fee_value fee_bucket_def simp del: fee_bucket_lt)
qed

end
