(* ===== verification/Go_Float.thy ===== *)
theory Go_Float
  imports Complex_Main "HOL-Library.Log_Nat" Prelude
begin

text \<open>
  Go's \<open>float64\<close> and \<open>math/big.Float\<close>, as far as the bridge uses them. A finite double is
  the rational it denotes; negative zero, the infinities and NaN are separate values. The
  arithmetic operations compute exactly over the rationals and round once, to nearest with ties
  to even, as IEEE 754 prescribes. A \<open>big.Float\<close> of precision \<open>p\<close> rounds to \<open>p\<close> bits
  with an unbounded exponent.
\<close>

subsection \<open>Rounding\<close>

definition round_half_even :: "rat \<Rightarrow> int" where
  "round_half_even x =
     (let f = \<lfloor>x\<rfloor>; d = x - of_int f
      in if d < 1 / 2 then f else if 1 / 2 < d then f + 1 else if even f then f else f + 1)"

definition pow2 :: "int \<Rightarrow> rat" where
  "pow2 k = (if 0 \<le> k then 2 ^ nat k else 1 / 2 ^ nat (- k))"

definition ilog2 :: "rat \<Rightarrow> int" where
  "ilog2 r =
     (let (n, d) = quotient_of r;
          k = int (floorlog 2 (nat n)) - int (floorlog 2 (nat d))
      in if pow2 k \<le> r then k else k - 1)"

text \<open>Rounding to \<open>p\<close> significant bits, exponent unbounded.\<close>

definition bf_round :: "nat \<Rightarrow> rat \<Rightarrow> rat" where
  "bf_round p r =
     (if r = 0 then 0
      else let u = pow2 (ilog2 \<bar>r\<bar> - int p + 1) in of_int (round_half_even (r / u)) * u)"

subsection \<open>Doubles\<close>

datatype f64 = FNaN | FInf bool | FNegZero | Fin rat
  \<comment> \<open>\<open>FInf True\<close> is minus infinity; \<open>Fin 0\<close> is positive zero\<close>

definition f64_zero :: "bool \<Rightarrow> f64" where
  "f64_zero neg = (if neg then FNegZero else Fin 0)"

text \<open>Rounding an exact result to a double: 53 bits, exponents from -1022 to 1023.\<close>

definition f64_round :: "bool \<Rightarrow> rat \<Rightarrow> f64" where
  "f64_round neg r =
     (if r = 0 then f64_zero neg
      else let u = pow2 (max (ilog2 \<bar>r\<bar>) (- 1022) - 52);
               v = of_int (round_half_even (r / u)) * u
           in if v = 0 then f64_zero (r < 0)
              else if pow2 1024 \<le> \<bar>v\<bar> then FInf (r < 0) else Fin v)"

fun f64_rat :: "f64 \<Rightarrow> rat" where
  "f64_rat (Fin r) = r"
| "f64_rat _ = 0"

fun f64_neg :: "f64 \<Rightarrow> bool" where
  "f64_neg FNaN = False"
| "f64_neg (FInf s) = s"
| "f64_neg FNegZero = True"
| "f64_neg (Fin r) = (r < 0)"

fun f64_is_zero :: "f64 \<Rightarrow> bool" where
  "f64_is_zero FNegZero = True"
| "f64_is_zero (Fin r) = (r = 0)"
| "f64_is_zero _ = False"

fun f64_is_nan :: "f64 \<Rightarrow> bool" where
  "f64_is_nan FNaN = True"
| "f64_is_nan _ = False"

fun f64_add :: "f64 \<Rightarrow> f64 \<Rightarrow> f64" where
  "f64_add FNaN y = FNaN"
| "f64_add x FNaN = FNaN"
| "f64_add (FInf s) (FInf t) = (if s = t then FInf s else FNaN)"
| "f64_add (FInf s) y = FInf s"
| "f64_add x (FInf t) = FInf t"
| "f64_add x y = f64_round (f64_neg x \<and> f64_neg y) (f64_rat x + f64_rat y)"

fun f64_minus :: "f64 \<Rightarrow> f64" where
  "f64_minus FNaN = FNaN"
| "f64_minus (FInf s) = FInf (\<not> s)"
| "f64_minus FNegZero = Fin 0"
| "f64_minus (Fin r) = (if r = 0 then FNegZero else Fin (- r))"

definition f64_sub :: "f64 \<Rightarrow> f64 \<Rightarrow> f64" where
  "f64_sub x y = f64_add x (f64_minus y)"

fun f64_mul :: "f64 \<Rightarrow> f64 \<Rightarrow> f64" where
  "f64_mul FNaN y = FNaN"
| "f64_mul x FNaN = FNaN"
| "f64_mul (FInf s) y = (if f64_is_zero y then FNaN else FInf (s \<noteq> f64_neg y))"
| "f64_mul x (FInf t) = (if f64_is_zero x then FNaN else FInf (f64_neg x \<noteq> t))"
| "f64_mul x y = f64_round (f64_neg x \<noteq> f64_neg y) (f64_rat x * f64_rat y)"

fun f64_div :: "f64 \<Rightarrow> f64 \<Rightarrow> f64" where
  "f64_div FNaN y = FNaN"
| "f64_div x FNaN = FNaN"
| "f64_div (FInf s) (FInf t) = FNaN"
| "f64_div (FInf s) y = FInf (s \<noteq> f64_neg y)"
| "f64_div x (FInf t) = f64_zero (f64_neg x \<noteq> t)"
| "f64_div x y =
     (if f64_is_zero y then (if f64_is_zero x then FNaN else FInf (f64_neg x \<noteq> f64_neg y))
      else f64_round (f64_neg x \<noteq> f64_neg y) (f64_rat x / f64_rat y))"

fun f64_abs :: "f64 \<Rightarrow> f64" where
  "f64_abs FNaN = FNaN"
| "f64_abs (FInf s) = FInf False"
| "f64_abs FNegZero = Fin 0"
| "f64_abs (Fin r) = Fin \<bar>r\<bar>"

fun f64_lt :: "f64 \<Rightarrow> f64 \<Rightarrow> bool" where
  "f64_lt FNaN y = False"
| "f64_lt x FNaN = False"
| "f64_lt (FInf s) (FInf t) = (s \<and> \<not> t)"
| "f64_lt (FInf s) y = s"
| "f64_lt x (FInf t) = (\<not> t)"
| "f64_lt x y = (f64_rat x < f64_rat y)"

fun f64_eq :: "f64 \<Rightarrow> f64 \<Rightarrow> bool" where
  "f64_eq FNaN y = False"
| "f64_eq x FNaN = False"
| "f64_eq (FInf s) (FInf t) = (s = t)"
| "f64_eq (FInf s) y = False"
| "f64_eq x (FInf t) = False"
| "f64_eq x y = (f64_rat x = f64_rat y)"

definition f64_le :: "f64 \<Rightarrow> f64 \<Rightarrow> bool" where
  "f64_le x y = (f64_lt x y \<or> f64_eq x y)"

definition f64_of_int :: "int \<Rightarrow> f64" where
  "f64_of_int n = f64_round False (of_int n)"

text \<open>\<open>math.Max\<close>: infinity wins over NaN, NaN over numbers, \<open>+0\<close> over \<open>-0\<close>.\<close>

definition f64_max :: "f64 \<Rightarrow> f64 \<Rightarrow> f64" where
  "f64_max x y =
     (if x = FInf False \<or> y = FInf False then FInf False
      else if f64_is_nan x \<or> f64_is_nan y then FNaN
      else if f64_is_zero x \<and> f64_is_zero y then (if f64_neg x then y else x)
      else if f64_lt y x then x else y)"

subsection \<open>Laws of rounding\<close>

lemma pow2_powi: "pow2 k = 2 powi k"
  by (simp add: pow2_def power_int_def power_inverse field_simps)

lemma pow2_pos [simp]: "0 < pow2 k"
  by (simp add: pow2_def)

lemma pow2_nonneg [simp]: "0 \<le> pow2 k"
  by (simp add: pow2_def)

lemma pow2_nonzero [simp]: "pow2 k \<noteq> 0"
  using pow2_pos [of k] by linarith

lemma pow2_add: "pow2 (a + b) = pow2 a * pow2 b"
  by (simp add: pow2_powi power_int_add)

lemma pow2_mono: "a \<le> b \<Longrightarrow> pow2 a \<le> pow2 b"
  by (simp add: pow2_powi power_int_increasing)

lemma pow2_1 [simp]: "pow2 0 = 1" "pow2 1 = 2"
  by (simp_all add: pow2_def)

lemma pow2_less_cancel: "pow2 a < pow2 b \<Longrightarrow> a < b"
  using pow2_mono [of b a] by linarith

lemma pow2_nat: "pow2 (int n) = 2 ^ n"
  by (simp add: pow2_def)

lemma floorlog2_bounds:
  assumes "0 < (n::int)"
  shows "pow2 (int (floorlog 2 (nat n)) - 1) \<le> of_int n" "of_int n < pow2 (int (floorlog 2 (nat n)))"
proof -
  have b: "2 ^ (floorlog 2 (nat n) - 1) \<le> nat n \<and> nat n < 2 ^ floorlog 2 (nat n)"
    using assms by (intro floorlog_bounds) auto
  have p: "0 < floorlog 2 (nat n)"
    using assms by (simp add: floorlog_def)
  have "int (floorlog 2 (nat n)) - 1 = int (floorlog 2 (nat n) - 1)" using p by simp
  then have "pow2 (int (floorlog 2 (nat n)) - 1) = 2 ^ (floorlog 2 (nat n) - 1)"
    by (simp only: pow2_nat)
  also have "\<dots> = of_nat (2 ^ (floorlog 2 (nat n) - 1))" by simp
  also have "\<dots> \<le> of_nat (nat n)" using b of_nat_le_iff by blast
  also have "\<dots> = of_int n" using assms by simp
  finally show "pow2 (int (floorlog 2 (nat n)) - 1) \<le> of_int n" .
  have "rat_of_int n = of_nat (nat n)" using assms by simp
  also have "\<dots> < of_nat (2 ^ floorlog 2 (nat n))" using b of_nat_less_iff by blast
  also have "\<dots> = pow2 (int (floorlog 2 (nat n)))" by (simp add: pow2_nat)
  finally show "of_int n < pow2 (int (floorlog 2 (nat n)))" .
qed

lemma ilog2_bounds:
  assumes "0 < r"
  shows "pow2 (ilog2 r) \<le> r" "r < pow2 (ilog2 r + 1)"
proof -
  obtain n d where q: "quotient_of r = (n, d)" by (cases "quotient_of r")
  have d: "0 < d" using q by (rule quotient_of_denom_pos)
  have r: "r = of_int n / of_int d" using q by (rule quotient_of_div)
  have n: "0 < n" using assms d unfolding r by (simp add: zero_less_divide_iff)
  define a b where "a = int (floorlog 2 (nat n))" and "b = int (floorlog 2 (nat d))"
  have k: "ilog2 r = (if pow2 (a - b) \<le> r then a - b else a - b - 1)"
    by (simp add: ilog2_def q a_def b_def Let_def)
  have lo: "pow2 (a - 1) \<le> of_int n" and hi: "of_int n < pow2 a"
    using floorlog2_bounds [OF n] by (simp_all add: a_def)
  have dlo: "pow2 (b - 1) \<le> of_int d" and dhi: "of_int d < pow2 b"
    using floorlog2_bounds [OF d] by (simp_all add: b_def)
  have "pow2 (a - b - 1) * of_int d \<le> pow2 (a - b - 1) * pow2 b"
    using dhi by (intro mult_left_mono) auto
  also have "\<dots> = pow2 (a - 1)" by (simp add: pow2_add [symmetric])
  also have "\<dots> \<le> of_int n" by (rule lo)
  finally have 1: "pow2 (a - b - 1) \<le> r" using d by (simp add: r pos_le_divide_eq)
  have "of_int n < pow2 a" by (rule hi)
  also have "\<dots> = pow2 (a - b + 1) * pow2 (b - 1)" by (simp add: pow2_add [symmetric])
  also have "\<dots> \<le> pow2 (a - b + 1) * of_int d"
    using dlo by (intro mult_left_mono) auto
  finally have 2: "r < pow2 (a - b + 1)" using d by (simp add: r pos_divide_less_eq)
  show "pow2 (ilog2 r) \<le> r" using 1 by (simp add: k)
  show "r < pow2 (ilog2 r + 1)" using 2 by (auto simp: k)
qed

lemma ilog2_unique:
  assumes "pow2 k \<le> r" "r < pow2 (k + 1)"
  shows "ilog2 r = k"
proof -
  have "0 < r" using assms(1) pow2_pos [of k] by linarith
  from ilog2_bounds [OF this] assms have "pow2 (ilog2 r) < pow2 (k + 1)" "pow2 k < pow2 (ilog2 r + 1)"
    by linarith+
  from this [THEN pow2_less_cancel] show ?thesis by simp
qed

lemma ilog2_mono: "0 < x \<Longrightarrow> x \<le> y \<Longrightarrow> ilog2 x \<le> ilog2 y"
  using ilog2_bounds [of x] ilog2_bounds [of y] pow2_less_cancel [of "ilog2 x" "ilog2 y + 1"]
  by fastforce

lemma round_half_even_of_int [simp]: "round_half_even (of_int n) = n"
  by (simp add: round_half_even_def)

lemma round_half_even_error: "\<bar>of_int (round_half_even x) - x\<bar> \<le> 1 / 2"
  using floor_correct [of x] by (auto simp: round_half_even_def Let_def)

lemma round_half_even_mono:
  assumes "x \<le> y"
  shows "round_half_even x \<le> round_half_even y"
proof (rule ccontr)
  assume "\<not> ?thesis"
  then have lt: "round_half_even y + 1 \<le> round_half_even x" by simp
  have f: "\<lfloor>x\<rfloor> \<le> \<lfloor>y\<rfloor>" using assms by (rule floor_mono)
  have "round_half_even x \<le> \<lfloor>x\<rfloor> + 1" "\<lfloor>y\<rfloor> \<le> round_half_even y"
    by (auto simp: round_half_even_def Let_def)
  with lt f have e: "\<lfloor>x\<rfloor> = \<lfloor>y\<rfloor>" "round_half_even x = \<lfloor>x\<rfloor> + 1" "round_half_even y = \<lfloor>y\<rfloor>"
    by linarith+
  then show False using assms
    by (auto simp: round_half_even_def Let_def split: if_splits)
qed


lemma bf_round_0 [simp]: "bf_round p 0 = 0"
  by (simp add: bf_round_def)

text \<open>The relative error of rounding to \<open>p\<close> bits is at most \<open>2^-p\<close>.\<close>

lemma bf_round_error:
  assumes "0 < r"
  shows "\<bar>bf_round p r - r\<bar> \<le> r * pow2 (- int p)"
proof -
  define u where "u = pow2 (ilog2 r - int p + 1)"
  have u: "0 < u" by (simp add: u_def)
  have "\<bar>bf_round p r - r\<bar> = \<bar>of_int (round_half_even (r / u)) - r / u\<bar> * u"
  proof -
    have "bf_round p r - r = (of_int (round_half_even (r / u)) - r / u) * u"
      using assms u by (simp add: bf_round_def u_def Let_def algebra_simps)
    then show ?thesis using u by (simp add: abs_mult)
  qed
  also have "\<dots> \<le> 1 / 2 * u"
    using round_half_even_error u by (intro mult_right_mono) auto
  also have "\<dots> = pow2 (ilog2 r) * pow2 (- int p)"
  proof -
    have "u = pow2 (ilog2 r) * pow2 (- int p) * pow2 1"
      by (simp only: u_def pow2_add [symmetric]) (simp add: algebra_simps)
    then show ?thesis by simp
  qed
  also have "\<dots> \<le> r * pow2 (- int p)"
    using ilog2_bounds(1) [OF assms] by (intro mult_right_mono) auto
  finally show ?thesis .
qed

text \<open>A rounded value stays within its binade, up to the next power of two.\<close>

lemma bf_round_binade:
  assumes "0 < r" "0 < p"
  shows "pow2 (ilog2 r) \<le> bf_round p r" "bf_round p r \<le> pow2 (ilog2 r + 1)"
proof -
  define u where "u = pow2 (ilog2 r - int p + 1)"
  have u: "0 < u" by (simp add: u_def)
  have eq: "bf_round p r = of_int (round_half_even (r / u)) * u"
    using assms by (simp add: bf_round_def u_def Let_def)
  have scale: "pow2 (ilog2 r) = of_int (2 ^ (p - 1)) * u" "pow2 (ilog2 r + 1) = of_int (2 ^ p) * u"
  proof -
    have "pow2 (ilog2 r) = pow2 (int (p - 1)) * u"
      using assms(2) by (simp only: u_def pow2_add [symmetric]) (simp add: of_nat_diff)
    then show "pow2 (ilog2 r) = of_int (2 ^ (p - 1)) * u" by (simp add: pow2_nat)
    have "pow2 (ilog2 r + 1) = pow2 (int p) * u"
      by (simp only: u_def pow2_add [symmetric]) simp
    then show "pow2 (ilog2 r + 1) = of_int (2 ^ p) * u" by (simp add: pow2_nat)
  qed
  have "of_int (2 ^ (p - 1)) \<le> r / u" "r / u \<le> of_int (2 ^ p)"
    using ilog2_bounds [OF assms(1)] u unfolding scale by (simp_all add: pos_le_divide_eq pos_divide_le_eq)
  then have "2 ^ (p - 1) \<le> round_half_even (r / u)" "round_half_even (r / u) \<le> 2 ^ p"
    using round_half_even_mono round_half_even_of_int by metis+
  then have "of_int (2 ^ (p - 1)) * u \<le> of_int (round_half_even (r / u)) * u"
    "of_int (round_half_even (r / u)) * u \<le> of_int (2 ^ p) * u"
    using u by (intro mult_right_mono, simp_all only: of_int_le_iff less_imp_le)+
  then show "pow2 (ilog2 r) \<le> bf_round p r" "bf_round p r \<le> pow2 (ilog2 r + 1)"
    unfolding eq scale by simp_all
qed

lemma bf_round_pos: "0 < r \<Longrightarrow> 0 < p \<Longrightarrow> 0 < bf_round p r"
  using bf_round_binade(1) [of r p] pow2_pos [of "ilog2 r"] by linarith

lemma bf_round_mono:
  assumes "0 < x" "x \<le> y" "0 < p"
  shows "bf_round p x \<le> bf_round p y"
proof (cases "ilog2 x = ilog2 y")
  case True
  define u where "u = pow2 (ilog2 y - int p + 1)"
  have u: "0 < u" by (simp add: u_def)
  have "x / u \<le> y / u" using assms u by (simp add: divide_right_mono)
  then have "rat_of_int (round_half_even (x / u)) * u \<le> of_int (round_half_even (y / u)) * u"
    using u by (intro mult_right_mono) (simp_all add: round_half_even_mono)
  then show ?thesis using assms True by (simp add: bf_round_def u_def Let_def)
next
  case False
  then have "ilog2 x + 1 \<le> ilog2 y" using ilog2_mono [of x y] assms by simp
  then have "bf_round p x \<le> pow2 (ilog2 y)"
    using bf_round_binade(2) [of x p] assms pow2_mono order_trans by blast
  also have "\<dots> \<le> bf_round p y" using bf_round_binade(1) [of y p] assms by simp
  finally show ?thesis .
qed

lemma bf_round_pow2: "0 < p \<Longrightarrow> bf_round p (pow2 k) = pow2 k"
proof -
  assume p: "0 < p"
  have i: "ilog2 (pow2 k) = k"
    by (rule ilog2_unique) (simp_all add: pow2_add)
  define u where "u = pow2 (k - int p + 1)"
  have "pow2 k / u = of_int (2 ^ (p - 1))"
  proof -
    have "pow2 k = pow2 (int (p - 1)) * u"
      using p by (simp only: u_def pow2_add [symmetric]) (simp add: of_nat_diff)
    then show ?thesis by (simp add: u_def pow2_nat)
  qed
  then have "round_half_even (pow2 k / u) = 2 ^ (p - 1)"
    by (metis round_half_even_of_int)
  moreover have "of_int (2 ^ (p - 1)) * u = pow2 k"
    using \<open>pow2 k / u = of_int (2 ^ (p - 1))\<close> by (metis nonzero_eq_divide_eq pow2_nonzero u_def)
  ultimately show ?thesis by (simp add: bf_round_def i u_def Let_def)
qed

end
