(* ===== verification/Go_Math.thy ===== *)
theory Go_Math
  imports Go_Float
begin

text \<open>
  The functions of Go's \<open>math\<close> package that the proof of work uses, over the doubles of
  \<open>Go_Float\<close>. \<open>Mod\<close>, \<open>Floor\<close> and \<open>Sqrt\<close> are exactly specified and defined here. The last bits of
  the trigonometric and exponential functions, and the result of a conversion that is out of
  range, depend on the platform: they are the fields of the parameter \<open>go_math\<close>. Products and
  sums are rounded one at a time (no fused multiply-add), as on the amd64 platform.
\<close>

record go_math =
  m_sin :: "f64 \<Rightarrow> f64"
  m_cos :: "f64 \<Rightarrow> f64"
  m_exp :: "f64 \<Rightarrow> f64"
  m_log :: "f64 \<Rightarrow> f64"
  m_oob :: "f64 \<Rightarrow> 64 word" \<comment> \<open>conversion to an unsigned integer, out of range\<close>

text \<open>A decimal constant of the source.\<close>

abbreviation f64_lit :: "rat \<Rightarrow> f64" where
  "f64_lit q \<equiv> f64_round False q"

fun f64_is_inf :: "f64 \<Rightarrow> bool" where
  "f64_is_inf (FInf s) = True"
| "f64_is_inf _ = False"

definition rat_trunc :: "rat \<Rightarrow> int" where
  "rat_trunc r = (if r < 0 then \<lceil>r\<rceil> else \<lfloor>r\<rfloor>)"

text \<open>\<open>math.Mod(x, y)\<close> for a finite non-zero \<open>y\<close>: exact, with the sign of \<open>x\<close>.\<close>

fun f64_mod :: "f64 \<Rightarrow> rat \<Rightarrow> f64" where
  "f64_mod FNaN y = FNaN"
| "f64_mod (FInf s) y = FNaN"
| "f64_mod FNegZero y = FNegZero"
| "f64_mod (Fin r) y =
     (let m = r - y * of_int (rat_trunc (r / y)) in if m = 0 then f64_zero (r < 0) else Fin m)"

fun f64_floor :: "f64 \<Rightarrow> f64" where
  "f64_floor (Fin r) = Fin (of_int \<lfloor>r\<rfloor>)"
| "f64_floor x = x"

function isqrt :: "nat \<Rightarrow> nat" where
  "isqrt n =
     (if n = 0 then 0
      else let r = 2 * isqrt (n div 4) in if (r + 1) * (r + 1) \<le> n then r + 1 else r)"
  by pat_completeness auto
termination by (relation "measure id") auto

declare isqrt.simps [simp del]

text \<open>Correctly rounded square root.\<close>

fun f64_sqrt :: "f64 \<Rightarrow> f64" where
  "f64_sqrt FNaN = FNaN"
| "f64_sqrt (FInf s) = (if s then FNaN else FInf False)"
| "f64_sqrt FNegZero = FNegZero"
| "f64_sqrt (Fin r) =
     (if r < 0 then FNaN
      else if r = 0 then Fin 0
      else let u = pow2 (ilog2 r div 2 - 52);
               q = r / (u * u);
               n = int (isqrt (nat \<lfloor>q\<rfloor>));
               mid = of_int n + 1 / 2
           in Fin (of_int (if mid * mid < q \<or> mid * mid = q \<and> odd n then n + 1 else n) * u))"

text \<open>Conversion to an unsigned 64-bit integer: truncation towards zero when it fits.\<close>

fun f64_uint :: "go_math \<Rightarrow> nat \<Rightarrow> f64 \<Rightarrow> 64 word" where
  "f64_uint gm w (Fin r) =
     (if 0 \<le> rat_trunc r \<and> rat_trunc r < 2 ^ w then word_of_int (rat_trunc r) else m_oob gm (Fin r))"
| "f64_uint gm w FNegZero = 0"
| "f64_uint gm w x = m_oob gm x"

subsection \<open>Laws\<close>

lemma pow2_less_mono: "a < b \<Longrightarrow> pow2 a < pow2 b"
  by (simp add: pow2_powi power_int_strict_increasing)

lemma pow2_le_cancel: "pow2 a \<le> pow2 b \<Longrightarrow> a \<le> b"
  using pow2_less_mono [of b a] by (cases "a \<le> b") auto

text \<open>Rounding stays below a power of two that bounds the exact result.\<close>

lemma f64_round_bound:
  assumes "0 \<le> r" "r \<le> pow2 k" "- 1022 \<le> k" "k \<le> 1023"
  obtains y where "f64_round False r = Fin y" "0 \<le> y" "y \<le> pow2 k"
proof (cases "r = 0")
  case True
  then show ?thesis using that [of 0] by (simp add: f64_round_def f64_zero_def)
next
  case False
  then have r: "0 < r" using assms(1) by simp
  define e where "e = max (ilog2 r) (- 1022) - 52"
  define v where "v = rat_of_int (round_half_even (r / pow2 e)) * pow2 e"
  have "pow2 (ilog2 r) \<le> pow2 k" using ilog2_bounds(1) [OF r] assms(2) by linarith
  then have "ilog2 r \<le> k" by (rule pow2_le_cancel)
  then have "e \<le> k" using assms(3) by (simp add: e_def)
  have K: "pow2 k = of_int (2 ^ nat (k - e)) * pow2 e"
    using \<open>e \<le> k\<close> pow2_add [of "k - e" e] pow2_nat [of "nat (k - e)"] by simp
  have "round_half_even (r / pow2 e) \<le> 2 ^ nat (k - e)"
    using assms(2) round_half_even_mono [of "r / pow2 e" "of_int (2 ^ nat (k - e))"]
    by (simp only: round_half_even_of_int) (simp add: K pos_divide_le_eq)
  then have "rat_of_int (round_half_even (r / pow2 e)) \<le> of_int (2 ^ nat (k - e))" by (simp only: of_int_le_iff)
  then have vk: "v \<le> pow2 k" unfolding v_def K by (intro mult_right_mono) auto
  have "round_half_even (of_int 0) \<le> round_half_even (r / pow2 e)"
    using r by (intro round_half_even_mono) simp
  then have v0: "0 \<le> v" by (simp add: v_def del: of_int_0)
  have "pow2 k < pow2 1024" using assms(4) by (intro pow2_less_mono) simp
  then have "f64_round False r = Fin v"
    using r v0 vk unfolding f64_round_def Let_def v_def e_def
    by (auto simp: f64_zero_def split: if_splits)
  then show ?thesis using that v0 vk by blast
qed

text \<open>In the normal range a double rounds like a \<open>big.Float\<close> of precision 53.\<close>

lemma f64_round_normal:
  assumes "pow2 (- 1022) \<le> r" "r \<le> pow2 1023"
  shows "f64_round False r = Fin (bf_round 53 r)"
proof -
  have r: "0 < r" using assms(1) pow2_pos [of "- 1022"] by linarith
  have "pow2 (- 1022) < pow2 (ilog2 r + 1)" using assms(1) ilog2_bounds(2) [OF r] by linarith
  then have "- 1022 \<le> ilog2 r" using pow2_less_cancel by fastforce
  then have "max (ilog2 r) (- 1022) - 52 = ilog2 r - 53 + 1" by simp
  then have v: "rat_of_int (round_half_even (r / pow2 (max (ilog2 r) (- 1022) - 52))) * pow2 (max (ilog2 r) (- 1022) - 52) =
    bf_round 53 r" using r by (simp add: bf_round_def Let_def)
  have "bf_round 53 r \<le> bf_round 53 (pow2 1023)" using r assms(2) by (intro bf_round_mono) auto
  then have "bf_round 53 r \<le> pow2 1023" by (simp add: bf_round_pow2)
  moreover have "pow2 1023 < pow2 1024" by (intro pow2_less_mono) simp
  moreover have "0 < bf_round 53 r" using r by (simp add: bf_round_pos)
  ultimately show ?thesis using r v unfolding f64_round_def Let_def by auto
qed

definition tenth :: rat where
  "tenth = 3602879701896397 / 36028797018963968"

lemma f64_lit_tenth: "f64_lit (1 / 10) = Fin tenth"
proof -
  have i: "ilog2 (1 / 10) = - 4" by (rule ilog2_unique) (simp_all add: pow2_def)
  have f: "\<lfloor>36028797018963968 / 5 :: rat\<rfloor> = 7205759403792793" by (simp add: floor_eq_iff)
  have r: "round_half_even (36028797018963968 / 5) = 7205759403792794"
    unfolding round_half_even_def Let_def f by simp
  show ?thesis unfolding f64_round_def Let_def i tenth_def by (simp add: i pow2_def r)
qed

text \<open>Multiplying by the constant 0.1 at least halves a positive double that is not tiny.\<close>

lemma f64_tenth_shrinks:
  assumes "pow2 (- 1000) \<le> x" "x \<le> pow2 1000"
  obtains y where "f64_mul (Fin x) (f64_lit (1 / 10)) = Fin y" "0 \<le> y" "y \<le> x / 2"
proof -
  have x: "0 < x" using assms(1) pow2_pos [of "- 1000"] by linarith
  define r where "r = x * tenth"
  have lo: "x / 16 \<le> r" and hi: "r \<le> x / 4" using x by (simp_all add: r_def tenth_def)
  have "pow2 (- 1000 + - 4) = pow2 (- 1000) * pow2 (- 4)" by (rule pow2_add)
  moreover have "pow2 (- 4) = 1 / 16" by (simp add: pow2_def)
  moreover have "pow2 (- 1022) \<le> pow2 (- 1000 + - 4)" by (rule pow2_mono) simp
  ultimately have "pow2 (- 1022) \<le> pow2 (- 1000) / 16" by simp
  then have n1: "pow2 (- 1022) \<le> r" using lo assms(1) by linarith
  have n2: "r \<le> pow2 1023" using hi assms(2) x pow2_mono [of 1000 1023] by linarith
  have r0: "0 < r" using lo x by linarith
  have "f64_mul (Fin x) (Fin tenth) = f64_round False r" using x by (simp add: r_def tenth_def)
  also have "\<dots> = Fin (bf_round 53 r)" using n1 n2 by (rule f64_round_normal)
  finally have eq: "f64_mul (Fin x) (f64_lit (1 / 10)) = Fin (bf_round 53 r)" by (simp only: f64_lit_tenth)
  have "\<bar>bf_round 53 r - r\<bar> \<le> r * pow2 (- 53)" using bf_round_error [OF r0, of 53] by simp
  moreover have "r * pow2 (- 53) \<le> r * 1" using r0 by (intro mult_left_mono) (simp_all add: pow2_def)
  ultimately have "bf_round 53 r \<le> 2 * r" by linarith
  then show ?thesis using that [OF eq] bf_round_pos [OF r0, of 53] hi by simp
qed

text \<open>Sums and products of bounded non-negative doubles.\<close>

lemma f64_mul_bound:
  assumes "0 \<le> x" "x \<le> pow2 a" "0 \<le> y" "y \<le> pow2 b" "- 1022 \<le> a + b" "a + b \<le> 1023"
  obtains z where "f64_mul (Fin x) (Fin y) = Fin z" "0 \<le> z" "z \<le> pow2 (a + b)"
proof -
  have "x * y \<le> pow2 (a + b)" using assms by (simp add: pow2_add mult_mono)
  moreover have "0 \<le> x * y" using assms by simp
  ultimately obtain z where "f64_round False (x * y) = Fin z" "0 \<le> z" "z \<le> pow2 (a + b)"
    using f64_round_bound assms(5,6) by blast
  then show ?thesis using that [of z] assms by (simp add: not_less [symmetric])
qed

lemma f64_add_bound:
  assumes "0 \<le> x" "x \<le> pow2 a" "0 \<le> y" "y \<le> pow2 a" "- 1023 \<le> a" "a \<le> 1022"
  obtains z where "f64_add (Fin x) (Fin y) = Fin z" "0 \<le> z" "z \<le> pow2 (a + 1)"
proof -
  have "x + y \<le> pow2 (a + 1)" using assms by (simp add: pow2_add)
  moreover have "0 \<le> x + y" "- 1022 \<le> a + 1" "a + 1 \<le> 1023" using assms by linarith+
  ultimately obtain z where "f64_round False (x + y) = Fin z" "0 \<le> z" "z \<le> pow2 (a + 1)"
    using f64_round_bound by blast
  then show ?thesis using that [of z] assms by (simp add: not_less [symmetric])
qed

text \<open>Integers up to \<open>2^53\<close> are doubles.\<close>

lemma f64_of_int_exact:
  assumes "0 \<le> n" "n < 2 ^ 53"
  shows "f64_of_int n = Fin (of_int n)"
proof (cases "n = 0")
  case False
  then have n: "0 < rat_of_int n" "1 \<le> rat_of_int n" using assms(1) by simp_all
  have lo: "0 \<le> ilog2 (rat_of_int n)" using ilog2_mono [of 1 "of_int n"] n ilog2_unique [of 0 1] by simp
  have "rat_of_int n < pow2 53" using assms(2) by (simp add: pow2_def)
  then have hi: "ilog2 (rat_of_int n) < 53" using ilog2_bounds(1) [OF n(1)] pow2_less_cancel by (meson order_le_less_trans)
  have "bf_round 53 (rat_of_int n) = of_int n"
  proof -
    define e where "e = nat (52 - ilog2 (rat_of_int n))"
    have u: "pow2 (ilog2 (rat_of_int n) - int 53 + 1) = 1 / 2 ^ e" using hi by (simp add: pow2_def e_def)
    have "rat_of_int n / (1 / 2 ^ e) = of_int (n * 2 ^ e)" by simp
    then have "round_half_even (rat_of_int n / (1 / 2 ^ e)) = n * 2 ^ e" by (simp only: round_half_even_of_int)
    then show ?thesis using n u by (simp add: bf_round_def Let_def)
  qed
  moreover have "pow2 (- 1022) \<le> rat_of_int n" using n(2) pow2_mono [of "- 1022" 0] by simp
  moreover have "rat_of_int n \<le> pow2 1023" using \<open>rat_of_int n < pow2 53\<close> pow2_mono [of 53 1023] by simp
  ultimately show ?thesis using f64_round_normal by (simp add: f64_of_int_def)
qed (simp add: f64_of_int_def f64_round_def f64_zero_def)

end
