(* ===== verification/Go_Strings.thy ===== *)
theory Go_Strings
  imports Prelude
begin

text \<open>
  The parts of Go's \<open>strings\<close> and \<open>unicode/utf8\<close> packages that the bridge uses, over byte
  strings. A string need not be valid UTF-8; \<open>rune_width\<close> says how many bytes the first rune
  occupies, or that the first byte does not start a well-formed one.
\<close>

abbreviation byte_of :: "char \<Rightarrow> nat" where
  "byte_of c \<equiv> of_char c"

subsection \<open>Prefixes, search, replacement\<close>

definition hasPrefix :: "string \<Rightarrow> string \<Rightarrow> bool" where
  "hasPrefix s p = (take (length p) s = p)"

definition hasSuffix :: "string \<Rightarrow> string \<Rightarrow> bool" where
  "hasSuffix s p = (length p \<le> length s \<and> drop (length s - length p) s = p)"

fun str_index :: "string \<Rightarrow> string \<Rightarrow> nat option" where
  "str_index [] p = (if p = [] then Some 0 else None)"
| "str_index (c # s) p = (if hasPrefix (c # s) p then Some 0 else map_option Suc (str_index s p))"

definition str_contains :: "string \<Rightarrow> string \<Rightarrow> bool" where
  "str_contains s p = (str_index s p \<noteq> None)"

text \<open>\<open>strings.Replace(s, old, new, 1)\<close>.\<close>

definition replace_first :: "string \<Rightarrow> string \<Rightarrow> string \<Rightarrow> string" where
  "replace_first s old new =
     (case str_index s old of None \<Rightarrow> s | Some i \<Rightarrow> take i s @ new @ drop (i + length old) s)"

text \<open>\<open>strings.ReplaceAll\<close> with one-byte arguments.\<close>

definition replace_char :: "char \<Rightarrow> char \<Rightarrow> string \<Rightarrow> string" where
  "replace_char a b s = map (\<lambda>c. if c = a then b else c) s"

text \<open>\<open>strings.Split\<close> with a one-byte separator: always at least one part.\<close>

fun split_char :: "char \<Rightarrow> string \<Rightarrow> string list" where
  "split_char sep [] = [[]]"
| "split_char sep (c # s) =
     (if c = sep then [] # split_char sep s
      else case split_char sep s of [] \<Rightarrow> [[c]] | p # ps \<Rightarrow> (c # p) # ps)"

subsection \<open>UTF-8\<close>

definition cont_in :: "nat \<Rightarrow> nat \<Rightarrow> char \<Rightarrow> bool" where
  "cont_in lo hi c = (lo \<le> byte_of c \<and> byte_of c \<le> hi)"

definition cont :: "char \<Rightarrow> bool" where
  "cont c = cont_in 128 191 c"

text \<open>The accepted range of the second byte, as a function of the first.\<close>

definition second_ok :: "char \<Rightarrow> char \<Rightarrow> bool" where
  "second_ok c0 c1 =
     (let b = byte_of c0
      in if b = 224 then cont_in 160 191 c1
         else if b = 237 then cont_in 128 159 c1
         else if b = 240 then cont_in 144 191 c1
         else if b = 244 then cont_in 128 143 c1
         else cont c1)"

definition rune_need :: "char \<Rightarrow> nat" where
  "rune_need c =
     (let b = byte_of c
      in if b < 128 then 1
         else if 194 \<le> b \<and> b \<le> 223 then 2
         else if 224 \<le> b \<and> b \<le> 239 then 3
         else if 240 \<le> b \<and> b \<le> 244 then 4
         else 0)"

fun rune_width :: "string \<Rightarrow> nat option" where
  "rune_width [] = None"
| "rune_width (c # cs) =
     (let n = rune_need c
      in if n = 0 then None
         else if n = 1 then Some 1
         else if length cs < n - 1 then None
         else if second_ok c (cs ! 0) \<and> list_all cont (take (n - 2) (drop 1 cs)) then Some n
         else None)"

text \<open>The code point of the rune at the front; \<open>U+FFFD\<close> stands for an invalid byte.\<close>

definition rune_value :: "string \<Rightarrow> nat" where
  "rune_value s =
     (case rune_width s of
        None \<Rightarrow> 65533
      | Some n \<Rightarrow>
          (let b = map byte_of (take n s)
           in if n = 1 then b ! 0
              else if n = 2 then (b ! 0 - 192) * 64 + (b ! 1 - 128)
              else if n = 3 then (b ! 0 - 224) * 4096 + (b ! 1 - 128) * 64 + (b ! 2 - 128)
              else (b ! 0 - 240) * 262144 + (b ! 1 - 128) * 4096 + (b ! 2 - 128) * 64 + (b ! 3 - 128)))"

lemma rune_width_pos: "rune_width s = Some n \<Longrightarrow> 0 < n \<and> n \<le> length s"
  by (cases s) (auto simp: Let_def split: if_splits)

text \<open>
  Ranging over a string: the runes with the bytes they occupy and whether they are well formed.
\<close>

function runes :: "string \<Rightarrow> (bool \<times> nat \<times> string) list" where
  "runes [] = []"
| "runes (c # cs) =
     (case rune_width (c # cs) of
        None \<Rightarrow> (False, 65533, [c]) # runes cs
      | Some n \<Rightarrow> (True, rune_value (c # cs), take n (c # cs)) # runes (drop n (c # cs)))"
  by pat_completeness auto
termination
  by (relation "measure length") (auto simp del: rune_width.simps dest!: rune_width_pos)

definition valid_utf8 :: "string \<Rightarrow> bool" where
  "valid_utf8 s = list_all fst (runes s)"

text \<open>\<open>strings.ToValidUTF8(s, "")\<close>: runs of invalid bytes are dropped.\<close>

definition toValidUTF8 :: "string \<Rightarrow> string" where
  "toValidUTF8 s = concat (map (\<lambda>(ok, v, bs). bs) (filter fst (runes s)))"

text \<open>\<open>utf8.EncodeRune\<close> of a code point that is not a surrogate.\<close>

definition utf8_encode :: "nat \<Rightarrow> string" where
  "utf8_encode r =
     map char_of
       (if r < 128 then [r]
        else if r < 2048 then [192 + r div 64, 128 + r mod 64]
        else if r < 65536 then [224 + r div 4096, 128 + r div 64 mod 64, 128 + r mod 64]
        else [240 + r div 262144, 128 + r div 4096 mod 64, 128 + r div 64 mod 64, 128 + r mod 64])"

subsection \<open>White space\<close>

text \<open>\<open>unicode.IsSpace\<close>.\<close>

definition rune_space :: "nat \<Rightarrow> bool" where
  "rune_space r =
     (r \<in> set [9, 10, 11, 12, 13, 32, 133, 160, 5760, 8232, 8233, 8239, 8287, 12288] \<or> 8192 \<le> r \<and> r \<le> 8202)"

definition space_item :: "bool \<times> nat \<times> string \<Rightarrow> bool" where
  "space_item it = (fst it \<and> rune_space (fst (snd it)))"

text \<open>
  \<open>strings.TrimSpace\<close>: leading and trailing white-space runes are cut off. A string splits into
  the same runes from either end: \<open>DecodeLastRuneInString\<close> finds the rune that ends the string.
\<close>

definition item_bytes :: "(bool \<times> nat \<times> string) list \<Rightarrow> string" where
  "item_bytes its = concat (map (\<lambda>(ok, v, bs). bs) its)"

definition trimSpace :: "string \<Rightarrow> string" where
  "trimSpace s = item_bytes (rev (dropWhile space_item (rev (dropWhile space_item (runes s)))))"

text \<open>\<open>strings.Fields\<close>: the maximal runs of non-space runes.\<close>

fun fields_items :: "(bool \<times> nat \<times> string) list \<Rightarrow> string \<Rightarrow> string list" where
  "fields_items [] acc = (if acc = [] then [] else [acc])"
| "fields_items (it # its) acc =
     (if space_item it then (if acc = [] then fields_items its [] else acc # fields_items its [])
      else fields_items its (acc @ snd (snd it)))"

definition str_fields :: "string \<Rightarrow> string list" where
  "str_fields s = fields_items (runes s) []"

text \<open>\<open>strings.Trim\<close> with a cutset of ASCII characters.\<close>

definition trim_cut :: "string \<Rightarrow> string \<Rightarrow> string" where
  "trim_cut cutset s = rev (dropWhile (\<lambda>c. c \<in> set cutset) (rev (dropWhile (\<lambda>c. c \<in> set cutset) s)))"

subsection \<open>Laws\<close>

declare rune_width.simps [simp del]

text \<open>Whether a rune is well formed depends on its own bytes only.\<close>

lemma rune_width_cong:
  assumes "rune_width s = Some n"
  shows "rune_width (take n s @ t) = Some n"
proof -
  obtain c cs where s: "s = c # cs" using assms by (cases s) (auto simp: rune_width.simps)
  show ?thesis
  proof (cases "rune_need c \<le> 1")
    case True
    then show ?thesis using assms unfolding s by (auto simp: rune_width.simps Let_def split: if_splits)
  next
    case False
    with assms have n: "n = rune_need c" "n \<le> Suc (length cs)" "1 < n" "second_ok c (cs ! 0)"
      "list_all cont (take (n - 2) (drop 1 cs))"
      unfolding s by (auto simp: rune_width.simps Let_def split: if_splits)
    obtain m where m: "n = Suc (Suc m)" using n(3) by (cases n; cases "n - 1") auto
    obtain d ds where cs: "cs = d # ds" using n m by (cases cs) auto
    have need: "rune_need c = Suc (Suc m)" using n(1) m by simp
    have "m \<le> length ds" using n(2) m cs by simp
    then show ?thesis using n(4,5) unfolding s cs m
      by (simp add: rune_width.simps need)
  qed
qed

lemma runes_rune:
  "rune_width s = Some n \<Longrightarrow> runes s = (True, rune_value s, take n s) # runes (drop n s)"
  by (cases s) (auto simp: rune_width.simps)

lemma runes_bad: "rune_width (c # cs) = None \<Longrightarrow> runes (c # cs) = (False, 65533, [c]) # runes cs"
  by simp

lemma valid_utf8_Nil [simp]: "valid_utf8 []"
  by (simp add: valid_utf8_def)

lemma valid_utf8_rune: "rune_width s = Some n \<Longrightarrow> valid_utf8 s \<longleftrightarrow> valid_utf8 (drop n s)"
  by (simp add: valid_utf8_def runes_rune)

lemma valid_utf8_bad: "s \<noteq> [] \<Longrightarrow> rune_width s = None \<Longrightarrow> \<not> valid_utf8 s"
  by (cases s) (auto simp: valid_utf8_def)

text \<open>Appending valid strings.\<close>

lemma valid_utf8_append: "valid_utf8 s \<Longrightarrow> valid_utf8 t \<Longrightarrow> valid_utf8 (s @ t)"
proof (induction s rule: length_induct)
  case (1 s)
  show ?case
  proof (cases "s = []")
    case False
    then obtain n where n: "rune_width s = Some n"
      using "1.prems"(1) valid_utf8_bad [of s] by (cases "rune_width s") auto
    have le: "0 < n" "n \<le> length s" using rune_width_pos [OF n] by auto
    have "rune_width (s @ t) = Some n"
      using rune_width_cong [OF n, of "drop n s @ t"] by (metis append_assoc append_take_drop_id)
    moreover have "valid_utf8 (drop n s @ t)"
      using "1.IH" [rule_format, of "drop n s"] "1.prems" n le valid_utf8_rune [OF n] by simp
    ultimately show ?thesis using valid_utf8_rune [of "s @ t" n] le by simp
  qed (use "1.prems" in simp)
qed

lemma valid_utf8_rune_bytes: "rune_width s = Some n \<Longrightarrow> valid_utf8 (take n s)"
  using rune_width_cong [of s n "[]"] valid_utf8_rune [of "take n s" n] by simp

lemma runes_items_valid: "(True, v, bs) \<in> set (runes s) \<Longrightarrow> valid_utf8 bs"
proof (induction s rule: runes.induct)
  case (2 c cs)
  then show ?case
    by (cases "rune_width (c # cs)") (auto simp: valid_utf8_rune_bytes)
qed simp

lemma valid_utf8_concat: "(\<And>x. x \<in> set xs \<Longrightarrow> valid_utf8 x) \<Longrightarrow> valid_utf8 (concat xs)"
  by (induction xs) (auto intro: valid_utf8_append)

lemma toValidUTF8_valid: "valid_utf8 (toValidUTF8 s)"
  unfolding toValidUTF8_def by (rule valid_utf8_concat) (auto dest: runes_items_valid)

text \<open>Bytes of a rune beyond the first are at least 128, so ASCII bytes are boundaries.\<close>

lemma rune_tail_high:
  assumes "rune_width s = Some n" "0 < i" "i < n"
  shows "128 \<le> byte_of (s ! i)"
proof -
  obtain c cs where s: "s = c # cs" using assms(1) by (cases s) (auto simp: rune_width.simps)
  have n: "n = rune_need c" "n \<le> Suc (length cs)" "1 < n" "second_ok c (cs ! 0)"
    "list_all cont (take (n - 2) (drop 1 cs))"
    using assms unfolding s by (auto simp: rune_width.simps Let_def split: if_splits)
  show ?thesis
  proof (cases "i = 1")
    case True
    then show ?thesis using n(4) unfolding s
      by (auto simp: second_ok_def cont_def cont_in_def Let_def split: if_splits)
  next
    case False
    have "cont (take (n - 2) (drop 1 cs) ! (i - 2))"
    proof -
      have "i - 2 < length (take (n - 2) (drop 1 cs))" using n(2) assms(2,3) False by auto
      then show ?thesis using n(5) by (simp only: list_all_length)
    qed
    moreover have "take (n - 2) (drop 1 cs) ! (i - 2) = s ! i"
    proof -
      obtain j where j: "i = Suc (Suc j)" using assms(2) False by (cases i; cases "i - 1") auto
      then show ?thesis using n(2) assms(3) unfolding s j by (simp add: nth_append less_diff_conv)
    qed
    ultimately show ?thesis by (simp add: cont_def cont_in_def)
  qed
qed

lemma valid_utf8_split:
  assumes "valid_utf8 (a @ c # b)" "byte_of c < 128"
  shows "valid_utf8 a \<and> valid_utf8 b"
  using assms(1)
proof (induction a rule: length_induct)
  case (1 a)
  define s where "s = a @ c # b"
  obtain n where n: "rune_width s = Some n"
    using "1.prems" valid_utf8_bad [of s] by (cases "rune_width s") (auto simp: s_def)
  have le: "0 < n" "n \<le> length s" using rune_width_pos [OF n] by auto
  show ?case
  proof (cases "a = []")
    case True
    have "rune_need c = 1" using assms(2) by (simp add: rune_need_def)
    then have "n = 1" using n True by (simp add: s_def rune_width.simps)
    then show ?thesis using "1.prems" valid_utf8_rune [OF n] True by (simp add: s_def)
  next
    case False
    have na: "n \<le> length a"
    proof (rule ccontr)
      assume "\<not> n \<le> length a"
      then have "128 \<le> byte_of (s ! length a)" using rune_tail_high [OF n, of "length a"] False by auto
      then show False using assms(2) by (simp add: s_def)
    qed
    have "valid_utf8 (drop n a @ c # b)" using "1.prems" valid_utf8_rune [OF n] na by (simp add: s_def)
    then have ih: "valid_utf8 (drop n a) \<and> valid_utf8 b" using "1.IH" [rule_format, of "drop n a"] na le False by simp
    have "rune_width a = Some n"
      using rune_width_cong [OF n, of "drop n a"] na by (simp add: s_def)
    then show ?thesis using ih valid_utf8_rune by blast
  qed
qed

lemma split_char_nonempty [simp]: "split_char sep s \<noteq> []"
  by (cases s) (auto split: list.splits)

lemma valid_utf8_split_char:
  "byte_of sep < 128 \<Longrightarrow> valid_utf8 s \<Longrightarrow> p \<in> set (split_char sep s) \<Longrightarrow> valid_utf8 p"
proof (induction "length s" arbitrary: s rule: less_induct)
  case less
  show ?case
  proof (cases "sep \<in> set s")
    case False
    then have "split_char sep s = [s]" by (induction s) auto
    then show ?thesis using less.prems by simp
  next
    case True
    then obtain a b where ab: "s = a @ sep # b" "sep \<notin> set a" using split_list_first by metis
    have "split_char sep s = a # split_char sep b" using ab(2) unfolding ab(1) by (induction a) auto
    then show ?thesis
      using less.hyps [of b] less.prems valid_utf8_split [of a sep b] ab(1) by auto
  qed
qed

end
