(* ===== verification/Work_Stats.thy ===== *)
theory Work_Stats
  imports Go_Math Go_Strings Go_Bytes
begin

text \<open>
  Worker statistics (\<open>src/htnstratum/share_handler.go\<close>): the counters of a worker, the rolling
  per-minute counters of the last day, the averages computed from them, the variable difficulty
  and the ban list. Counters of the source are atomic: each update is one step. Times are
  nanoseconds since the epoch and an argument \<open>now\<close>; \<open>None\<close> is Go's zero time.
\<close>

record work_stats =
  BlocksFound :: int
  SharesFound :: int
  SharesDiff :: f64
  StaleShares :: int
  InvalidShares :: int
  ws_WalletAddr :: string
  ws_WorkerName :: string
  StartTime :: "int option"
  LastShare :: "int option"
  VarDiffStartTime :: "int option"
  VarDiffSharesFound :: int
  VarDiffWindow :: int
  MinDiff :: f64
  RollingShares :: "int \<rightharpoonup> int"
  RollingSharesDiff :: "int \<rightharpoonup> f64"
  RollingStaleShares :: "int \<rightharpoonup> int"
  RollingInvalidShares :: "int \<rightharpoonup> int"

text \<open>A zero value with empty maps.\<close>

definition empty_stats :: work_stats where
  "empty_stats =
     \<lparr>BlocksFound = 0, SharesFound = 0, SharesDiff = Fin 0, StaleShares = 0, InvalidShares = 0,
      ws_WalletAddr = [], ws_WorkerName = [], StartTime = None, LastShare = None, VarDiffStartTime = None,
      VarDiffSharesFound = 0, VarDiffWindow = 0, MinDiff = Fin 0, RollingShares = Map.empty,
      RollingSharesDiff = Map.empty, RollingStaleShares = Map.empty, RollingInvalidShares = Map.empty\<rparr>"

subsection \<open>Rolling counters\<close>

text \<open>\<open>now.Unix() / 60\<close>.\<close>

definition minute_key :: "int \<Rightarrow> int" where
  "minute_key now = go_div (now div 1000000000) 60"

text \<open>\<open>m[k]++\<close>: a missing entry counts as zero.\<close>

definition map_inc :: "(int \<rightharpoonup> int) \<Rightarrow> int \<Rightarrow> (int \<rightharpoonup> int)" where
  "map_inc m k = m(k \<mapsto> wrap64 ((case m k of None \<Rightarrow> 0 | Some v \<Rightarrow> v) + 1))"

definition map_addf :: "(int \<rightharpoonup> f64) \<Rightarrow> int \<Rightarrow> f64 \<Rightarrow> (int \<rightharpoonup> f64)" where
  "map_addf m k d = m(k \<mapsto> f64_add (case m k of None \<Rightarrow> Fin 0 | Some v \<Rightarrow> v) d)"

definition drop_before :: "int \<Rightarrow> (int \<rightharpoonup> 'v) \<Rightarrow> (int \<rightharpoonup> 'v)" where
  "drop_before cutoff m = (\<lambda>k. if k < cutoff then None else m k)"

definition updateRollingCounters :: "int \<Rightarrow> f64 \<Rightarrow> bool \<Rightarrow> bool \<Rightarrow> work_stats \<Rightarrow> work_stats" where
  "updateRollingCounters now shareDiff isStale isInvalid st =
     (let minuteKey = minute_key now;
          st = (if \<not> isStale \<and> \<not> isInvalid
                then st\<lparr>RollingShares := map_inc (RollingShares st) minuteKey,
                        RollingSharesDiff := map_addf (RollingSharesDiff st) minuteKey shareDiff\<rparr>
                else if isStale then st\<lparr>RollingStaleShares := map_inc (RollingStaleShares st) minuteKey\<rparr>
                else if isInvalid then st\<lparr>RollingInvalidShares := map_inc (RollingInvalidShares st) minuteKey\<rparr>
                else st);
          cutoff = minuteKey - 1440
      in st\<lparr>RollingShares := drop_before cutoff (RollingShares st),
            RollingSharesDiff := drop_before cutoff (RollingSharesDiff st),
            RollingStaleShares := drop_before cutoff (RollingStaleShares st),
            RollingInvalidShares := drop_before cutoff (RollingInvalidShares st)\<rparr>)"

text \<open>The loop over the last \<open>n\<close> minutes.\<close>

definition rolling_diff :: "nat \<Rightarrow> int \<Rightarrow> work_stats \<Rightarrow> f64" where
  "rolling_diff n now st =
     fold (\<lambda>i total. case RollingSharesDiff st (minute_key now - int i) of None \<Rightarrow> total | Some d \<Rightarrow> f64_add total d)
       [0..<n] (Fin 0)"

definition GetRollingAverageHashrateGHs :: "int \<Rightarrow> work_stats \<Rightarrow> f64" where
  "GetRollingAverageHashrateGHs now st =
     (let totalDiff = rolling_diff 1440 now st
      in if f64_eq totalDiff (Fin 0) then Fin 0 else f64_div totalDiff (Fin 86400))"

definition GetOneHourAverageHashrateGHs :: "int \<Rightarrow> work_stats \<Rightarrow> f64" where
  "GetOneHourAverageHashrateGHs now st = f64_div (rolling_diff 60 now st) (Fin 3600)"

definition rolling_sum :: "(int \<rightharpoonup> int) \<Rightarrow> int \<Rightarrow> int" where
  "rolling_sum m now =
     fold (\<lambda>i total. case m (minute_key now - int i) of None \<Rightarrow> total | Some v \<Rightarrow> wrap64 (total + v)) [0..<1440] 0"

definition GetRollingShares :: "int \<Rightarrow> work_stats \<Rightarrow> int \<times> int \<times> int" where
  "GetRollingShares now st =
     (rolling_sum (RollingShares st) now, rolling_sum (RollingStaleShares st) now,
      rolling_sum (RollingInvalidShares st) now)"

subsection \<open>Display of hash rates\<close>

text \<open>
  The scaled value and its unit, before formatting. For rates of 1000 and more the source divides
  by \<open>float64(i)*1000\<close> with \<open>i\<close> counting from zero.
\<close>

definition big_units :: "string list" where
  "big_units = [''T'', ''P'', ''E'', ''Z'', ''Y'']"

fun unit_loop :: "f64 \<Rightarrow> nat \<Rightarrow> string list \<Rightarrow> f64 \<Rightarrow> string \<Rightarrow> f64 \<times> string" where
  "unit_loop ghs i [] hr unit0 = (hr, unit0)"
| "unit_loop ghs i (u # us) hr unit0 =
     (let hr1 = f64_div ghs (f64_mul (f64_of_int (int i)) (Fin 1000))
      in if f64_lt hr1 (Fin 1000) then (hr1, unit0) else unit_loop ghs (i + 1) us hr1 u)"

definition hashrate_unit :: "f64 \<Rightarrow> f64 \<times> string" where
  "hashrate_unit ghs =
     (if f64_lt (f64_mul ghs (Fin 1000000)) (Fin 1)
      then (f64_mul (f64_mul (f64_mul ghs (Fin 1000)) (Fin 1000)) (Fin 1000), [])
      else if f64_lt (f64_mul ghs (Fin 1000)) (Fin 1)
      then (f64_mul (f64_mul ghs (Fin 1000)) (Fin 1000), ''K'')
      else if f64_lt ghs (Fin 1) then (f64_mul ghs (Fin 1000), ''M'')
      else if f64_lt ghs (Fin 1000) then (ghs, ''G'')
      else unit_loop ghs 0 big_units (Fin 0) [])"

subsection \<open>Variable difficulty\<close>

definition updateVarDiff :: "f64 \<Rightarrow> work_stats \<Rightarrow> f64 \<times> work_stats" where
  "updateVarDiff minDiff st =
     (MinDiff st, st\<lparr>VarDiffStartTime := None, VarDiffWindow := 0, MinDiff := minDiff\<rparr>)"

definition startVarDiff :: "int \<Rightarrow> work_stats \<Rightarrow> work_stats" where
  "startVarDiff now st =
     (if VarDiffStartTime st = None then st\<lparr>VarDiffSharesFound := 0, VarDiffStartTime := Some now\<rparr> else st)"

definition vd_windows :: "int list" where
  "vd_windows = [1, 3, 10, 30, 60, 240, 0]"

definition vd_tolerances :: "f64 list" where
  "vd_tolerances =
     [Fin 1, f64_round False (1 / 2), f64_round False (1 / 4), f64_round False (15 / 100), f64_round False (1 / 10),
      f64_round False (5 / 100), f64_round False (5 / 100)]"

text \<open>\<open>time.Since(start).Minutes()\<close>: whole minutes and the rest are converted separately.\<close>

definition minutes_since :: "int \<Rightarrow> int \<Rightarrow> f64" where
  "minutes_since now start =
     (let d = wrap64 (now - start)
      in f64_add (f64_of_int (go_div d 60000000000)) (f64_div (f64_of_int (go_rem d 60000000000)) (Fin 60000000000)))"

text \<open>Whether a tolerance of a window that was passed already (from index 1) is breached.\<close>

definition breached :: "f64 \<Rightarrow> int \<Rightarrow> bool" where
  "breached ratio window =
     list_ex (\<lambda>i. f64_le (vd_tolerances ! i) (f64_abs (f64_sub (Fin 1) ratio))) [1..<nat window]"

text \<open>
  The decision of the vardiff thread for one worker; \<open>expected\<close> is the configured number of
  shares per minute. The window index is always below seven.
\<close>

definition vardiff_step :: "int \<Rightarrow> 64 word \<Rightarrow> work_stats \<Rightarrow> work_stats" where
  "vardiff_step now expected v =
     (case VarDiffStartTime v of
        None \<Rightarrow> v
      | Some start \<Rightarrow>
          (let diff = MinDiff v;
               shares = f64_of_int (VarDiffSharesFound v);
               duration = minutes_since now start;
               shareRate = f64_div shares duration;
               ratio = f64_div shareRate (f64_of_int (uint expected));
               window = vd_windows ! nat (VarDiffWindow v);
               tolerance = vd_tolerances ! nat (VarDiffWindow v);
               limit = f64_of_int (uint (word_of_int window * expected))
           in if window = 0
              then (if f64_le tolerance (f64_abs (f64_sub (Fin 1) ratio))
                    then snd (updateVarDiff (f64_mul diff ratio) v) else v)
              else if breached ratio (VarDiffWindow v) then snd (updateVarDiff (f64_mul diff ratio) v)
              else if f64_le (f64_mul limit (f64_add (Fin 1) tolerance)) shares
              then snd (updateVarDiff (f64_mul diff ratio) v)
              else if f64_le (f64_of_int window) duration
              then (if f64_le shares (f64_mul limit (f64_sub (Fin 1) tolerance))
                    then snd (updateVarDiff (f64_mul diff (f64_max ratio (f64_round False (1 / 10)))) v)
                    else v\<lparr>VarDiffWindow := VarDiffWindow v + 1\<rparr>)
              else v))"

subsection \<open>Bans\<close>

record ban_info =
  ban_Address :: string
  ban_Times :: int

fun AddressBanned :: "string \<Rightarrow> ban_info list \<Rightarrow> bool" where
  "AddressBanned address [] = False"
| "AddressBanned address (ban # bans) =
     (if ban_Address ban = address then 10 < ban_Times ban else AddressBanned address bans)"

fun TryToBan :: "string \<Rightarrow> ban_info list \<Rightarrow> ban_info list" where
  "TryToBan address [] = [\<lparr>ban_Address = address, ban_Times = 1\<rparr>]"
| "TryToBan address (ban # bans) =
     (if ban_Address ban = address then ban\<lparr>ban_Times := wrap64 (ban_Times ban + 1)\<rparr> # bans
      else ban # TryToBan address bans)"

definition deriveAddressFromScript :: "string \<Rightarrow> string" where
  "deriveAddressFromScript scriptHex =
     (if length scriptHex = 68 \<and> hasPrefix scriptHex ''20'' \<and> hasSuffix scriptHex ''ac''
      then take 64 (drop 2 scriptHex) else [])"

subsection \<open>Laws\<close>

text \<open>Keys of the rolling maps: not before the window of a day, not after the current minute.\<close>

definition rolling_window :: "int \<Rightarrow> work_stats \<Rightarrow> bool" where
  "rolling_window now st \<longleftrightarrow>
     dom (RollingShares st) \<union> dom (RollingSharesDiff st) \<union> dom (RollingStaleShares st) \<union> dom (RollingInvalidShares st)
       \<subseteq> {minute_key now - 1440 .. minute_key now}"

definition rolling_not_after :: "int \<Rightarrow> work_stats \<Rightarrow> bool" where
  "rolling_not_after now st \<longleftrightarrow>
     dom (RollingShares st) \<union> dom (RollingSharesDiff st) \<union> dom (RollingStaleShares st) \<union> dom (RollingInvalidShares st)
       \<subseteq> {.. minute_key now}"

lemma minute_key_mono: "0 \<le> t \<Longrightarrow> t \<le> now \<Longrightarrow> minute_key t \<le> minute_key now"
  unfolding minute_key_def go_div_def
  by (cases "t div 1000000000 = 0"; cases "now div 1000000000 = 0")
    (auto simp: sgn_if zdiv_mono1 pos_imp_zdiv_nonneg_iff split: if_splits)

lemma dom_drop_before: "dom (drop_before c m) = {k \<in> dom m. c \<le> k}"
  by (auto simp: drop_before_def split: if_splits)

lemma window_update:
  assumes "rolling_not_after now st"
  shows "rolling_window now (updateRollingCounters now d a b st)"
  using assms
  by (auto simp: rolling_window_def rolling_not_after_def updateRollingCounters_def Let_def dom_drop_before map_inc_def
      map_addf_def split: if_splits)

lemma wrap64_add: "wrap64 (wrap64 a + b) = wrap64 (a + b)"
proof -
  have "(wrap64 a + b + 2 ^ 63) mod 2 ^ 64 = ((a + 2 ^ 63) mod 2 ^ 64 + b) mod 2 ^ 64" by (simp add: wrap64_def)
  also have "\<dots> = (a + b + 2 ^ 63) mod 2 ^ 64" by (subst mod_add_left_eq) (simp add: ac_simps)
  finally show ?thesis by (simp add: wrap64_def)
qed

definition map_val :: "(int \<rightharpoonup> int) \<Rightarrow> int \<Rightarrow> int" where
  "map_val m k = (case m k of None \<Rightarrow> 0 | Some v \<Rightarrow> v)"

text \<open>The loop computes the sum over the last day, modulo the width of the counter.\<close>

lemma rolling_sum_eq: "rolling_sum m now = wrap64 (\<Sum>i<1440. map_val m (minute_key now - int i))"
proof -
  have "fold (\<lambda>i total. case m (minute_key now - int i) of None \<Rightarrow> total | Some v \<Rightarrow> wrap64 (total + v)) [0..<n] 0 =
    wrap64 (\<Sum>i<n. map_val m (minute_key now - int i))" for n
  proof (induction n)
    case 0
    then show ?case by (simp add: wrap64_def)
  next
    case (Suc n)
    then show ?case by (simp add: map_val_def wrap64_add split: option.split)
  qed
  then show ?thesis by (simp add: rolling_sum_def)
qed

lemma sum_bump:
  "(\<Sum>i<1440. map_val (map_inc m mk) (mk - int i)) =
   wrap64 (map_val m mk + 1) - map_val m mk + (\<Sum>i<1440. map_val m (mk - int i))"
proof -
  have f: "map_val (map_inc m mk) (mk - int i) =
    (if i = 0 then wrap64 (map_val m mk + 1) else map_val m (mk - int i))" if "i < 1440" for i
    using that by (simp add: map_val_def map_inc_def)
  have "(\<Sum>i<1440. map_val (map_inc m mk) (mk - int i)) =
    (\<Sum>i<1440. if i = 0 then wrap64 (map_val m mk + 1) else map_val m (mk - int i))"
    by (rule sum.cong) (simp_all add: f)
  also have "\<dots> = wrap64 (map_val m mk + 1) + (\<Sum>i\<in>{1..<1440}. map_val m (mk - int i))"
    by (subst lessThan_atLeast0, subst sum.atLeast_Suc_lessThan) (auto intro!: sum.cong)
  also have "(\<Sum>i\<in>{1..<1440}. map_val m (mk - int i)) = (\<Sum>i<1440. map_val m (mk - int i)) - map_val m mk"
    by (subst lessThan_atLeast0, subst (2) sum.atLeast_Suc_lessThan) auto
  finally show ?thesis by simp
qed

lemma sum_keep: "(\<Sum>i<1440. map_val (drop_before (mk - 1440) m) (mk - int i)) = (\<Sum>i<1440. map_val m (mk - int i))"
  by (rule sum.cong) (simp_all add: map_val_def drop_before_def)

lemma wrap64_bump: "wrap64 (wrap64 (a + 1) - a + s) = wrap64 (wrap64 s + 1)"
proof -
  have "wrap64 (wrap64 (a + 1) - a + s) = wrap64 (wrap64 (a + 1) + (s - a))" by (simp add: algebra_simps)
  also have "\<dots> = wrap64 (a + 1 + (s - a))" by (rule wrap64_add)
  also have "\<dots> = wrap64 (s + 1)" by (simp add: add.commute)
  also have "\<dots> = wrap64 (wrap64 s + 1)" by (rule wrap64_add [symmetric])
  finally show ?thesis .
qed

text \<open>
  C39: recording a share keeps the rolling counters to the window of one day, and adds one to
  exactly the sum of its kind that \<open>GetRollingShares\<close> reports: valid, stale or invalid.
\<close>

theorem rolling_counters_day:
  assumes "rolling_not_after now st"
  shows "rolling_window now (updateRollingCounters now d isStale isInvalid st) \<and>
    GetRollingShares now (updateRollingCounters now d isStale isInvalid st) =
      (case GetRollingShares now st of (valid, stale, invalid) \<Rightarrow>
         if isStale then (valid, wrap64 (stale + 1), invalid)
         else if isInvalid then (valid, stale, wrap64 (invalid + 1))
         else (wrap64 (valid + 1), stale, invalid))"
  using window_update [OF assms]
  by (simp add: GetRollingShares_def rolling_sum_eq updateRollingCounters_def Let_def sum_bump sum_keep wrap64_bump)

theorem rolling_counters_day_witness:
  "GetRollingShares 600000000000 (updateRollingCounters 600000000000 (Fin 5) False False empty_stats) = (1, 0, 0) \<and>
   rolling_window 600000000000 (updateRollingCounters 600000000000 (Fin 5) False False empty_stats)"
proof -
  have "rolling_not_after 600000000000 empty_stats" by (simp add: rolling_not_after_def empty_stats_def)
  moreover have "GetRollingShares 600000000000 empty_stats = (0, 0, 0)"
    by (simp add: GetRollingShares_def rolling_sum_eq map_val_def empty_stats_def wrap64_def)
  ultimately show ?thesis using rolling_counters_day [of 600000000000 empty_stats "Fin 5" False False]
    by (simp add: wrap64_def)
qed

subsection \<open>Variable difficulty without counted shares\<close>

text \<open>A tracker in its first window that has counted no share: nothing in the source counts one.\<close>

definition vd_idle :: "work_stats \<Rightarrow> bool" where
  "vd_idle v \<longleftrightarrow> VarDiffSharesFound v = 0 \<and> VarDiffWindow v = 0"

lemma f64_of_int_0: "f64_of_int 0 = Fin 0"
  by (simp add: f64_of_int_def f64_round_def f64_zero_def)

text \<open>The remaining time in a window, as the thread sees it.\<close>

lemma vd_first_window: "vd_windows ! 0 = 1" "vd_tolerances ! 0 = Fin 1"
  by (simp_all add: vd_windows_def vd_tolerances_def)

lemma f64_round_0 [simp]: "f64_round neg 0 = f64_zero neg"
  by (simp add: f64_round_def)

lemma f64_two: "f64_add (Fin 1) (Fin 1) = Fin 2"
proof -
  have "f64_round False 2 = f64_of_int 2" by (simp add: f64_of_int_def)
  then show ?thesis using f64_of_int_exact [of 2] by simp
qed

lemma f64_double:
  assumes "0 < L" "L < 2 ^ 52"
  shows "f64_mul (Fin (of_int L)) (Fin 2) = Fin (of_int (L * 2))"
proof -
  have "f64_mul (Fin (of_int L)) (Fin 2) = f64_of_int (L * 2)" using assms(1) by (simp add: f64_of_int_def)
  also have "\<dots> = Fin (of_int (L * 2))" by (rule f64_of_int_exact) (use assms in auto)
  finally show ?thesis .
qed

text \<open>Zero shares over at least a minute are a rate of zero, and the factor becomes 0.1.\<close>

lemma zero_rate_factor:
  assumes "f64_le (Fin 1) d" "0 < L"
  shows "f64_max (f64_div (f64_div (Fin 0) d) (Fin L)) (f64_lit (1 / 10)) = f64_lit (1 / 10)"
proof -
  have "f64_div (Fin 0) d = Fin 0"
    using assms(1) by (cases d) (auto simp: f64_le_def f64_zero_def)
  then have "f64_div (f64_div (Fin 0) d) (Fin L) = Fin 0" using assms(2) by (simp add: f64_zero_def)
  moreover have "f64_max (Fin 0) (Fin tenth) = Fin tenth" by (simp add: f64_max_def tenth_def)
  ultimately show ?thesis by (simp only: f64_lit_tenth)
qed

text \<open>
  C40: with the share counter of the tracker at zero, which no code changes, the variable
  difficulty can only fall: each decision of the thread keeps the difficulty or multiplies it by
  0.1, and the tracker never leaves its first window.
\<close>

theorem vardiff_only_lowers:
  assumes "vd_idle v" "0 < expected" "uint expected < 2 ^ 52"
  shows "vd_idle (vardiff_step now expected v) \<and>
    (MinDiff (vardiff_step now expected v) = MinDiff v \<or>
     MinDiff (vardiff_step now expected v) = f64_mul (MinDiff v) (f64_lit (1 / 10)))"
proof (cases "VarDiffStartTime v")
  case None
  then show ?thesis using assms(1) by (simp add: vardiff_step_def)
next
  case (Some start)
  define d where "d = minutes_since now start"
  define n where "n = uint expected"
  have n: "0 < n" "n < 2 ^ 52" using assms(2,3) by (simp_all add: n_def word_less_def)
  have nf: "f64_of_int n = Fin (of_int n)" using n by (intro f64_of_int_exact) auto
  have lim: "uint (word_of_int 1 * expected) = n" by (simp add: n_def)
  have upper: "\<not> f64_le (f64_mul (Fin (of_int n)) (f64_add (Fin 1) (Fin 1))) (Fin 0)"
    unfolding f64_two f64_double [OF n] using n(1) by (simp add: f64_le_def)
  have lower: "f64_le (Fin 0) (f64_mul (Fin (of_int n)) (f64_sub (Fin 1) (Fin 1)))"
    using n(1) by (simp add: f64_sub_def f64_zero_def f64_le_def)
  have one: "f64_of_int 1 = Fin 1" using f64_of_int_exact [of 1] by simp
  have "vardiff_step now expected v =
    (if f64_le (Fin 1) d then snd (updateVarDiff (f64_mul (MinDiff v) (f64_lit (1 / 10))) v) else v)"
    using assms(1) Some upper lower lim one nf n(1) zero_rate_factor [of d "of_int n"]
    by (simp add: vardiff_step_def Let_def vd_idle_def vd_first_window f64_of_int_0 d_def [symmetric] breached_def
        n_def [symmetric])
  then show ?thesis using assms(1) by (simp add: vd_idle_def updateVarDiff_def)
qed

theorem vardiff_only_lowers_witness:
  "let v = empty_stats\<lparr>VarDiffStartTime := Some 0, MinDiff := Fin 8\<rparr>
   in vd_idle (vardiff_step 120000000000 15 v) \<and>
      (MinDiff (vardiff_step 120000000000 15 v) = Fin 8 \<or>
       MinDiff (vardiff_step 120000000000 15 v) = f64_mul (Fin 8) (f64_lit (1 / 10)))"
  using vardiff_only_lowers [of "empty_stats\<lparr>VarDiffStartTime := Some 0, MinDiff := Fin 8\<rparr>" 15 120000000000]
  by (simp add: vd_idle_def empty_stats_def)

text \<open>A wallet is banned after more than ten reports.\<close>

lemma AddressBanned_TryToBan:
  "AddressBanned a (TryToBan b bans) =
     (if a = b then (case find (\<lambda>x. ban_Address x = a) bans of None \<Rightarrow> False | Some x \<Rightarrow> 10 < wrap64 (ban_Times x + 1))
      else AddressBanned a bans)"
  by (induction bans) auto

end
