(* ===== verification/Node_Types.thy ===== *)
theory Node_Types
  imports Prelude Go_Float
begin

text \<open>
  The node's message types (\<open>appmessage\<close>) as far as the bridge reads them: a block with its
  header, its transactions and its verbose data. The types belong to the node's library; only
  the fields used under \<open>src/\<close> are kept, at the widths the sources use them with. Pointers that
  the sources compare with nil are options.
\<close>

record rpc_header =
  h_Version :: "32 word"
  h_Parents :: "string list list"
  h_HashMerkleRoot :: string
  h_AcceptedIDMerkleRoot :: string
  h_UTXOCommitment :: string
  h_Timestamp :: int
  h_Bits :: "32 word"
  h_Nonce :: "64 word"
  h_DAAScore :: "64 word"
  h_BlueScore :: "64 word"
  h_BlueWork :: string
  h_PruningPoint :: string

record rpc_output =
  o_Amount :: "64 word"
  o_Address :: "string option" \<comment> \<open>\<open>VerboseData.ScriptPublicKeyAddress\<close>, None for a nil \<open>VerboseData\<close>\<close>

record rpc_tx =
  t_Payload :: string
  t_Outputs :: "rpc_output option list"

record rpc_verbose =
  v_Hash :: string
  v_IsChainBlock :: bool
  v_BlueScore :: "64 word"
  v_SelectedParentHash :: string
  v_MergeSetBluesHashes :: "string list"
  v_MergeSetRedsHashes :: "string list"

record rpc_block =
  b_Header :: rpc_header
  b_Transactions :: "rpc_tx option list"
  b_VerboseData :: "rpc_verbose option"

text \<open>
  The node's consensus types: a hash is its 32 bytes; of a header the fields that the proof of
  work and the share handler touch, the others (\<open>dh_Other\<close>, \<open>db_Transactions\<close>) are only passed on.
\<close>

record domain_header =
  dh_Version :: "16 word"
  dh_Bits :: "32 word"
  dh_TimeInMilliseconds :: int
  dh_Nonce :: "64 word"
  dh_BlueScore :: "64 word"
  dh_DirectParents :: "bytes list"
  dh_Other :: bytes

record domain_block =
  db_Header :: domain_header
  db_Transactions :: bytes
  db_PoWHash :: string

text \<open>
  The functions of the node's library that the bridge calls. They are not part of the repository:
  a value of this type is a parameter of the definitions that use them.
\<close>

record node_lib =
  CompactToBig :: "32 word \<Rightarrow> int"
  HeaderHash :: "domain_header \<Rightarrow> bytes"
  Blake3Hash :: "bytes \<Rightarrow> bytes" \<comment> \<open>\<open>hashes.Blake3HashWriter\<close>, written to and finalized\<close>
  PoWHash :: "bytes \<Rightarrow> bytes" \<comment> \<open>\<open>hashes.PoWHashWriter\<close>\<close>
  HeavyHash :: "bytes \<Rightarrow> bytes" \<comment> \<open>\<open>hashes.BlakeHeavyHashWriter\<close>\<close>
  WriteInt64 :: "int \<Rightarrow> bytes" \<comment> \<open>\<open>serialization.WriteElement\<close> of an \<open>int64\<close>\<close>
  WriteUint64 :: "64 word \<Rightarrow> bytes"
  Uint32Array :: "bytes \<Rightarrow> 32 word list"
  NewDomainHashFromString :: "string \<Rightarrow> go_error + bytes"
  HashString :: "bytes \<Rightarrow> string" \<comment> \<open>\<open>DomainHash.String\<close>\<close>
  PoWIntegrityMinVersion :: "16 word"
  RPCBlockToDomainBlock :: "rpc_block \<Rightarrow> string \<Rightarrow> go_error + domain_block"
  BlockHash :: "domain_block \<Rightarrow> bytes"
  CHoohash :: "f64 list list \<Rightarrow> bytes \<Rightarrow> 64 word \<Rightarrow> bytes" \<comment> \<open>\<open>HoohashMatrixMultiplication\<close> of \<open>libhoohash\<close>\<close>

text \<open>Digests have 32 bytes.\<close>

definition digests_32 :: "node_lib \<Rightarrow> bool" where
  "digests_32 lib \<longleftrightarrow>
     (\<forall>h. length (HeaderHash lib h) = 32) \<and> (\<forall>m. length (Blake3Hash lib m) = 32) \<and>
     (\<forall>m. length (PoWHash lib m) = 32) \<and> (\<forall>m. length (HeavyHash lib m) = 32)"

text \<open>A library for examples: digests are the message cut or padded to 32 bytes.\<close>

definition sample_digest :: "bytes \<Rightarrow> bytes" where
  "sample_digest m = take 32 (m @ replicate 32 0)"

definition sample_lib :: node_lib where
  "sample_lib =
     \<lparr>CompactToBig = (\<lambda>b. uint b), HeaderHash = (\<lambda>h. sample_digest (dh_Other h)),
      Blake3Hash = sample_digest, PoWHash = sample_digest, HeavyHash = sample_digest,
      WriteInt64 = (\<lambda>n. []), WriteUint64 = (\<lambda>n. []), Uint32Array = (\<lambda>h. replicate 8 0),
      NewDomainHashFromString = (\<lambda>s. Inr (sample_digest [])), HashString = (\<lambda>h. []),
      PoWIntegrityMinVersion = 5, RPCBlockToDomainBlock = (\<lambda>b p. Inl (ErrMsg ''bad block'')),
      BlockHash = (\<lambda>b. sample_digest []), CHoohash = (\<lambda>m h n. h)\<rparr>"

lemma digests_32_sample: "digests_32 sample_lib"
  by (auto simp: digests_32_def sample_lib_def sample_digest_def min_def)

end
