(* ===== verification/Mining_State.thy ===== *)
theory Mining_State
  imports Node_Types Go_Float
begin

text \<open>
  The per-connection job store of \<open>src/htnstratum/mining_state.go\<close>: a ring of
  \<open>maxjobs = 32\<close> slots addressed by the job id modulo 32, and the set of block hashes that
  were handed out as bridge-fee jobs (\<open>FeeJobs\<close>, a map whose stored values are always true).
  \<open>AddJob\<close> hands out increasing ids and overwrites the oldest slot; \<open>GetJob\<close>,
  \<open>RemoveJob\<close> and \<open>IsFeeJob\<close> address the ring by id or by block hash. The mutex
  \<open>JobLock\<close> makes each of them one atomic step.
\<close>

definition maxjobs :: int where
  "maxjobs = 32"

text \<open>The three representations of a difficulty (\<open>hasher.go\<close>); \<open>targetValue\<close> may be nil.\<close>

record hoosatDiff =
  hashValue :: f64
  diffValue :: f64
  targetValue :: "int option"

record mining_state =
  Jobs :: "int \<rightharpoonup> rpc_block option"
  FeeJobs :: "string \<rightharpoonup> bool"
  jobCounter :: int
  bigDiff :: int
  initialized :: bool
  useBigJob :: bool
  connectTime :: int
  stratumDiff :: "hoosatDiff option"

definition MiningStateGenerator :: "int \<Rightarrow> mining_state" where
  "MiningStateGenerator now =
     \<lparr>Jobs = Map.empty, FeeJobs = Map.empty, jobCounter = 0, bigDiff = 0, initialized = False,
      useBigJob = False, connectTime = now, stratumDiff = None\<rparr>"

text \<open>\<open>Jobs[k]\<close> as an expression: a missing key reads as nil.\<close>

definition slot :: "mining_state \<Rightarrow> int \<Rightarrow> rpc_block option" where
  "slot ms k = (case Jobs ms k of None \<Rightarrow> None | Some b \<Rightarrow> b)"

definition block_hash :: "rpc_block option \<Rightarrow> string option" where
  "block_hash b = (case b of None \<Rightarrow> None | Some b \<Rightarrow> map_option v_Hash (b_VerboseData b))"

text \<open>Deleting the fee mark of a block, when there is a block with verbose data.\<close>

definition drop_fee_mark :: "rpc_block option \<Rightarrow> (string \<rightharpoonup> bool) \<Rightarrow> (string \<rightharpoonup> bool)" where
  "drop_fee_mark b fj = (case block_hash b of None \<Rightarrow> fj | Some h \<Rightarrow> fj(h := None))"

definition AddJob :: "mining_state \<Rightarrow> rpc_block option \<Rightarrow> bool \<Rightarrow> int \<times> mining_state" where
  "AddJob ms job isFeeJob =
     (let idx = wrap64 (jobCounter ms + 1);
          k = go_rem idx maxjobs;
          fj1 = drop_fee_mark (slot ms k) (FeeJobs ms);
          fj2 = (case block_hash job of
                   None \<Rightarrow> fj1
                 | Some h \<Rightarrow>
                     if isFeeJob then fj1(h \<mapsto> True)
                     else if fj1 h = None then fj1(h := None) else fj1)
      in (idx, ms\<lparr>jobCounter := idx, Jobs := (Jobs ms)(k \<mapsto> job), FeeJobs := fj2\<rparr>))"

definition GetJob :: "mining_state \<Rightarrow> int \<Rightarrow> rpc_block option option" where
  "GetJob ms ident = Jobs ms (go_rem ident maxjobs)"

definition IsFeeJob :: "mining_state \<Rightarrow> rpc_block option \<Rightarrow> bool" where
  "IsFeeJob ms block =
     (case block_hash block of
        None \<Rightarrow> False
      | Some h \<Rightarrow> (case FeeJobs ms h of None \<Rightarrow> False | Some v \<Rightarrow> v))"

definition RemoveJob :: "mining_state \<Rightarrow> int \<Rightarrow> mining_state" where
  "RemoveJob ms ident =
     (let k = go_rem ident maxjobs
      in ms\<lparr>FeeJobs := drop_fee_mark (slot ms k) (FeeJobs ms), Jobs := (Jobs ms)(k := None)\<rparr>)"

definition ClearJobs :: "mining_state \<Rightarrow> mining_state" where
  "ClearJobs ms = ms\<lparr>Jobs := Map.empty, FeeJobs := Map.empty\<rparr>"

subsection \<open>The store as a sequence of operations\<close>

datatype job_op = OpAdd "rpc_block option" bool | OpRemove int | OpClear

fun job_step :: "job_op \<Rightarrow> mining_state \<Rightarrow> mining_state" where
  "job_step (OpAdd b f) ms = snd (AddJob ms b f)"
| "job_step (OpRemove i) ms = RemoveJob ms i"
| "job_step OpClear ms = ClearJobs ms"

definition job_run :: "job_op list \<Rightarrow> mining_state \<Rightarrow> mining_state" where
  "job_run ops ms = fold job_step ops ms"

text \<open>
  The invariant: only ring slots are occupied, every fee mark belongs to a block that is still
  in the ring, and every stored mark is true. Slots below zero would need a job counter that
  has wrapped around past \<open>2^63\<close>.
\<close>

definition ring_slots :: "int set" where
  "ring_slots = {- 31 .. 31}"

definition live_hashes :: "mining_state \<Rightarrow> string set" where
  "live_hashes ms = {h. \<exists>k. block_hash (slot ms k) = Some h}"

definition job_inv :: "mining_state \<Rightarrow> bool" where
  "job_inv ms \<longleftrightarrow>
     dom (Jobs ms) \<subseteq> ring_slots \<and> dom (FeeJobs ms) \<subseteq> live_hashes ms \<and> ran (FeeJobs ms) \<subseteq> {True}"

text \<open>The number of jobs an operation sequence adds, and the ids it may remove.\<close>

fun adds :: "job_op list \<Rightarrow> int" where
  "adds [] = 0"
| "adds (OpAdd b f # ops) = 1 + adds ops"
| "adds (OpRemove i # ops) = adds ops"
| "adds (OpClear # ops) = adds ops"

fun spares :: "int \<Rightarrow> job_op \<Rightarrow> bool" where
  "spares i (OpAdd b f) = True"
| "spares i (OpRemove j) = (go_rem j maxjobs \<noteq> go_rem i maxjobs)"
| "spares i OpClear = False"

subsection \<open>The contract of an id-addressed ring\<close>

text \<open>
  What the stratum handlers rely on: ids count up by one, an addition is visible under its id
  and hides exactly the job whose id is congruent modulo the capacity, a removal hides exactly
  the jobs congruent to its argument. The laws hold while the counter has room below \<open>lim\<close>.
\<close>

locale job_ring =
  fixes add :: "'s \<Rightarrow> 'b \<Rightarrow> bool \<Rightarrow> int \<times> 's"
    and get :: "'s \<Rightarrow> int \<Rightarrow> 'b option"
    and remove :: "'s \<Rightarrow> int \<Rightarrow> 's"
    and last_id :: "'s \<Rightarrow> int"
    and cap :: int
    and lim :: int
  assumes cap_pos: "0 < cap"
    and add_id: "0 \<le> last_id s \<Longrightarrow> last_id s + 1 < lim \<Longrightarrow> fst (add s b f) = last_id s + 1"
    and add_last: "0 \<le> last_id s \<Longrightarrow> last_id s + 1 < lim \<Longrightarrow> last_id (snd (add s b f)) = last_id s + 1"
    and get_add: "0 \<le> last_id s \<Longrightarrow> last_id s + 1 < lim \<Longrightarrow> 0 \<le> i \<Longrightarrow>
      get (snd (add s b f)) i = (if i mod cap = (last_id s + 1) mod cap then Some b else get s i)"
    and get_remove: "0 \<le> i \<Longrightarrow> 0 \<le> j \<Longrightarrow>
      get (remove s j) i = (if i mod cap = j mod cap then None else get s i)"
    and remove_last: "last_id (remove s j) = last_id s"
begin

lemma get_new: "0 \<le> last_id s \<Longrightarrow> last_id s + 1 < lim \<Longrightarrow> add s b f = (i, s') \<Longrightarrow> get s' i = Some b"
  using get_add [of s "last_id s + 1" b f] add_id [of s b f] by auto

text \<open>An addition leaves the jobs younger than the capacity alone.\<close>

lemma get_add_recent:
  assumes "0 \<le> last_id s" "last_id s + 1 < lim" "0 < i" "i \<le> last_id s" "last_id s + 1 < i + cap"
  shows "get (snd (add s b f)) i = get s i"
proof -
  have "(last_id s + 1 - i) mod cap = last_id s + 1 - i"
    using assms by (intro mod_pos_pos_trivial) auto
  then have "i mod cap \<noteq> (last_id s + 1) mod cap"
    using assms(4) by (metis diff_gt_0_iff_gt less_add_one less_irrefl mod_eq_dvd_iff mod_0_imp_dvd
        dvd_imp_mod_0 order_le_less_trans)
  then show ?thesis using assms by (simp add: get_add)
qed

lemma get_removed: "0 \<le> i \<Longrightarrow> get (remove s i) i = None"
  by (simp add: get_remove)

end

subsection \<open>The bridge's job store is such a ring\<close>

lemma Jobs_AddJob:
  "Jobs (snd (AddJob ms b f)) = (Jobs ms)(go_rem (wrap64 (jobCounter ms + 1)) maxjobs \<mapsto> b)"
  by (simp add: AddJob_def Let_def)

lemma jobCounter_AddJob [simp]: "jobCounter (snd (AddJob ms b f)) = wrap64 (jobCounter ms + 1)"
  by (simp add: AddJob_def Let_def)

lemma fst_AddJob [simp]: "fst (AddJob ms b f) = wrap64 (jobCounter ms + 1)"
  by (simp add: AddJob_def Let_def)

lemma RemoveJob_fields [simp]:
  "jobCounter (RemoveJob ms i) = jobCounter ms"
  "Jobs (RemoveJob ms i) = (Jobs ms)(go_rem i maxjobs := None)"
  "stratumDiff (RemoveJob ms i) = stratumDiff ms"
  "useBigJob (RemoveJob ms i) = useBigJob ms"
  by (simp_all add: RemoveJob_def Let_def)

interpretation jobs: job_ring AddJob GetJob RemoveJob jobCounter maxjobs "2 ^ 63"
proof unfold_locales
  show "0 < maxjobs" by (simp add: maxjobs_def)
next
  fix s :: mining_state and b f assume "0 \<le> jobCounter s" "jobCounter s + 1 < 2 ^ 63"
  then have w: "wrap64 (jobCounter s + 1) = jobCounter s + 1" by (intro wrap64_id) auto
  then show "fst (AddJob s b f) = jobCounter s + 1" "jobCounter (snd (AddJob s b f)) = jobCounter s + 1"
    by simp_all
  fix i :: int assume "0 \<le> i"
  then show "GetJob (snd (AddJob s b f)) i =
      (if i mod maxjobs = (jobCounter s + 1) mod maxjobs then Some b else GetJob s i)"
    using \<open>0 \<le> jobCounter s\<close>
    by (simp add: GetJob_def Jobs_AddJob w go_rem_nonneg maxjobs_def)
next
  fix s :: mining_state and i j assume "0 \<le> (i::int)" "0 \<le> (j::int)"
  then show "GetJob (RemoveJob s j) i = (if i mod maxjobs = j mod maxjobs then None else GetJob s i)"
    by (simp add: GetJob_def go_rem_nonneg maxjobs_def)
next
  fix s :: mining_state and j show "jobCounter (RemoveJob s j) = jobCounter s" by simp
qed


subsection \<open>Invariant\<close>

lemma block_hash_None [simp]: "block_hash None = None"
  by (simp add: block_hash_def)

lemma slot_upd: "slot (ms\<lparr>Jobs := (Jobs ms)(k := v)\<rparr>) k' = (if k' = k then (case v of None \<Rightarrow> None | Some b \<Rightarrow> b) else slot ms k')"
  by (simp add: slot_def)

lemma slot_AddJob: "slot (snd (AddJob ms b f)) k = (if k = go_rem (wrap64 (jobCounter ms + 1)) maxjobs then b else slot ms k)"
  by (simp add: slot_def Jobs_AddJob)

lemma slot_RemoveJob: "slot (RemoveJob ms i) k = (if k = go_rem i maxjobs then None else slot ms k)"
  by (simp add: slot_def)

lemma drop_fee_mark_simps:
  "dom (drop_fee_mark b fj) = dom fj - set_option (block_hash b)"
  "ran (drop_fee_mark b fj) \<subseteq> ran fj"
  by (auto simp: drop_fee_mark_def ran_def split: option.splits)

lemma FeeJobs_AddJob:
  "FeeJobs (snd (AddJob ms b f)) =
     (let fj = drop_fee_mark (slot ms (go_rem (wrap64 (jobCounter ms + 1)) maxjobs)) (FeeJobs ms)
      in if f then (case block_hash b of None \<Rightarrow> fj | Some h \<Rightarrow> fj(h \<mapsto> True)) else fj)"
  by (auto simp: AddJob_def Let_def fun_upd_idem split: option.splits)

lemma ran_FeeJobs_AddJob: "ran (FeeJobs (snd (AddJob ms b f))) \<subseteq> insert True (ran (FeeJobs ms))"
proof -
  define fj where "fj = drop_fee_mark (slot ms (go_rem (wrap64 (jobCounter ms + 1)) maxjobs)) (FeeJobs ms)"
  have "ran (FeeJobs (snd (AddJob ms b f))) \<subseteq> insert True (ran fj)"
    by (cases "block_hash b") (simp_all add: FeeJobs_AddJob fj_def [symmetric] Let_def ran_upd_subset
        subset_insertI)
  then show ?thesis using drop_fee_mark_simps(2) by (force simp: fj_def)
qed

lemma go_rem_ring: "go_rem i maxjobs \<in> ring_slots"
  using go_rem_bounds [of maxjobs i] by (simp add: ring_slots_def maxjobs_def)

text \<open>Marks whose hash sits in a slot other than \<open>k\<close> survive replacing slot \<open>k\<close>.\<close>

lemma live_after_drop:
  assumes "dom fj \<subseteq> live_hashes ms" "h \<in> dom (drop_fee_mark (slot ms k) fj)"
  obtains k' where "k' \<noteq> k" "block_hash (slot ms k') = Some h"
proof -
  from assms have "h \<in> live_hashes ms" and ne: "block_hash (slot ms k) \<noteq> Some h"
    by (auto simp: drop_fee_mark_simps)
  then obtain k' where "block_hash (slot ms k') = Some h" by (auto simp: live_hashes_def)
  with ne show ?thesis using that by metis
qed

lemma job_inv_AddJob [bridge_inv]:
  assumes "job_inv ms"
  shows "job_inv (snd (AddJob ms b f))"
  unfolding job_inv_def
proof (intro conjI subsetI)
  define k where "k = go_rem (wrap64 (jobCounter ms + 1)) maxjobs"
  show "x \<in> ring_slots" if "x \<in> dom (Jobs (snd (AddJob ms b f)))" for x
    using that assms go_rem_ring by (auto simp: Jobs_AddJob job_inv_def split: if_splits)
  show "v \<in> {True}" if "v \<in> ran (FeeJobs (snd (AddJob ms b f)))" for v
    using that assms ran_FeeJobs_AddJob [of ms b f] by (auto simp: job_inv_def)
  fix h assume h: "h \<in> dom (FeeJobs (snd (AddJob ms b f)))"
  show "h \<in> live_hashes (snd (AddJob ms b f))"
  proof (cases "block_hash b = Some h")
    case True
    then show ?thesis by (auto simp: live_hashes_def slot_AddJob)
  next
    case False
    with h have "h \<in> dom (drop_fee_mark (slot ms k) (FeeJobs ms))"
      by (auto simp: FeeJobs_AddJob k_def [symmetric] Let_def split: if_splits option.splits)
    then obtain k' where "k' \<noteq> k" "block_hash (slot ms k') = Some h"
      using live_after_drop [of "FeeJobs ms" ms h k] assms by (auto simp: job_inv_def)
    then show ?thesis by (auto simp: live_hashes_def slot_AddJob k_def intro!: exI [of _ k'])
  qed
qed

lemma job_inv_RemoveJob [bridge_inv]:
  assumes "job_inv ms"
  shows "job_inv (RemoveJob ms i)"
proof -
  define k where "k = go_rem i maxjobs"
  have fj: "FeeJobs (RemoveJob ms i) = drop_fee_mark (slot ms k) (FeeJobs ms)"
    by (simp add: RemoveJob_def k_def Let_def)
  have "h \<in> live_hashes (RemoveJob ms i)" if "h \<in> dom (FeeJobs (RemoveJob ms i))" for h
  proof -
    from that obtain k' where "k' \<noteq> k" "block_hash (slot ms k') = Some h"
      using live_after_drop [of "FeeJobs ms" ms h k] assms by (auto simp: job_inv_def fj)
    then show ?thesis by (auto simp: live_hashes_def slot_RemoveJob k_def intro!: exI [of _ k'])
  qed
  then show ?thesis
    using assms drop_fee_mark_simps(2) [of "slot ms k" "FeeJobs ms"]
    by (auto simp: job_inv_def fj k_def [symmetric])
qed

lemma job_inv_ClearJobs [bridge_inv]: "job_inv (ClearJobs ms)"
  by (simp add: job_inv_def ClearJobs_def)

lemma job_inv_init [bridge_inv]: "job_inv (MiningStateGenerator now)"
  by (simp add: job_inv_def MiningStateGenerator_def)

lemma job_inv_step: "job_inv ms \<Longrightarrow> job_inv (job_step op ms)"
  by (cases op) (simp_all add: bridge_inv)

lemma job_run_simps [simp]:
  "job_run [] ms = ms" "job_run (op # ops) ms = job_run ops (job_step op ms)"
  by (simp_all add: job_run_def)

lemma job_inv_run: "job_inv ms \<Longrightarrow> job_inv (job_run ops ms)"
  by (induction ops arbitrary: ms) (simp_all add: job_inv_step)

text \<open>The nonnegative half of the ring, as long as the counter has not wrapped.\<close>

definition ring_low :: "mining_state \<Rightarrow> bool" where
  "ring_low ms \<longleftrightarrow> 0 \<le> jobCounter ms \<and> dom (Jobs ms) \<subseteq> {0 .. 31}"

lemma adds_nonneg: "0 \<le> adds ops"
  by (induction ops rule: adds.induct) auto

lemma ring_low_run:
  "ring_low ms \<Longrightarrow> jobCounter ms + adds ops < 2 ^ 63 \<Longrightarrow> ring_low (job_run ops ms)"
proof (induction ops arbitrary: ms rule: adds.induct)
  case (2 b f ops)
  have room: "jobCounter ms + 1 < 2 ^ 63" using "2.prems" adds_nonneg [of ops] by simp
  have w: "wrap64 (jobCounter ms + 1) = jobCounter ms + 1"
    using "2.prems" room by (intro wrap64_id) (auto simp: ring_low_def)
  have "ring_low (snd (AddJob ms b f))"
    using "2.prems"(1) by (auto simp: ring_low_def Jobs_AddJob w go_rem_nonneg maxjobs_def)
  then show ?case using "2.IH" "2.prems" w by simp
next
  case (3 i ops)
  have "ring_low (RemoveJob ms i)" using "3.prems"(1) by (auto simp: ring_low_def)
  then show ?case using "3.IH" "3.prems" by simp
next
  case (4 ops)
  have "ring_low (ClearJobs ms)" using "4.prems"(1) by (auto simp: ring_low_def ClearJobs_def)
  then show ?case using "4.IH" "4.prems" by (simp add: ClearJobs_def)
qed simp

lemma finite_live_hashes: "ring_low ms \<Longrightarrow> finite (live_hashes ms) \<and> card (live_hashes ms) \<le> 32"
proof -
  assume r: "ring_low ms"
  have "live_hashes ms \<subseteq> (\<lambda>k. the (block_hash (slot ms k))) ` {0 .. 31}"
  proof
    fix h assume "h \<in> live_hashes ms"
    then obtain k where k: "block_hash (slot ms k) = Some h" by (auto simp: live_hashes_def)
    then have "k \<in> dom (Jobs ms)" by (auto simp: slot_def split: option.splits)
    then show "h \<in> (\<lambda>k. the (block_hash (slot ms k))) ` {0 .. 31}"
      using r k by (force simp: ring_low_def)
  qed
  moreover have "card ((\<lambda>k. the (block_hash (slot ms k))) ` {0 .. 31}) \<le> 32"
    using card_image_le [of "{0 .. 31::int}" "\<lambda>k. the (block_hash (slot ms k))"] by simp
  ultimately show ?thesis
    by (meson card_mono finite_atLeastAtMost_int finite_imageI finite_subset order_trans)
qed


text \<open>Keeping a handed-out job through further operations: the client side of the contract.\<close>

lemma job_kept:
  assumes "0 < i" "i \<le> jobCounter ms" "jobCounter ms + adds ops < i + maxjobs"
    "jobCounter ms + adds ops < 2 ^ 63" "list_all (spares i) ops" "GetJob ms i = Some b"
  shows "GetJob (job_run ops ms) i = Some b"
  using assms
proof (induction ops arbitrary: ms rule: adds.induct)
  case (2 c f ops)
  have a: "0 \<le> adds ops" by (rule adds_nonneg)
  have lst: "jobCounter (snd (AddJob ms c f)) = jobCounter ms + 1"
    using "2.prems" a by (intro jobs.add_last) auto
  have "GetJob (snd (AddJob ms c f)) i = Some b"
    using "2.prems" a by (subst jobs.get_add_recent) auto
  then show ?case using "2.IH" [of "snd (AddJob ms c f)"] "2.prems" lst
    by (simp del: jobCounter_AddJob)
next
  case (3 j ops)
  then have "GetJob (RemoveJob ms j) i = Some b" by (simp add: GetJob_def)
  then show ?case using 3 by simp
qed auto

text \<open>A fee mark survives an operation unless a slot holding its hash is replaced or removed.\<close>

lemma IsFeeJob_iff: "job_inv ms \<Longrightarrow> IsFeeJob ms b \<longleftrightarrow> (\<exists>h. block_hash b = Some h \<and> h \<in> dom (FeeJobs ms))"
  by (auto simp: IsFeeJob_def job_inv_def ran_def dom_def split: option.splits)

lemma IsFeeJob_AddJob:
  assumes "job_inv ms"
  shows "IsFeeJob (snd (AddJob ms b f)) c \<longleftrightarrow>
    (\<exists>h. block_hash c = Some h \<and>
      (f \<and> block_hash b = Some h \<or>
       IsFeeJob ms c \<and> block_hash (slot ms (go_rem (wrap64 (jobCounter ms + 1)) maxjobs)) \<noteq> Some h))"
proof -
  define o1 where "o1 = slot ms (go_rem (wrap64 (jobCounter ms + 1)) maxjobs)"
  have "dom (FeeJobs (snd (AddJob ms b f))) =
      (dom (FeeJobs ms) - set_option (block_hash o1)) \<union> (if f then set_option (block_hash b) else {})"
    by (cases "block_hash b") (auto simp: FeeJobs_AddJob o1_def [symmetric] Let_def drop_fee_mark_simps)
  then show ?thesis
    unfolding IsFeeJob_iff [OF job_inv_AddJob [OF assms]] IsFeeJob_iff [OF assms] o1_def [symmetric]
    by (auto split: if_splits)
qed

subsection \<open>Properties\<close>

text \<open>
  C18: a job handed out by \<open>AddJob\<close> stays retrievable under its id. After any sequence of
  further operations that adds fewer than 32 jobs, removes no job in the same ring slot and does
  not clear the store, \<open>GetJob\<close> under the id still returns the very block that was added.
\<close>

theorem AddJob_GetJob_kept:
  assumes "AddJob ms b f = (i, ms')" "0 \<le> jobCounter ms" "jobCounter ms + 1 + adds ops < 2 ^ 63"
    "adds ops < maxjobs" "list_all (spares i) ops"
  shows "GetJob (job_run ops ms') i = Some b"
proof -
  have room: "jobCounter ms + 1 < 2 ^ 63" using assms(3) adds_nonneg [of ops] by linarith
  have i: "i = jobCounter ms + 1" "jobCounter ms' = jobCounter ms + 1"
    using assms(1,2) jobs.add_id [of ms b f] jobs.add_last [of ms b f] room by auto
  have "GetJob ms' i = Some b" using jobs.get_new [OF assms(2) room assms(1)] .
  then show ?thesis using assms(2-5) i by (intro job_kept) auto
qed

theorem AddJob_GetJob_kept_witness:
  "GetJob (job_run [OpAdd None True, OpRemove 2] (snd (AddJob (MiningStateGenerator 0) None False))) 1 = Some None"
  by (rule AddJob_GetJob_kept [of "MiningStateGenerator 0" None False])
    (simp_all add: AddJob_def MiningStateGenerator_def wrap64_def Let_def maxjobs_def go_rem_def)

text \<open>
  C19: memory of the job store is bounded. Whatever sequence of operations a connection performs
  (fewer than \<open>2^63\<close> additions), at most 32 ring slots are occupied, every fee mark belongs to a
  block still in the ring, and hence at most 32 fee marks are retained.
\<close>

theorem job_store_bounded:
  assumes "adds ops < 2 ^ 63"
  shows "let ms = job_run ops (MiningStateGenerator now) in
    dom (Jobs ms) \<subseteq> {0 .. 31} \<and> dom (FeeJobs ms) \<subseteq> live_hashes ms \<and> card (dom (FeeJobs ms)) \<le> 32"
proof -
  define ms where "ms = job_run ops (MiningStateGenerator now)"
  have low: "ring_low ms" unfolding ms_def
    using assms(1) by (intro ring_low_run) (simp_all add: ring_low_def MiningStateGenerator_def)
  have inv: "job_inv ms" unfolding ms_def by (intro job_inv_run job_inv_init)
  then have sub: "dom (FeeJobs ms) \<subseteq> live_hashes ms" by (simp add: job_inv_def)
  have "card (dom (FeeJobs ms)) \<le> card (live_hashes ms)"
    using finite_live_hashes [OF low] sub by (intro card_mono) auto
  then show ?thesis using low sub finite_live_hashes [OF low]
    by (simp add: ring_low_def ms_def [symmetric])
qed

theorem job_store_bounded_witness:
  "card (dom (FeeJobs (job_run [OpAdd None True] (MiningStateGenerator 5)))) \<le> 32"
  using job_store_bounded [of "[OpAdd None True]" 5] by (simp add: Let_def)

text \<open>
  C3: what \<open>IsFeeJob\<close> answers after \<open>AddJob\<close>, in every reachable store: a block counts
  as a fee job exactly when it has verbose data and either the new job is a fee job with the same
  block hash, or it was marked before and the slot being reused does not hold that hash. In
  particular adding a miner job never marks a block and never clears an existing mark by itself.
\<close>

theorem IsFeeJob_after_AddJob:
  "IsFeeJob (snd (AddJob (job_run ops (MiningStateGenerator now)) b f)) c \<longleftrightarrow>
    (\<exists>h. block_hash c = Some h \<and>
      (f \<and> block_hash b = Some h \<or>
       IsFeeJob (job_run ops (MiningStateGenerator now)) c \<and>
       block_hash (slot (job_run ops (MiningStateGenerator now))
         (go_rem (wrap64 (jobCounter (job_run ops (MiningStateGenerator now)) + 1)) maxjobs)) \<noteq> Some h))"
  by (intro IsFeeJob_AddJob job_inv_run job_inv_init)

end
