(* ===== verification/Stratum_Context.thy ===== *)
theory Stratum_Context
  imports Mining_State Go_Strings
begin

text \<open>
  A stratum connection (\<open>src/gostratum/jsonrpc_event.go\<close>, \<open>stratum_context.go\<close>): the
  JSON-RPC messages, the replies with their error codes, writing with back-off, and the
  disconnection that happens once. What the socket does is the function \<open>conn\<close> from the number
  of the write attempt to its result; messages that were written are kept in \<open>sent\<close>;
  the theory \<open>Wire_Format\<close> gives their text. The goroutine that \<open>checkDisconnect\<close> starts is a pending
  disconnection, executed by \<open>run_pending\<close>. Logging is not modelled.
\<close>

subsection \<open>Messages\<close>

text \<open>
  The Go values an \<open>any\<close> of a message can hold. Numbers that arrive are doubles; the bridge also
  sends integers.
\<close>

datatype json =
    JNull
  | JBool bool
  | JNum f64
  | JInt int
  | JStr string
  | JList "json list"
  | JObj "(string \<times> json) list"

record json_rpc_event =
  ev_Id :: json
  ev_Version :: string
  ev_Method :: string
  ev_Params :: "json list"

record json_rpc_response =
  rsp_Id :: json
  rsp_Result :: json
  rsp_Error :: "json list option"

definition NewEvent :: "string \<Rightarrow> string \<Rightarrow> json list \<Rightarrow> json_rpc_event" where
  "NewEvent id0 method params =
     \<lparr>ev_Id = (if length id0 = 0 then JNull else JStr id0), ev_Version = ''2.0'', ev_Method = method,
      ev_Params = params\<rparr>"

definition NewResponse :: "json_rpc_event \<Rightarrow> json \<Rightarrow> json list option \<Rightarrow> json_rpc_response" where
  "NewResponse event results err = \<lparr>rsp_Id = ev_Id event, rsp_Result = results, rsp_Error = err\<rparr>"

text \<open>\<open>json.Marshal\<close> fails on a value with an infinity or a NaN in it, and only there.\<close>

fun marshals :: "json \<Rightarrow> bool" where
  "marshals (JNum FNaN) = False"
| "marshals (JNum (FInf s)) = False"
| "marshals (JList xs) = list_all marshals xs"
| "marshals (JObj kvs) = list_all (\<lambda>kv. marshals (snd kv)) kvs"
| "marshals _ = True"

datatype message = Response json_rpc_response | Event json_rpc_event

fun msg_marshals :: "message \<Rightarrow> bool" where
  "msg_marshals (Response r) =
     (marshals (rsp_Id r) \<and> marshals (rsp_Result r) \<and>
      (case rsp_Error r of None \<Rightarrow> True | Some es \<Rightarrow> list_all marshals es))"
| "msg_marshals (Event e) = (marshals (ev_Id e) \<and> list_all marshals (ev_Params e))"

subsection \<open>The connection\<close>

text \<open>
  One attempt to write: another goroutine holds the write lock, setting the deadline fails, the
  write fails, or all bytes go out.
\<close>

datatype attempt = LockHeld | DeadlineFails go_error | WriteFails go_error | WriteOk

record stratum_context =
  RemoteAddr :: string
  WalletAddr :: string
  WorkerName :: string
  RemoteApp :: string
  Id :: int
  disconnecting :: bool
  State :: mining_state
  Extranonce :: string
  authorizeCount :: int
  conn :: "nat \<Rightarrow> attempt"
  attempts :: nat
  sent :: "message list"
  closes :: nat \<comment> \<open>calls of \<open>connection.Close\<close>\<close>
  notified :: nat \<comment> \<open>sends on \<open>onDisconnect\<close>\<close>
  pending :: nat \<comment> \<open>goroutines started by \<open>checkDisconnect\<close>\<close>

record context_summary =
  s_RemoteAddr :: string
  s_WalletAddr :: string
  s_WorkerName :: string
  s_RemoteApp :: string

definition Connected :: "stratum_context \<Rightarrow> bool" where
  "Connected sc = (\<not> disconnecting sc)"

definition Summary :: "stratum_context \<Rightarrow> context_summary" where
  "Summary sc =
     \<lparr>s_RemoteAddr = RemoteAddr sc, s_WalletAddr = WalletAddr sc, s_WorkerName = WorkerName sc,
      s_RemoteApp = RemoteApp sc\<rparr>"

definition checkDisconnect :: "stratum_context \<Rightarrow> go_error option \<Rightarrow> stratum_context" where
  "checkDisconnect sc err = (if err \<noteq> None then sc\<lparr>pending := pending sc + 1\<rparr> else sc)"

definition write_msg :: "stratum_context \<Rightarrow> message \<Rightarrow> go_error option \<times> stratum_context" where
  "write_msg sc data =
     (let sc1 = sc\<lparr>attempts := attempts sc + 1\<rparr>
      in case conn sc (attempts sc) of
           LockHeld \<Rightarrow> (Some ErrWriteBlocked, sc1)
         | DeadlineFails e \<Rightarrow> (Some (Wrap ''failed setting write deadline for connection'' e), sc1)
         | WriteFails e \<Rightarrow> (Some e, checkDisconnect sc1 (Some e))
         | WriteOk \<Rightarrow> (None, checkDisconnect (sc1\<lparr>sent := sent sc1 @ [data]\<rparr>) None))"

text \<open>The loop \<open>for range 3\<close>; \<open>n\<close> counts the iterations left.\<close>

fun backoff :: "nat \<Rightarrow> stratum_context \<Rightarrow> message \<Rightarrow> go_error option \<times> stratum_context" where
  "backoff 0 sc data = (Some (ErrMsg ''failed writing to socket after 3 attempts''), sc)"
| "backoff (Suc n) sc data =
     (case write_msg sc data of
        (None, sc') \<Rightarrow> (None, sc')
      | (Some e, sc') \<Rightarrow> if e = ErrWriteBlocked then backoff n sc' data else (Some e, sc'))"

definition writeWithBackoff :: "stratum_context \<Rightarrow> message \<Rightarrow> go_error option \<times> stratum_context" where
  "writeWithBackoff sc data = backoff 3 sc data"

text \<open>The message of the encoder's error is not modelled; it is only wrapped.\<close>

definition Reply :: "stratum_context \<Rightarrow> json_rpc_response \<Rightarrow> go_error option \<times> stratum_context" where
  "Reply sc response =
     (if disconnecting sc then (Some ErrorDisconnected, sc)
      else if \<not> msg_marshals (Response response)
      then (Some (Wrap ''failed encoding jsonrpc response'' (ErrMsg ''json'')), sc)
      else writeWithBackoff sc (Response response))"

definition Send :: "stratum_context \<Rightarrow> json_rpc_event \<Rightarrow> go_error option \<times> stratum_context" where
  "Send sc event =
     (if disconnecting sc then (Some ErrorDisconnected, sc)
      else if \<not> msg_marshals (Event event)
      then (Some (Wrap ''failed encoding jsonrpc event'' (ErrMsg ''json'')), sc)
      else writeWithBackoff sc (Event event))"

definition ReplySuccess :: "stratum_context \<Rightarrow> json \<Rightarrow> go_error option \<times> stratum_context" where
  "ReplySuccess sc i = Reply sc \<lparr>rsp_Id = i, rsp_Result = JBool True, rsp_Error = None\<rparr>"

definition ReplyStaleShare :: "stratum_context \<Rightarrow> json \<Rightarrow> go_error option \<times> stratum_context" where
  "ReplyStaleShare sc i =
     Reply sc \<lparr>rsp_Id = i, rsp_Result = JNull, rsp_Error = Some [JInt 21, JStr ''Job not found'', JNull]\<rparr>"

definition ReplyDupeShare :: "stratum_context \<Rightarrow> json \<Rightarrow> go_error option \<times> stratum_context" where
  "ReplyDupeShare sc i =
     Reply sc \<lparr>rsp_Id = i, rsp_Result = JNull,
       rsp_Error = Some [JInt 22, JStr ''Duplicate share submitted'', JNull]\<rparr>"

definition ReplyIncorrectData :: "stratum_context \<Rightarrow> json \<Rightarrow> go_error option \<times> stratum_context" where
  "ReplyIncorrectData sc i =
     Reply sc \<lparr>rsp_Id = i, rsp_Result = JNull,
       rsp_Error = Some [JInt 20, JStr ''Incorrect submission data.'', JNull]\<rparr>"

definition ReplyBadShare :: "stratum_context \<Rightarrow> json \<Rightarrow> go_error option \<times> stratum_context" where
  "ReplyBadShare sc i =
     Reply sc \<lparr>rsp_Id = i, rsp_Result = JNull,
       rsp_Error = Some [JInt 20, JStr ''Bad share for unknown reason.'', JNull]\<rparr>"

definition ReplyIncorrectPow :: "stratum_context \<Rightarrow> json \<Rightarrow> go_error option \<times> stratum_context" where
  "ReplyIncorrectPow sc i =
     Reply sc \<lparr>rsp_Id = i, rsp_Result = JNull,
       rsp_Error = Some [JInt 20, JStr ''Incorrect proof of work hash'', JNull]\<rparr>"

definition ReplyLowDiffShare :: "stratum_context \<Rightarrow> json \<Rightarrow> go_error option \<times> stratum_context" where
  "ReplyLowDiffShare sc i =
     Reply sc \<lparr>rsp_Id = i, rsp_Result = JNull,
       rsp_Error = Some [JInt 23, JStr ''Invalid difficulty'', JNull]\<rparr>"

text \<open>
  The compare-and-swap lets one caller through. Contexts of the listener have a connection and a
  disconnect channel.
\<close>

definition Disconnect :: "stratum_context \<Rightarrow> stratum_context" where
  "Disconnect sc =
     (if disconnecting sc then sc
      else sc\<lparr>disconnecting := True, closes := closes sc + 1, notified := notified sc + 1\<rparr>)"

text \<open>One of the pending goroutines of \<open>checkDisconnect\<close> runs.\<close>

definition run_pending :: "stratum_context \<Rightarrow> stratum_context" where
  "run_pending sc = (if pending sc = 0 then sc else Disconnect (sc\<lparr>pending := pending sc - 1\<rparr>))"

subsection \<open>Steps of a connection\<close>

text \<open>
  Everything that can happen to the connection state of a context, in any order: a reply, a
  notification, a call of \<open>Disconnect\<close>, a pending disconnection.
\<close>

inductive conn_step :: "stratum_context \<Rightarrow> stratum_context \<Rightarrow> bool" where
  step_reply: "conn_step sc (snd (Reply sc r))"
| step_send: "conn_step sc (snd (Send sc e))"
| step_disconnect: "conn_step sc (Disconnect sc)"
| step_pending: "conn_step sc (run_pending sc)"

inductive conn_steps :: "stratum_context \<Rightarrow> stratum_context \<Rightarrow> bool" where
  steps_refl: "conn_steps sc sc"
| steps_more: "conn_steps sc sc' \<Longrightarrow> conn_step sc' sc'' \<Longrightarrow> conn_steps sc sc''"

inductive_cases conn_stepE: "conn_step sc sc'"

text \<open>A context that has not disconnected, and one that has, once.\<close>

definition fresh_conn :: "stratum_context \<Rightarrow> bool" where
  "fresh_conn sc \<longleftrightarrow> \<not> disconnecting sc \<and> closes sc = 0 \<and> notified sc = 0 \<and> pending sc = 0"

definition conn_inv :: "stratum_context \<Rightarrow> bool" where
  "conn_inv sc \<longleftrightarrow> closes sc = (if disconnecting sc then 1 else 0) \<and> notified sc = closes sc"

text \<open>An open context on a socket with the given behaviour.\<close>

definition open_context :: "(nat \<Rightarrow> attempt) \<Rightarrow> stratum_context" where
  "open_context c =
     \<lparr>RemoteAddr = ''127.0.0.1'', WalletAddr = [], WorkerName = [], RemoteApp = [], Id = 0,
      disconnecting = False, State = MiningStateGenerator 0, Extranonce = [], authorizeCount = 0,
      conn = c, attempts = 0, sent = [], closes = 0, notified = 0, pending = 0\<rparr>"

subsection \<open>Laws\<close>

text \<open>What a write may change: the attempts, the sent messages and the pending disconnections.\<close>

definition same_but_io :: "stratum_context \<Rightarrow> stratum_context \<Rightarrow> bool" where
  "same_but_io sc sc' \<longleftrightarrow>
     sc' = sc\<lparr>attempts := attempts sc', sent := sent sc', pending := pending sc'\<rparr>"

lemma same_but_io_refl [simp]: "same_but_io sc sc"
  by (simp add: same_but_io_def)

lemma same_but_io_trans: "same_but_io a b \<Longrightarrow> same_but_io b c \<Longrightarrow> same_but_io a c"
  by (cases a; cases b; cases c) (simp add: same_but_io_def)

lemma same_but_ioD:
  assumes "same_but_io sc sc'"
  shows "RemoteAddr sc' = RemoteAddr sc" "WalletAddr sc' = WalletAddr sc" "WorkerName sc' = WorkerName sc"
    "RemoteApp sc' = RemoteApp sc" "Id sc' = Id sc" "disconnecting sc' = disconnecting sc"
    "State sc' = State sc" "Extranonce sc' = Extranonce sc" "authorizeCount sc' = authorizeCount sc"
    "conn sc' = conn sc" "closes sc' = closes sc" "notified sc' = notified sc"
  using assms by (cases sc; cases sc'; simp add: same_but_io_def)+

lemma write_msg_io: "same_but_io sc (snd (write_msg sc m))"
  by (cases sc; cases "conn sc (attempts sc)")
    (simp_all add: same_but_io_def write_msg_def checkDisconnect_def Let_def)

lemma backoff_io: "same_but_io sc (snd (backoff n sc m))"
proof (induction n arbitrary: sc)
  case (Suc n)
  obtain r sc' where w: "write_msg sc m = (r, sc')" by (cases "write_msg sc m")
  have s1: "same_but_io sc sc'" using write_msg_io [of sc m] w by simp
  show ?case
    using s1 same_but_io_trans [OF s1 Suc.IH]
    by (simp add: w split: option.split)
qed simp

lemma Reply_io: "same_but_io sc (snd (Reply sc r))"
  by (simp add: Reply_def writeWithBackoff_def backoff_io)

lemma Send_io: "same_but_io sc (snd (Send sc e))"
  by (simp add: Send_def writeWithBackoff_def backoff_io)

lemma Disconnect_inv [bridge_inv]: "conn_inv sc \<Longrightarrow> conn_inv (Disconnect sc)"
  by (simp add: conn_inv_def Disconnect_def)

lemma io_inv [bridge_inv]: "conn_inv sc \<Longrightarrow> same_but_io sc sc' \<Longrightarrow> conn_inv sc'"
  by (simp add: conn_inv_def same_but_ioD)

lemma conn_step_inv [bridge_inv]:
  assumes "conn_step sc sc'" "conn_inv sc"
  shows "conn_inv sc'"
  using assms(1)
proof (cases rule: conn_step.cases)
  case step_pending
  have "conn_inv (sc\<lparr>pending := pending sc - 1\<rparr>)" using assms(2) by (simp add: conn_inv_def)
  then show ?thesis using assms(2) step_pending by (simp add: run_pending_def Disconnect_inv)
qed (use assms(2) io_inv Reply_io Send_io Disconnect_inv in blast)+

lemma conn_step_disconnecting: "conn_step sc sc' \<Longrightarrow> disconnecting sc \<Longrightarrow> disconnecting sc' \<and> sent sc' = sent sc"
  by (erule conn_stepE) (auto simp: Reply_def Send_def Disconnect_def run_pending_def)

lemma write_msg_sent:
  "sent (snd (write_msg sc m)) = (if fst (write_msg sc m) = None then sent sc @ [m] else sent sc)"
  "attempts (snd (write_msg sc m)) = attempts sc + 1"
  by (cases "conn sc (attempts sc)"; simp add: write_msg_def checkDisconnect_def Let_def)+

lemma backoff_sent:
  "sent (snd (backoff n sc m)) = (if fst (backoff n sc m) = None then sent sc @ [m] else sent sc) \<and>
   attempts (snd (backoff n sc m)) \<le> attempts sc + n"
proof (induction n arbitrary: sc)
  case (Suc n)
  obtain r sc' where w: "write_msg sc m = (r, sc')" by (cases "write_msg sc m")
  show ?case
    using Suc.IH [of sc'] write_msg_sent [of sc m] by (cases r) (auto simp: w)
qed simp

text \<open>
  A reply is written at most once: it reports success exactly when one copy of the response
  has been appended to what the connection sent, after at most three attempts; in every other
  case nothing was sent.
\<close>

theorem Reply_exactly_once:
  "(fst (Reply sc r) = None \<longleftrightarrow> sent (snd (Reply sc r)) = sent sc @ [Response r]) \<and>
   (fst (Reply sc r) \<noteq> None \<longleftrightarrow> sent (snd (Reply sc r)) = sent sc) \<and>
   attempts (snd (Reply sc r)) \<le> attempts sc + 3"
proof (cases "disconnecting sc \<or> \<not> msg_marshals (Response r)")
  case False
  then have "Reply sc r = backoff 3 sc (Response r)"
    by (auto simp: Reply_def writeWithBackoff_def)
  then show ?thesis using backoff_sent [of 3 sc "Response r"] by auto
qed (auto simp: Reply_def)

text \<open>
  C22: however replies, notifications, calls of \<open>Disconnect\<close> and the goroutines started by
  failed writes interleave, a connection is closed and handed to the disconnect listener exactly
  once if it disconnects and never otherwise; and once it is disconnecting nothing more is sent.
\<close>

theorem disconnect_once:
  assumes "fresh_conn sc" "conn_steps sc sc'" "conn_steps sc' sc''"
  shows "closes sc' = (if disconnecting sc' then 1 else 0) \<and> notified sc' = closes sc' \<and>
    (disconnecting sc' \<longrightarrow> disconnecting sc'' \<and> sent sc'' = sent sc')"
proof -
  have "conn_inv sc" using assms(1) by (simp add: fresh_conn_def conn_inv_def)
  with assms(2) have "conn_inv sc'" by induction (auto intro: conn_step_inv)
  moreover from assms(3) have "disconnecting sc' \<longrightarrow> disconnecting sc'' \<and> sent sc'' = sent sc'"
    by induction (auto dest: conn_step_disconnecting)
  ultimately show ?thesis by (simp add: conn_inv_def)
qed

theorem disconnect_once_witness:
  "let sc = open_context (\<lambda>n. WriteFails (ErrMsg ''broken pipe''));
       sc1 = snd (Reply sc \<lparr>rsp_Id = JNull, rsp_Result = JBool True, rsp_Error = None\<rparr>);
       sc2 = run_pending sc1
   in closes sc2 = 1 \<and> notified (Disconnect sc2) = 1 \<and> sent (Disconnect sc2) = []"
proof -
  define sc where "sc = open_context (\<lambda>n. WriteFails (ErrMsg ''broken pipe''))"
  define sc1 where "sc1 = snd (Reply sc \<lparr>rsp_Id = JNull, rsp_Result = JBool True, rsp_Error = None\<rparr>)"
  define sc2 where "sc2 = run_pending sc1"
  have "fresh_conn sc" by (simp add: sc_def fresh_conn_def open_context_def)
  moreover have "conn_steps sc sc2"
    unfolding sc2_def sc1_def by (intro steps_more [OF steps_more [OF steps_refl step_reply] step_pending])
  moreover have "conn_steps sc2 (Disconnect sc2)" by (rule steps_more [OF steps_refl step_disconnect])
  ultimately have "closes sc2 = (if disconnecting sc2 then 1 else 0) \<and> notified sc2 = closes sc2 \<and>
    (disconnecting sc2 \<longrightarrow> disconnecting (Disconnect sc2) \<and> sent (Disconnect sc2) = sent sc2)"
    by (rule disconnect_once)
  moreover have "disconnecting sc2 \<and> sent sc2 = []"
    by (simp add: sc2_def sc1_def sc_def open_context_def Reply_def writeWithBackoff_def backoff.simps
        numeral_3_eq_3 Let_def write_msg_def checkDisconnect_def run_pending_def Disconnect_def)
  ultimately show ?thesis
    unfolding Let_def sc_def [symmetric] sc1_def [symmetric] sc2_def [symmetric]
    by (simp add: Disconnect_def)
qed

end
