(* ===== verification/Prom.thy ===== *)
theory Prom
  imports Stratum_Context Go_Bytes
begin

text \<open>
  The metrics of \<open>src/htnstratum/prom.go\<close> and the error codes of \<open>errors.go\<close>. The Prometheus
  client library is not part of the repository: the state is the log of the calls made to it, and
  the parameter \<open>accepts\<close> says which calls the library accepts. It panics on the others, for
  instance when a label is not valid UTF-8. The functions are generic in the state that holds
  the log.
\<close>

subsection \<open>Calls\<close>

datatype prom_call =
    PInc string "(string \<times> string) list"
  | PAdd string "(string \<times> string) list" f64
  | PSet string "(string \<times> string) list" f64

record prom_state =
  prom_log :: "prom_call list"

text \<open>One call of the library.\<close>

definition prom_do :: "(prom_call \<Rightarrow> bool) \<Rightarrow> prom_call \<Rightarrow> ('s prom_state_scheme, unit) handler" where
  "prom_do accepts c s =
     (if accepts c then (Ret (), s\<lparr>prom_log := prom_log s @ [c]\<rparr>) else (Panic ''prometheus'', s))"

fun prom_all :: "(prom_call \<Rightarrow> bool) \<Rightarrow> prom_call list \<Rightarrow> ('s prom_state_scheme, unit) handler" where
  "prom_all accepts [] = wret ()"
| "prom_all accepts (c # cs) = wbind (prom_do accepts c) (\<lambda>_. prom_all accepts cs)"

datatype error_short_code =
    ErrNoMinerAddress
  | ErrFailedBlockFetch
  | ErrInvalidAddressFmt
  | ErrMissingJob
  | ErrBadDataFromMiner
  | ErrFailedSendWork
  | ErrFailedSetDiff
  | ErrDisconnected

primrec short_code :: "error_short_code \<Rightarrow> string" where
  "short_code ErrNoMinerAddress = ''err_no_miner_address''"
| "short_code ErrFailedBlockFetch = ''err_failed_block_fetch''"
| "short_code ErrInvalidAddressFmt = ''err_malformed_wallet_address''"
| "short_code ErrMissingJob = ''err_missing_job''"
| "short_code ErrBadDataFromMiner = ''err_bad_data_from_miner''"
| "short_code ErrFailedSendWork = ''err_failed_sending_work''"
| "short_code ErrFailedSetDiff = ''err_diff_set_failed''"
| "short_code ErrDisconnected = ''err_worker_disconnected''"

subsection \<open>Recording\<close>

definition commonLabels :: "stratum_context \<Rightarrow> (string \<times> string) list" where
  "commonLabels worker =
     [(''worker'', WorkerName worker), (''miner'', RemoteApp worker), (''wallet'', WalletAddr worker),
      (''ip'', RemoteAddr worker)]"

definition invalid_call :: "stratum_context \<Rightarrow> string \<Rightarrow> prom_call" where
  "invalid_call worker kind = PInc ''htn_invalid_share_counter'' (commonLabels worker @ [(''type'', kind)])"

definition RecordShareFound :: "(prom_call \<Rightarrow> bool) \<Rightarrow> stratum_context \<Rightarrow> f64 \<Rightarrow> ('s prom_state_scheme, unit) handler" where
  "RecordShareFound accepts worker shareDiff =
     prom_all accepts
       [PInc ''htn_valid_share_counter'' (commonLabels worker),
        PAdd ''htn_valid_share_diff_counter'' (commonLabels worker) shareDiff]"

definition RecordStaleShare :: "(prom_call \<Rightarrow> bool) \<Rightarrow> stratum_context \<Rightarrow> ('s prom_state_scheme, unit) handler" where
  "RecordStaleShare accepts worker = prom_all accepts [invalid_call worker ''stale'']"

definition RecordDupeShare :: "(prom_call \<Rightarrow> bool) \<Rightarrow> stratum_context \<Rightarrow> ('s prom_state_scheme, unit) handler" where
  "RecordDupeShare accepts worker = prom_all accepts [invalid_call worker ''duplicate'']"

definition RecordInvalidShare :: "(prom_call \<Rightarrow> bool) \<Rightarrow> stratum_context \<Rightarrow> ('s prom_state_scheme, unit) handler" where
  "RecordInvalidShare accepts worker = prom_all accepts [invalid_call worker ''invalid'']"

definition RecordWeakShare :: "(prom_call \<Rightarrow> bool) \<Rightarrow> stratum_context \<Rightarrow> ('s prom_state_scheme, unit) handler" where
  "RecordWeakShare accepts worker = prom_all accepts [invalid_call worker ''weak'']"

definition RecordBlockFound ::
  "(prom_call \<Rightarrow> bool) \<Rightarrow> stratum_context \<Rightarrow> 64 word \<Rightarrow> 64 word \<Rightarrow> string \<Rightarrow> ('s prom_state_scheme, unit) handler" where
  "RecordBlockFound accepts worker nonce bluescore hash =
     prom_all accepts
       [PInc ''htn_blochtn_mined'' (commonLabels worker),
        PSet ''htn_mined_blochtn_gauge''
          (commonLabels worker @
           [(''nonce'', dec_str (unat nonce)), (''bluescore'', dec_str (unat bluescore)), (''hash'', hash)]) (Fin 1)]"

definition RecordDisconnect :: "(prom_call \<Rightarrow> bool) \<Rightarrow> stratum_context \<Rightarrow> ('s prom_state_scheme, unit) handler" where
  "RecordDisconnect accepts worker = prom_all accepts [PInc ''htn_worker_disconnect_counter'' (commonLabels worker)]"

definition RecordNewJob :: "(prom_call \<Rightarrow> bool) \<Rightarrow> stratum_context \<Rightarrow> ('s prom_state_scheme, unit) handler" where
  "RecordNewJob accepts worker = prom_all accepts [PInc ''htn_worker_job_counter'' (commonLabels worker)]"

definition RecordNetworkStats ::
  "(prom_call \<Rightarrow> bool) \<Rightarrow> 64 word \<Rightarrow> 64 word \<Rightarrow> f64 \<Rightarrow> ('s prom_state_scheme, unit) handler" where
  "RecordNetworkStats accepts hashrate blockCount difficulty =
     prom_all accepts
       [PSet ''htn_estimated_network_hashrate_gauge'' [] (f64_of_int (uint hashrate)),
        PSet ''htn_network_difficulty_gauge'' [] difficulty,
        PSet ''htn_network_block_count'' [] (f64_of_int (uint blockCount))]"

definition RecordWorkerError ::
  "(prom_call \<Rightarrow> bool) \<Rightarrow> string \<Rightarrow> error_short_code \<Rightarrow> ('s prom_state_scheme, unit) handler" where
  "RecordWorkerError accepts address shortError =
     prom_all accepts [PInc ''htn_worker_errors'' [(''wallet'', address), (''error'', short_code shortError)]]"

definition RecordDivertedGBT :: "(prom_call \<Rightarrow> bool) \<Rightarrow> ('s prom_state_scheme, unit) handler" where
  "RecordDivertedGBT accepts = prom_all accepts [PInc ''htn_diverted_gbt_total'' []]"

definition init_invalid_call :: "stratum_context \<Rightarrow> string \<Rightarrow> prom_call" where
  "init_invalid_call worker errorType =
     PAdd ''htn_invalid_share_counter'' (commonLabels worker @ [(''type'', errorType)]) (Fin 0)"

definition InitInvalidCounter :: "(prom_call \<Rightarrow> bool) \<Rightarrow> stratum_context \<Rightarrow> string \<Rightarrow> ('s prom_state_scheme, unit) handler" where
  "InitInvalidCounter accepts worker errorType = prom_all accepts [init_invalid_call worker errorType]"

definition InitWorkerCounters :: "(prom_call \<Rightarrow> bool) \<Rightarrow> stratum_context \<Rightarrow> ('s prom_state_scheme, unit) handler" where
  "InitWorkerCounters accepts worker =
     prom_all accepts
       ([PAdd ''htn_valid_share_counter'' (commonLabels worker) (Fin 0),
         PAdd ''htn_valid_share_diff_counter'' (commonLabels worker) (Fin 0)] @
        map (init_invalid_call worker) [''stale'', ''duplicate'', ''invalid'', ''weak''] @
        [PAdd ''htn_blochtn_mined'' (commonLabels worker) (Fin 0),
         PAdd ''htn_worker_disconnect_counter'' (commonLabels worker) (Fin 0),
         PAdd ''htn_worker_job_counter'' (commonLabels worker) (Fin 0)])"

text \<open>Balances: the first entry of each address counts.\<close>

fun balance_calls :: "(string \<times> 64 word) list \<Rightarrow> string set \<Rightarrow> prom_call list" where
  "balance_calls [] seen = []"
| "balance_calls ((addr, bal) # es) seen =
     (if addr \<in> seen then balance_calls es seen
      else PSet ''htn_balance_by_wallet_gauge'' [(''wallet'', addr)] (f64_div (f64_of_int (uint bal)) (Fin 100000000)) #
        balance_calls es (insert addr seen))"

definition RecordBalances :: "(prom_call \<Rightarrow> bool) \<Rightarrow> (string \<times> 64 word) list \<Rightarrow> ('s prom_state_scheme, unit) handler" where
  "RecordBalances accepts entries = prom_all accepts (balance_calls entries {})"

subsection \<open>Laws\<close>

lemma prom_all_accepted:
  "\<forall>c \<in> set cs. accepts c \<Longrightarrow> prom_all accepts cs s = (Ret (), s\<lparr>prom_log := prom_log s @ cs\<rparr>)"
  by (induction cs arbitrary: s) (auto simp: wret_def wbind_def prom_do_def)

text \<open>Recording changes the log and nothing else, whether or not the library panics.\<close>

lemma prom_all_effect: "\<exists>cs'. snd (prom_all accepts cs s) = s\<lparr>prom_log := prom_log s @ cs'\<rparr>"
proof (induction cs arbitrary: s)
  case Nil
  show ?case by (rule exI [of _ "[]"]) (simp add: wret_def)
next
  case (Cons c cs)
  show ?case
  proof (cases "accepts c")
    case True
    then obtain cs' where "snd (prom_all accepts cs (s\<lparr>prom_log := prom_log s @ [c]\<rparr>)) =
      s\<lparr>prom_log := prom_log s @ c # cs'\<rparr>" using Cons [of "s\<lparr>prom_log := prom_log s @ [c]\<rparr>"] by auto
    then show ?thesis using True by (auto simp: wbind_def prom_do_def)
  next
    case False
    then show ?thesis by (intro exI [of _ "[]"]) (simp add: wbind_def prom_do_def)
  qed
qed

lemma prom_all_not_hang: "fst (prom_all accepts cs s) \<noteq> Hang"
  by (induction cs arbitrary: s) (auto simp: wret_def wbind_def prom_do_def)

text \<open>What the library documents: labels of valid UTF-8 and additions of non-negative numbers are fine.\<close>

fun call_labels :: "prom_call \<Rightarrow> (string \<times> string) list" where
  "call_labels (PInc m ls) = ls"
| "call_labels (PAdd m ls v) = ls"
| "call_labels (PSet m ls v) = ls"

fun call_nonneg :: "prom_call \<Rightarrow> bool" where
  "call_nonneg (PAdd m ls v) = (\<not> f64_lt v (Fin 0))"
| "call_nonneg _ = True"

definition call_ok :: "prom_call \<Rightarrow> bool" where
  "call_ok c \<longleftrightarrow> (\<forall>(k, v) \<in> set (call_labels c). valid_utf8 v) \<and> call_nonneg c"

definition accepts_ok :: "(prom_call \<Rightarrow> bool) \<Rightarrow> bool" where
  "accepts_ok accepts \<longleftrightarrow> (\<forall>c. call_ok c \<longrightarrow> accepts c)"

end
