(* ===== verification/Heavy_Hash.thy ===== *)
theory Heavy_Hash
  imports Node_Types Go_Bytes Go_Math
begin

text \<open>
  The proof-of-work functions of \<open>src/pow/xoshiro.go\<close> and \<open>src/pow/heavyhash.go\<close>: the
  generator that expands a hash into a matrix, the rank computation over doubles, and the three
  generations of matrix multiplications. Loops that the source does not bound are
  \<open>partial_function\<close>s in the option type: \<open>None\<close> stands for not returning.
\<close>

unbundle bit_operations_syntax

subsection \<open>The generator\<close>

record xoShiRo256PlusPlus =
  s0 :: "64 word"
  s1 :: "64 word"
  s2 :: "64 word"
  s3 :: "64 word"

definition rotl64 :: "64 word \<Rightarrow> nat \<Rightarrow> 64 word" where
  "rotl64 w n = word_rotl n w"

definition word_at :: "bytes \<Rightarrow> nat \<Rightarrow> 64 word" where
  "word_at h n = word_of_nat (get_le (take 8 (drop n h)))"

definition newxoShiRo256PlusPlus :: "bytes \<Rightarrow> xoShiRo256PlusPlus" where
  "newxoShiRo256PlusPlus hash =
     \<lparr>s0 = word_at hash 0, s1 = word_at hash 8, s2 = word_at hash 16, s3 = word_at hash 24\<rparr>"

definition Uint64 :: "xoShiRo256PlusPlus \<Rightarrow> 64 word \<times> xoShiRo256PlusPlus" where
  "Uint64 x =
     (let res = rotl64 (s0 x + s3 x) 23 + s0 x;
          t = push_bit 17 (s1 x);
          x = x\<lparr>s2 := s2 x XOR s0 x\<rparr>;
          x = x\<lparr>s3 := s3 x XOR s1 x\<rparr>;
          x = x\<lparr>s1 := s1 x XOR s2 x\<rparr>;
          x = x\<lparr>s0 := s0 x XOR s3 x\<rparr>;
          x = x\<lparr>s2 := s2 x XOR t\<rparr>;
          x = x\<lparr>s3 := rotl64 (s3 x) 45\<rparr>
      in (res, x))"

fun draws :: "nat \<Rightarrow> xoShiRo256PlusPlus \<Rightarrow> 64 word list \<times> xoShiRo256PlusPlus" where
  "draws 0 x = ([], x)"
| "draws (Suc n) x = (let (v, x1) = Uint64 x; (vs, x2) = draws n x1 in (v # vs, x2))"

subsection \<open>Matrices\<close>

type_synonym matrix = "16 word list list"
type_synonym floatMatrix = "f64 list list"

text \<open>The sixteen entries taken from one drawn word, and the rows of a matrix.\<close>

definition nibbles :: "64 word \<Rightarrow> 16 word list" where
  "nibbles v = map (\<lambda>k. ucast (drop_bit (4 * k) v AND 0x0F)) [0..<16]"

fun gen_rows :: "nat \<Rightarrow> xoShiRo256PlusPlus \<Rightarrow> matrix \<times> xoShiRo256PlusPlus" where
  "gen_rows 0 x = ([], x)"
| "gen_rows (Suc n) x =
     (let (ws, x1) = draws 4 x; (rows, x2) = gen_rows n x1 in (concat (map nibbles ws) # rows, x2))"

text \<open>Matrices are drawn until one has full rank.\<close>

partial_function (option) gen_matrix :: "(matrix \<Rightarrow> nat) \<Rightarrow> xoShiRo256PlusPlus \<Rightarrow> matrix option" where
  "gen_matrix rank x =
     (let (mat, x1) = gen_rows 64 x in if rank mat = 64 then Some mat else gen_matrix rank x1)"

definition eps :: f64 where
  "eps = f64_lit (1 / 10 ^ 9)"

text \<open>
  Gaussian elimination: find a row that is not used yet with a usable entry in column \<open>i\<close>,
  normalise it to the right of the pivot, and subtract it from the other rows.
\<close>

fun find_pivot :: "f64 list list \<Rightarrow> bool list \<Rightarrow> nat \<Rightarrow> nat list \<Rightarrow> nat option" where
  "find_pivot B sel i [] = None"
| "find_pivot B sel i (j # js) =
     (if \<not> sel ! j \<and> f64_lt eps (f64_abs (B ! j ! i)) then Some j else find_pivot B sel i js)"

definition scale_row :: "nat \<Rightarrow> f64 list \<Rightarrow> f64 list" where
  "scale_row i row = map (\<lambda>p. if i < p then f64_div (row ! p) (row ! i) else row ! p) [0..<length row]"

definition reduce_row :: "nat \<Rightarrow> f64 list \<Rightarrow> f64 list \<Rightarrow> f64 list" where
  "reduce_row i pivot row =
     map (\<lambda>p. if i < p then f64_sub (row ! p) (f64_mul (pivot ! p) (row ! i)) else row ! p) [0..<length row]"

definition rank_step :: "nat \<Rightarrow> f64 list list \<times> bool list \<times> nat \<Rightarrow> f64 list list \<times> bool list \<times> nat" where
  "rank_step i st =
     (case st of (B, sel, rank) \<Rightarrow>
        (case find_pivot B sel i [0..<64] of
           None \<Rightarrow> (B, sel, rank)
         | Some j \<Rightarrow>
             (let B1 = B[j := scale_row i (B ! j)];
                  B2 = map (\<lambda>k. if k \<noteq> j \<and> f64_lt eps (f64_abs (B1 ! k ! i))
                                then reduce_row i (B1 ! j) (B1 ! k) else B1 ! k) [0..<64]
              in (B2, sel[j := True], rank + 1))))"

definition eliminate :: "f64 list list \<Rightarrow> nat" where
  "eliminate B = snd (snd (fold rank_step [0..<64] (B, replicate 64 False, 0)))"

definition computeRank :: "matrix \<Rightarrow> nat" where
  "computeRank mat = eliminate (map (map (\<lambda>w. f64_of_int (uint w))) mat)"

subsection \<open>Non-linear functions\<close>

definition pi_lit :: rat where
  "pi_lit = 314159265358979323846264338327950288419716939937510582097494459 / 10 ^ 62"

definition BasicComplexNonLinear :: "go_math \<Rightarrow> f64 \<Rightarrow> f64" where
  "BasicComplexNonLinear gm x = f64_add (m_sin gm x) (m_cos gm x)"

definition MediumComplexNonLinear :: "go_math \<Rightarrow> f64 \<Rightarrow> f64" where
  "MediumComplexNonLinear gm x = m_exp gm (f64_add (m_sin gm x) (m_cos gm x))"

definition IntermediateComplexNonLinear :: "go_math \<Rightarrow> f64 \<Rightarrow> f64" where
  "IntermediateComplexNonLinear gm x =
     (if f64_eq x (f64_lit (pi_lit / 2)) \<or> f64_eq x (f64_lit (3 * pi_lit / 2)) then Fin 0
      else f64_mul (m_sin gm x) (m_sin gm x))"

definition HighComplexNonLinear :: "go_math \<Rightarrow> f64 \<Rightarrow> f64" where
  "HighComplexNonLinear gm x = f64_mul (m_exp gm x) (m_log gm (f64_add x (Fin 1)))"

definition HighComplexNonLinear110 :: "f64 \<Rightarrow> f64" where
  "HighComplexNonLinear110 x = f64_div (Fin 1) (f64_sqrt (f64_add (f64_abs x) (Fin 1)))"

text \<open>The argument that the four quarters of a transform factor select.\<close>

definition quarter :: "f64 \<Rightarrow> f64 \<Rightarrow> f64" where
  "quarter t x =
     (if f64_lt t (Fin (1 / 4)) then f64_add x (f64_add (Fin 1) t)
      else if f64_lt t (Fin (1 / 2)) then f64_sub x (f64_add (Fin 1) t)
      else if f64_lt t (Fin (3 / 4)) then f64_mul x (f64_add (Fin 1) t)
      else f64_div x (f64_add (Fin 1) t))"

definition ComplexNonLinear :: "go_math \<Rightarrow> f64 \<Rightarrow> f64" where
  "ComplexNonLinear gm x =
     (let transformFactor = f64_div (f64_mod x 4) (Fin 4)
      in if f64_lt x (Fin 1) then MediumComplexNonLinear gm (quarter transformFactor x)
         else if f64_lt x (Fin 10) then IntermediateComplexNonLinear gm (quarter transformFactor x)
         else HighComplexNonLinear gm (quarter transformFactor x))"

definition computeHoohashRank :: "go_math \<Rightarrow> matrix \<Rightarrow> nat" where
  "computeHoohashRank gm mat =
     eliminate (map (map (\<lambda>w. f64_add (f64_of_int (uint w)) (ComplexNonLinear gm (f64_of_int (uint w))))) mat)"

definition GenerateMatrix :: "bytes \<Rightarrow> matrix option" where
  "GenerateMatrix hash = gen_matrix computeRank (newxoShiRo256PlusPlus hash)"

definition GenerateHoohashMatrix :: "go_math \<Rightarrow> bytes \<Rightarrow> matrix option" where
  "GenerateHoohashMatrix gm hash = gen_matrix (computeHoohashRank gm) (newxoShiRo256PlusPlus hash)"

definition float_entry :: "64 word \<Rightarrow> f64" where
  "float_entry val =
     f64_mul (f64_div (f64_of_int (uint (val AND 0xFFFFFFFF))) (f64_of_int 4294967295)) (Fin 1000000)"

fun gen_float_rows :: "nat \<Rightarrow> xoShiRo256PlusPlus \<Rightarrow> floatMatrix \<times> xoShiRo256PlusPlus" where
  "gen_float_rows 0 x = ([], x)"
| "gen_float_rows (Suc n) x =
     (let (vs, x1) = draws 64 x; (rows, x2) = gen_float_rows n x1 in (map float_entry vs # rows, x2))"

definition GenerateHoohashMatrixV110 :: "bytes \<Rightarrow> floatMatrix" where
  "GenerateHoohashMatrixV110 hash = fst (gen_float_rows 64 (newxoShiRo256PlusPlus hash))"

text \<open>\<open>x*c/d - math.Floor(x*c/d)\<close>, with the product by \<open>COMPLEX_TRANSFORM_MULTIPLIER\<close>.\<close>

definition scaled_fraction :: "f64 \<Rightarrow> rat \<Rightarrow> f64" where
  "scaled_fraction x d =
     (let q = f64_div (f64_mul x (f64_lit (1 / 10 ^ 6))) (Fin d) in f64_sub q (f64_floor q))"

definition ComplexNonLinear110 :: "go_math \<Rightarrow> f64 \<Rightarrow> f64" where
  "ComplexNonLinear110 gm x =
     (let transformFactorOne = scaled_fraction x 8;
          transformFactorTwo = scaled_fraction x 4
      in if f64_lt transformFactorOne (f64_lit (33 / 100))
         then MediumComplexNonLinear gm (quarter transformFactorTwo x)
         else if f64_lt transformFactorOne (f64_lit (66 / 100))
         then IntermediateComplexNonLinear gm (quarter transformFactorTwo x)
         else HighComplexNonLinear110 (quarter transformFactorTwo x))"

subsection \<open>Multiplications\<close>

text \<open>The 64 nibbles of a hash, high one first.\<close>

definition hash_vector :: "bytes \<Rightarrow> byte list" where
  "hash_vector h = concat (map (\<lambda>i. [drop_bit 4 (h ! i), h ! i AND 0x0F]) [0..<32])"

definition bHeavyHash :: "node_lib \<Rightarrow> matrix \<Rightarrow> bytes \<Rightarrow> bytes" where
  "bHeavyHash lib mat hash =
     (let vector = map ucast (hash_vector hash) :: 16 word list;
          product = map (\<lambda>i. drop_bit 10 (fold (\<lambda>j sum. sum + mat ! i ! j * vector ! j) [0..<64] 0)) [0..<64];
          res = map (\<lambda>i. hash ! i XOR (ucast (push_bit 4 (product ! (2 * i))) OR ucast (product ! (2 * i + 1)))) [0..<32]
      in HeavyHash lib res)"

text \<open>The loop \<open>for forComplex > cap\<close> of the first two multiplications.\<close>

partial_function (option) shrink_above :: "rat \<Rightarrow> f64 \<Rightarrow> f64 option" where
  "shrink_above cap x =
     (if f64_lt (Fin cap) x then shrink_above cap (f64_mul x (f64_lit (1 / 10))) else Some x)"

text \<open>One row of the product; the sum starts at zero.\<close>

fun mult_row :: "go_math \<Rightarrow> rat \<Rightarrow> 16 word list \<Rightarrow> f64 list \<Rightarrow> f64 \<Rightarrow> f64 option" where
  "mult_row gm cap (m # ms) (v # vs) acc =
     (case shrink_above cap (f64_mul (f64_of_int (uint m)) v) of
        None \<Rightarrow> None
      | Some x \<Rightarrow> mult_row gm cap ms vs (f64_add acc (ComplexNonLinear gm x)))"
| "mult_row gm cap _ _ acc = Some acc"

fun mult_rows :: "go_math \<Rightarrow> rat \<Rightarrow> matrix \<Rightarrow> f64 list \<Rightarrow> f64 list option" where
  "mult_rows gm cap [] vector = Some []"
| "mult_rows gm cap (r # rs) vector =
     (case (mult_row gm cap r vector (Fin 0), mult_rows gm cap rs vector) of
        (Some p, Some ps) \<Rightarrow> Some (p # ps)
      | _ \<Rightarrow> None)"

definition old_scale :: "go_math \<Rightarrow> f64 \<Rightarrow> 32 word" where
  "old_scale gm p = ucast (f64_uint gm 32 (f64_mul p (f64_lit (1 / 10 ^ 8))))"

definition old_result :: "go_math \<Rightarrow> bytes \<Rightarrow> f64 list \<Rightarrow> bytes" where
  "old_result gm hash product =
     map (\<lambda>i. let high = old_scale gm (product ! (2 * i)); low = old_scale gm (product ! (2 * i + 1));
                  combined = (high XOR low) AND 0xFF
              in hash ! i XOR ucast combined) [0..<32]"

definition multiply_old :: "node_lib \<Rightarrow> go_math \<Rightarrow> rat \<Rightarrow> matrix \<Rightarrow> bytes \<Rightarrow> bytes option" where
  "multiply_old lib gm cap mat hash =
     (case mult_rows gm cap mat (map (\<lambda>b. f64_of_int (uint b)) (hash_vector hash)) of
        None \<Rightarrow> None
      | Some product \<Rightarrow> Some (Blake3Hash lib (old_result gm hash product)))"

definition HoohashMatrixMultiplicationV1 :: "node_lib \<Rightarrow> go_math \<Rightarrow> matrix \<Rightarrow> bytes \<Rightarrow> bytes option" where
  "HoohashMatrixMultiplicationV1 lib gm mat hash = multiply_old lib gm 16 mat hash"

definition HoohashMatrixMultiplicationV101 :: "node_lib \<Rightarrow> go_math \<Rightarrow> matrix \<Rightarrow> bytes \<Rightarrow> bytes option" where
  "HoohashMatrixMultiplicationV101 lib gm mat hash = multiply_old lib gm 14 mat hash"

definition bad_float :: "f64 \<Rightarrow> bool" where
  "bad_float x = (f64_is_nan x \<or> f64_is_inf x)"

text \<open>The retry loop of \<open>ForComplex\<close>; \<open>rounds\<close> counts the calls.\<close>

partial_function (option) for_complex :: "go_math \<Rightarrow> f64 \<Rightarrow> int \<Rightarrow> f64 option" where
  "for_complex gm x rounds =
     (let complex = ComplexNonLinear110 gm x
      in if bad_float complex
         then let x1 = f64_mul x (f64_lit (1 / 10))
              in if f64_le x1 (f64_lit (1 / 10 ^ 13)) then Some (f64_mul (Fin 0) (f64_of_int rounds))
                 else for_complex gm x1 (rounds + 1)
         else Some (f64_mul complex (f64_of_int rounds)))"

definition ForComplex :: "go_math \<Rightarrow> f64 \<Rightarrow> f64 option" where
  "ForComplex gm x = for_complex gm x 1"

definition TransformFactor :: "f64 \<Rightarrow> f64" where
  "TransformFactor x = (let q = f64_div x (Fin 1024) in f64_sub q (f64_floor q))"

text \<open>
  One entry of the newest multiplication: the sum so far, the switch \<open>sw\<close>, the matrix entry and
  the vector entry.
\<close>

definition v110_step :: "go_math \<Rightarrow> f64 \<Rightarrow> f64 \<Rightarrow> f64 \<Rightarrow> f64 \<Rightarrow> f64 \<times> f64 \<Rightarrow> (f64 \<times> f64) option" where
  "v110_step gm hashMod nonceMod m v st =
     (case st of (acc, sw) \<Rightarrow>
        (case (if f64_le sw (f64_lit (2 / 100))
               then (case ForComplex gm (f64_add (f64_mul (f64_mul m hashMod) v) nonceMod) of
                       None \<Rightarrow> None
                     | Some c \<Rightarrow> Some (f64_add acc (f64_mul (f64_mul c v) (Fin 1234))))
               else Some (f64_add acc (f64_mul (f64_mul m (f64_lit (1 / 10 ^ 4))) v))) of
           None \<Rightarrow> None
         | Some acc' \<Rightarrow> Some (acc', TransformFactor acc')))"

fun v110_row :: "go_math \<Rightarrow> f64 \<Rightarrow> f64 \<Rightarrow> (f64 \<times> f64) list \<Rightarrow> f64 \<times> f64 \<Rightarrow> (f64 \<times> f64) option" where
  "v110_row gm hashMod nonceMod [] st = Some st"
| "v110_row gm hashMod nonceMod ((m, v) # mvs) st =
     (case v110_step gm hashMod nonceMod m v st of
        None \<Rightarrow> None
      | Some st' \<Rightarrow> v110_row gm hashMod nonceMod mvs st')"

fun v110_rows :: "go_math \<Rightarrow> f64 \<Rightarrow> f64 \<Rightarrow> f64 list \<Rightarrow> floatMatrix \<Rightarrow> f64 \<Rightarrow> f64 list option" where
  "v110_rows gm hashMod nonceMod vector [] sw = Some []"
| "v110_rows gm hashMod nonceMod vector (r # rs) sw =
     (case v110_row gm hashMod nonceMod (zip r vector) (Fin 0, sw) of
        None \<Rightarrow> None
      | Some (p, sw') \<Rightarrow>
          (case v110_rows gm hashMod nonceMod vector rs sw' of None \<Rightarrow> None | Some ps \<Rightarrow> Some (p # ps)))"

definition v110_result :: "go_math \<Rightarrow> bytes \<Rightarrow> f64 list \<Rightarrow> bytes" where
  "v110_result gm hash product =
     map (\<lambda>i. hash ! i XOR ucast ((f64_uint gm 64 (product ! (2 * i)) + f64_uint gm 64 (product ! (2 * i + 1))) AND 0xFF))
       [0..<32]"

definition HoohashMatrixMultiplicationV110 ::
  "node_lib \<Rightarrow> go_math \<Rightarrow> floatMatrix \<Rightarrow> bytes \<Rightarrow> 64 word \<Rightarrow> bytes option" where
  "HoohashMatrixMultiplicationV110 lib gm mat hash nonce =
     (let H = Uint32Array lib hash;
          hashMod = f64_of_int (uint (foldr (XOR) (take 8 H) 0));
          nonceMod = f64_of_int (uint (nonce AND 0xFF));
          vector = map (\<lambda>b. f64_of_int (uint b)) (hash_vector hash)
      in case v110_rows gm hashMod nonceMod vector mat (Fin 0) of
           None \<Rightarrow> None
         | Some product \<Rightarrow> Some (Blake3Hash lib (v110_result gm hash product)))"

subsection \<open>References and well-formedness\<close>

text \<open>A matrix of 64 rows of 64 nibbles, and the heavy hash over the natural numbers.\<close>

definition nibble_matrix :: "matrix \<Rightarrow> bool" where
  "nibble_matrix mat \<longleftrightarrow>
     length mat = 64 \<and> (\<forall>r \<in> set mat. length r = 64 \<and> (\<forall>w \<in> set r. unat w < 16))"

definition nib :: "bytes \<Rightarrow> nat \<Rightarrow> nat" where
  "nib h j = (if even j then unat (h ! (j div 2)) div 16 else unat (h ! (j div 2)) mod 16)"

definition heavy_row :: "matrix \<Rightarrow> bytes \<Rightarrow> nat \<Rightarrow> nat" where
  "heavy_row mat h i = (\<Sum>j<64. unat (mat ! i ! j) * nib h j) div 1024"

subsection \<open>Laws of the generator\<close>

lemma xor_shift_inject:
  fixes v w :: "64 word"
  assumes "v XOR push_bit 17 v = w XOR push_bit 17 w"
  shows "v = w"
proof (rule bit_word_eqI)
  fix n :: nat
  show "bit v n = bit w n" if "n < LENGTH(64)"
    using that
  proof (induction n rule: less_induct)
    case (less n)
    have "bit (v XOR push_bit 17 v) n = bit (w XOR push_bit 17 w) n" using assms by simp
    moreover have "bit v (n - 17) = bit w (n - 17)" if "17 \<le> n" using less that by simp
    ultimately show ?case using less.prems by (auto simp: bit_xor_iff bit_push_bit_iff)
  qed
qed

lemma rotl64_inject: "rotl64 v n = rotl64 w n \<Longrightarrow> v = w"
  unfolding rotl64_def by (metis word_rot_lr)

lemma xor_cancel:
  fixes a b c :: "64 word"
  shows "a XOR b = a XOR c \<longleftrightarrow> b = c" "b XOR a = c XOR a \<longleftrightarrow> b = c"
  by (auto simp: bit_eq_iff bit_xor_iff)

lemma xor_join: "(a XOR c) XOR (c XOR t) = a XOR (t :: 64 word)"
  by (rule bit_word_eqI) (auto simp: bit_xor_iff)

text \<open>
  One step of the generator is injective on its states: two different states never run
  together, and the state of a non-zero hash never becomes zero.
\<close>

theorem Uint64_injective:
  "(snd (Uint64 x) = snd (Uint64 y)) = (x = y)"
proof
  assume eq: "snd (Uint64 x) = snd (Uint64 y)"
  have r3: "s3 x XOR s1 x = s3 y XOR s1 y"
  proof (rule rotl64_inject [of _ 45])
    show "rotl64 (s3 x XOR s1 x) 45 = rotl64 (s3 y XOR s1 y) 45"
      using arg_cong [OF eq, of s3] by (simp add: Uint64_def Let_def)
  qed
  have r0: "s0 x XOR (s3 x XOR s1 x) = s0 y XOR (s3 y XOR s1 y)"
    using arg_cong [OF eq, of s0] by (simp add: Uint64_def Let_def)
  have r1: "s1 x XOR (s2 x XOR s0 x) = s1 y XOR (s2 y XOR s0 y)"
    using arg_cong [OF eq, of s1] by (simp add: Uint64_def Let_def)
  have r2: "(s2 x XOR s0 x) XOR push_bit 17 (s1 x) = (s2 y XOR s0 y) XOR push_bit 17 (s1 y)"
    using arg_cong [OF eq, of s2] by (simp add: Uint64_def Let_def)
  have e0: "s0 x = s0 y" using r0 unfolding r3 by (simp add: xor_cancel)
  have "s1 x XOR push_bit 17 (s1 x) = s1 y XOR push_bit 17 (s1 y)"
    using arg_cong2 [OF r1 r2, of "(XOR)"] by (simp only: xor_join)
  then have e1: "s1 x = s1 y" by (rule xor_shift_inject)
  have e3: "s3 x = s3 y" using r3 unfolding e1 by (simp add: xor_cancel)
  have e2: "s2 x = s2 y" using r1 unfolding e1 e0 by (simp add: xor_cancel)
  show "x = y" using e0 e1 e2 e3 by simp
qed simp

subsection \<open>Laws of the heavy hash\<close>

lemma length_hash_vector [simp]: "length (hash_vector h) = 64"
  by (simp add: hash_vector_def length_concat comp_def sum_list_triv)

lemma nth_hash_vector:
  assumes "j < 64"
  shows "unat (hash_vector h ! j) = nib h j"
proof -
  have pair: "concat (map (\<lambda>i. [f i, g i]) [0..<n]) ! k = (if even k then f (k div 2) else g (k div 2))"
    if "k < 2 * n" for f g :: "nat \<Rightarrow> byte" and n k
    using that
  proof (induction n)
    case (Suc n)
    have len: "length (concat (map (\<lambda>i. [f i, g i]) [0..<n])) = 2 * n"
      by (simp add: length_concat comp_def sum_list_triv)
    show ?case
    proof (cases "k < 2 * n")
      case True
      then show ?thesis using Suc.IH len by (simp add: nth_append)
    next
      case False
      then have "k = 2 * n \<or> k = Suc (2 * n)" using Suc.prems by auto
      then show ?thesis using len by (auto simp: nth_append)
    qed
  qed simp
  have lo: "unat (b AND 0x0F) = unat b mod 16" for b :: byte
  proof -
    have "b AND 0x0F = take_bit 4 b" by (simp add: take_bit_eq_mask mask_eq_exp_minus_1)
    then show ?thesis by (simp add: unat_take_bit_mod)
  qed
  have hi: "unat (drop_bit 4 b) = unat b div 16" for b :: byte
    by (simp add: unat_drop_bit_div)
  show ?thesis using assms by (simp add: hash_vector_def pair nib_def lo hi)
qed

lemma nib_less: "nib h j < 16"
proof -
  have "unat (h ! (j div 2)) div 16 < 16" by (simp add: less_mult_imp_div_less)
  then show ?thesis by (simp add: nib_def)
qed

text \<open>Sixteen-bit sums of products of nibbles do not wrap around.\<close>

lemma heavy_sum_exact:
  fixes xs ys :: "16 word list"
  assumes "\<And>j. j < n \<Longrightarrow> unat (xs ! j) < 16" "\<And>j. j < n \<Longrightarrow> unat (ys ! j) < 16" "n \<le> 64"
  shows "unat (fold (\<lambda>j acc. acc + xs ! j * ys ! j) [0..<n] 0) = (\<Sum>j<n. unat (xs ! j) * unat (ys ! j)) \<and>
    (\<Sum>j<n. unat (xs ! j) * unat (ys ! j)) \<le> 225 * n"
  using assms
proof (induction n)
  case (Suc n)
  let ?s = "fold (\<lambda>j acc. acc + xs ! j * ys ! j) [0..<n] 0"
  have IH: "unat ?s = (\<Sum>j<n. unat (xs ! j) * unat (ys ! j))" "(\<Sum>j<n. unat (xs ! j) * unat (ys ! j)) \<le> 225 * n"
    using Suc by auto
  have "unat (xs ! n) \<le> 15" "unat (ys ! n) \<le> 15" using Suc.prems(1,2) [of n] by simp_all
  then have p: "unat (xs ! n) * unat (ys ! n) \<le> 225" using mult_le_mono [of "unat (xs ! n)" 15 "unat (ys ! n)" 15] by simp
  then have m: "unat (xs ! n * ys ! n) = unat (xs ! n) * unat (ys ! n)" by (simp add: unat_mult_lem [symmetric])
  have "unat ?s + unat (xs ! n * ys ! n) < 2 ^ 16" using IH p m Suc.prems(3) by simp
  then have "unat (?s + xs ! n * ys ! n) = unat ?s + unat (xs ! n * ys ! n)"
    by (subst unat_add_lem [symmetric]) simp
  then show ?case using IH p m by simp
qed simp

lemma byte_join:
  fixes P Q :: "16 word"
  assumes "unat P < 16" "unat Q < 16"
  shows "ucast (push_bit 4 P) OR ucast Q = (word_of_nat (16 * unat P + unat Q) :: byte)"
proof -
  have P: "P = word_of_nat (unat P)" and Q: "Q = word_of_nat (unat Q)" by simp_all
  have "unat (take_bit 4 Q) = unat Q" using assms(2) unat_take_bit_mod [of 4 Q] by simp
  then have q: "take_bit 4 Q = Q" by (rule unsigned_word_eqI)
  have "(push_bit 4 (ucast P) :: byte) AND ucast Q = 0"
  proof (rule bit_word_eqI)
    fix n assume "n < LENGTH(8)"
    have "bit Q n \<Longrightarrow> n < 4" using q by (metis bit_take_bit_iff)
    then show "bit ((push_bit 4 (ucast P) :: byte) AND ucast Q) n = bit 0 n"
      by (auto simp: bit_and_iff bit_push_bit_iff bit_ucast_iff)
  qed
  then have "(push_bit 4 (ucast P) :: byte) OR ucast Q = push_bit 4 (ucast P) + ucast Q"
    by (rule disjunctive_add_eq_or [symmetric])
  moreover have "ucast (push_bit 4 P) = (push_bit 4 (ucast P) :: byte)"
    by (rule bit_word_eqI) (auto simp: bit_push_bit_iff bit_ucast_iff)
  moreover have "push_bit 4 (ucast P) + ucast Q = (word_of_nat (16 * unat P + unat Q) :: byte)"
    by (simp add: push_bit_eq_mult mult.commute)
  ultimately show ?thesis by simp
qed

text \<open>
  C27: on a matrix of nibbles the sixteen-bit arithmetic of the heavy hash never wraps around,
  every row product fits four bits and the two products of a byte do not overlap: the hashed
  message is the one that the definition over the natural numbers gives.
\<close>

theorem bHeavyHash_reference:
  assumes "nibble_matrix mat"
  shows "bHeavyHash lib mat hash =
    HeavyHash lib (map (\<lambda>i. hash ! i XOR word_of_nat (16 * heavy_row mat hash (2 * i) + heavy_row mat hash (2 * i + 1))) [0..<32])"
    (is "?l = ?r")
proof -
  let ?v = "map ucast (hash_vector hash) :: 16 word list"
  let ?p = "\<lambda>i. drop_bit 10 (fold (\<lambda>j acc. acc + mat ! i ! j * ?v ! j) [0..<64] 0)"
  have v: "unat (?v ! j) = nib hash j" if "j < 64" for j
    using that nth_hash_vector [OF that, of hash] nib_less [of hash j]
    by (simp add: unsigned_ucast_eq take_bit_nat_eq_self)
  have row: "unat (?p i) = heavy_row mat hash i \<and> heavy_row mat hash i < 16" if "i < 64" for i
  proof -
    have "mat ! i \<in> set mat" using that assms by (simp add: nibble_matrix_def)
    then have m: "unat (mat ! i ! j) < 16" if "j < 64" for j using that assms by (simp add: nibble_matrix_def)
    have s: "unat (fold (\<lambda>j acc. acc + mat ! i ! j * ?v ! j) [0..<64] 0) = (\<Sum>j<64. unat (mat ! i ! j) * unat (?v ! j))"
      "(\<Sum>j<64. unat (mat ! i ! j) * unat (?v ! j)) \<le> 225 * 64"
      using heavy_sum_exact [of 64 "mat ! i" ?v] m v nib_less by auto
    have "(\<Sum>j<64. unat (mat ! i ! j) * unat (?v ! j)) = (\<Sum>j<64. unat (mat ! i ! j) * nib hash j)"
      by (rule sum.cong) (simp_all only: v lessThan_iff)
    then show ?thesis using s by (simp only: unat_drop_bit_div heavy_row_def) (simp add: div_less_iff_less_mult)
  qed
  have "ucast (push_bit 4 (?p (2 * i))) OR ucast (?p (2 * i + 1)) =
    (word_of_nat (16 * heavy_row mat hash (2 * i) + heavy_row mat hash (2 * i + 1)) :: byte)" if "i < 32" for i
  proof -
    have b: "2 * i < 64" "2 * i + 1 < 64" using that by simp_all
    note r = row [OF b(1)] row [OF b(2)]
    show ?thesis
      using byte_join [of "?p (2 * i)" "?p (2 * i + 1)"] r(1) [THEN conjunct2] r(2) [THEN conjunct2]
      unfolding r(1) [THEN conjunct1] r(2) [THEN conjunct1] by blast
  qed
  then show ?thesis unfolding bHeavyHash_def Let_def by (intro arg_cong [of _ _ "HeavyHash lib"] map_cong) auto
qed

theorem bHeavyHash_reference_witness:
  "bHeavyHash sample_lib (replicate 64 (replicate 64 3)) (replicate 32 0x12) =
   HeavyHash sample_lib (map (\<lambda>i. replicate 32 0x12 ! i XOR
     word_of_nat (16 * heavy_row (replicate 64 (replicate 64 3)) (replicate 32 0x12) (2 * i) +
       heavy_row (replicate 64 (replicate 64 3)) (replicate 32 0x12) (2 * i + 1))) [0..<32])"
  by (rule bHeavyHash_reference) (simp add: nibble_matrix_def)

subsection \<open>Termination\<close>

lemma f64_lit_13: obtains t where "f64_lit (1 / 10 ^ 13) = Fin t" "pow2 (- 44) \<le> t"
proof -
  have a: "pow2 (- 44) \<le> 1 / 10 ^ 13" by (simp add: pow2_def)
  have "pow2 (- 1022) \<le> 1 / 10 ^ 13" using a pow2_mono [of "- 1022" "- 44"] by simp
  moreover have "1 / 10 ^ 13 \<le> pow2 1023" using pow2_mono [of 0 1023] by simp
  ultimately have "f64_lit (1 / 10 ^ 13) = Fin (bf_round 53 (1 / 10 ^ 13))" by (rule f64_round_normal)
  moreover have "pow2 (- 44) \<le> bf_round 53 (1 / 10 ^ 13)"
    using bf_round_mono [of "pow2 (- 44)" "1 / 10 ^ 13" 53] a bf_round_pow2 [of 53 "- 44"] by simp
  ultimately show ?thesis using that by blast
qed

text \<open>One multiplication by 0.1 halves a double or leaves it tiny.\<close>

lemma tenth_step:
  assumes "0 \<le> x" "x \<le> pow2 1000"
  obtains y where "f64_mul (Fin x) (f64_lit (1 / 10)) = Fin y" "0 \<le> y" "y \<le> x / 2 \<or> y \<le> pow2 (- 1000)"
proof (cases "pow2 (- 1000) \<le> x")
  case True
  then show ?thesis using f64_tenth_shrinks [of x] assms that by metis
next
  case False
  have "0 \<le> tenth" "tenth \<le> pow2 0" by (simp_all add: tenth_def)
  moreover have "x \<le> pow2 (- 1000)" "(- 1022 :: int) \<le> - 1000 + 0" "(- 1000 + 0 :: int) \<le> 1023" using False by simp_all
  ultimately obtain y where "f64_mul (Fin x) (Fin tenth) = Fin y" "0 \<le> y" "y \<le> pow2 (- 1000 + 0)"
    using f64_mul_bound [OF assms(1)] by blast
  then show ?thesis using that by (simp add: f64_lit_tenth)
qed

lemma for_complex_returns:
  assumes "0 \<le> x" "x \<le> pow2 (int n - 43)" "n \<le> 1000"
  shows "\<exists>y. for_complex gm (Fin x) rounds = Some y"
  using assms
proof (induction n arbitrary: x rounds)
  case (0 x rounds)
  have "x \<le> pow2 1000" using 0 pow2_mono [of "- 43" 1000] by simp
  then obtain y where y: "f64_mul (Fin x) (f64_lit (1 / 10)) = Fin y" "0 \<le> y" "y \<le> x / 2 \<or> y \<le> pow2 (- 1000)"
    using tenth_step 0 by blast
  obtain t where t: "f64_lit (1 / 10 ^ 13) = Fin t" "pow2 (- 44) \<le> t" by (rule f64_lit_13)
  have "pow2 (- 43) / 2 = pow2 (- 44)" by (simp add: pow2_def)
  then have "y \<le> t" using y(3) t(2) 0(2) pow2_mono [of "- 1000" "- 44"] by auto
  then have "f64_le (Fin y) (Fin t)" by (auto simp: f64_le_def)
  then show ?case by (subst for_complex.simps) (simp add: Let_def y(1) t(1) [simplified])
next
  case (Suc n x rounds)
  have "x \<le> pow2 1000" using Suc pow2_mono [of "int (Suc n) - 43" 1000] by simp
  then obtain y where y: "f64_mul (Fin x) (f64_lit (1 / 10)) = Fin y" "0 \<le> y" "y \<le> x / 2 \<or> y \<le> pow2 (- 1000)"
    using tenth_step Suc by blast
  have "pow2 (int (Suc n) - 43) = 2 * pow2 (int n - 43)" using pow2_add [of 1 "int n - 43"] by (simp add: algebra_simps)
  moreover have "pow2 (- 1000) \<le> pow2 (int n - 43)" by (rule pow2_mono) simp
  ultimately have "y \<le> pow2 (int n - 43)" using y(3) Suc.prems(2) by auto
  then have "\<exists>z. for_complex gm (Fin y) (rounds + 1) = Some z" using Suc y(2) by simp
  then show ?case by (subst for_complex.simps) (auto simp: Let_def y(1))
qed

text \<open>A finite double between zero and a power of two.\<close>

definition fin_upto :: "int \<Rightarrow> f64 \<Rightarrow> bool" where
  "fin_upto k x \<longleftrightarrow> (\<exists>r. x = Fin r \<and> 0 \<le> r \<and> r \<le> pow2 k)"

lemma fin_upto_mul: "fin_upto a x \<Longrightarrow> fin_upto b y \<Longrightarrow> 0 \<le> a + b \<Longrightarrow> a + b \<le> 1000 \<Longrightarrow> fin_upto (a + b) (f64_mul x y)"
  unfolding fin_upto_def using f64_mul_bound [of _ a _ b] by (smt (verit))

lemma fin_upto_add: "fin_upto a x \<Longrightarrow> fin_upto a y \<Longrightarrow> 0 \<le> a \<Longrightarrow> a \<le> 1000 \<Longrightarrow> fin_upto (a + 1) (f64_add x y)"
  unfolding fin_upto_def using f64_add_bound [of _ a] by (smt (verit))

lemma fin_upto_mono: "fin_upto a x \<Longrightarrow> a \<le> b \<Longrightarrow> fin_upto b x"
  unfolding fin_upto_def using pow2_mono [of a b] by (blast intro: order_trans)

lemma fin_upto_of_int: "0 \<le> n \<Longrightarrow> n < 2 ^ k \<Longrightarrow> k \<le> 53 \<Longrightarrow> fin_upto (int k) (f64_of_int n)"
proof -
  assume n: "0 \<le> n" "n < 2 ^ k" "k \<le> 53"
  have "(2 :: int) ^ k \<le> 2 ^ 53" using n(3) by (intro power_increasing) auto
  then have "f64_of_int n = Fin (of_int n)" using n by (intro f64_of_int_exact) auto
  moreover have "rat_of_int n \<le> rat_of_int (2 ^ k)" using n(2) by (simp only: of_int_le_iff)
  ultimately show ?thesis using n(1) by (simp add: fin_upto_def pow2_nat)
qed

lemma fin_upto_word: "k = LENGTH('a) \<Longrightarrow> k \<le> 53 \<Longrightarrow> fin_upto (int k) (f64_of_int (uint (w :: 'a::len word)))"
  by (rule fin_upto_of_int) (simp_all add: unsigned_less)

lemma fin_upto_float_entry: "fin_upto 20 (float_entry val)"
proof -
  define n where "n = uint (val AND 0xFFFFFFFF)"
  have "val AND 0xFFFFFFFF = take_bit 32 val" by (simp add: take_bit_eq_mask mask_eq_exp_minus_1)
  then have "n = take_bit 32 (uint val)" unfolding n_def by (simp only: unsigned_take_bit_eq)
  then have "n = uint val mod 2 ^ 32" by (simp only: take_bit_eq_mod)
  then have n: "0 \<le> n" "n < 2 ^ 32" by simp_all
  then have e: "f64_of_int n = Fin (of_int n)" by (intro f64_of_int_exact) simp_all
  have m: "f64_of_int 4294967295 = Fin 4294967295" using f64_of_int_exact [of 4294967295] by simp
  define q where "q = rat_of_int n / 4294967295"
  have "n \<le> 4294967295" using n(2) by simp
  then have "rat_of_int n \<le> rat_of_int 4294967295" by (simp only: of_int_le_iff)
  then have q: "0 \<le> q" "q \<le> pow2 0" using n(1) by (simp_all add: q_def)
  then obtain z where z: "f64_round False q = Fin z" "0 \<le> z" "z \<le> pow2 0" using f64_round_bound [of q 0] by auto
  have "f64_div (f64_of_int n) (f64_of_int 4294967295) = f64_round False q"
    using n(1) unfolding e m by (simp add: q_def)
  then have "fin_upto 0 (f64_div (f64_of_int n) (f64_of_int 4294967295))" using z by (simp add: fin_upto_def)
  moreover have "fin_upto 20 (Fin 1000000)" by (simp add: fin_upto_def pow2_def)
  ultimately show ?thesis using fin_upto_mul [of 0 _ 20] by (simp add: float_entry_def n_def)
qed

lemma ForComplex_returns:
  assumes "fin_upto 61 x"
  obtains y where "ForComplex gm x = Some y"
  using assms for_complex_returns [of _ 104 gm 1] that unfolding ForComplex_def fin_upto_def by auto

lemma v110_step_returns:
  assumes "fin_upto 20 m" "fin_upto 32 hashMod" "fin_upto 8 nonceMod" "fin_upto 8 v"
  obtains st' where "v110_step gm hashMod nonceMod m v st = Some st'"
proof -
  have "fin_upto 60 (f64_mul (f64_mul m hashMod) v)"
    using fin_upto_mul [OF fin_upto_mul [OF assms(1,2)] assms(4)] by simp
  then have "fin_upto 61 (f64_add (f64_mul (f64_mul m hashMod) v) nonceMod)"
    using fin_upto_add [of 60] fin_upto_mono [OF assms(3), of 60] by simp
  then obtain y where "ForComplex gm (f64_add (f64_mul (f64_mul m hashMod) v) nonceMod) = Some y"
    by (rule ForComplex_returns)
  then show ?thesis using that [of "the (v110_step gm hashMod nonceMod m v st)"]
    by (cases st) (auto simp: v110_step_def)
qed

lemma v110_row_returns:
  assumes "fin_upto 32 hashMod" "fin_upto 8 nonceMod" "\<forall>(m, v) \<in> set mvs. fin_upto 20 m \<and> fin_upto 8 v"
  shows "\<exists>st'. v110_row gm hashMod nonceMod mvs st = Some st'"
  using assms(3)
proof (induction mvs arbitrary: st)
  case (Cons mv mvs)
  obtain m v where mv: "mv = (m, v)" by (cases mv)
  obtain st1 where "v110_step gm hashMod nonceMod m v st = Some st1"
    using v110_step_returns [of m hashMod nonceMod v gm st] assms(1,2) Cons.prems mv by auto
  then show ?case using Cons mv by simp
qed simp

lemma v110_rows_returns:
  assumes "fin_upto 32 hashMod" "fin_upto 8 nonceMod" "\<forall>v \<in> set vector. fin_upto 8 v"
    "\<forall>r \<in> set mat. \<forall>m \<in> set r. fin_upto 20 m"
  shows "\<exists>ps. v110_rows gm hashMod nonceMod vector mat sw = Some ps"
  using assms(4)
proof (induction mat arbitrary: sw)
  case (Cons r rs)
  have "\<forall>(m, v) \<in> set (zip r vector). fin_upto 20 m \<and> fin_upto 8 v"
    using Cons.prems assms(3) by (auto dest: set_zip_leftD set_zip_rightD)
  then obtain p sw' where "v110_row gm hashMod nonceMod (zip r vector) (Fin 0, sw) = Some (p, sw')"
    using v110_row_returns [OF assms(1,2), of "zip r vector" gm "(Fin 0, sw)"] by auto
  then show ?case using Cons.IH [of sw'] Cons.prems by auto
qed simp

lemma gen_float_entries: "r \<in> set (fst (gen_float_rows n x)) \<Longrightarrow> m \<in> set r \<Longrightarrow> fin_upto 20 m"
proof (induction n arbitrary: x)
  case (Suc n)
  obtain vs x1 where d: "draws 64 x = (vs, x1)" by fastforce
  obtain rows x2 where g: "gen_float_rows n x1 = (rows, x2)" by fastforce
  from Suc.prems have "r = map float_entry vs \<or> r \<in> set (fst (gen_float_rows n x1))" by (auto simp: d g)
  then show ?case using Suc.IH Suc.prems(2) fin_upto_float_entry by auto
qed simp

lemma fin_upto_vector: "v \<in> set (map (\<lambda>b. f64_of_int (uint b)) (bs :: bytes)) \<Longrightarrow> fin_upto 8 v"
  using fin_upto_word [where 'a = 8 and k = 8] by auto

lemma v110_total:
  "\<exists>h. HoohashMatrixMultiplicationV110 lib gm (GenerateHoohashMatrixV110 seed) hash nonce = Some h"
proof -
  have h: "fin_upto 32 (f64_of_int (uint (foldr (XOR) (take 8 (Uint32Array lib hash)) 0)))"
    using fin_upto_word [where 'a = 32 and k = 32] by simp
  have "nonce AND 0xFF = take_bit 8 nonce" by (simp add: take_bit_eq_mask mask_eq_exp_minus_1)
  then have "uint (nonce AND 0xFF) = take_bit 8 (uint nonce)" by (simp only: unsigned_take_bit_eq)
  then have "uint (nonce AND 0xFF) = uint nonce mod 2 ^ 8" by (simp only: take_bit_eq_mod)
  then have n: "fin_upto 8 (f64_of_int (uint (nonce AND 0xFF)))"
    using fin_upto_of_int [of "uint (nonce AND 0xFF)" 8] by simp
  show ?thesis
    using v110_rows_returns [OF h n, of "map (\<lambda>b. f64_of_int (uint b)) (hash_vector hash)"
        "GenerateHoohashMatrixV110 seed" gm "Fin 0"] fin_upto_vector gen_float_entries
    by (fastforce simp: HoohashMatrixMultiplicationV110_def Let_def GenerateHoohashMatrixV110_def)
qed

text \<open>
  C28: the newest multiplication returns for every seed, hash and nonce, whatever the platform's
  transcendental functions return: the retry loop of \<open>ForComplex\<close>, which has no bound of its own,
  ends because its argument is a finite non-negative double that shrinks at each turn.
\<close>

theorem HoohashMatrixMultiplicationV110_returns:
  "\<exists>h. HoohashMatrixMultiplicationV110 lib gm (GenerateHoohashMatrixV110 seed) hash nonce = Some h"
  by (rule v110_total)

lemma shrink_above_returns:
  assumes "0 \<le> x" "x \<le> pow2 (int n)" "n \<le> 1000" "1 \<le> cap"
  shows "\<exists>y. shrink_above cap (Fin x) = Some y"
  using assms(1-3)
proof (induction n arbitrary: x)
  case (0 x)
  then have "\<not> f64_lt (Fin cap) (Fin x)" using assms(4) by simp
  then show ?case by (subst shrink_above.simps) simp
next
  case (Suc n x)
  have "x \<le> pow2 1000" using Suc.prems pow2_mono [of "int (Suc n)" 1000] by simp
  then obtain y where y: "f64_mul (Fin x) (f64_lit (1 / 10)) = Fin y" "0 \<le> y" "y \<le> x / 2 \<or> y \<le> pow2 (- 1000)"
    using tenth_step Suc.prems(1) by blast
  have "pow2 (int (Suc n)) = 2 * pow2 (int n)" using pow2_add [of 1 "int n"] by simp
  moreover have "pow2 (- 1000) \<le> pow2 (int n)" by (rule pow2_mono) simp
  ultimately have "y \<le> pow2 (int n)" using y(3) Suc.prems(2) by auto
  then have "\<exists>z. shrink_above cap (Fin y) = Some z" using Suc y(2) by simp
  then show ?case by (subst shrink_above.simps) (simp add: y(1))
qed

lemma mult_row_returns:
  "\<forall>v \<in> set vs. fin_upto 8 v \<Longrightarrow> 1 \<le> cap \<Longrightarrow> \<exists>y. mult_row gm cap ms vs acc = Some y"
proof (induction gm cap ms vs acc rule: mult_row.induct)
  case (1 gm cap m ms v vs acc)
  have "fin_upto 24 (f64_mul (f64_of_int (uint m)) v)"
    using fin_upto_mul [of 16 "f64_of_int (uint m)" 8 v] fin_upto_word [where 'a = 16 and k = 16] "1.prems"(1) by simp
  then obtain r where "f64_mul (f64_of_int (uint m)) v = Fin r" "0 \<le> r" "r \<le> pow2 (int 24)"
    by (auto simp: fin_upto_def)
  then obtain y where "shrink_above cap (f64_mul (f64_of_int (uint m)) v) = Some y"
    using shrink_above_returns [of r 24 cap] "1.prems"(2) by auto
  then show ?case using "1.IH" [of y] "1.prems" by simp
qed simp_all

lemma mult_rows_returns:
  "\<forall>v \<in> set vs. fin_upto 8 v \<Longrightarrow> 1 \<le> cap \<Longrightarrow> \<exists>ps. mult_rows gm cap mat vs = Some ps"
proof (induction mat)
  case (Cons r rs)
  then show ?case using mult_row_returns [of vs cap gm r "Fin 0"] by auto
qed simp

text \<open>
  The two older multiplications return for every matrix and hash: their loops that bring a
  product below 16 or 14 end.
\<close>

theorem older_multiplications_return:
  "(\<exists>h. HoohashMatrixMultiplicationV1 lib gm mat hash = Some h) \<and>
   (\<exists>h. HoohashMatrixMultiplicationV101 lib gm mat hash = Some h)"
proof -
  let ?vs = "map (\<lambda>b. f64_of_int (uint b)) (hash_vector hash)"
  have "\<forall>v \<in> set ?vs. fin_upto 8 v" using fin_upto_vector by blast
  then have "\<exists>ps. mult_rows gm cap mat ?vs = Some ps" if "1 \<le> cap" for cap
    using mult_rows_returns that by blast
  from this [of 16] this [of 14] show ?thesis
    by (auto simp: HoohashMatrixMultiplicationV1_def HoohashMatrixMultiplicationV101_def multiply_old_def)
qed

end
