(* ===== verification/Pow.thy ===== *)
theory Pow
  imports Heavy_Hash
begin

text \<open>
  The proof-of-work state of \<open>src/pow/pow.go\<close>: the state is built from a header, the value of a nonce is
  computed by the algorithm that the block version selects, and compared with the target. The
  writers, the header hash and the compact target are functions of the node's library
  (\<open>node_lib\<close>); \<open>None\<close> stands for a computation that does not return.
\<close>

unbundle bit_operations_syntax

record pow_state =
  mat :: matrix
  floatMat :: floatMatrix
  Timestamp :: int
  Nonce :: "64 word"
  Target :: int
  PrevHeader :: bytes
  BlockVersion :: "16 word"

definition zero_matrix :: matrix where
  "zero_matrix = replicate 64 (replicate 64 0)"

definition zero_floatMatrix :: floatMatrix where
  "zero_floatMatrix = replicate 64 (replicate 64 (Fin 0))"

text \<open>The loop of \<open>toBig\<close> swaps the bytes in place, then reads them as a big-endian number.\<close>

definition swap_ends :: "bytes \<Rightarrow> bytes" where
  "swap_ends buf =
     fold (\<lambda>i b. b[i := b ! (length buf - 1 - i), length buf - 1 - i := b ! i]) [0..<length buf div 2] buf"

definition SetBytes :: "bytes \<Rightarrow> int" where
  "SetBytes buf = int (get_le (rev buf))"

definition toBig :: "bytes \<Rightarrow> int" where
  "toBig hash = SetBytes (swap_ends hash)"

definition pre_pow_hash :: "node_lib \<Rightarrow> domain_header \<Rightarrow> bytes" where
  "pre_pow_hash lib header = HeaderHash lib (header\<lparr>dh_TimeInMilliseconds := 0, dh_Nonce := 0\<rparr>)"

definition NewState :: "node_lib \<Rightarrow> go_math \<Rightarrow> domain_header \<Rightarrow> pow_state option" where
  "NewState lib gm header =
     (let target = CompactToBig lib (dh_Bits header);
          prevHeader = pre_pow_hash lib header;
          mk = (\<lambda>m fm. \<lparr>mat = m, floatMat = fm, Timestamp = dh_TimeInMilliseconds header,
                 Nonce = dh_Nonce header, Target = target, PrevHeader = prevHeader,
                 BlockVersion = dh_Version header\<rparr>)
      in if dh_Version header = 1
         then map_option (\<lambda>m. mk m zero_floatMatrix) (GenerateMatrix prevHeader)
         else if dh_Version header = 2
         then map_option (\<lambda>m. mk m zero_floatMatrix) (GenerateHoohashMatrix gm prevHeader)
         else if dh_Version header = 3 \<or> dh_Version header = 4
         then map_option (\<lambda>m. mk m zero_floatMatrix) (GenerateMatrix prevHeader)
         else if 5 \<le> dh_Version header
         then Some (mk zero_matrix (GenerateHoohashMatrixV110 prevHeader))
         else map_option (\<lambda>m. mk m zero_floatMatrix) (GenerateMatrix prevHeader))"

text \<open>The hashed message: previous header, time, 32 zero bytes, nonce.\<close>

definition pow_message :: "node_lib \<Rightarrow> 'a pow_state_scheme \<Rightarrow> bytes" where
  "pow_message lib st =
     PrevHeader st @ WriteInt64 lib (Timestamp st) @ replicate 32 0 @ WriteUint64 lib (Nonce st)"

definition pow_value :: "bytes \<Rightarrow> int \<times> bytes" where
  "pow_value h = (toBig h, h)"

definition CalculateProofOfWorkValueHoohashV1 :: "node_lib \<Rightarrow> go_math \<Rightarrow> pow_state \<Rightarrow> (int \<times> bytes) option" where
  "CalculateProofOfWorkValueHoohashV1 lib gm st =
     map_option pow_value (HoohashMatrixMultiplicationV1 lib gm (mat st) (Blake3Hash lib (pow_message lib st)))"

definition CalculateProofOfWorkValueHoohashV101 :: "node_lib \<Rightarrow> go_math \<Rightarrow> pow_state \<Rightarrow> (int \<times> bytes) option" where
  "CalculateProofOfWorkValueHoohashV101 lib gm st =
     map_option pow_value (HoohashMatrixMultiplicationV101 lib gm (mat st) (Blake3Hash lib (pow_message lib st)))"

definition CalculateProofOfWorkValueHoohashV110 :: "node_lib \<Rightarrow> go_math \<Rightarrow> pow_state \<Rightarrow> (int \<times> bytes) option" where
  "CalculateProofOfWorkValueHoohashV110 lib gm st =
     map_option pow_value
       (HoohashMatrixMultiplicationV110 lib gm (floatMat st) (Blake3Hash lib (pow_message lib st)) (Nonce st))"

definition CalculateProofOfWorkValuePyrinhash :: "node_lib \<Rightarrow> pow_state \<Rightarrow> (int \<times> bytes) option" where
  "CalculateProofOfWorkValuePyrinhash lib st =
     Some (pow_value (bHeavyHash lib (mat st) (PoWHash lib (pow_message lib st))))"

definition CalculateProofOfWorkValue :: "node_lib \<Rightarrow> go_math \<Rightarrow> pow_state \<Rightarrow> (int \<times> bytes) option" where
  "CalculateProofOfWorkValue lib gm st =
     (if BlockVersion st = 1 then CalculateProofOfWorkValuePyrinhash lib st
      else if BlockVersion st = 2 then CalculateProofOfWorkValueHoohashV1 lib gm st
      else if BlockVersion st = 3 \<or> BlockVersion st = 4 then CalculateProofOfWorkValueHoohashV101 lib gm st
      else if 5 \<le> BlockVersion st then CalculateProofOfWorkValueHoohashV110 lib gm st
      else CalculateProofOfWorkValuePyrinhash lib st)"

definition IncrementNonce :: "pow_state \<Rightarrow> pow_state" where
  "IncrementNonce st = st\<lparr>Nonce := Nonce st + 1\<rparr>"

definition CheckProofOfWork :: "node_lib \<Rightarrow> go_math \<Rightarrow> pow_state \<Rightarrow> domain_block \<Rightarrow> bool \<Rightarrow> bool option" where
  "CheckProofOfWork lib gm st block powSkip =
     (case CalculateProofOfWorkValue lib gm st of
        None \<Rightarrow> None
      | Some (powNum, _) \<Rightarrow> Some
          (if BlockVersion st < PoWIntegrityMinVersion lib then powNum \<le> Target st
           else if powSkip \<and> PoWIntegrityMinVersion lib \<le> BlockVersion st then powNum \<le> Target st
           else if PoWIntegrityMinVersion lib \<le> BlockVersion st
           then (case NewDomainHashFromString lib (db_PoWHash block) of
                   Inl err \<Rightarrow> False
                 | Inr powHash \<Rightarrow>
                     if powHash \<noteq> replicate 32 0
                     then (if toBig powHash = powNum then powNum \<le> Target st else False)
                     else False)
           else False))"

definition CheckProofOfWorkByBits ::
  "node_lib \<Rightarrow> go_math \<Rightarrow> domain_header \<Rightarrow> domain_block \<Rightarrow> bool \<Rightarrow> bool option" where
  "CheckProofOfWorkByBits lib gm header block powSkip =
     (case NewState lib gm header of None \<Rightarrow> None | Some st \<Rightarrow> CheckProofOfWork lib gm st block powSkip)"

text \<open>\<open>BitLen\<close> of a non-negative number; the level of a block.\<close>

definition BitLen :: "int \<Rightarrow> nat" where
  "BitLen n = floorlog 2 (nat \<bar>n\<bar>)"

definition BlockLevel :: "node_lib \<Rightarrow> go_math \<Rightarrow> domain_header \<Rightarrow> int \<Rightarrow> int option" where
  "BlockLevel lib gm header maxBlockLevel =
     (if dh_DirectParents header = [] then Some maxBlockLevel
      else case NewState lib gm header of
             None \<Rightarrow> None
           | Some st \<Rightarrow>
               (case CalculateProofOfWorkValue lib gm st of
                  None \<Rightarrow> None
                | Some (v, _) \<Rightarrow> Some (max (maxBlockLevel - int (BitLen v)) 0)))"

text \<open>The portable code ignores the request to use the C library.\<close>

definition SetUseHoohashCLibrary :: "bool \<Rightarrow> bool" where
  "SetUseHoohashCLibrary use = False"

subsection \<open>Laws\<close>

lemma swap_loop:
  assumes "n \<le> length buf div 2"
  shows "fold (\<lambda>i b. b[i := b ! (length buf - 1 - i), length buf - 1 - i := b ! i]) [0..<n] buf =
    map (\<lambda>k. if k < n \<or> length buf - 1 - k < n then buf ! (length buf - 1 - k) else buf ! k) [0..<length buf]"
  using assms
proof (induction n)
  case 0
  then show ?case by (simp add: map_nth)
next
  case (Suc n)
  let ?m = "length buf"
  have n: "n < ?m" "n < ?m - 1 - n" using Suc.prems by auto
  show ?case
  proof (rule nth_equalityI)
    fix k assume "k < length (fold (\<lambda>i b. b[i := b ! (?m - 1 - i), ?m - 1 - i := b ! i]) [0..<Suc n] buf)"
    then have k: "k < ?m" using Suc by simp
    show "fold (\<lambda>i b. b[i := b ! (?m - 1 - i), ?m - 1 - i := b ! i]) [0..<Suc n] buf ! k =
      map (\<lambda>k. if k < Suc n \<or> ?m - 1 - k < Suc n then buf ! (?m - 1 - k) else buf ! k) [0..<?m] ! k"
      using Suc n k by (auto simp: nth_list_update)
  qed (use Suc in simp)
qed

lemma swap_ends_rev: "swap_ends buf = rev buf"
proof (rule nth_equalityI)
  have eq: "swap_ends buf = map (\<lambda>k. if k < length buf div 2 \<or> length buf - 1 - k < length buf div 2
    then buf ! (length buf - 1 - k) else buf ! k) [0..<length buf]"
    unfolding swap_ends_def by (rule swap_loop) simp
  then show "length (swap_ends buf) = length (rev buf)" by simp
  fix k assume "k < length (swap_ends buf)"
  then have k: "k < length buf" using eq by simp
  have "length buf - 1 - k = k" if "\<not> k < length buf div 2" "\<not> length buf - 1 - k < length buf div 2"
    using that k by presburger
  then show "swap_ends buf ! k = rev buf ! k" using k by (auto simp: eq rev_nth)
qed

lemma toBig_le: "toBig h = int (get_le h)"
  by (simp add: toBig_def SetBytes_def swap_ends_rev)

lemma toBig_inject: "length g = length h \<Longrightarrow> toBig g = toBig h \<longleftrightarrow> g = h"
  unfolding toBig_le of_nat_eq_iff by (metis put_get_le)

lemma toBig_bounds: "0 \<le> toBig h \<and> toBig h < 256 ^ length h"
  using get_le_bound [of h] by (simp add: toBig_le)

lemma NewState_v5:
  assumes "5 \<le> dh_Version header"
  shows "NewState lib gm header = Some
    \<lparr>mat = zero_matrix, floatMat = GenerateHoohashMatrixV110 (pre_pow_hash lib header),
     Timestamp = dh_TimeInMilliseconds header, Nonce = dh_Nonce header,
     Target = CompactToBig lib (dh_Bits header), PrevHeader = pre_pow_hash lib header,
     BlockVersion = dh_Version header\<rparr>"
proof -
  have "dh_Version header \<noteq> 1" "dh_Version header \<noteq> 2" "dh_Version header \<noteq> 3" "dh_Version header \<noteq> 4"
    using assms by (auto simp: word_le_nat_alt)
  then show ?thesis using assms by (simp add: NewState_def Let_def)
qed

lemma pow_v5:
  assumes "5 \<le> BlockVersion st"
  shows "CalculateProofOfWorkValue lib gm st = CalculateProofOfWorkValueHoohashV110 lib gm st"
proof -
  have "BlockVersion st \<noteq> 1" "BlockVersion st \<noteq> 2" "BlockVersion st \<noteq> 3" "BlockVersion st \<noteq> 4"
    using assms by (auto simp: word_le_nat_alt)
  then show ?thesis using assms by (simp add: CalculateProofOfWorkValue_def)
qed

lemma v110_digest: "HoohashMatrixMultiplicationV110 lib gm m h n = Some r \<Longrightarrow> \<exists>x. r = Blake3Hash lib x"
  by (auto simp: HoohashMatrixMultiplicationV110_def Let_def split: option.splits)

text \<open>
  C29: for blocks of the current versions (5 and above) the state is built and the proof-of-work
  value is computed, always: the value is the little-endian number of a 32-byte digest, so it is
  below \<open>2^256\<close>, and the digest is returned with it.
\<close>

theorem pow_value_total:
  assumes "5 \<le> dh_Version header" "digests_32 lib"
  shows "\<exists>st v h. NewState lib gm header = Some st \<and> CalculateProofOfWorkValue lib gm st = Some (v, h) \<and>
    length h = 32 \<and> v = int (get_le h) \<and> 0 \<le> v \<and> v < 2 ^ 256"
proof -
  obtain st where st: "NewState lib gm header = Some st" "BlockVersion st = dh_Version header"
    "floatMat st = GenerateHoohashMatrixV110 (pre_pow_hash lib header)"
    using NewState_v5 [OF assms(1)] by simp
  obtain h where h: "HoohashMatrixMultiplicationV110 lib gm (floatMat st) (Blake3Hash lib (pow_message lib st)) (Nonce st) = Some h"
    using v110_total unfolding st(3) by blast
  then have len: "length h = 32" using v110_digest assms(2) by (metis digests_32_def)
  have "CalculateProofOfWorkValue lib gm st = Some (toBig h, h)"
    using pow_v5 [of st] assms(1) st(2) h by (simp add: CalculateProofOfWorkValueHoohashV110_def pow_value_def)
  then show ?thesis using st(1) len toBig_bounds [of h] by (auto simp: toBig_le)
qed

definition sample_domain_header :: domain_header where
  "sample_domain_header =
     \<lparr>dh_Version = 5, dh_Bits = 7, dh_TimeInMilliseconds = 1, dh_Nonce = 2, dh_BlueScore = 3,
      dh_DirectParents = [], dh_Other = [4]\<rparr>"

definition sample_math :: go_math where
  "sample_math = \<lparr>m_sin = (\<lambda>x. Fin 0), m_cos = (\<lambda>x. Fin 1), m_exp = (\<lambda>x. Fin 2), m_log = (\<lambda>x. Fin 1), m_oob = (\<lambda>x. 0)\<rparr>"

theorem pow_value_total_witness:
  "\<exists>st v h. NewState sample_lib sample_math sample_domain_header = Some st \<and>
     CalculateProofOfWorkValue sample_lib sample_math st = Some (v, h) \<and> length h = 32 \<and> v = int (get_le h)"
  using pow_value_total [of sample_domain_header sample_lib sample_math] digests_32_sample
  by (auto simp: sample_domain_header_def)

text \<open>
  What a miner varies does not change what it works on: for another nonce and time the
  state of a header is the same state with that nonce and time, in particular the same pre-PoW
  hash, target and matrix.
\<close>

theorem NewState_nonce_independent:
  "NewState lib gm (header\<lparr>dh_Nonce := n, dh_TimeInMilliseconds := t\<rparr>) =
   map_option (\<lambda>st. st\<lparr>Nonce := n, Timestamp := t\<rparr>) (NewState lib gm header)"
  by (simp add: NewState_def Let_def pre_pow_hash_def option.map_comp comp_def)


definition strict_lib :: node_lib where
  "strict_lib = sample_lib\<lparr>PoWIntegrityMinVersion := 1, NewDomainHashFromString := (\<lambda>s. Inr (sample_digest [1]))\<rparr>"

definition strict_state :: pow_state where
  "strict_state =
     \<lparr>mat = zero_matrix, floatMat = zero_floatMatrix, Timestamp = 0, Nonce = 0, Target = 5, PrevHeader = [],
      BlockVersion = 1\<rparr>"


end
