(* ===== verification/Hasher.thy ===== *)
theory Hasher
  imports Go_Bytes Mining_State
begin

text \<open>
  \<open>src/htnstratum/hasher.go\<close>: difficulty conversions over \<open>math/big.Float\<close>, the compact
  target of a block, the serialisation of a block header that is hashed into the pre-PoW hash, and
  the two job formats sent to miners. The Blake3 implementation is a third-party package: it is
  the parameter \<open>blake3 :: bytes \<Rightarrow> bytes \<Rightarrow> bytes\<close> (key, message, 32-byte digest).
\<close>

unbundle bit_operations_syntax

subsection \<open>\<open>math/big.Float\<close>\<close>

text \<open>A value with its precision: finite, infinite (\<open>True\<close> for minus) or negative zero.\<close>

datatype big_float = BFin nat rat | BInf nat bool | BNegZero nat

fun bf_prec :: "big_float \<Rightarrow> nat" where
  "bf_prec (BFin p r) = p"
| "bf_prec (BInf p s) = p"
| "bf_prec (BNegZero p) = p"

fun bf_sign :: "big_float \<Rightarrow> bool" where
  "bf_sign (BFin p r) = (r < 0)"
| "bf_sign (BInf p s) = s"
| "bf_sign (BNegZero p) = True"

fun bf_is_zero :: "big_float \<Rightarrow> bool" where
  "bf_is_zero (BFin p r) = (r = 0)"
| "bf_is_zero (BInf p s) = False"
| "bf_is_zero (BNegZero p) = True"

fun bf_rat :: "big_float \<Rightarrow> rat" where
  "bf_rat (BFin p r) = r"
| "bf_rat _ = 0"

definition bf_zero :: "nat \<Rightarrow> bool \<Rightarrow> big_float" where
  "bf_zero p neg = (if neg then BNegZero p else BFin p 0)"

text \<open>\<open>big.NewFloat\<close>: precision 53, panics on NaN.\<close>

fun NewFloat :: "f64 \<Rightarrow> big_float outcome" where
  "NewFloat FNaN = Panic ''NewFloat(NaN)''"
| "NewFloat (FInf s) = Ret (BInf 53 s)"
| "NewFloat FNegZero = Ret (BNegZero 53)"
| "NewFloat (Fin r) = Ret (BFin 53 r)"

text \<open>
  \<open>z.Quo(x, y)\<close> and \<open>z.Mul(x, y)\<close> with a result of precision \<open>p\<close>; both panic
  (\<open>ErrNaN\<close>) where the result would be undefined.
\<close>

definition bf_quo :: "nat \<Rightarrow> big_float \<Rightarrow> big_float \<Rightarrow> big_float outcome" where
  "bf_quo p x y =
     (let neg = (bf_sign x \<noteq> bf_sign y)
      in case (x, y) of
           (BInf _ _, BInf _ _) \<Rightarrow> Panic ''division of zero by zero or infinity by infinity''
         | (BInf _ _, _) \<Rightarrow> Ret (BInf p neg)
         | (_, BInf _ _) \<Rightarrow> Ret (bf_zero p neg)
         | _ \<Rightarrow>
             if bf_is_zero y
             then (if bf_is_zero x then Panic ''division of zero by zero or infinity by infinity''
                   else Ret (BInf p neg))
             else if bf_is_zero x then Ret (bf_zero p neg)
             else Ret (BFin p (bf_round p (bf_rat x / bf_rat y))))"

definition bf_mul :: "nat \<Rightarrow> big_float \<Rightarrow> big_float \<Rightarrow> big_float outcome" where
  "bf_mul p x y =
     (let neg = (bf_sign x \<noteq> bf_sign y)
      in case (x, y) of
           (BInf _ _, _) \<Rightarrow> if bf_is_zero y then Panic ''multiplication of zero with infinity'' else Ret (BInf p neg)
         | (_, BInf _ _) \<Rightarrow> if bf_is_zero x then Panic ''multiplication of zero with infinity'' else Ret (BInf p neg)
         | _ \<Rightarrow>
             if bf_is_zero x \<or> bf_is_zero y then Ret (bf_zero p neg)
             else Ret (BFin p (bf_round p (bf_rat x * bf_rat y))))"

text \<open>\<open>Int\<close> truncates towards zero, nil for an infinity; \<open>Float64\<close> rounds to the nearest double.\<close>

fun bf_Int :: "big_float \<Rightarrow> int option" where
  "bf_Int (BFin p r) = Some (if r < 0 then \<lceil>r\<rceil> else \<lfloor>r\<rfloor>)"
| "bf_Int (BInf p s) = None"
| "bf_Int (BNegZero p) = Some 0"

fun bf_Float64 :: "big_float \<Rightarrow> f64" where
  "bf_Float64 (BFin p r) = f64_round False r"
| "bf_Float64 (BInf p s) = FInf s"
| "bf_Float64 (BNegZero p) = FNegZero"

text \<open>\<open>SetInt\<close> on a fresh value: precision at least 64, enough for the integer to be exact.\<close>

definition bf_SetInt :: "int \<Rightarrow> big_float" where
  "bf_SetInt n = BFin (max (floorlog 2 (nat \<bar>n\<bar>)) 64) (of_int n)"

subsection \<open>Difficulty\<close>

text \<open>
  \<open>maxTarget\<close> is \<open>big.NewFloat\<close> of the constant with 56 hexadecimal digits F, which the
  compiler rounds to a double; \<open>minHash\<close> is \<open>2^256 / maxTarget\<close>.
\<close>

definition maxTarget :: big_float where
  "maxTarget = (case NewFloat (f64_round False (2 ^ 224 - 1)) of Ret x \<Rightarrow> x | _ \<Rightarrow> BNegZero 53)"

definition minHash :: big_float where
  "minHash = (case bf_quo 53 (BFin 53 (2 ^ 256)) maxTarget of Ret x \<Rightarrow> x | _ \<Rightarrow> BNegZero 53)"

definition bigGig :: big_float where
  "bigGig = BFin 53 1000000000"

definition DiffToTarget :: "f64 \<Rightarrow> int option outcome" where
  "DiffToTarget diff =
     out_bind (NewFloat diff) (\<lambda>d. out_bind (bf_quo 53 maxTarget d) (\<lambda>t. Ret (bf_Int t)))"

definition DiffToHash :: "f64 \<Rightarrow> f64 outcome" where
  "DiffToHash diff =
     out_bind (NewFloat diff) (\<lambda>d. out_bind (bf_mul 53 minHash d) (\<lambda>h.
       out_bind (bf_quo 53 h bigGig) (\<lambda>q. Ret (bf_Float64 q))))"

definition TargetToDiff :: "int \<Rightarrow> f64 outcome" where
  "TargetToDiff target =
     (let t = bf_SetInt target
      in out_bind (bf_quo (max 53 (bf_prec t)) maxTarget t) (\<lambda>d. Ret (bf_Float64 d)))"

definition newHoosatDiff :: hoosatDiff where
  "newHoosatDiff = \<lparr>hashValue = Fin 0, diffValue = Fin 0, targetValue = None\<rparr>"

definition setDiffValue :: "hoosatDiff \<Rightarrow> f64 \<Rightarrow> hoosatDiff outcome" where
  "setDiffValue k diff =
     out_bind (DiffToTarget diff) (\<lambda>t. out_bind (DiffToHash diff) (\<lambda>h.
       Ret (k\<lparr>diffValue := diff, targetValue := t, hashValue := h\<rparr>)))"

definition BigDiffToLittle :: "int \<Rightarrow> f64 outcome" where
  "BigDiffToLittle diff =
     out_bind (bf_quo 256 (bf_SetInt (2 * 2 ^ 254)) (bf_SetInt diff)) (\<lambda>final.
       out_bind (bf_quo 256 final (BFin 64 (2 * 2 ^ 30))) (\<lambda>q. Ret (bf_Float64 q)))"

text \<open>The target a block's compact \<open>bits\<close> field stands for.\<close>

definition CalculateTarget :: "64 word \<Rightarrow> int" where
  "CalculateTarget bits =
     (let truncated = drop_bit 24 bits;
          mantissa = bits AND 16777215
      in if truncated \<le> 3
         then uint (drop_bit (unat (8 * (3 - truncated))) mantissa)
         else uint mantissa * 2 ^ unat (8 * (drop_bit 24 bits - 3)))"

subsection \<open>Header serialisation\<close>

definition write16 :: "bytes \<Rightarrow> 16 word \<Rightarrow> bytes" where
  "write16 hasher val = hasher @ le16 val"

definition write64 :: "bytes \<Rightarrow> 64 word \<Rightarrow> bytes" where
  "write64 hasher val = hasher @ le64 val"

text \<open>The decoding error is dropped: the bytes decoded so far are written.\<close>

definition writeHexString :: "bytes \<Rightarrow> string \<Rightarrow> bytes" where
  "writeHexString hasher val = hasher @ fst (hex_decode val)"

text \<open>The message that is hashed: the hasher's input so far is the accumulator.\<close>

definition writeParents :: "bytes \<Rightarrow> string list list \<Rightarrow> bytes" where
  "writeParents h parents =
     fold (\<lambda>v h. fold (\<lambda>hash h. writeHexString h hash) v (write64 h (word_of_nat (length v)))) parents h"

text \<open>The padding loop prepends zeros until the text has even length.\<close>

function pad_to :: "nat \<Rightarrow> string \<Rightarrow> string" where
  "pad_to n bw = (if length bw < n then pad_to n (CHR ''0'' # bw) else bw)"
  by pat_completeness auto
termination by (relation "measure (\<lambda>(n, bw). n - length bw)") auto

declare pad_to.simps [simp del]

definition header_message :: "rpc_header \<Rightarrow> bytes" where
  "header_message h =
     (let m = write16 [] (ucast (h_Version h));
          m = write64 m (word_of_nat (length (h_Parents h)));
          m = writeParents m (h_Parents h);
          m = writeHexString m (h_HashMerkleRoot h);
          m = writeHexString m (h_AcceptedIDMerkleRoot h);
          m = writeHexString m (h_UTXOCommitment h);
          m = m @ le64 0 @ le32 (h_Bits h) @ le64 0 @ le64 (h_DAAScore h) @ le64 (h_BlueScore h);
          bw = pad_to (length (h_BlueWork h) + length (h_BlueWork h) mod 2) (h_BlueWork h);
          m = write64 m (word_of_nat (length (fst (hex_decode bw))));
          m = writeHexString m bw
      in writeHexString m (h_PruningPoint h))"

definition block_hash_key :: bytes where
  "block_hash_key = map of_char ''BlockHash'' @ replicate 23 0"

definition SerializeBlockHeader :: "(bytes \<Rightarrow> bytes \<Rightarrow> bytes) \<Rightarrow> rpc_block \<Rightarrow> bytes" where
  "SerializeBlockHeader blake3 template = blake3 block_hash_key (header_message (b_Header template))"

subsection \<open>Job formats\<close>

text \<open>Reading a word at an offset panics when fewer than eight bytes are left.\<close>

definition read_words :: "(bytes \<Rightarrow> 64 word option) \<Rightarrow> bytes \<Rightarrow> 64 word list option" where
  "read_words rd hd0 =
     (case (rd hd0, rd (drop 8 hd0), rd (drop 16 hd0), rd (drop 24 hd0)) of
        (Some a, Some b, Some c, Some d) \<Rightarrow> Some [a, b, c, d]
      | _ \<Rightarrow> None)"

text \<open>\<open>big.Int.SetString(s, 16)\<close> followed by \<open>Uint64()\<close> (the low 64 bits).\<close>

definition hex_to_uint64 :: "string \<Rightarrow> 64 word" where
  "hex_to_uint64 s = (case parse_digits 16 0 s of None \<Rightarrow> 0 | Some n \<Rightarrow> word_of_nat n)"

definition GenerateJobHeader :: "bytes \<Rightarrow> 64 word list outcome" where
  "GenerateJobHeader headerData =
     (case read_words le_uint64 headerData of
        None \<Rightarrow> Panic ''slice bounds out of range''
      | Some ids \<Rightarrow> Ret (map (\<lambda>v. hex_to_uint64 (hex_str (unat v))) ids))"

definition GenerateLargeJobParams :: "bytes \<Rightarrow> 64 word \<Rightarrow> string outcome" where
  "GenerateLargeJobParams headerData timestamp =
     (case (read_words be_uint64 headerData, le_uint64 (be64 timestamp)) of
        (Some ids, Some ts) \<Rightarrow> Ret (concat (map (\<lambda>v. hex_pad 16 (unat v)) (ids @ [ts])))
      | _ \<Rightarrow> Panic ''slice bounds out of range'')"

subsection \<open>Well-formed headers and the pieces of the message\<close>

text \<open>Well-formed text: lower-case hexadecimal digits, and hashes of 64 digits.\<close>

definition lower_hex :: "string \<Rightarrow> bool" where
  "lower_hex s \<longleftrightarrow> (\<forall>c \<in> set s. \<exists>d < 16. c = hex_char d)"

definition hash_text :: "string \<Rightarrow> bool" where
  "hash_text s \<longleftrightarrow> length s = 64 \<and> lower_hex s"

definition wf_header :: "rpc_header \<Rightarrow> bool" where
  "wf_header h \<longleftrightarrow>
     hash_text (h_HashMerkleRoot h) \<and> hash_text (h_AcceptedIDMerkleRoot h) \<and>
     hash_text (h_UTXOCommitment h) \<and> hash_text (h_PruningPoint h) \<and> lower_hex (h_BlueWork h) \<and>
     (\<forall>ps \<in> set (h_Parents h). \<forall>p \<in> set ps. hash_text p) \<and>
     length (h_Parents h) < 2 ^ 64 \<and> (\<forall>ps \<in> set (h_Parents h). length ps < 2 ^ 64) \<and>
     length (h_BlueWork h) < 2 ^ 64"

definition parent_bytes :: "string list \<Rightarrow> bytes" where
  "parent_bytes v = le64 (word_of_nat (length v)) @ concat (map (\<lambda>p. fst (hex_decode p)) v)"

definition padded_work :: "rpc_header \<Rightarrow> string" where
  "padded_work h = pad_to (length (h_BlueWork h) + length (h_BlueWork h) mod 2) (h_BlueWork h)"

definition work_bytes :: "rpc_header \<Rightarrow> bytes" where
  "work_bytes h = le64 (word_of_nat (length (fst (hex_decode (padded_work h))))) @
     fst (hex_decode (padded_work h)) @ fst (hex_decode (h_PruningPoint h))"

definition sample_header :: rpc_header where
  "sample_header =
     \<lparr>h_Version = 5, h_Parents = [[replicate 64 (CHR ''0'')]], h_HashMerkleRoot = replicate 64 (CHR ''0''),
      h_AcceptedIDMerkleRoot = replicate 64 (CHR ''0''), h_UTXOCommitment = replicate 64 (CHR ''0''),
      h_Timestamp = 7, h_Bits = 453325233, h_Nonce = 9, h_DAAScore = 1, h_BlueScore = 2,
      h_BlueWork = ''0'', h_PruningPoint = replicate 64 (CHR ''0'')\<rparr>"

subsection \<open>Laws\<close>

lemma ilog2_max: "ilog2 (2 ^ 224 - 1) = 223"
  by (rule ilog2_unique) (simp_all add: pow2_def)

lemma round_half_even_unique:
  assumes "\<bar>of_int n - x\<bar> < 1 / 2"
  shows "round_half_even x = n"
proof -
  from round_half_even_error [of x] assms
  have "\<bar>rat_of_int (round_half_even x - n)\<bar> < 1" unfolding of_int_diff by linarith
  then have "\<bar>round_half_even x - n\<bar> < 1" by (simp only: of_int_abs [symmetric])
  then show ?thesis by simp
qed

lemma maxTarget_eq: "maxTarget = BFin 53 (2 ^ 224)"
proof -
  have "round_half_even ((2 ^ 224 - 1) / pow2 171) = 2 ^ 53"
    by (rule round_half_even_unique) (simp add: pow2_def)
  then have "f64_round False (2 ^ 224 - 1) = Fin (2 ^ 224)"
    using ilog2_max by (simp add: f64_round_def Let_def pow2_def)
  then show ?thesis by (simp add: maxTarget_def)
qed

lemma minHash_eq: "minHash = BFin 53 (2 ^ 32)"
proof -
  have "(2 ^ 256 / 2 ^ 224 :: rat) = pow2 32" by (simp add: pow2_def)
  then show ?thesis
    by (simp add: minHash_def maxTarget_eq bf_quo_def bf_round_pow2 del: power_numeral) (simp add: pow2_def)?
qed

lemma DiffToTarget_pos:
  assumes "0 < d"
  shows "DiffToTarget (Fin d) = Ret (Some \<lfloor>bf_round 53 (2 ^ 224 / d)\<rfloor>)"
  using assms bf_round_pos [of "2 ^ 224 / d" 53]
  by (simp add: DiffToTarget_def maxTarget_eq bf_quo_def)

lemma hex_pad_1: "n < 16 \<Longrightarrow> hex_pad (Suc 0) n = [hex_char n]"
  by (simp add: hex_pad_def hex_str.simps [of n])

lemma hex_char_0: "hex_char 0 = CHR ''0''"
  by code_simp

lemma hex_str_length_pos: "0 < length (hex_str n)"
  by (subst hex_str.simps) simp

lemma hex_pad_Suc:
  "0 < w \<Longrightarrow> hex_pad (Suc w) n = hex_pad w (n div 16) @ [hex_char (n mod 16)]"
proof (cases "n < 16")
  case True
  assume "0 < w"
  then obtain v where "w = Suc v" by (cases w) auto
  then show ?thesis using True
    by (simp add: hex_pad_def hex_str.simps [of n] hex_str.simps [of 0] hex_char_0)
      (simp add: replicate_append_same)
next
  case False
  then show ?thesis by (simp add: hex_pad_def hex_str.simps [of n])
qed

text \<open>Padded hexadecimal of a big-endian number is the hexadecimal text of its bytes.\<close>

lemma hex_pad_bytes: "bs \<noteq> [] \<Longrightarrow> hex_pad (2 * length bs) (get_le (rev bs)) = hex_encode bs"
proof (induction bs rule: rev_induct)
  case (snoc b bs)
  define v where "v = get_le (rev bs)"
  have e: "unat b + 256 * v = unat b + 16 * (16 * v)" by simp
  have b16: "unat b div 16 < 16" using less_mult_imp_div_less [of "unat b" 16 16] by simp
  have dm: "(unat b + 256 * v) mod 16 = unat b mod 16"
    "(unat b + 256 * v) div 16 = unat b div 16 + 16 * v"
    unfolding e by (simp_all only: mod_mult_self2 div_mult_self2 zero_neq_numeral [symmetric] not_False_eq_True)
  have dm2: "(unat b div 16 + 16 * v) mod 16 = unat b div 16" "(unat b div 16 + 16 * v) div 16 = v"
    using b16 by simp_all
  show ?case
  proof (cases "bs = []")
    case True
    then show ?thesis using dm dm2 by (simp add: numeral_2_eq_2 hex_pad_Suc hex_pad_1 hex_encode_def hex_byte_def v_def)
  next
    case False
    then have l: "0 < length bs" by simp
    have "hex_pad (2 * length (bs @ [b])) (get_le (rev (bs @ [b])))
        = hex_pad (Suc (Suc (2 * length bs))) (unat b + 256 * v)" by (simp add: v_def)
    also have "\<dots> = hex_pad (2 * length bs) v @ [hex_char (unat b div 16), hex_char (unat b mod 16)]"
      using l dm dm2 by (simp add: hex_pad_Suc)
    finally show ?thesis using snoc.IH False by (simp add: v_def hex_encode_def hex_byte_def)
  qed
qed simp

lemma length_pad_to: "length (pad_to n bw) = max n (length bw)"
  by (induction n bw rule: pad_to.induct) (subst pad_to.simps, auto)

lemma pad_to_even: "even (length (pad_to (length bw + length bw mod 2) bw))"
proof -
  have "even (length bw + length bw mod 2)" by presburger
  moreover have "length (pad_to (length bw + length bw mod 2) bw) = length bw + length bw mod 2"
    by (simp add: length_pad_to)
  ultimately show ?thesis by metis
qed

lemma hex_encode_decode:
  "lower_hex s \<Longrightarrow> even (length s) \<Longrightarrow> hex_encode (fst (hex_decode s)) = s"
proof (induction s rule: hex_decode.induct)
  case (3 p q r)
  from "3.prems" obtain a b where ab: "a < 16" "b < 16" "p = hex_char a" "q = hex_char b" and r: "lower_hex r"
    unfolding lower_hex_def by auto
  have "unat (word_of_nat (16 * a + b) :: byte) = 16 * a + b"
    using ab(1,2) by (simp add: unat_of_nat take_bit_eq_mod del: of_nat_add of_nat_mult)
  then have "hex_byte (word_of_nat (16 * a + b)) = [p, q]"
    using ab by (simp add: hex_byte_def)
  moreover have "hex_encode (fst (hex_decode r)) = r" using "3.IH" "3.prems" ab r by simp
  ultimately show ?case using ab
    by (cases "hex_decode r") (simp add: hex_encode_def)
qed (auto simp: hex_encode_def)

lemma length_hex_decode:
  "lower_hex s \<Longrightarrow> even (length s) \<Longrightarrow> 2 * length (fst (hex_decode s)) = length s"
  using hex_encode_decode [of s] length_hex_encode [of "fst (hex_decode s)"] by simp

lemma hex_decode_inject:
  "lower_hex s \<Longrightarrow> lower_hex t \<Longrightarrow> even (length s) \<Longrightarrow> even (length t) \<Longrightarrow>
    fst (hex_decode s) = fst (hex_decode t) \<Longrightarrow> s = t"
  by (metis hex_encode_decode)

lemma hash_text_decode: "hash_text s \<Longrightarrow> length (fst (hex_decode s)) = 32"
  using length_hex_decode [of s] by (simp add: hash_text_def)

lemma hash_append_inject:
  "hash_text s \<Longrightarrow> hash_text t \<Longrightarrow>
    fst (hex_decode s) @ x = fst (hex_decode t) @ y \<longleftrightarrow> s = t \<and> x = y"
  using hash_text_decode [of s] hash_text_decode [of t] hex_decode_inject [of s t]
  by (auto simp: hash_text_def append_eq_append_conv)

lemma hashes_append_inject:
  "length ps = length qs \<Longrightarrow> \<forall>p \<in> set ps. hash_text p \<Longrightarrow> \<forall>q \<in> set qs. hash_text q \<Longrightarrow>
    concat (map (\<lambda>p. fst (hex_decode p)) ps) @ x = concat (map (\<lambda>p. fst (hex_decode p)) qs) @ y \<longleftrightarrow> ps = qs \<and> x = y"
  by (induction ps qs rule: list_induct2) (simp_all add: hash_append_inject)

lemma writeParents_eq: "writeParents h ps = h @ concat (map parent_bytes ps)"
proof -
  have inner: "fold (\<lambda>hash h. writeHexString h hash) v m = m @ concat (map (\<lambda>p. fst (hex_decode p)) v)" for v m
    by (induction v arbitrary: m) (simp_all add: writeHexString_def)
  show ?thesis unfolding writeParents_def inner
    by (induction ps arbitrary: h) (simp_all add: write64_def parent_bytes_def)
qed

lemma le64_length_inject:
  "m < 2 ^ 64 \<Longrightarrow> n < 2 ^ 64 \<Longrightarrow> (word_of_nat m :: 64 word) = word_of_nat n \<longleftrightarrow> m = n"
  by (simp add: word_of_nat_eq_iff take_bit_eq_mod)

lemma parents_append_inject:
  assumes "length ps = length qs"
    "\<forall>v \<in> set ps. length v < 2 ^ 64 \<and> (\<forall>p \<in> set v. hash_text p)"
    "\<forall>v \<in> set qs. length v < 2 ^ 64 \<and> (\<forall>p \<in> set v. hash_text p)"
  shows "concat (map parent_bytes ps) @ x = concat (map parent_bytes qs) @ y \<longleftrightarrow> ps = qs \<and> x = y"
  using assms
proof (induction ps qs rule: list_induct2)
  case (Cons v ps w qs)
  have "concat (map parent_bytes (v # ps)) @ x = concat (map parent_bytes (w # qs)) @ y \<longleftrightarrow>
      length v = length w \<and>
      concat (map (\<lambda>p. fst (hex_decode p)) v) @ (concat (map parent_bytes ps) @ x) =
      concat (map (\<lambda>p. fst (hex_decode p)) w) @ (concat (map parent_bytes qs) @ y)"
    using Cons.prems by (simp add: parent_bytes_def le64c.enc_append_inject le64_length_inject)
  also have "\<dots> \<longleftrightarrow> v = w \<and> concat (map parent_bytes ps) @ x = concat (map parent_bytes qs) @ y"
    using Cons.prems hashes_append_inject [of v w] by auto
  finally show ?case using Cons by simp
qed simp

lemma header_message_eq:
  "header_message h =
     (let bw = pad_to (length (h_BlueWork h) + length (h_BlueWork h) mod 2) (h_BlueWork h)
      in le16 (ucast (h_Version h)) @ le64 (word_of_nat (length (h_Parents h))) @
         concat (map parent_bytes (h_Parents h)) @
         fst (hex_decode (h_HashMerkleRoot h)) @ fst (hex_decode (h_AcceptedIDMerkleRoot h)) @
         fst (hex_decode (h_UTXOCommitment h)) @
         le64 0 @ le32 (h_Bits h) @ le64 0 @ le64 (h_DAAScore h) @ le64 (h_BlueScore h) @
         le64 (word_of_nat (length (fst (hex_decode bw)))) @ fst (hex_decode bw) @
         fst (hex_decode (h_PruningPoint h)))"
  by (simp add: header_message_def Let_def write16_def write64_def writeHexString_def writeParents_eq)

lemma le32_append_inject: "le32 a @ x = le32 b @ y \<longleftrightarrow> a = b \<and> x = y"
  using byte_codec.enc_append_inject [OF put_le_codec [where 'w = 32 and k = 4]]
  by (simp add: le32_def)

lemma lower_hex_pad: "lower_hex bw \<Longrightarrow> lower_hex (pad_to n bw)"
proof (induction n bw rule: pad_to.induct)
  case (1 n bw)
  have "lower_hex (CHR ''0'' # bw)"
    using "1.prems" hex_char_0 by (auto simp: lower_hex_def intro!: exI [of _ 0])
  then show ?case using "1.IH" "1.prems" by (subst pad_to.simps) simp
qed

lemma padded_work_props:
  assumes "wf_header h"
  shows "lower_hex (padded_work h)" "even (length (padded_work h))"
    "length (fst (hex_decode (padded_work h))) < 2 ^ 64"
proof -
  show lh: "lower_hex (padded_work h)" using assms by (simp add: padded_work_def wf_header_def lower_hex_pad)
  show ev: "even (length (padded_work h))" unfolding padded_work_def by (rule pad_to_even)
  have "2 * length (fst (hex_decode (padded_work h))) \<le> length (h_BlueWork h) + 1"
    using length_hex_decode [OF lh ev] by (simp add: padded_work_def length_pad_to)
  then show "length (fst (hex_decode (padded_work h))) < 2 ^ 64" using assms by (simp add: wf_header_def)
qed

lemma work_bytes_inject:
  assumes "wf_header h" "wf_header k"
  shows "work_bytes h = work_bytes k \<longleftrightarrow> padded_work h = padded_work k \<and> h_PruningPoint h = h_PruningPoint k"
proof -
  have "hash_text (h_PruningPoint h)" "hash_text (h_PruningPoint k)" using assms by (simp_all add: wf_header_def)
  then have p: "fst (hex_decode (h_PruningPoint h)) = fst (hex_decode (h_PruningPoint k)) \<longleftrightarrow>
      h_PruningPoint h = h_PruningPoint k"
    using hash_append_inject [of "h_PruningPoint h" "h_PruningPoint k" "[]" "[]"] by simp
  show ?thesis
    using padded_work_props [OF assms(1)] padded_work_props [OF assms(2)]
      hex_decode_inject [of "padded_work h" "padded_work k"]
    by (auto simp: work_bytes_def le64c.enc_append_inject le64_length_inject p append_eq_append_conv)
qed

lemma unat32_less: "unat (b :: 32 word) < 2 ^ 32"
  by (rule order_less_le_trans [OF unsigned_less]) simp

lemma CalculateTarget_parts:
  fixes bits :: "32 word"
  defines "w \<equiv> ucast bits :: 64 word"
  shows "unat (drop_bit 24 w) = unat bits div 2 ^ 24" "unat (w AND 16777215) = unat bits mod 2 ^ 24"
proof -
  have u: "unat w = unat bits"
    unfolding w_def using unat32_less [of bits] by (simp add: unsigned_ucast_eq take_bit_eq_mod)
  show "unat (drop_bit 24 w) = unat bits div 2 ^ 24"
    by (simp only: unat_drop_bit_div u)
  have "w AND 16777215 = take_bit 24 w"
    by (simp add: take_bit_eq_mask mask_eq_exp_minus_1)
  then show "unat (w AND 16777215) = unat bits mod 2 ^ 24"
    by (simp only: unat_take_bit_mod u)
qed

lemma read_words_Some:
  "length hd0 \<ge> 32 \<Longrightarrow> read_words le_uint64 hd0 =
    Some (map (\<lambda>i. word_of_nat (get_le (take 8 (drop (8 * i) hd0)))) [0, 1, 2, 3])"
  unfolding read_words_def le_uint64_def by auto

lemma read_words_be_Some:
  "length hd0 \<ge> 32 \<Longrightarrow> read_words be_uint64 hd0 =
    Some (map (\<lambda>i. word_of_nat (get_le (rev (take 8 (drop (8 * i) hd0))))) [0, 1, 2, 3])"
  unfolding read_words_def be_uint64_def by auto

lemma hex_to_uint64_hex_str [simp]: "hex_to_uint64 (hex_str (unat v)) = v"
  by (simp add: hex_to_uint64_def parse_hex_str)

lemma hex_pad_be_word:
  assumes "length bs = 8"
  shows "hex_pad 16 (unat (word_of_nat (get_le (rev bs)) :: 64 word)) = hex_encode bs"
proof -
  have "get_le (rev bs) < 256 ^ 8"
    using get_put_le [of 8 "get_le (rev bs)"] put_get_le [of "rev bs"] assms
    by (metis length_rev mod_less_divisor zero_less_numeral zero_less_power)
  then have "unat (word_of_nat (get_le (rev bs)) :: 64 word) = get_le (rev bs)"
    by (simp add: unat_of_nat take_bit_eq_mod)
  then show ?thesis using hex_pad_bytes [of bs] assms by fastforce
qed

lemma hex_encode_append: "hex_encode (a @ b) = hex_encode a @ hex_encode b"
  by (simp add: hex_encode_def)

lemma DiffToHash_Ret: "d \<noteq> FNaN \<Longrightarrow> \<exists>h. DiffToHash d = Ret h"
  by (cases d) (auto simp: DiffToHash_def minHash_eq bigGig_def bf_mul_def bf_quo_def bf_zero_def
      split: big_float.splits)

lemma DiffToTarget_Ret: "d \<noteq> FNaN \<Longrightarrow> \<exists>t. DiffToTarget d = Ret t \<and> (t = None \<longleftrightarrow> f64_is_zero d)"
  by (cases d) (auto simp: DiffToTarget_def maxTarget_eq bf_quo_def bf_zero_def Let_def)

subsection \<open>Properties\<close>

text \<open>
  C18: difficulty and target are inversely ordered. For positive finite difficulties \<open>a \<le> b\<close>
  both conversions return a target, and the target of the harder difficulty is at most that of
  the easier one: rounding to 53 bits and truncation never invert the order.
\<close>

theorem DiffToTarget_antitone:
  assumes "0 < a" "a \<le> b"
  shows "\<exists>s t. DiffToTarget (Fin a) = Ret (Some s) \<and> DiffToTarget (Fin b) = Ret (Some t) \<and> 0 \<le> t \<and> t \<le> s"
proof -
  have pos: "0 < (2 ^ 224 / b :: rat)" using assms by simp
  have "(2 ^ 224 / b :: rat) \<le> 2 ^ 224 / a"
    using assms by (intro divide_left_mono) (auto intro!: mult_pos_pos)
  then have "bf_round 53 (2 ^ 224 / b) \<le> bf_round 53 (2 ^ 224 / a)"
    using pos by (intro bf_round_mono) auto
  then have "\<lfloor>bf_round 53 (2 ^ 224 / b)\<rfloor> \<le> \<lfloor>bf_round 53 (2 ^ 224 / a)\<rfloor>" by (rule floor_mono)
  moreover have "0 \<le> \<lfloor>bf_round 53 (2 ^ 224 / b)\<rfloor>" using bf_round_pos [OF pos, of 53] by simp
  ultimately show ?thesis using assms by (simp add: DiffToTarget_pos)
qed

theorem DiffToTarget_antitone_witness:
  "\<exists>s t. DiffToTarget (Fin 4) = Ret (Some s) \<and> DiffToTarget (Fin 8) = Ret (Some t) \<and> 0 \<le> t \<and> t \<le> s"
  by (rule DiffToTarget_antitone) simp_all

text \<open>
  C20: accuracy of \<open>DiffToTarget\<close>: the returned target differs from the exact quotient
  \<open>2^224 / d\<close> by at most one unit plus a relative error of \<open>2^-53\<close>.
\<close>

theorem DiffToTarget_accuracy:
  assumes "0 < d"
  shows "\<exists>t. DiffToTarget (Fin d) = Ret (Some t) \<and>
    \<bar>of_int t - 2 ^ 224 / d\<bar> \<le> 2 ^ 224 / d * pow2 (- 53) + 1"
proof -
  define x where "x = (2 ^ 224 / d :: rat)"
  have x: "0 < x" using assms by (simp add: x_def)
  have "\<bar>bf_round 53 x - x\<bar> \<le> x * pow2 (- 53)" using bf_round_error [OF x, of 53] by simp
  moreover have "of_int \<lfloor>bf_round 53 x\<rfloor> \<le> bf_round 53 x" "bf_round 53 x < of_int \<lfloor>bf_round 53 x\<rfloor> + 1"
    using floor_correct [of "bf_round 53 x"] by auto
  ultimately have "\<bar>of_int \<lfloor>bf_round 53 x\<rfloor> - x\<bar> \<le> x * pow2 (- 53) + 1" by linarith
  then show ?thesis using DiffToTarget_pos [OF assms] by (simp add: x_def)
qed

theorem DiffToTarget_accuracy_witness:
  "\<exists>t. DiffToTarget (Fin 3) = Ret (Some t) \<and> \<bar>of_int t - 2 ^ 224 / 3\<bar> \<le> 2 ^ 224 / 3 * pow2 (- 53) + 1"
  by (rule DiffToTarget_accuracy) simp

text \<open>
  C15: \<open>setDiffValue\<close> on every input: NaN panics (\<open>big.NewFloat\<close>); otherwise it returns, records
  the difficulty, and the stored target is nil exactly for a zero difficulty.
\<close>

theorem setDiffValue_cases:
  "if d = FNaN then (\<exists>m. setDiffValue k d = Panic m)
   else (\<exists>k'. setDiffValue k d = Ret k' \<and> diffValue k' = d \<and> (targetValue k' = None \<longleftrightarrow> f64_is_zero d))"
proof (cases "d = FNaN")
  case True
  then show ?thesis by (simp add: setDiffValue_def DiffToTarget_def)
next
  case False
  then obtain t h where "DiffToTarget d = Ret t" "t = None \<longleftrightarrow> f64_is_zero d" "DiffToHash d = Ret h"
    using DiffToTarget_Ret DiffToHash_Ret by blast
  then show ?thesis using False by (simp add: setDiffValue_def)
qed

text \<open>
  C7: \<open>CalculateTarget\<close> on a 32-bit \<open>bits\<close> field decodes the compact form: with exponent
  byte \<open>e\<close> and 24-bit mantissa \<open>m\<close> the target is \<open>m * 256^(e - 3)\<close>, or \<open>m\<close> shifted down
  when \<open>e\<close> is at most 3; no intermediate 64-bit step overflows.
\<close>

theorem CalculateTarget_compact:
  "CalculateTarget (ucast (bits :: 32 word)) =
     (let e = unat bits div 2 ^ 24; m = unat bits mod 2 ^ 24
      in int (if e \<le> 3 then m div 256 ^ (3 - e) else m * 256 ^ (e - 3)))"
proof -
  define w where "w = (ucast bits :: 64 word)"
  define e where "e = unat bits div 2 ^ 24"
  define m where "m = unat bits mod 2 ^ 24"
  have t: "unat (drop_bit 24 w) = e" "unat (w AND 16777215) = m"
    using CalculateTarget_parts [of bits] by (simp_all add: w_def e_def m_def)
  have e: "e < 256" using unat32_less [of bits] by (simp add: e_def less_mult_imp_div_less)
  have le: "drop_bit 24 w \<le> 3 \<longleftrightarrow> e \<le> 3" using t(1) by (simp add: word_le_nat_alt)
  show ?thesis
  proof (cases "e \<le> 3")
    case True
    have "unat (3 - drop_bit 24 w) = 3 - e"
      using True le t(1) unat_sub [of "drop_bit 24 w" 3] by simp
    then have "unat (8 * (3 - drop_bit 24 w)) = 8 * (3 - e)"
      by (subst unat_word_ariths(2)) simp
    then have "CalculateTarget w = int (m div 2 ^ (8 * (3 - e)))"
      using True le t by (simp only: CalculateTarget_def Let_def if_True uint_nat unat_drop_bit_div)
    then show ?thesis using True
      unfolding w_def [symmetric] e_def [symmetric] m_def [symmetric] by (simp add: Let_def power_mult)
  next
    case False
    have "unat (drop_bit 24 w - 3) = e - 3"
      using False le t(1) unat_sub [of 3 "drop_bit 24 w"] by (simp add: word_le_nat_alt)
    then have "unat (8 * (drop_bit 24 w - 3)) = 8 * (e - 3)"
      using e by (subst unat_word_ariths(2)) simp
    then have "CalculateTarget w = int m * 2 ^ (8 * (e - 3))"
      using False le t by (simp only: CalculateTarget_def Let_def if_False uint_nat)
    then show ?thesis using False
      unfolding w_def [symmetric] e_def [symmetric] m_def [symmetric] by (simp add: Let_def power_mult)
  qed
qed

lemma wf_sample_header: "wf_header sample_header" "wf_header (sample_header\<lparr>h_BlueScore := 3\<rparr>)"
  using hex_char_0
  by (auto simp: wf_header_def sample_header_def hash_text_def lower_hex_def intro!: exI [of _ 0])



text \<open>
  C17: the four-number job format is the header's four little-endian 64-bit words; the detour through
  hexadecimal text and \<open>big.Int\<close> changes nothing. A header of fewer than 32 bytes panics.
\<close>

theorem GenerateJobHeader_words:
  "GenerateJobHeader hdr =
     (if length hdr < 32 then Panic ''slice bounds out of range''
      else Ret (map (\<lambda>i. word_of_nat (get_le (take 8 (drop (8 * i) hdr)))) [0, 1, 2, 3]))"
proof (cases "length hdr < 32")
  case True
  then have "le_uint64 (drop 24 hdr) = None" by (simp add: le_uint64_def)
  then have "read_words le_uint64 hdr = None" by (simp add: read_words_def split: option.splits)
  then show ?thesis using True by (simp add: GenerateJobHeader_def)
next
  case False
  then show ?thesis by (simp add: GenerateJobHeader_def read_words_Some)
qed

text \<open>
  The single-string job format is the hexadecimal text of the 32 header bytes followed by the
  little-endian timestamp, so it always has 80 characters; a shorter header panics.
\<close>

theorem GenerateLargeJobParams_text:
  "GenerateLargeJobParams hdr ts =
     (if length hdr < 32 then Panic ''slice bounds out of range''
      else Ret (hex_encode (take 32 hdr @ le64 ts)))"
proof (cases "length hdr < 32")
  case True
  then have "be_uint64 (drop 24 hdr) = None" by (simp add: be_uint64_def)
  then have "read_words be_uint64 hdr = None" by (simp add: read_words_def split: option.splits)
  then show ?thesis using True by (simp add: GenerateLargeJobParams_def)
next
  case False
  have be: "be64 ts = rev (le64 ts)" by (simp add: be64_def le64_def)
  have lts: "le_uint64 (be64 ts) = Some (word_of_nat (get_le (be64 ts)))"
    by (simp add: le_uint64_def be64c.enc_width)
  have tx: "hex_pad 16 (unat (word_of_nat (get_le (be64 ts)) :: 64 word)) = hex_encode (le64 ts)"
    using hex_pad_be_word [of "le64 ts"] by (simp only: le64c.enc_width be)
  have "take 32 hdr = take 8 hdr @ take 8 (drop 8 hdr) @ take 8 (drop 16 hdr) @ take 8 (drop 24 hdr)"
    using take_add [of 8 24 hdr] take_add [of 8 16 "drop 8 hdr"] take_add [of 8 8 "drop 16 hdr"] by simp
  then show ?thesis using False
    by (simp add: GenerateLargeJobParams_def read_words_be_Some lts tx hex_pad_be_word hex_encode_append)
qed

end
