(* ===== verification/Mining_DB.thy ===== *)
theory Mining_DB
  imports Go_Float Go_Strings "HOL-Library.Multiset"
begin

text \<open>
  The database of mined blocks (\<open>src/htnstratum/db.go\<close>): one table with a unique block hash and
  a partial unique index on wallet and accepting block. The state is the list of rows; the SQL
  statements of the source are the functions on it, with their documented meaning. The engine may
  fail any statement: \<open>faults\<close> says which calls fail and how, and a failed statement changes
  nothing. The mutex and the engine make each statement atomic. Among rows of equal time the
  order of a query is the engine's choice, a parameter.
\<close>

subsection \<open>Rows\<close>

text \<open>\<open>accepting_block_hash\<close> is NULL (\<open>None\<close>) in rows from before the column was added.\<close>

record block_record =
  ID :: int
  r_Timestamp :: int
  r_BlockHash :: string
  WalletAddress :: string
  r_WorkerName :: string
  RewardAtoms :: "64 word"
  Status :: string
  AcceptingBlockHash :: "string option"

record mining_db =
  rows :: "block_record list"
  next_id :: int
  faults :: "nat \<Rightarrow> go_error option"
  calls :: nat

definition db_call :: "mining_db \<Rightarrow> go_error option \<times> mining_db" where
  "db_call d = (faults d (calls d), d\<lparr>calls := calls d + 1\<rparr>)"

definition fresh_db :: "(nat \<Rightarrow> go_error option) \<Rightarrow> mining_db" where
  "fresh_db f = \<lparr>rows = [], next_id = 1, faults = f, calls = 0\<rparr>"

text \<open>Rows that the partial unique index relates.\<close>

definition accepting_key :: "block_record \<Rightarrow> (string \<times> string) option" where
  "accepting_key r =
     (case AcceptingBlockHash r of
        None \<Rightarrow> None
      | Some a \<Rightarrow> if a = [] then None else Some (WalletAddress r, a))"

definition conflicts :: "block_record \<Rightarrow> block_record \<Rightarrow> bool" where
  "conflicts r s = (r_BlockHash r = r_BlockHash s \<or> accepting_key r \<noteq> None \<and> accepting_key r = accepting_key s)"

subsection \<open>Opening the database\<close>

text \<open>
  The file that the bridge finds: the rows of the table (none when there is no table yet), the next
  id, and whether the table already has the column \<open>accepting_block_hash\<close>. The engine keeps ids and
  block hashes of a file unique.
\<close>

record db_file =
  file_rows :: "block_record list"
  file_next :: int
  file_accepting :: bool

definition new_file :: db_file where
  "new_file = \<lparr>file_rows = [], file_next = 1, file_accepting = False\<rparr>"

definition file_ok :: "db_file \<Rightarrow> bool" where
  "file_ok file \<longleftrightarrow> distinct (map r_BlockHash (file_rows file)) \<and> distinct (map ID (file_rows file)) \<and>
     list_all (\<lambda>r. ID r < file_next file) (file_rows file)"

definition ascii_lower :: "string \<Rightarrow> string" where
  "ascii_lower = map (\<lambda>c. if 65 \<le> byte_of c \<and> byte_of c \<le> 90 then char_of (byte_of c + 32) else c)"

text \<open>A statement that the engine may fail, or that fails for a reason of its own.\<close>

definition exec_sql :: "go_error option \<Rightarrow> mining_db \<Rightarrow> go_error option \<times> mining_db" where
  "exec_sql reason d = (case db_call d of (Some e, d1) \<Rightarrow> (Some e, d1) | (None, d1) \<Rightarrow> (reason, d1))"

definition column_exists :: go_error where
  "column_exists = ErrMsg ''SQL logic error: duplicate column name: accepting_block_hash (1)''"

definition no_column :: go_error where
  "no_column = ErrMsg ''SQL logic error: no such column: accepting_block_hash (1)''"

definition not_unique :: go_error where
  "not_unique = ErrMsg ''constraint failed: UNIQUE constraint failed''"

definition tolerated :: "go_error \<Rightarrow> bool" where
  "tolerated e \<longleftrightarrow>
     (let msg = ascii_lower (error_string e)
      in str_contains msg ''duplicate column name'' \<or> str_contains msg ''already exists'')"

text \<open>
  \<open>InitDB\<close> opens the file, sets the journal mode, creates what is missing of the table, adds the
  column (which an error that says it exists does not prevent) and creates the two indexes on it.
  The second one is unique, so it cannot be created over rows that violate it.
\<close>

definition InitDB :: "db_file \<Rightarrow> (nat \<Rightarrow> go_error option) \<Rightarrow> go_error + mining_db" where
  "InitDB file f =
     (let d0 = \<lparr>rows = file_rows file, next_id = file_next file, faults = f, calls = 0\<rparr>
      in case exec_sql None d0 of
        (Some err, d1) \<Rightarrow> Inl (Wrap ''opening sqlite db'' err)
      | (None, d1) \<Rightarrow>
     (case exec_sql None d1 of
        (Some err, d2) \<Rightarrow> Inl (Wrap ''setting WAL mode'' err)
      | (None, d2) \<Rightarrow>
     (case exec_sql None d2 of
        (Some err, d3) \<Rightarrow> Inl (Wrap ''creating schema'' err)
      | (None, d3) \<Rightarrow>
     (let (added, d4) = exec_sql (if file_accepting file then Some column_exists else None) d3;
          d5 = (if added = None then d4\<lparr>rows := map (\<lambda>r. r\<lparr>AcceptingBlockHash := None\<rparr>) (rows d4)\<rparr> else d4);
          missing = (if file_accepting file \<or> added = None then None else Some no_column)
      in if (case added of None \<Rightarrow> False | Some err \<Rightarrow> \<not> tolerated err)
         then Inl (Wrap ''migrating schema (accepting_block_hash)'' (the added))
         else case exec_sql missing d5 of
        (Some err, d6) \<Rightarrow> Inl (Wrap ''creating idx_accepting'' err)
      | (None, d6) \<Rightarrow>
     (case exec_sql (if distinct (filter (\<lambda>k. k \<noteq> None) (map accepting_key (rows d6))) then None else Some not_unique) d6 of
        (Some err, d7) \<Rightarrow> Inl (Wrap ''creating uniq_wallet_accepting'' err)
      | (None, d7) \<Rightarrow> Inr d7)))))"

subsection \<open>Statements\<close>

text \<open>\<open>database/sql\<close> does not accept unsigned values with the high bit set.\<close>

definition uint64_arg :: "64 word \<Rightarrow> go_error option" where
  "uint64_arg v =
     (if 2 ^ 63 \<le> v then Some (ErrMsg ''sql: converting argument: uint64 values with high bit set are not supported'')
      else None)"

text \<open>\<open>INSERT OR IGNORE\<close>: a row that conflicts with a unique index is dropped silently.\<close>

definition RecordBlock :: "mining_db \<Rightarrow> block_record \<Rightarrow> go_error option \<times> mining_db" where
  "RecordBlock d r =
     (case uint64_arg (RewardAtoms r) of
        Some e \<Rightarrow> (Some e, d)
      | None \<Rightarrow>
          (case db_call d of
             (Some e, d1) \<Rightarrow> (Some e, d1)
           | (None, d1) \<Rightarrow>
               if list_ex (conflicts r) (rows d1) then (None, d1)
               else (None, d1\<lparr>rows := rows d1 @ [r\<lparr>ID := next_id d1\<rparr>], next_id := next_id d1 + 1\<rparr>)))"

definition update_rows :: "(block_record \<Rightarrow> bool) \<Rightarrow> (block_record \<Rightarrow> block_record) \<Rightarrow> mining_db \<Rightarrow> mining_db" where
  "update_rows p f d = d\<lparr>rows := map (\<lambda>r. if p r then f r else r) (rows d)\<rparr>"

definition UpdateReward :: "mining_db \<Rightarrow> string \<Rightarrow> 64 word \<Rightarrow> string \<Rightarrow> go_error option \<times> mining_db" where
  "UpdateReward d blockHash rewardAtoms status =
     (case uint64_arg rewardAtoms of
        Some e \<Rightarrow> (Some e, d)
      | None \<Rightarrow>
          (case db_call d of
             (Some e, d1) \<Rightarrow> (Some e, d1)
           | (None, d1) \<Rightarrow>
               (None, update_rows (\<lambda>r. r_BlockHash r = blockHash)
                  (\<lambda>r. r\<lparr>RewardAtoms := rewardAtoms, Status := status\<rparr>) d1)))"

text \<open>An update that would break the partial unique index fails and changes nothing.\<close>

definition SetAcceptingBlockHash :: "mining_db \<Rightarrow> string \<Rightarrow> string \<Rightarrow> go_error option \<times> mining_db" where
  "SetAcceptingBlockHash d blockHash acceptingBlockHash =
     (case db_call d of
        (Some e, d1) \<Rightarrow> (Some e, d1)
      | (None, d1) \<Rightarrow>
          (let d2 = update_rows (\<lambda>r. r_BlockHash r = blockHash)
                      (\<lambda>r. r\<lparr>AcceptingBlockHash := Some acceptingBlockHash\<rparr>) d1
           in if list_ex (\<lambda>r. r_BlockHash r = blockHash \<and>
                list_ex (\<lambda>s. r_BlockHash s \<noteq> blockHash \<and> accepting_key r \<noteq> None \<and> accepting_key r = accepting_key s)
                  (rows d2)) (rows d2)
              then (Some (ErrMsg ''UNIQUE constraint failed: block_rewards.wallet_address, block_rewards.accepting_block_hash''), d1)
              else (None, d2)))"

definition HasAcceptingBlockForWalletExcluding ::
  "mining_db \<Rightarrow> string \<Rightarrow> string \<Rightarrow> string \<Rightarrow> (go_error + bool) \<times> mining_db" where
  "HasAcceptingBlockForWalletExcluding d walletAddr acceptingBlockHash excludeBlockHash =
     (case db_call d of
        (Some e, d1) \<Rightarrow> (Inl e, d1)
      | (None, d1) \<Rightarrow>
          (Inr (list_ex (\<lambda>r. WalletAddress r = walletAddr \<and> AcceptingBlockHash r = Some acceptingBlockHash \<and>
             r_BlockHash r \<noteq> excludeBlockHash) (rows d1)), d1))"

definition HasAcceptingBlockForWallet :: "mining_db \<Rightarrow> string \<Rightarrow> string \<Rightarrow> (go_error + bool) \<times> mining_db" where
  "HasAcceptingBlockForWallet d walletAddr acceptingBlockHash =
     (case db_call d of
        (Some e, d1) \<Rightarrow> (Inl e, d1)
      | (None, d1) \<Rightarrow>
          (Inr (list_ex (\<lambda>r. WalletAddress r = walletAddr \<and> AcceptingBlockHash r = Some acceptingBlockHash) (rows d1)), d1))"

text \<open>\<open>Scan\<close> of a row: a NULL in the last column cannot be read into a string.\<close>

definition null_error :: go_error where
  "null_error = ErrMsg ''converting NULL to string is unsupported''"

fun scan_rows :: "block_record list \<Rightarrow> go_error + block_record list" where
  "scan_rows [] = Inr []"
| "scan_rows (r # rs) =
     (case AcceptingBlockHash r of
        None \<Rightarrow> Inl null_error
      | Some _ \<Rightarrow> (case scan_rows rs of Inl e \<Rightarrow> Inl e | Inr out \<Rightarrow> Inr (r # out)))"

definition wallet_rows :: "mining_db \<Rightarrow> string \<Rightarrow> block_record list" where
  "wallet_rows d walletAddr = filter (\<lambda>r. WalletAddress r = walletAddr) (rows d)"

text \<open>\<open>ord\<close> is the engine's \<open>ORDER BY timestamp DESC\<close>.\<close>

definition GetBlocksByWalletPaged ::
  "(block_record list \<Rightarrow> block_record list) \<Rightarrow> mining_db \<Rightarrow> string \<Rightarrow> int \<Rightarrow> int \<Rightarrow>
   (go_error + block_record list) \<times> mining_db" where
  "GetBlocksByWalletPaged ord d walletAddr limit offset =
     (let limit = (if limit \<le> 0 then 20 else limit);
          offset = (if offset < 0 then 0 else offset)
      in case db_call d of
           (Some e, d1) \<Rightarrow> (Inl e, d1)
         | (None, d1) \<Rightarrow> (scan_rows (take (nat limit) (drop (nat offset) (ord (wallet_rows d1 walletAddr)))), d1))"

definition GetBlocksByWallet ::
  "(block_record list \<Rightarrow> block_record list) \<Rightarrow> mining_db \<Rightarrow> string \<Rightarrow> int \<Rightarrow>
   (go_error + block_record list) \<times> mining_db" where
  "GetBlocksByWallet ord d walletAddr limit =
     (let limit = (if limit \<le> 0 then 200 else limit)
      in case db_call d of
           (Some e, d1) \<Rightarrow> (Inl e, d1)
         | (None, d1) \<Rightarrow> (scan_rows (take (nat limit) (ord (wallet_rows d1 walletAddr))), d1))"

definition CountBlocksByWallet :: "mining_db \<Rightarrow> string \<Rightarrow> (go_error + nat) \<times> mining_db" where
  "CountBlocksByWallet d walletAddr =
     (case db_call d of
        (Some e, d1) \<Rightarrow> (Inl e, d1)
      | (None, d1) \<Rightarrow> (Inr (length (wallet_rows d1 walletAddr)), d1))"

definition is_blue :: "block_record \<Rightarrow> bool" where
  "is_blue r = (Status r = ''blue'' \<or> Status r = ''merge_duplicate'')"

definition is_red :: "block_record \<Rightarrow> bool" where
  "is_red r = (Status r = ''red'')"

text \<open>Errors are returned as zeros; without rows the sums are NULL, which is such an error.\<close>

definition GetBlockCountsByWallet :: "mining_db \<Rightarrow> string \<Rightarrow> (nat \<times> nat \<times> nat) \<times> mining_db" where
  "GetBlockCountsByWallet d wallet =
     (case db_call d of
        (Some e, d1) \<Rightarrow> ((0, 0, 0), d1)
      | (None, d1) \<Rightarrow>
          (let rs = wallet_rows d1 wallet
           in if rs = [] then ((0, 0, 0), d1)
              else ((length (filter is_blue rs), length (filter is_red rs),
                     length (filter (\<lambda>r. Status r = ''pending'') rs)), d1)))"

text \<open>\<open>SUM\<close> of integers fails when it leaves the range of a signed 64-bit integer.\<close>

definition GetTotalAtomsByWallet :: "mining_db \<Rightarrow> string \<Rightarrow> (go_error + nat) \<times> mining_db" where
  "GetTotalAtomsByWallet d wallet =
     (case db_call d of
        (Some e, d1) \<Rightarrow> (Inl e, d1)
      | (None, d1) \<Rightarrow>
          (let total = sum_list (map (\<lambda>r. unat (RewardAtoms r)) (wallet_rows d1 wallet))
           in if total < 2 ^ 63 then (Inr total, d1) else (Inl (ErrMsg ''integer overflow''), d1)))"

definition GetBlock :: "mining_db \<Rightarrow> string \<Rightarrow> (go_error + block_record option) \<times> mining_db" where
  "GetBlock d blockHash =
     (case db_call d of
        (Some e, d1) \<Rightarrow> (Inl e, d1)
      | (None, d1) \<Rightarrow>
          (case find (\<lambda>r. r_BlockHash r = blockHash) (rows d1) of
             None \<Rightarrow> (Inr None, d1)
           | Some r \<Rightarrow> if AcceptingBlockHash r = None then (Inl null_error, d1) else (Inr (Some r), d1)))"

record worker_block_count =
  wc_WorkerName :: string
  wc_Blue :: nat
  wc_Red :: nat
  wc_BluePercent :: f64

definition worker_count :: "block_record list \<Rightarrow> string \<Rightarrow> worker_block_count" where
  "worker_count rs w =
     (let mine = filter (\<lambda>r. r_WorkerName r = w) rs;
          blue = length (filter is_blue mine);
          red = length (filter is_red mine)
      in \<lparr>wc_WorkerName = w, wc_Blue = blue, wc_Red = red,
          wc_BluePercent =
            (if 0 < blue + red
             then f64_mul (f64_div (f64_of_int (int blue)) (f64_of_int (int (blue + red)))) (Fin 100)
             else Fin 0)\<rparr>)"

text \<open>\<open>srt\<close> is \<open>sort.Slice\<close> by falling percentage, which may reorder equal elements.\<close>

definition GetWorkerBlockCountsByWallet ::
  "(worker_block_count list \<Rightarrow> worker_block_count list) \<Rightarrow> mining_db \<Rightarrow> string \<Rightarrow>
   (go_error + worker_block_count list) \<times> mining_db" where
  "GetWorkerBlockCountsByWallet srt d wallet =
     (case db_call d of
        (Some e, d1) \<Rightarrow> (Inl e, d1)
      | (None, d1) \<Rightarrow>
          (let rs = wallet_rows d1 wallet
           in (Inr (srt (map (worker_count rs) (remdups (map r_WorkerName rs)))), d1)))"

subsection \<open>Sequences of statements and the invariant\<close>

datatype db_op =
    DbRecord block_record
  | DbReward string "64 word" string
  | DbAccepting string string
  | DbRead \<comment> \<open>any query: it only counts as a call\<close>

fun db_step :: "db_op \<Rightarrow> mining_db \<Rightarrow> mining_db" where
  "db_step (DbRecord r) d = snd (RecordBlock d r)"
| "db_step (DbReward h a s) d = snd (UpdateReward d h a s)"
| "db_step (DbAccepting h a) d = snd (SetAcceptingBlockHash d h a)"
| "db_step DbRead d = snd (db_call d)"

definition db_inv :: "mining_db \<Rightarrow> bool" where
  "db_inv d \<longleftrightarrow>
     distinct (map r_BlockHash (rows d)) \<and>
     (\<forall>r \<in> set (rows d). \<forall>s \<in> set (rows d). accepting_key r \<noteq> None \<and> accepting_key r = accepting_key s \<longrightarrow> r = s) \<and>
     distinct (map ID (rows d)) \<and> (\<forall>r \<in> set (rows d). ID r < next_id d)"

definition db_status_ok :: "mining_db \<Rightarrow> bool" where
  "db_status_ok d \<longleftrightarrow>
     (\<forall>r \<in> set (rows d). Status r \<in> {''pending'', ''blue'', ''red'', ''merge_duplicate''})"

subsection \<open>The order of a query\<close>

text \<open>What \<open>ORDER BY\<close> promises; the order among equal keys is left open.\<close>

locale order_by =
  fixes ord :: "'r list \<Rightarrow> 'r list" and key :: "'r \<Rightarrow> int"
  assumes perm: "mset (ord rs) = mset rs"
    and desc: "sorted_wrt (\<lambda>r s. key s \<le> key r) (ord rs)"
begin

lemma length_ord: "length (ord rs) = length rs"
  using perm by (metis size_mset)

lemma set_ord: "set (ord rs) = set rs"
  using perm by (metis set_mset_mset)

text \<open>Consecutive pages cover the result without gap or overlap.\<close>

lemma pages: "0 < n \<Longrightarrow> concat (map (\<lambda>k. take n (drop (k * n) (ord rs))) [0..<Suc (length rs)]) = ord rs"
proof -
  assume n: "0 < n"
  have "concat (map (\<lambda>k. take n (drop (k * n) xs)) [0..<m]) = take (m * n) xs" for m and xs :: "'r list"
    by (induction m) (simp_all add: take_add [symmetric] add.commute)
  moreover have "length rs \<le> Suc (length rs) * n" using n by (cases n) auto
  ultimately show ?thesis by (simp add: length_ord)
qed

end

definition newest_first :: "block_record list \<Rightarrow> block_record list" where
  "newest_first rs = sort_key (\<lambda>r. - r_Timestamp r) rs"

interpretation newest: order_by newest_first r_Timestamp
proof
  fix rs :: "block_record list"
  show "mset (newest_first rs) = mset rs" by (simp add: newest_first_def)
  have "sorted (map (\<lambda>r. - r_Timestamp r) (newest_first rs))" by (simp add: newest_first_def)
  then show "sorted_wrt (\<lambda>r s. r_Timestamp s \<le> r_Timestamp r) (newest_first rs)"
    by (simp add: sorted_map)
qed

subsection \<open>Laws\<close>

lemma db_call_rows [simp]: "rows (snd (db_call d)) = rows d" "next_id (snd (db_call d)) = next_id d"
  by (simp_all add: db_call_def)

lemma db_call_eqD: "db_call d = (e, d1) \<Longrightarrow> rows d1 = rows d \<and> next_id d1 = next_id d"
  by (auto simp: db_call_def)

lemma update_rows_simps [simp]:
  "rows (update_rows p f d) = map (\<lambda>r. if p r then f r else r) (rows d)"
  "next_id (update_rows p f d) = next_id d"
  by (simp_all add: update_rows_def)

lemma db_inv_cong: "rows d1 = rows d \<Longrightarrow> next_id d1 = next_id d \<Longrightarrow> db_inv d1 = db_inv d"
  by (simp add: db_inv_def)

lemma RecordBlock_inv [bridge_inv]:
  assumes "db_inv d"
  shows "db_inv (snd (RecordBlock d r))"
proof -
  obtain e d1 where c: "db_call d = (e, d1)" by fastforce
  have d1: "db_inv d1" using db_call_eqD [OF c] assms db_inv_cong [of d1 d] by simp
  let ?r = "r\<lparr>ID := next_id d1\<rparr>"
  have k: "accepting_key ?r = accepting_key r" by (simp add: accepting_key_def split: option.split)
  have "db_inv (d1\<lparr>rows := rows d1 @ [?r], next_id := next_id d1 + 1\<rparr>)" if "\<not> list_ex (conflicts r) (rows d1)"
  proof -
    have nc: "\<forall>s \<in> set (rows d1). r_BlockHash r \<noteq> r_BlockHash s \<and> (accepting_key r = None \<or> accepting_key r \<noteq> accepting_key s)"
      using that by (auto simp: list_ex_iff conflicts_def)
    have "a = b" if ab: "a \<in> insert ?r (set (rows d1))" "b \<in> insert ?r (set (rows d1))"
      "accepting_key a \<noteq> None" "accepting_key a = accepting_key b" for a b
      using ab nc d1 k unfolding db_inv_def by (metis insert_iff)
    then have u: "\<forall>a \<in> set (rows d1 @ [?r]). \<forall>b \<in> set (rows d1 @ [?r]).
      accepting_key a \<noteq> None \<and> accepting_key a = accepting_key b \<longrightarrow> a = b"
      unfolding set_append list.set Un_insert_right Un_empty_right by blast
    have "distinct (map r_BlockHash (rows d1 @ [?r]))" "distinct (map ID (rows d1 @ [?r]))"
      "\<forall>a \<in> set (rows d1 @ [?r]). ID a < next_id d1 + 1"
      using d1 nc by (force simp: db_inv_def)+
    then show ?thesis using u unfolding db_inv_def by simp
  qed
  then show ?thesis using assms d1 c by (auto simp: RecordBlock_def split: option.split)
qed

lemma update_rows_inv:
  assumes "db_inv d" "\<And>r. r_BlockHash (f r) = r_BlockHash r" "\<And>r. ID (f r) = ID r" "\<And>r. accepting_key (f r) = accepting_key r"
  shows "db_inv (update_rows p f d)"
proof -
  define g where "g r = (if p r then f r else r)" for r
  have g: "r_BlockHash (g r) = r_BlockHash r" "ID (g r) = ID r" "accepting_key (g r) = accepting_key r" for r
    using assms(2-4) by (simp_all add: g_def)
  have rows2: "rows (update_rows p f d) = map g (rows d)" by (simp add: g_def)
  have "distinct (map r_BlockHash (map g (rows d)))" "distinct (map ID (map g (rows d)))"
    "\<forall>r \<in> set (map g (rows d)). ID r < next_id d"
    using assms(1) by (simp_all add: db_inv_def comp_def g)
  moreover have "\<forall>r \<in> set (map g (rows d)). \<forall>s \<in> set (map g (rows d)).
      accepting_key r \<noteq> None \<and> accepting_key r = accepting_key s \<longrightarrow> r = s"
  proof (intro ballI impI)
    fix r s assume rs: "r \<in> set (map g (rows d))" "s \<in> set (map g (rows d))"
      and k: "accepting_key r \<noteq> None \<and> accepting_key r = accepting_key s"
    obtain r0 where r0: "r0 \<in> set (rows d)" "r = g r0" using rs(1) unfolding set_map by blast
    obtain s0 where s0: "s0 \<in> set (rows d)" "s = g s0" using rs(2) unfolding set_map by blast
    have "accepting_key r0 \<noteq> None \<and> accepting_key r0 = accepting_key s0" using k unfolding r0 s0 g .
    then have "r0 = s0" using assms(1) r0(1) s0(1) unfolding db_inv_def by blast
    then show "r = s" unfolding r0 s0 by (rule arg_cong)
  qed
  ultimately show ?thesis unfolding db_inv_def rows2 by simp
qed

lemma UpdateReward_inv [bridge_inv]: "db_inv d \<Longrightarrow> db_inv (snd (UpdateReward d h a s))"
proof -
  assume i: "db_inv d"
  obtain e d1 where c: "db_call d = (e, d1)" by fastforce
  have d1: "db_inv d1" using db_call_eqD [OF c] i db_inv_cong [of d1 d] by simp
  then show ?thesis
    using i update_rows_inv [OF d1, of "\<lambda>r. r\<lparr>RewardAtoms := a, Status := s\<rparr>"]
    by (simp add: UpdateReward_def c accepting_key_def split: option.split)
qed

lemma SetAccepting_inv [bridge_inv]: "db_inv d \<Longrightarrow> db_inv (snd (SetAcceptingBlockHash d h a))"
proof -
  assume i: "db_inv d"
  obtain e d1 where c: "db_call d = (e, d1)" by fastforce
  have d1: "db_inv d1" using db_call_eqD [OF c] i db_inv_cong [of d1 d] by simp
  define g :: "block_record \<Rightarrow> block_record" where "g r = (if r_BlockHash r = h then r\<lparr>AcceptingBlockHash := Some a\<rparr> else r)" for r
  define d2 where "d2 = update_rows (\<lambda>r. r_BlockHash r = h) (\<lambda>r. r\<lparr>AcceptingBlockHash := Some a\<rparr>) d1"
  have rows2: "rows d2 = map g (rows d1)" "next_id d2 = next_id d1" by (simp_all add: d2_def g_def)
  have g: "r_BlockHash (g r) = r_BlockHash r" "ID (g r) = ID r" for r by (simp_all add: g_def)
  define bad where "bad \<longleftrightarrow> list_ex (\<lambda>r. r_BlockHash r = h \<and>
    list_ex (\<lambda>s. r_BlockHash s \<noteq> h \<and> accepting_key r \<noteq> None \<and> accepting_key r = accepting_key s) (rows d2)) (rows d2)"
  have "db_inv d2" if ok: "\<not> bad"
  proof -
    have ok2: "r_BlockHash r = h \<Longrightarrow> r_BlockHash s \<noteq> h \<Longrightarrow> accepting_key r \<noteq> None \<Longrightarrow> accepting_key r \<noteq> accepting_key s"
      if "r \<in> set (rows d2)" "s \<in> set (rows d2)" for r s
      using ok that unfolding bad_def list_ex_iff by blast
    have dist: "distinct (map r_BlockHash (rows d2))" "distinct (map ID (rows d2))" "\<forall>r \<in> set (rows d2). ID r < next_id d2"
      using d1 by (auto simp: rows2 db_inv_def comp_def g)
    have "r = s" if rs: "r \<in> set (rows d2)" "s \<in> set (rows d2)" "accepting_key r \<noteq> None" "accepting_key r = accepting_key s" for r s
    proof (cases "r_BlockHash r = r_BlockHash s")
      case True
      then show ?thesis using dist(1) rs by (metis distinct_map inj_onD)
    next
      case False
      then have "r_BlockHash r \<noteq> h" "r_BlockHash s \<noteq> h"
        using ok2 [OF rs(1,2)] ok2 [OF rs(2,1)] rs(3,4) by metis+
      then have "r \<in> set (rows d1)" "s \<in> set (rows d1)" using rs by (auto simp: rows2 g_def split: if_splits)
      then show ?thesis using d1 rs by (auto simp: db_inv_def)
    qed
    then show ?thesis using dist unfolding db_inv_def by blast
  qed
  then show ?thesis using d1 unfolding SetAcceptingBlockHash_def c bad_def d2_def Let_def
    by (auto split: option.split)
qed

lemma db_step_inv [bridge_inv]: "db_inv d \<Longrightarrow> db_inv (db_step op d)"
  by (cases op) (simp_all add: RecordBlock_inv UpdateReward_inv SetAccepting_inv db_inv_cong [of "snd (db_call d)" d])

lemma exec_sqlD: "exec_sql e d = (r, d1) \<Longrightarrow> rows d1 = rows d \<and> next_id d1 = next_id d \<and> (r = None \<longrightarrow> e = None)"
  by (auto simp: exec_sql_def db_call_def split: option.splits)

lemma distinct_some_keys:
  assumes "distinct (filter (\<lambda>k. k \<noteq> None) (map f xs))" "x \<in> set xs" "y \<in> set xs" "f x \<noteq> None" "f x = f y"
  shows "x = y"
  using assms
proof (induction xs)
  case (Cons a xs)
  have tail: "distinct (filter (\<lambda>k. k \<noteq> None) (map f xs))" using Cons.prems(1) by (auto split: if_splits)
  have "f a \<notin> f ` set xs" if "f a \<noteq> None" using Cons.prems(1) that by auto
  then show ?case using Cons.IH [OF tail] Cons.prems(2-5) by (metis image_eqI set_ConsD)
qed simp

text \<open>What \<open>InitDB\<close> leaves: the rows of the file, or those with the new column, and the unique index.\<close>

lemma InitDB_rows:
  assumes "InitDB file f = Inr d"
  shows "next_id d = file_next file" "distinct (filter (\<lambda>k. k \<noteq> None) (map accepting_key (rows d)))"
      "file_accepting file \<Longrightarrow> rows d = file_rows file"
    "\<not> file_accepting file \<Longrightarrow> rows d = map (\<lambda>r. r\<lparr>AcceptingBlockHash := None\<rparr>) (file_rows file)"
  using assms unfolding InitDB_def Let_def
  by (auto split: option.splits prod.splits if_splits dest!: exec_sqlD)

lemma InitDB_inv:
  assumes "InitDB file f = Inr d" "file_ok file"
  shows "db_inv d"
proof -
  have keys: "map r_BlockHash (rows d) = map r_BlockHash (file_rows file)" "map ID (rows d) = map ID (file_rows file)"
    using InitDB_rows(3,4) [OF assms(1)] by (cases "file_accepting file"; auto)+
  have "i < next_id d" if "i \<in> set (map ID (rows d))" for i
    using assms(2) that InitDB_rows(1) [OF assms(1)] unfolding keys by (auto simp: file_ok_def list_all_iff)
  then have "\<forall>r \<in> set (rows d). ID r < next_id d" by simp
  moreover have "r = s" if "r \<in> set (rows d)" "s \<in> set (rows d)" "accepting_key r \<noteq> None" "accepting_key r = accepting_key s" for r s
    using distinct_some_keys [OF InitDB_rows(2) [OF assms(1)] that] .
  ultimately show ?thesis using assms(2) unfolding db_inv_def keys file_ok_def by blast
qed

text \<open>
  C32: whatever file the bridge opens, whatever statements run then and whichever of them the engine
  fails, the table keeps its constraints: block hashes and ids are unique, ids are below the next
  one, and no two rows of a wallet name the same accepting block, so a payment is booked for a wallet
  at most once.
\<close>

theorem mining_db_invariant:
  assumes "InitDB file f = Inr d" "file_ok file"
  shows "db_inv (fold db_step ops d)"
  using InitDB_inv [OF assms] by (rule fold_invariant_list) (rule db_step_inv)

definition no_faults :: "mining_db \<Rightarrow> bool" where
  "no_faults d \<longleftrightarrow> faults d = (\<lambda>n. None)"

lemma db_call_ok: "no_faults d \<Longrightarrow> db_call d = (None, d\<lparr>calls := calls d + 1\<rparr>)"
  by (simp add: no_faults_def db_call_def)

lemma find_append: "find p (xs @ ys) = (case find p xs of None \<Rightarrow> find p ys | Some x \<Rightarrow> Some x)"
  by (induction xs) auto

text \<open>
  C34: a recorded block is found again under its hash, with the next id, and nothing else changes:
  a block that is in the table already, or would be booked twice for its accepting block, is
  ignored and every lookup answers as before.
\<close>

theorem RecordBlock_GetBlock:
  assumes "no_faults d" "RewardAtoms r < 2 ^ 63" "AcceptingBlockHash r = Some a"
  shows "fst (RecordBlock d r) = None \<and>
    fst (GetBlock (snd (RecordBlock d r)) h) =
      (if h = r_BlockHash r \<and> \<not> list_ex (conflicts r) (rows d) then Inr (Some (r\<lparr>ID := next_id d\<rparr>))
       else fst (GetBlock d h))"
proof -
  let ?d1 = "d\<lparr>calls := calls d + 1\<rparr>"
  have arg: "uint64_arg (RewardAtoms r) = None" using assms(2) by (simp add: uint64_arg_def not_le)
  have f1: "no_faults ?d1" using assms(1) by (simp add: no_faults_def)
  show ?thesis
  proof (cases "list_ex (conflicts r) (rows d)")
    case True
    then show ?thesis using assms(1) f1 arg by (simp add: RecordBlock_def GetBlock_def db_call_ok split: option.split)
  next
    case False
    let ?d2 = "?d1\<lparr>rows := rows d @ [r\<lparr>ID := next_id d\<rparr>], next_id := next_id d + 1\<rparr>"
    have f2: "no_faults ?d2" using assms(1) by (simp add: no_faults_def)
    have rec: "RecordBlock d r = (None, ?d2)" using False assms(1) arg by (simp add: RecordBlock_def db_call_ok)
    have "find (\<lambda>x. r_BlockHash x = r_BlockHash r) (rows d) = None"
      using False by (auto simp: find_None_iff list_ex_iff conflicts_def)
    then show ?thesis using rec f2 assms(1,3) False
      by (simp add: GetBlock_def db_call_ok find_append split: option.split)
  qed
qed

definition sample_row :: block_record where
  "sample_row =
     \<lparr>ID = 0, r_Timestamp = 10, r_BlockHash = ''ab'', WalletAddress = ''w'', r_WorkerName = ''rig'',
      RewardAtoms = 0, Status = ''pending'', AcceptingBlockHash = Some []\<rparr>"

theorem RecordBlock_GetBlock_witness:
  "fst (GetBlock (snd (RecordBlock (fresh_db (\<lambda>n. None)) sample_row)) ''ab'') = Inr (Some (sample_row\<lparr>ID := 1\<rparr>))"
proof -
  have "fst (RecordBlock (fresh_db (\<lambda>n. None)) sample_row) = None \<and>
    fst (GetBlock (snd (RecordBlock (fresh_db (\<lambda>n. None)) sample_row)) ''ab'') =
      (if ''ab'' = r_BlockHash sample_row \<and> \<not> list_ex (conflicts sample_row) (rows (fresh_db (\<lambda>n. None)))
       then Inr (Some (sample_row\<lparr>ID := next_id (fresh_db (\<lambda>n. None))\<rparr>)) else fst (GetBlock (fresh_db (\<lambda>n. None)) ''ab''))"
    by (rule RecordBlock_GetBlock) (simp_all add: no_faults_def fresh_db_def sample_row_def)
  then show ?thesis by (simp add: fresh_db_def sample_row_def)
qed

lemma length_filter_groups:
  "sum_list (map (\<lambda>w. length (filter P (filter (\<lambda>r. f r = w) rs))) ws) = length (filter (\<lambda>r. P r \<and> f r \<in> set ws) rs)"
  if "distinct ws"
  using that
proof (induction ws)
  case (Cons w ws)
  have "length (filter (\<lambda>r. P r \<and> f r \<in> set (w # ws)) rs) =
    length (filter P (filter (\<lambda>r. f r = w) rs)) + length (filter (\<lambda>r. P r \<and> f r \<in> set ws) rs)"
    using Cons.prems by (induction rs) auto
  then show ?case using Cons by simp
qed simp

lemma status_partition:
  assumes "\<forall>r \<in> set rs. Status r \<in> {''pending'', ''blue'', ''red'', ''merge_duplicate''}"
  shows "length (filter is_blue rs) + length (filter is_red rs) + length (filter (\<lambda>r. Status r = ''pending'') rs) = length rs"
  using assms by (induction rs) (auto simp: is_blue_def is_red_def)

lemma sum_list_perm: "mset xs = mset ys \<Longrightarrow> sum_list (map f xs) = (sum_list (map f ys) :: nat)"
  by (metis mset_map sum_mset_sum_list)

text \<open>
  The counts of the web page agree: blue, red and pending blocks of a wallet add up to the
  number of its blocks, and the blue and red blocks of its workers add up to those of the wallet,
  however the workers are sorted.
\<close>

theorem block_counts_consistent:
  assumes "no_faults d" "db_status_ok d" "\<And>xs. mset (srt xs) = mset xs"
    "GetBlockCountsByWallet d w = ((blue, red, pend), d1)" "GetWorkerBlockCountsByWallet srt d w = (Inr ws, d2)"
    "CountBlocksByWallet d w = (Inr n, d3)"
  shows "blue + red + pend = n \<and> sum_list (map wc_Blue ws) = blue \<and> sum_list (map wc_Red ws) = red"
proof -
  define rs where "rs = wallet_rows d w"
  have wr: "wallet_rows (d\<lparr>calls := c\<rparr>) w = rs" for c by (simp add: rs_def wallet_rows_def)
  have n: "n = length rs" using assms(1,6) by (simp add: CountBlocksByWallet_def db_call_ok wr)
  have counts: "blue = length (filter is_blue rs)" "red = length (filter is_red rs)"
    "pend = length (filter (\<lambda>r. Status r = ''pending'') rs)"
    using assms(1,4) by (auto simp: GetBlockCountsByWallet_def db_call_ok wr Let_def split: if_splits)
  have ws: "ws = srt (map (worker_count rs) (remdups (map r_WorkerName rs)))"
    using assms(1,5) by (simp add: GetWorkerBlockCountsByWallet_def db_call_ok wr Let_def)
  have all: "filter (\<lambda>r. P r \<and> r_WorkerName r \<in> set (remdups (map r_WorkerName rs))) rs = filter P rs" for P
    by (rule filter_cong) auto
  have "sum_list (map wc_Blue ws) = sum_list (map (\<lambda>v. length (filter is_blue (filter (\<lambda>r. r_WorkerName r = v) rs))) (remdups (map r_WorkerName rs)))"
    unfolding ws sum_list_perm [OF assms(3)] by (simp add: worker_count_def Let_def comp_def)
  then have b: "sum_list (map wc_Blue ws) = blue" by (simp only: length_filter_groups distinct_remdups all counts)
  have "sum_list (map wc_Red ws) = sum_list (map (\<lambda>v. length (filter is_red (filter (\<lambda>r. r_WorkerName r = v) rs))) (remdups (map r_WorkerName rs)))"
    unfolding ws sum_list_perm [OF assms(3)] by (simp add: worker_count_def Let_def comp_def)
  then have r: "sum_list (map wc_Red ws) = red" by (simp only: length_filter_groups distinct_remdups all counts)
  have "\<forall>r \<in> set rs. Status r \<in> {''pending'', ''blue'', ''red'', ''merge_duplicate''}"
    using assms(2) by (auto simp: rs_def wallet_rows_def db_status_ok_def)
  then show ?thesis using b r status_partition [of rs] by (simp add: n counts)
qed

definition sample_db :: mining_db where
  "sample_db = snd (RecordBlock (snd (RecordBlock (fresh_db (\<lambda>n. None)) sample_row))
     (sample_row\<lparr>r_BlockHash := ''cd'', Status := ''red'', r_Timestamp := 20\<rparr>))"

lemma sample_db_eq:
  "sample_db = \<lparr>rows = [sample_row\<lparr>ID := 1\<rparr>, sample_row\<lparr>ID := 2, r_BlockHash := ''cd'', Status := ''red'', r_Timestamp := 20\<rparr>],
     next_id = 3, faults = (\<lambda>n. None), calls = 2\<rparr>"
  by (simp add: sample_db_def RecordBlock_def fresh_db_def db_call_def uint64_arg_def sample_row_def conflicts_def
      accepting_key_def)

theorem block_counts_consistent_witness:
  "fst (GetBlockCountsByWallet sample_db ''w'') = (0, 1, 1) \<and>
   (\<exists>ws. fst (GetWorkerBlockCountsByWallet (\<lambda>xs. xs) sample_db ''w'') = Inr ws \<and>
      sum_list (map wc_Blue ws) = 0 \<and> sum_list (map wc_Red ws) = 1)"
proof -
  obtain c d1 where c: "GetBlockCountsByWallet sample_db ''w'' = (c, d1)" by fastforce
  obtain ws d2 where ws: "GetWorkerBlockCountsByWallet (\<lambda>xs. xs) sample_db ''w'' = (Inr ws, d2)"
    by (auto simp: GetWorkerBlockCountsByWallet_def sample_db_eq db_call_def Let_def)
  obtain n d3 where n: "CountBlocksByWallet sample_db ''w'' = (Inr n, d3)"
    by (auto simp: CountBlocksByWallet_def sample_db_eq db_call_def)
  have eq: "c = (0, 1, 1)" using c
    by (auto simp: GetBlockCountsByWallet_def sample_db_eq db_call_def Let_def wallet_rows_def sample_row_def is_blue_def is_red_def)
  have "(0 :: nat) + 1 + 1 = n \<and> sum_list (map wc_Blue ws) = 0 \<and> sum_list (map wc_Red ws) = 1"
    by (rule block_counts_consistent [OF _ _ refl c [unfolded eq] ws n])
      (simp_all add: sample_db_eq no_faults_def db_status_ok_def sample_row_def)
  then show ?thesis using c ws eq by simp
qed

lemma scan_rows_ok: "\<forall>r \<in> set rs. AcceptingBlockHash r \<noteq> None \<Longrightarrow> scan_rows rs = Inr rs"
  by (induction rs) auto



text \<open>A database of an earlier version, without the column.\<close>

definition old_file :: db_file where
  "old_file = \<lparr>file_rows = [sample_row\<lparr>ID := 1\<rparr>], file_next = 2, file_accepting = False\<rparr>"

lemma old_file_opens:
  "InitDB old_file (\<lambda>n. None) =
   Inr \<lparr>rows = [sample_row\<lparr>ID := 1, AcceptingBlockHash := None\<rparr>], next_id = 2, faults = (\<lambda>n. None), calls = 6\<rparr>"
  by (simp add: InitDB_def exec_sql_def db_call_def old_file_def accepting_key_def)

theorem mining_db_invariant_witness:
  "\<exists>d. InitDB old_file (\<lambda>n. None) = Inr d \<and> db_inv (fold db_step [] d)"
  using mining_db_invariant [OF old_file_opens, of "[]"] old_file_opens
  by (auto simp: file_ok_def old_file_def)

text \<open>A new file gets a table, an existing one keeps its rows.\<close>

lemma new_file_opens: "InitDB new_file (\<lambda>n. None) = Inr ((fresh_db (\<lambda>n. None))\<lparr>calls := 6\<rparr>)"
  by (simp add: InitDB_def exec_sql_def db_call_def new_file_def fresh_db_def)

lemma reopened:
  assumes "file_accepting file" "distinct (filter (\<lambda>k. k \<noteq> None) (map accepting_key (file_rows file)))"
  shows "InitDB file (\<lambda>n. None) = Inr \<lparr>rows = file_rows file, next_id = file_next file, faults = (\<lambda>n. None), calls = 6\<rparr>"
proof -
  have "tolerated column_exists" by code_simp
  then show ?thesis using assms by (simp add: InitDB_def exec_sql_def db_call_def)
qed

text \<open>
  C33: the migration leaves the rows of an older database unreadable. They get NULL in the new
  column, which cannot be scanned into a string: once such a file is opened, reading one of its
  blocks fails, and so do the lists of every wallet with such a block and the first page of its
  statistics. The booking of a reward starts with such a read too.
\<close>

theorem migrated_rows_unreadable:
  assumes "InitDB file f = Inr d" "\<not> file_accepting file" "no_faults d" "r \<in> set (file_rows file)" "order_by ord r_Timestamp"
  shows "fst (GetBlock d (r_BlockHash r)) = Inl null_error \<and>
    fst (GetBlocksByWallet ord d (WalletAddress r) limit) = Inl null_error \<and>
    fst (GetBlocksByWalletPaged ord d (WalletAddress r) limit 0) = Inl null_error"
proof -
  have rows: "rows d = map (\<lambda>r. r\<lparr>AcceptingBlockHash := None\<rparr>) (file_rows file)"
    using InitDB_rows(4) [OF assms(1,2)] .
  have null: "AcceptingBlockHash q = None" if "q \<in> set (rows d)" for q using that by (auto simp: rows)
  have mem: "r\<lparr>AcceptingBlockHash := None\<rparr> \<in> set (rows d)" using assms(4) by (simp add: rows)
  then obtain q where q: "find (\<lambda>q. r_BlockHash q = r_BlockHash r) (rows d) = Some q"
    by (cases "find (\<lambda>q. r_BlockHash q = r_BlockHash r) (rows d)") (auto simp: find_None_iff)
  then have "AcceptingBlockHash q = None" using null by (metis find_Some_iff nth_mem)
  then have one: "fst (GetBlock d (r_BlockHash r)) = Inl null_error" using q assms(3) by (simp add: GetBlock_def db_call_ok)
  have "r\<lparr>AcceptingBlockHash := None\<rparr> \<in> set (ord (wallet_rows d (WalletAddress r)))"
    using mem order_by.set_ord [OF assms(5)] by (simp add: wallet_rows_def)
  then obtain a as where l: "ord (wallet_rows d (WalletAddress r)) = a # as" by (metis list.set_cases)
  then have "a \<in> set (rows d)" using order_by.set_ord [OF assms(5), of "wallet_rows d (WalletAddress r)"]
    by (auto simp: wallet_rows_def)
  then have "scan_rows (take n (a # as)) = Inl null_error" if "0 < n" for n using null that by (cases n) auto
  moreover have "wallet_rows (d\<lparr>calls := n\<rparr>) w = wallet_rows d w" for n w by (simp add: wallet_rows_def)
  ultimately show ?thesis using one assms(3) l
    by (simp add: GetBlocksByWallet_def GetBlocksByWalletPaged_def db_call_ok Let_def)
qed

theorem migrated_rows_unreadable_witness:
  "\<exists>d. InitDB old_file (\<lambda>n. None) = Inr d \<and> fst (GetBlock d ''ab'') = Inl null_error \<and>
     fst (GetBlocksByWalletPaged newest_first d ''w'' 20 0) = Inl null_error"
  using migrated_rows_unreadable [OF old_file_opens, of "sample_row\<lparr>ID := 1\<rparr>" newest_first 20]
  by (auto simp: old_file_opens no_faults_def newest.order_by_axioms)
    (simp_all add: old_file_def sample_row_def)

end
