(* ===== verification/Share_Handler.thy ===== *)
theory Share_Handler
  imports Work_Stats Prom Pow Hasher Mining_DB
begin

text \<open>
  The share handler (\<open>src/htnstratum/share_handler.go\<close>): what happens to a share that a miner
  submits. The world of a handler is the metric log, the connection it serves and the share
  handler that all connections share; a call is one step on it that returns, panics, or does not
  return, and keeps the changes made before a panic. A pointer to a worker's statistics is their
  key in the map. The node, the clock (read once per call) and the libraries are the environment
  \<open>node_env\<close>. Goroutines that a call starts and calls to other components are recorded in the
  share handler: cache invalidations, pushes of new jobs, reward lookups, submitted blocks.
\<close>

subsection \<open>State and environment\<close>

record share_handler =
  sh_soloDiff :: f64
  sh_stats :: "string \<rightharpoonup> work_stats"
  sh_overall :: work_stats
  sh_rollingStats :: bool
  sh_tipBlueScore :: "64 word"
  sh_invalidateGBTCache :: bool \<comment> \<open>whether the callback is set\<close>
  sh_onBlockSolved :: bool
  sh_miningDB :: "mining_db option"
  sh_invalidations :: nat
  sh_solved :: nat
  sh_rewardJobs :: "string list"
  sh_submitted :: "(domain_block \<times> string) list"

record share_world = prom_state +
  sw_ctx :: stratum_context
  sw_sh :: share_handler

record node_env =
  env_now :: int
  env_lib :: node_lib
  env_gm :: go_math
  env_accepts :: "prom_call \<Rightarrow> bool"
  env_GetInfo :: "go_error + bool option" \<comment> \<open>\<open>IsSynced\<close> of the answer, which may be nil\<close>
  env_SubmitBlock :: "domain_block \<Rightarrow> string \<Rightarrow> go_error option"

definition newShareHandler :: "bool \<Rightarrow> bool \<Rightarrow> mining_db option \<Rightarrow> share_handler" where
  "newShareHandler rollingStats invalidateGBTCache miningDB =
     \<lparr>sh_soloDiff = Fin 0, sh_stats = Map.empty, sh_overall = empty_stats, sh_rollingStats = rollingStats,
      sh_tipBlueScore = 0, sh_invalidateGBTCache = invalidateGBTCache, sh_onBlockSolved = False,
      sh_miningDB = miningDB, sh_invalidations = 0, sh_solved = 0, sh_rewardJobs = [], sh_submitted = []\<rparr>"

subsection \<open>Steps on the world\<close>

definition upd_sh :: "(share_handler \<Rightarrow> share_handler) \<Rightarrow> ('s share_world_scheme, unit) handler" where
  "upd_sh f = wmodify (\<lambda>w. w\<lparr>sw_sh := f (sw_sh w)\<rparr>)"

definition upd_stats :: "string \<Rightarrow> (work_stats \<Rightarrow> work_stats) \<Rightarrow> ('s share_world_scheme, unit) handler" where
  "upd_stats key f = upd_sh (\<lambda>sh. sh\<lparr>sh_stats := (sh_stats sh)(key := map_option f (sh_stats sh key))\<rparr>)"

definition upd_overall :: "(work_stats \<Rightarrow> work_stats) \<Rightarrow> ('s share_world_scheme, unit) handler" where
  "upd_overall f = upd_sh (\<lambda>sh. sh\<lparr>sh_overall := f (sh_overall sh)\<rparr>)"

definition upd_ctx :: "(stratum_context \<Rightarrow> stratum_context) \<Rightarrow> ('s share_world_scheme, unit) handler" where
  "upd_ctx f = wmodify (\<lambda>w. w\<lparr>sw_ctx := f (sw_ctx w)\<rparr>)"

definition reply_with ::
  "(stratum_context \<Rightarrow> json \<Rightarrow> go_error option \<times> stratum_context) \<Rightarrow> json \<Rightarrow> ('s share_world_scheme, go_error option) handler" where
  "reply_with f i w = (Ret (fst (f (sw_ctx w) i)), w\<lparr>sw_ctx := snd (f (sw_ctx w) i)\<rparr>)"

text \<open>A metric of the connection that is served.\<close>

definition record_ctx :: "(stratum_context \<Rightarrow> ('s share_world_scheme, unit) handler) \<Rightarrow> ('s share_world_scheme, unit) handler" where
  "record_ctx f w = f (sw_ctx w) w"

definition whang :: "('s, 'a) handler" where
  "whang s = (Hang, s)"

subsection \<open>Statistics of a worker\<close>

definition stats_key :: "stratum_context \<Rightarrow> string" where
  "stats_key ctx = (if WorkerName ctx \<noteq> [] then WalletAddr ctx @ ''.'' @ WorkerName ctx else RemoteAddr ctx)"

definition new_stats :: "int \<Rightarrow> stratum_context \<Rightarrow> work_stats" where
  "new_stats now ctx =
     empty_stats\<lparr>LastShare := Some now, ws_WorkerName := (if WorkerName ctx = [] then RemoteAddr ctx else WorkerName ctx),
       StartTime := Some now, ws_WalletAddr := WalletAddr ctx\<rparr>"

definition getCreateStats :: "node_env \<Rightarrow> ('s share_world_scheme, string) handler" where
  "getCreateStats env w =
     (let key = stats_key (sw_ctx w)
      in case sh_stats (sw_sh w) key of
           Some _ \<Rightarrow> wret key w
         | None \<Rightarrow>
             wbind (upd_sh (\<lambda>sh. sh\<lparr>sh_stats := (sh_stats sh)(key \<mapsto> new_stats (env_now env) (sw_ctx w))\<rparr>)) (\<lambda>_.
             wbind (record_ctx (InitWorkerCounters (env_accepts env))) (\<lambda>_.
             wret key)) w)"

definition removeStats :: "stratum_context \<Rightarrow> share_handler \<Rightarrow> share_handler" where
  "removeStats ctx sh =
     (let sh1 = (if WorkerName ctx \<noteq> []
                 then sh\<lparr>sh_stats := (sh_stats sh)(WalletAddr ctx @ ''.'' @ WorkerName ctx := None)\<rparr> else sh)
      in if RemoteAddr ctx \<noteq> [] then sh1\<lparr>sh_stats := (sh_stats sh1)(RemoteAddr ctx := None)\<rparr> else sh1)"

definition setSoloDiff :: "f64 \<Rightarrow> share_handler \<Rightarrow> share_handler" where
  "setSoloDiff diff sh = sh\<lparr>sh_soloDiff := diff\<rparr>"

subsection \<open>Validation\<close>

record submit_info =
  si_jobId :: int
  si_block :: "rpc_block option"
  si_noncestr :: string
  si_nonceVal :: "64 word"
  si_powHash :: bytes

text \<open>\<open>event.Params[i].(string)\<close>, for an index in range.\<close>

definition param_str :: "json_rpc_event \<Rightarrow> nat \<Rightarrow> string option" where
  "param_str event i = (case ev_Params event ! i of JStr s \<Rightarrow> Some s | _ \<Rightarrow> None)"

text \<open>An error that blames the miner's data; the rendering of the parameters in it is left out.\<close>

definition bad_data :: "node_env \<Rightarrow> error_short_code \<Rightarrow> go_error \<Rightarrow> ('s share_world_scheme, go_error + 'a) handler" where
  "bad_data env code err w =
     wbind (RecordWorkerError (env_accepts env) (WalletAddr (sw_ctx w)) code) (\<lambda>_. wret (Inl err)) w"

definition missing_job :: string where
  "missing_job = ''job does not exist. stale?''"

definition validateSubmit :: "node_env \<Rightarrow> json_rpc_event \<Rightarrow> ('s share_world_scheme, go_error + submit_info) handler" where
  "validateSubmit env event w =
     (if length (ev_Params event) < 4
      then bad_data env ErrBadDataFromMiner (ErrMsg ''malformed event, expected at least 4 params'') w
      else case param_str event 1 of
        None \<Rightarrow> bad_data env ErrBadDataFromMiner (ErrMsg ''unexpected type for param 1'') w
      | Some jobIdStr \<Rightarrow>
      (case ParseInt10 jobIdStr of
        None \<Rightarrow> bad_data env ErrBadDataFromMiner (Wrap ''job id is not parsable as an number'' (ErrMsg ''strconv.ParseInt'')) w
      | Some jobId \<Rightarrow>
      (case GetJob (State (sw_ctx w)) jobId of
        None \<Rightarrow> bad_data env ErrMissingJob (ErrMsg missing_job) w
      | Some block \<Rightarrow>
      (case param_str event 2 of
        None \<Rightarrow> bad_data env ErrBadDataFromMiner (ErrMsg ''unexpected type for param 2'') w
      | Some noncestr \<Rightarrow>
      (case param_str event 3 of
        None \<Rightarrow> bad_data env ErrBadDataFromMiner (ErrMsg ''unexpected type for param 3'') w
      | Some powNumStr \<Rightarrow>
      (case NewDomainHashFromString (env_lib env) (replace_first powNumStr ''0x'' []) of
        Inl e \<Rightarrow> bad_data env ErrBadDataFromMiner (Wrap ''unexpected error for param 3'' e) w
      | Inr powHash \<Rightarrow>
          wret (Inr \<lparr>si_jobId = jobId, si_block = block, si_noncestr = replace_first noncestr ''0x'' [],
            si_nonceVal = 0, si_powHash = powHash\<rparr>) w))))))"

text \<open>The largest distance of blue scores that is accepted.\<close>

definition workWindow :: "64 word" where
  "workWindow = 8"

definition checkStales :: "node_env \<Rightarrow> submit_info \<Rightarrow> ('s share_world_scheme, go_error option) handler" where
  "checkStales env si w =
     (case si_block si of
        None \<Rightarrow> wpanic ''nil pointer dereference'' w
      | Some block \<Rightarrow>
          (let tip = sh_tipBlueScore (sw_sh w); blue = h_BlueScore (b_Header block)
           in if tip < blue
              then wbind (upd_sh (\<lambda>sh. sh\<lparr>sh_tipBlueScore := blue\<rparr>)) (\<lambda>_. wret None) w
              else if workWindow < tip - blue
              then wbind (record_ctx (RecordStaleShare (env_accepts env))) (\<lambda>_.
                wret (Some (Wrap (''blueScore '' @ dec_str (unat blue) @ '' vs '' @ dec_str (unat tip)) ErrStaleShare))) w
              else wret None w))"

subsection \<open>Handing a block to the node\<close>

definition node_synced :: "node_env \<Rightarrow> bool" where
  "node_synced env \<longleftrightarrow> env_GetInfo env = Inr (Some True)"

definition not_synced :: go_error where
  "not_synced = ErrMsg ''node is not synced; refusing to submit block''"

definition submit :: "node_env \<Rightarrow> domain_block \<Rightarrow> submit_info \<Rightarrow> ('s share_world_scheme, go_error option) handler" where
  "submit env block si =
     (if \<not> node_synced env then wret (Some not_synced)
      else (let block' = \<lparr>db_Header = (db_Header block)\<lparr>dh_Nonce := si_nonceVal si\<rparr>,
                   db_Transactions = db_Transactions block, db_PoWHash = []\<rparr>;
                pow = HashString (env_lib env) (si_powHash si);
                err = env_SubmitBlock env block' pow
            in wbind (upd_sh (\<lambda>sh. sh\<lparr>sh_submitted := sh_submitted sh @ [(block', pow)]\<rparr>)) (\<lambda>_.
               wbind (upd_sh (\<lambda>sh. if err = None \<and> sh_invalidateGBTCache sh
                 then sh\<lparr>sh_invalidations := sh_invalidations sh + 1\<rparr> else sh)) (\<lambda>_.
               wbind (upd_sh (\<lambda>sh. if err = None \<and> sh_onBlockSolved sh
                 then sh\<lparr>sh_solved := sh_solved sh + 1\<rparr> else sh)) (\<lambda>_.
               wbind (upd_ctx (\<lambda>c. c\<lparr>State := RemoveJob (State c) (si_jobId si)\<rparr>)) (\<lambda>_.
               wret err))))))"

subsection \<open>Outcomes of a share\<close>

definition inc_found :: "work_stats \<Rightarrow> work_stats" where
  "inc_found st = st\<lparr>SharesFound := wrap64 (SharesFound st + 1)\<rparr>"

definition inc_stale :: "work_stats \<Rightarrow> work_stats" where
  "inc_stale st = st\<lparr>StaleShares := wrap64 (StaleShares st + 1)\<rparr>"

definition inc_invalid :: "work_stats \<Rightarrow> work_stats" where
  "inc_invalid st = st\<lparr>InvalidShares := wrap64 (InvalidShares st + 1)\<rparr>"

definition inc_blocks :: "work_stats \<Rightarrow> work_stats" where
  "inc_blocks st = st\<lparr>BlocksFound := wrap64 (BlocksFound st + 1)\<rparr>"

text \<open>A rejected share: worker, then overall, then the metric, then the reply.\<close>

definition reject ::
  "string \<Rightarrow> (work_stats \<Rightarrow> work_stats) \<Rightarrow> (work_stats \<Rightarrow> work_stats) \<Rightarrow>
   (stratum_context \<Rightarrow> ('s share_world_scheme, unit) handler) \<Rightarrow>
   (stratum_context \<Rightarrow> json \<Rightarrow> go_error option \<times> stratum_context) \<Rightarrow> json \<Rightarrow>
   ('s share_world_scheme, go_error option) handler" where
  "reject key worker overall metric answer i =
     wbind (upd_stats key worker) (\<lambda>_. wbind (upd_overall overall) (\<lambda>_.
     wbind (record_ctx metric) (\<lambda>_. reply_with answer i)))"

definition rolling_stale :: "int \<Rightarrow> work_stats \<Rightarrow> work_stats" where
  "rolling_stale now st = updateRollingCounters now (Fin 0) True False st"

definition rolling_invalid :: "int \<Rightarrow> work_stats \<Rightarrow> work_stats" where
  "rolling_invalid now st = updateRollingCounters now (Fin 0) False True st"

definition reject_stale :: "node_env \<Rightarrow> submit_info \<Rightarrow> string \<Rightarrow> json \<Rightarrow> go_error \<Rightarrow> ('s share_world_scheme, go_error option) handler" where
  "reject_stale env si key i err =
     wbind (upd_ctx (\<lambda>c. c\<lparr>State := RemoveJob (State c) (si_jobId si)\<rparr>)) (\<lambda>_.
       if error_is err ErrStaleShare
       then reject key (rolling_stale (env_now env) \<circ> inc_stale) (rolling_stale (env_now env) \<circ> inc_stale)
         (RecordStaleShare (env_accepts env)) ReplyStaleShare i
       else wbind (record_ctx (RecordInvalidShare (env_accepts env))) (\<lambda>_. reply_with ReplyBadShare i))"

definition reject_invalid ::
  "node_env \<Rightarrow> string \<Rightarrow> json \<Rightarrow> (stratum_context \<Rightarrow> ('s share_world_scheme, unit) handler) \<Rightarrow>
   (stratum_context \<Rightarrow> json \<Rightarrow> go_error option \<times> stratum_context) \<Rightarrow> ('s share_world_scheme, go_error option) handler" where
  "reject_invalid env key i metric answer =
     reject key (rolling_invalid (env_now env) \<circ> inc_invalid) (rolling_invalid (env_now env) \<circ> inc_invalid) metric answer i"

text \<open>The node refused the block, or was not asked because it is not synced.\<close>

definition rejected_block :: "node_env \<Rightarrow> string \<Rightarrow> json \<Rightarrow> go_error \<Rightarrow> ('s share_world_scheme, go_error option) handler" where
  "rejected_block env key i err =
     (if str_contains (error_string err) ''ErrDuplicateBlock''
      then reject key inc_stale inc_stale (RecordDupeShare (env_accepts env)) ReplyDupeShare i
      else if str_contains (error_string err) ''ErrInvalidPoW''
      then reject key (rolling_stale (env_now env) \<circ> inc_stale) (rolling_invalid (env_now env) \<circ> inc_invalid)
        (RecordInvalidShare (env_accepts env)) ReplyIncorrectPow i
      else reject_invalid env key i (RecordInvalidShare (env_accepts env)) ReplyBadShare)"

text \<open>\<open>state.stratumDiff.hashValue\<close>, a nil dereference before a difficulty was set.\<close>

definition hash_value :: "('s share_world_scheme, f64) handler" where
  "hash_value w =
     (case stratumDiff (State (sw_ctx w)) of
        None \<Rightarrow> wpanic ''nil pointer dereference'' w
      | Some d \<Rightarrow> wret (hashValue d) w)"

text \<open>The wallet that the coinbase payload of the block names, if any.\<close>

definition payload_wallet :: "string \<Rightarrow> string \<Rightarrow> string" where
  "payload_wallet payload dflt =
     (case hex_decode payload of
        (bs, False) \<Rightarrow> dflt
      | (bs, True) \<Rightarrow>
          (let s = map (\<lambda>b. char_of (unat b)) bs
           in case str_index s ''hoosat:'' of
                None \<Rightarrow> dflt
              | Some idx \<Rightarrow>
                  (case str_fields (drop idx s) of
                     [] \<Rightarrow> dflt
                   | part # _ \<Rightarrow> trim_cut [CHR 0x27, CHR 0x22, CHR 0x2C, CHR 0x2E, CHR 0x20] part)))"

definition block_wallet :: "rpc_block \<Rightarrow> string \<Rightarrow> ('s share_world_scheme, string) handler" where
  "block_wallet b dflt =
     (case b_Transactions b of
        [] \<Rightarrow> wret dflt
      | None # _ \<Rightarrow> wpanic ''nil pointer dereference''
      | Some cb # _ \<Rightarrow> wret (payload_wallet (t_Payload cb) dflt))"

definition pending_record :: "int \<Rightarrow> string \<Rightarrow> string \<Rightarrow> string \<Rightarrow> block_record" where
  "pending_record now blockHash walletAddr workerName =
     \<lparr>ID = 0, r_Timestamp = now div 1000000, r_BlockHash = blockHash, WalletAddress = walletAddr,
      r_WorkerName = workerName, RewardAtoms = 0, Status = ''pending'', AcceptingBlockHash = Some []\<rparr>"

definition worker_name :: "share_handler \<Rightarrow> string \<Rightarrow> string" where
  "worker_name sh key = (case sh_stats sh key of None \<Rightarrow> [] | Some st \<Rightarrow> ws_WorkerName st)"

definition persist :: "node_env \<Rightarrow> string \<Rightarrow> rpc_block \<Rightarrow> string \<Rightarrow> ('s share_world_scheme, unit) handler" where
  "persist env key b blockHash w =
     (case sh_miningDB (sw_sh w) of
        None \<Rightarrow> wret () w
      | Some d \<Rightarrow>
          wbind (block_wallet b (WalletAddr (sw_ctx w))) (\<lambda>walletAddr.
            (case RecordBlock d (pending_record (env_now env) blockHash walletAddr (worker_name (sw_sh w) key)) of
               (Some e, d') \<Rightarrow> upd_sh (\<lambda>sh. sh\<lparr>sh_miningDB := Some d'\<rparr>)
             | (None, d') \<Rightarrow> upd_sh (\<lambda>sh. sh\<lparr>sh_miningDB := Some d', sh_rewardJobs := sh_rewardJobs sh @ [blockHash]\<rparr>))) w)"

definition accept_share ::
  "node_env \<Rightarrow> string \<Rightarrow> json \<Rightarrow> rpc_block \<Rightarrow> domain_block \<Rightarrow> ('s share_world_scheme, go_error option) handler" where
  "accept_share env key i b converted =
     wbind (upd_stats key inc_found) (\<lambda>_.
     wbind hash_value (\<lambda>hv.
     wbind (upd_stats key (\<lambda>st. updateRollingCounters (env_now env) hv False False
       (st\<lparr>SharesDiff := f64_add (SharesDiff st) hv, LastShare := Some (env_now env)\<rparr>))) (\<lambda>_.
     wbind (upd_overall (updateRollingCounters (env_now env) hv False False \<circ> inc_found)) (\<lambda>_.
     wbind (record_ctx (\<lambda>c. RecordShareFound (env_accepts env) c hv)) (\<lambda>_.
     wbind (upd_stats key inc_blocks) (\<lambda>_.
     wbind (upd_overall inc_blocks) (\<lambda>_.
     (let blockHash = HashString (env_lib env) (BlockHash (env_lib env) converted)
      in wbind (record_ctx (\<lambda>c. RecordBlockFound (env_accepts env) c (dh_Nonce (db_Header converted))
           (dh_BlueScore (db_Header converted)) blockHash)) (\<lambda>_.
         wbind (persist env key b blockHash) (\<lambda>_.
         wbind (reply_with ReplySuccess i) (\<lambda>_.
         wret None)))))))))))"

subsection \<open>The handler\<close>

text \<open>The claimed hash against the recomputed one, the network target, the share target.\<close>

definition judge_share ::
  "node_env \<Rightarrow> submit_info \<Rightarrow> string \<Rightarrow> json \<Rightarrow> rpc_block \<Rightarrow> domain_block \<Rightarrow> int \<Rightarrow> int \<Rightarrow>
   ('s share_world_scheme, go_error option) handler" where
  "judge_share env si key i b converted target num w =
     (if toBig (si_powHash si) = num
      then (if num \<le> target
            then wbind (submit env converted si) (\<lambda>err.
              case err of
                Some e \<Rightarrow> rejected_block env key i e
              | None \<Rightarrow> accept_share env key i b converted) w
            else (case stratumDiff (State (sw_ctx w)) of
                    None \<Rightarrow> wpanic ''nil pointer dereference'' w
                  | Some d \<Rightarrow>
                      (case targetValue d of
                         None \<Rightarrow> wpanic ''nil pointer dereference'' w
                       | Some t \<Rightarrow>
                           if t \<le> num
                           then reject_invalid env key i (RecordWeakShare (env_accepts env)) ReplyLowDiffShare w
                           else accept_share env key i b converted w)))
      else reject_invalid env key i (RecordInvalidShare (env_accepts env)) ReplyIncorrectPow w)"

definition with_nonce :: "domain_block \<Rightarrow> 64 word \<Rightarrow> domain_block" where
  "with_nonce conv n =
     \<lparr>db_Header = (db_Header conv)\<lparr>dh_Nonce := n\<rparr>, db_Transactions = db_Transactions conv, db_PoWHash = []\<rparr>"

definition check_work ::
  "node_env \<Rightarrow> submit_info \<Rightarrow> string \<Rightarrow> json \<Rightarrow> rpc_block \<Rightarrow> ('s share_world_scheme, go_error option) handler" where
  "check_work env si key i b =
     (case RPCBlockToDomainBlock (env_lib env) b (HashString (env_lib env) (si_powHash si)) of
        Inl e \<Rightarrow> wbind (record_ctx (RecordInvalidShare (env_accepts env))) (\<lambda>_. reply_with ReplyIncorrectData i)
      | Inr conv \<Rightarrow>
          (let converted = with_nonce conv (si_nonceVal si)
           in case NewState (env_lib env) (env_gm env) (db_Header converted) of
                None \<Rightarrow> whang
              | Some ps \<Rightarrow>
                  (case CalculateProofOfWorkValue (env_lib env) (env_gm env) ps of
                     None \<Rightarrow> whang
                   | Some (num, h) \<Rightarrow> judge_share env si key i b converted (Target ps) num)))"

definition check_share :: "node_env \<Rightarrow> submit_info \<Rightarrow> json \<Rightarrow> ('s share_world_scheme, go_error option) handler" where
  "check_share env si i =
     wbind (getCreateStats env) (\<lambda>key.
     wbind (checkStales env si) (\<lambda>err.
       case err of
         Some e \<Rightarrow> reject_stale env si key i e
       | None \<Rightarrow>
           (case si_block si of
              None \<Rightarrow> wpanic ''nil pointer dereference''
            | Some b \<Rightarrow> check_work env si key i b)))"

text \<open>
  Both branches on \<open>useBigJob\<close> parse the nonce in the same way; \<open>soloMining\<close> only selects a log
  message.
\<close>

definition HandleSubmit :: "node_env \<Rightarrow> json_rpc_event \<Rightarrow> bool \<Rightarrow> ('s share_world_scheme, go_error option) handler" where
  "HandleSubmit env event soloMining =
     wbind (validateSubmit env event) (\<lambda>v.
       case v of
         Inl err \<Rightarrow>
           if error_string err = missing_job
           then wbind (record_ctx (RecordStaleShare (env_accepts env))) (\<lambda>_. reply_with ReplyStaleShare (ev_Id event))
           else reply_with ReplyIncorrectData (ev_Id event)
       | Inr si \<Rightarrow>
           (case ParseUint (si_noncestr si) 16 of
              None \<Rightarrow>
                (\<lambda>w. wbind (RecordWorkerError (env_accepts env) (WalletAddr (sw_ctx w)) ErrBadDataFromMiner) (\<lambda>_.
                  wret (Some (Wrap ''failed parsing noncestr'' (ErrMsg ''strconv.ParseUint'')))) w)
            | Some n \<Rightarrow> check_share env (si\<lparr>si_nonceVal := n\<rparr>) (ev_Id event)))"

subsection \<open>Variable difficulty of a client\<close>

definition startClientVardiff :: "node_env \<Rightarrow> ('s share_world_scheme, unit) handler" where
  "startClientVardiff env =
     wbind (getCreateStats env) (\<lambda>key. upd_stats key (startVarDiff (env_now env)))"

definition stats_field :: "(work_stats \<Rightarrow> 'a) \<Rightarrow> string \<Rightarrow> ('s share_world_scheme, 'a) handler" where
  "stats_field f key w = (Ret (f (case sh_stats (sw_sh w) key of None \<Rightarrow> empty_stats | Some st \<Rightarrow> st)), w)"

definition getClientVardiff :: "node_env \<Rightarrow> ('s share_world_scheme, f64) handler" where
  "getClientVardiff env = wbind (getCreateStats env) (stats_field MinDiff)"

definition setClientVardiff :: "node_env \<Rightarrow> f64 \<Rightarrow> ('s share_world_scheme, f64) handler" where
  "setClientVardiff env minDiff =
     wbind (getCreateStats env) (\<lambda>key.
     wbind (stats_field MinDiff key) (\<lambda>previousMinDiff.
     wbind (upd_stats key (\<lambda>st. startVarDiff (env_now env)
       (snd (updateVarDiff (f64_max minDiff (f64_round False (1 / 100000))) st)))) (\<lambda>_.
     wret previousMinDiff)))"

end
