(* ===== verification/Default_Client.thy ===== *)
theory Default_Client
  imports Stratum_Context
begin

text \<open>
  The default stratum handlers (\<open>src/gostratum/default_client.go\<close>): \<open>mining.authorize\<close> with the
  clean-up of wallet addresses and the bounds on worker names and on the number of requests,
  \<open>mining.subscribe\<close>, and the extranonce notification. \<open>util.DecodeAddress\<close> belongs to the
  node's library: it is the parameter \<open>decodes\<close> (the address, the expected prefix, whether
  decoding succeeds). A handler returns its outcome, an error or nil unless it panics, and the
  context.
\<close>

datatype bech32_prefix = Bech32PrefixHoosat | Bech32PrefixHoosatTest

type_synonym address_decoder = "string \<Rightarrow> bech32_prefix \<Rightarrow> bool"
type_synonym event_handler =
  "stratum_context \<Rightarrow> json_rpc_event \<Rightarrow> go_error option outcome \<times> stratum_context"

definition StratumMethodSubscribe :: string where "StratumMethodSubscribe = ''mining.subscribe''"
definition StratumMethodAuthorize :: string where "StratumMethodAuthorize = ''mining.authorize''"
definition StratumMethodSubmit :: string where "StratumMethodSubmit = ''mining.submit''"

definition maxAuthorizePerConn :: int where "maxAuthorizePerConn = 4"
definition maxWorkerNameLen :: nat where "maxWorkerNameLen = 64"

subsection \<open>Wallet addresses\<close>

text \<open>
  \<open>walletRegex\<close>, the pattern \<open>(hoosat|hoosattest):[a-z0-9]+\<close> anywhere in the text: one letter or
  digit after a prefix is enough for a match.
\<close>

definition wallet_char :: "char \<Rightarrow> bool" where
  "wallet_char c = (97 \<le> byte_of c \<and> byte_of c \<le> 122 \<or> 48 \<le> byte_of c \<and> byte_of c \<le> 57)"

definition match_here :: "string \<Rightarrow> string \<Rightarrow> bool" where
  "match_here p s =
     (hasPrefix s p \<and> (case drop (length p) s of [] \<Rightarrow> False | c # _ \<Rightarrow> wallet_char c))"

fun walletRegex :: "string \<Rightarrow> bool" where
  "walletRegex [] = False"
| "walletRegex (c # s) =
     (match_here ''hoosat:'' (c # s) \<or> match_here ''hoosattest:'' (c # s) \<or> walletRegex s)"

definition has_hoosat_prefix :: "string \<Rightarrow> bool" where
  "has_hoosat_prefix s = (hasPrefix s ''hoosat:'' \<or> hasPrefix s ''hoosattest:'')"

lemma has_hoosat_prefix_add: "has_hoosat_prefix (''hoosat:'' @ s)"
  by (simp add: has_hoosat_prefix_def hasPrefix_def)

function CleanWallet :: "address_decoder \<Rightarrow> string \<Rightarrow> go_error + string" where
  "CleanWallet decodes inp =
     (if decodes inp Bech32PrefixHoosat then Inr inp
      else if decodes inp Bech32PrefixHoosatTest then Inr inp
      else if \<not> has_hoosat_prefix inp then CleanWallet decodes (''hoosat:'' @ inp)
      else if walletRegex inp \<and> 61 \<le> length inp \<and> decodes (take 61 inp) Bech32PrefixHoosat
      then Inr (take 61 inp)
      else Inl (ErrMsg ''unable to coerce wallet to valid hoosat or hoosattest address''))"
  by pat_completeness auto
termination
  by (relation "measure (\<lambda>(d, s). if has_hoosat_prefix s then 0 else 1)")
    (auto simp: has_hoosat_prefix_add [simplified])

declare CleanWallet.simps [simp del]

subsection \<open>Handlers\<close>

definition SendExtranonce :: "stratum_context \<Rightarrow> stratum_context" where
  "SendExtranonce ctx = snd (Send ctx (NewEvent [] ''set_extranonce'' [JStr (Extranonce ctx)]))"

text \<open>The address and the worker name that the first parameter stands for.\<close>

definition split_worker :: "string \<Rightarrow> string \<times> string" where
  "split_worker address =
     (case split_char (CHR ''.'') address of
        a # w # _ \<Rightarrow> (a, w)
      | _ \<Rightarrow> (address, []))"

definition cut_worker :: "string \<Rightarrow> string" where
  "cut_worker w = (if maxWorkerNameLen < length w then toValidUTF8 (take maxWorkerNameLen w) else w)"

definition HandleAuthorize :: "address_decoder \<Rightarrow> event_handler" where
  "HandleAuthorize decodes ctx0 event =
     (let ctx = ctx0\<lparr>authorizeCount := wrap64 (authorizeCount ctx0 + 1)\<rparr>
      in if maxAuthorizePerConn < authorizeCount ctx
         then (Ret (Some (ErrMsg ''too many authorize requests on one connection'')), ctx)
         else case ev_Params event of
           [] \<Rightarrow> (Ret (Some (ErrMsg ''malformed event from miner, expected param[1] to be address'')), ctx)
         | JStr address # _ \<Rightarrow>
             (let (addr, worker) = split_worker address;
                  workerName = cut_worker worker
              in case CleanWallet decodes addr of
                   Inl err \<Rightarrow> (Ret (Some (Wrap ''invalid wallet format '' err)), ctx)
                 | Inr wallet \<Rightarrow>
                     (let ctx1 = ctx\<lparr>WalletAddr := wallet, WorkerName := workerName\<rparr>
                      in case Reply ctx1 (NewResponse event (JBool True) None) of
                           (Some err, ctx2) \<Rightarrow>
                             (Ret (Some (Wrap ''failed to send response to authorize'' err)), ctx2)
                         | (None, ctx2) \<Rightarrow>
                             (Ret None, if Extranonce ctx2 \<noteq> [] then SendExtranonce ctx2 else ctx2)))
         | _ \<Rightarrow> (Ret (Some (ErrMsg ''malformed event from miner, expected param[1] to be address string'')), ctx))"

definition HandleSubscribe :: event_handler where
  "HandleSubscribe ctx event =
     (case Reply ctx (NewResponse event (JList [JBool True, JStr ''EthereumStratum/1.0.0'']) None) of
        (Some err, ctx1) \<Rightarrow> (Ret (Some (Wrap ''failed to send response to subscribe'' err)), ctx1)
      | (None, ctx1) \<Rightarrow>
          (Ret None,
           case ev_Params event of JStr app # _ \<Rightarrow> ctx1\<lparr>RemoteApp := app\<rparr> | _ \<Rightarrow> ctx1))"

text \<open>The stub that the bridge replaces by its own handler.\<close>

definition HandleSubmit_stub :: event_handler where
  "HandleSubmit_stub ctx event = (Ret None, ctx)"

definition DefaultHandlers :: "address_decoder \<Rightarrow> string \<Rightarrow> event_handler option" where
  "DefaultHandlers decodes =
     [StratumMethodSubscribe \<mapsto> HandleSubscribe,
      StratumMethodAuthorize \<mapsto> HandleAuthorize decodes,
      StratumMethodSubmit \<mapsto> HandleSubmit_stub]"

text \<open>\<open>StratumListener.HandleEvent\<close>: events without a handler are ignored.\<close>

definition HandleEvent :: "(string \<Rightarrow> event_handler option) \<Rightarrow> event_handler" where
  "HandleEvent handlers ctx event =
     (case handlers (ev_Method event) of Some handler \<Rightarrow> handler ctx event | None \<Rightarrow> (Ret None, ctx))"

text \<open>The identities (wallet and worker name) a connection takes on while it handles events.\<close>

definition identity :: "stratum_context \<Rightarrow> string \<times> string" where
  "identity ctx = (WalletAddr ctx, WorkerName ctx)"

fun identities :: "event_handler \<Rightarrow> stratum_context \<Rightarrow> json_rpc_event list \<Rightarrow> (string \<times> string) list" where
  "identities h ctx [] = [identity ctx]"
| "identities h ctx (e # es) = identity ctx # identities h (snd (h ctx e)) es"

text \<open>What the parser of events guarantees: Go's decoder replaces invalid UTF-8 in strings.\<close>

definition event_utf8 :: "json_rpc_event \<Rightarrow> bool" where
  "event_utf8 e = list_all (\<lambda>p. case p of JStr s \<Rightarrow> valid_utf8 s | _ \<Rightarrow> True) (ev_Params e)"

definition labels_utf8 :: "stratum_context \<Rightarrow> bool" where
  "labels_utf8 ctx \<longleftrightarrow>
     valid_utf8 (WalletAddr ctx) \<and> valid_utf8 (WorkerName ctx) \<and> valid_utf8 (RemoteApp ctx) \<and>
     length (WorkerName ctx) \<le> maxWorkerNameLen"

text \<open>A decoder for examples: addresses are a hoosat prefix and lower-case letters or digits.\<close>

definition sample_decodes :: address_decoder where
  "sample_decodes s p =
     (case p of
        Bech32PrefixHoosat \<Rightarrow> hasPrefix s ''hoosat:'' \<and> list_all wallet_char (drop 7 s) \<and> 9 \<le> length s
      | Bech32PrefixHoosatTest \<Rightarrow> False)"

definition authorize_event :: "string \<Rightarrow> json_rpc_event" where
  "authorize_event who = NewEvent ''1'' StratumMethodAuthorize [JStr who]"

subsection \<open>Laws\<close>

lemma SendExtranonce_io: "same_but_io ctx (SendExtranonce ctx)"
  by (simp add: SendExtranonce_def Send_io)

text \<open>
  C24: \<open>CleanWallet\<close> always returns; an address it accepts decodes under one of the two prefixes,
  and is the input itself, the input with the prefix added, or the first 61 bytes of one of the
  two. An input that already decodes is returned unchanged.
\<close>

theorem CleanWallet_sound:
  "case CleanWallet decodes s of
     Inl e \<Rightarrow> \<not> decodes s Bech32PrefixHoosat \<and> \<not> decodes s Bech32PrefixHoosatTest
   | Inr a \<Rightarrow>
       (decodes a Bech32PrefixHoosat \<or> decodes a Bech32PrefixHoosatTest) \<and>
       a \<in> {s, ''hoosat:'' @ s, take 61 s, take 61 (''hoosat:'' @ s)} \<and>
       (decodes s Bech32PrefixHoosat \<or> decodes s Bech32PrefixHoosatTest \<longrightarrow> a = s)"
  using has_hoosat_prefix_add [of s]
  by (subst CleanWallet.simps, subst CleanWallet.simps) auto

theorem CleanWallet_sound_witness:
  "CleanWallet sample_decodes ''qz7'' = Inr ''hoosat:qz7'' \<and> sample_decodes ''hoosat:qz7'' Bech32PrefixHoosat"
proof
  show "CleanWallet sample_decodes ''qz7'' = Inr ''hoosat:qz7''" by code_simp
  then show "sample_decodes ''hoosat:qz7'' Bech32PrefixHoosat"
    using CleanWallet_sound [of sample_decodes "''qz7''"] by (simp add: sample_decodes_def)
qed

lemma CleanWallet_decodes:
  "CleanWallet decodes s = Inr a \<Longrightarrow> decodes a Bech32PrefixHoosat \<or> decodes a Bech32PrefixHoosatTest"
  using has_hoosat_prefix_add [of s]
  by (subst (asm) CleanWallet.simps, subst (asm) CleanWallet.simps) (auto split: if_splits)

lemma length_item_filter: "length (concat (map f (filter P xs))) \<le> length (concat (map f xs))"
  by (induction xs) auto

lemma runes_bytes: "concat (map (\<lambda>(ok, v, bs). bs) (runes s)) = s"
proof (induction s rule: runes.induct)
  case (2 c cs)
  then show ?case by (cases "rune_width (c # cs)") auto
qed simp

lemma length_toValidUTF8: "length (toValidUTF8 s) \<le> length s"
  unfolding toValidUTF8_def using length_item_filter [of "\<lambda>(ok, v, bs). bs" fst "runes s"] by (simp add: runes_bytes)

lemma cut_worker_bounds: "valid_utf8 w \<Longrightarrow> valid_utf8 (cut_worker w) \<and> length (cut_worker w) \<le> maxWorkerNameLen"
  using length_toValidUTF8 [of "take maxWorkerNameLen w"] toValidUTF8_valid
  by (auto simp: cut_worker_def)

lemma split_worker_utf8:
  assumes "valid_utf8 s" "split_worker s = (a, w)"
  shows "valid_utf8 a \<and> valid_utf8 w"
proof -
  have "valid_utf8 p" if "p \<in> set (split_char (CHR ''.'') s)" for p
    using valid_utf8_split_char [of "CHR ''.''" s p] that assms(1) by simp
  then show ?thesis using assms by (auto simp: split_worker_def split: list.splits)
qed

text \<open>What \<open>HandleAuthorize\<close> leaves as the identity: the old one, or a checked new one.\<close>

definition authorized_as :: "address_decoder \<Rightarrow> json_rpc_event \<Rightarrow> string \<Rightarrow> string \<Rightarrow> bool" where
  "authorized_as decodes e wallet name \<longleftrightarrow>
     (\<exists>s rest a w. ev_Params e = JStr s # rest \<and> split_worker s = (a, w) \<and>
        CleanWallet decodes a = Inr wallet \<and> name = cut_worker w)"

lemma HandleAuthorize_new:
  assumes "wrap64 (authorizeCount ctx + 1) \<le> maxAuthorizePerConn" "ev_Params e = JStr s # rest"
    "split_worker s = (a, w)" "CleanWallet decodes a = Inr wallet"
  shows "same_but_io (ctx\<lparr>authorizeCount := wrap64 (authorizeCount ctx + 1), WalletAddr := wallet,
    WorkerName := cut_worker w\<rparr>) (snd (HandleAuthorize decodes ctx e))"
proof -
  define ctx1 where "ctx1 = ctx\<lparr>authorizeCount := wrap64 (authorizeCount ctx + 1),
    WalletAddr := wallet, WorkerName := cut_worker w\<rparr>"
  obtain r ctx2 where rep: "Reply ctx1 (NewResponse e (JBool True) None) = (r, ctx2)"
    by (cases "Reply ctx1 (NewResponse e (JBool True) None)")
  have "same_but_io ctx1 ctx2" using Reply_io [of ctx1] rep by (metis snd_conv)
  then have "same_but_io ctx1 (snd (HandleAuthorize decodes ctx e))"
    using assms rep same_but_io_trans SendExtranonce_io
    by (auto simp: HandleAuthorize_def Let_def ctx1_def split: option.split)
  then show ?thesis by (simp add: ctx1_def)
qed

lemma HandleAuthorize_kept:
  assumes "\<not> wrap64 (authorizeCount ctx + 1) \<le> maxAuthorizePerConn \<or>
    (\<nexists>wallet name. authorized_as decodes e wallet name)"
  shows "snd (HandleAuthorize decodes ctx e) = ctx\<lparr>authorizeCount := wrap64 (authorizeCount ctx + 1)\<rparr>"
proof (cases "wrap64 (authorizeCount ctx + 1) \<le> maxAuthorizePerConn")
  case le: True
  show ?thesis
  proof (cases "\<exists>s rest. ev_Params e = JStr s # rest")
    case True
    then obtain s rest a w where ps: "ev_Params e = JStr s # rest" "split_worker s = (a, w)"
      by (metis surj_pair)
    with le assms have "\<not> isl (CleanWallet decodes a) \<Longrightarrow> False"
      by (cases "CleanWallet decodes a") (auto simp: authorized_as_def)
    then show ?thesis using le ps by (cases "CleanWallet decodes a") (auto simp: HandleAuthorize_def Let_def)
  next
    case False
    then show ?thesis using le
      by (auto simp: HandleAuthorize_def Let_def split: list.split json.split)
  qed
qed (simp add: HandleAuthorize_def Let_def)

lemma HandleAuthorize_effect:
  obtains (kept) "snd (HandleAuthorize decodes ctx e) = ctx\<lparr>authorizeCount := wrap64 (authorizeCount ctx + 1)\<rparr>"
  | (new) wallet name where "wrap64 (authorizeCount ctx + 1) \<le> maxAuthorizePerConn"
      "authorized_as decodes e wallet name"
      "same_but_io (ctx\<lparr>authorizeCount := wrap64 (authorizeCount ctx + 1), WalletAddr := wallet,
        WorkerName := name\<rparr>) (snd (HandleAuthorize decodes ctx e))"
proof (cases "wrap64 (authorizeCount ctx + 1) \<le> maxAuthorizePerConn \<and> (\<exists>wallet name. authorized_as decodes e wallet name)")
  case True
  then obtain s rest a w wallet where "ev_Params e = JStr s # rest" "split_worker s = (a, w)"
    "CleanWallet decodes a = Inr wallet" by (auto simp: authorized_as_def)
  then show ?thesis using True HandleAuthorize_new new by (metis authorized_as_def)
next
  case False
  then show ?thesis using HandleAuthorize_kept kept by blast
qed

lemma HandleSubscribe_effect:
  "same_but_io (ctx\<lparr>RemoteApp := RemoteApp (snd (HandleSubscribe ctx e))\<rparr>) (snd (HandleSubscribe ctx e)) \<and>
   (RemoteApp (snd (HandleSubscribe ctx e)) = RemoteApp ctx \<or>
    (\<exists>app rest. ev_Params e = JStr app # rest \<and> RemoteApp (snd (HandleSubscribe ctx e)) = app))"
proof -
  obtain r ctx1 where rep: "Reply ctx (NewResponse e (JList [JBool True, JStr ''EthereumStratum/1.0.0'']) None) = (r, ctx1)"
    by fastforce
  have io: "same_but_io ctx ctx1" using Reply_io [of ctx] rep by (metis snd_conv)
  then have "same_but_io (ctx\<lparr>RemoteApp := app\<rparr>) (ctx1\<lparr>RemoteApp := app\<rparr>)" for app
    by (cases ctx; cases ctx1) (simp add: same_but_io_def)
  moreover have "ctx\<lparr>RemoteApp := RemoteApp ctx1\<rparr> = ctx" using same_but_ioD(4) [OF io] by simp
  ultimately show ?thesis using io same_but_ioD(4) [OF io]
    by (auto simp: HandleSubscribe_def rep split: option.split list.split json.split)
qed

text \<open>Every default handler either keeps the identity or checks a new one within the cap.\<close>

lemma default_event_effect:
  assumes "HandleEvent (DefaultHandlers decodes) ctx e = (r, ctx')"
  shows "(identity ctx' = identity ctx \<and> authorizeCount ctx' \<in> {authorizeCount ctx, wrap64 (authorizeCount ctx + 1)}) \<or>
    (wrap64 (authorizeCount ctx + 1) \<le> maxAuthorizePerConn \<and> authorizeCount ctx' = wrap64 (authorizeCount ctx + 1) \<and>
     authorized_as decodes e (WalletAddr ctx') (WorkerName ctx'))"
    and "RemoteApp ctx' = RemoteApp ctx \<or> (\<exists>app rest. ev_Params e = JStr app # rest \<and> RemoteApp ctx' = app)"
proof -
  consider (sub) "snd (HandleSubscribe ctx e) = ctx'" | (auth) "snd (HandleAuthorize decodes ctx e) = ctx'" | (other) "ctx' = ctx"
    using assms by (auto simp: HandleEvent_def DefaultHandlers_def HandleSubmit_stub_def split: if_splits)
  note cases = this
  show "(identity ctx' = identity ctx \<and> authorizeCount ctx' \<in> {authorizeCount ctx, wrap64 (authorizeCount ctx + 1)}) \<or>
    (wrap64 (authorizeCount ctx + 1) \<le> maxAuthorizePerConn \<and> authorizeCount ctx' = wrap64 (authorizeCount ctx + 1) \<and>
     authorized_as decodes e (WalletAddr ctx') (WorkerName ctx'))"
    using cases
  proof cases
    case sub
    then have io: "same_but_io (ctx\<lparr>RemoteApp := RemoteApp ctx'\<rparr>) ctx'" using HandleSubscribe_effect [of ctx e] by auto
    then show ?thesis using same_but_ioD(2,3,9) [OF io] by (simp add: identity_def)
  next
    case auth
    show ?thesis
    proof (cases rule: HandleAuthorize_effect [of decodes ctx e])
      case kept
      then show ?thesis using auth by (auto simp: identity_def)
    next
      case (new wallet name)
      then show ?thesis using same_but_ioD(2,3,9) [OF new(3)] unfolding auth by simp
    qed
  qed (simp add: identity_def)
  show "RemoteApp ctx' = RemoteApp ctx \<or> (\<exists>app rest. ev_Params e = JStr app # rest \<and> RemoteApp ctx' = app)"
    using cases
  proof cases
    case sub
    then show ?thesis using HandleSubscribe_effect [of ctx e] by auto
  next
    case auth
    show ?thesis
    proof (cases rule: HandleAuthorize_effect [of decodes ctx e])
      case kept
      then show ?thesis using auth by auto
    next
      case (new wallet name)
      then show ?thesis using same_but_ioD(4) [OF new(3)] unfolding auth by simp
    qed
  qed simp
qed

lemma default_event_labels:
  assumes "\<And>a p. decodes a p \<Longrightarrow> valid_utf8 a" "labels_utf8 ctx" "event_utf8 e"
  shows "labels_utf8 (snd (HandleEvent (DefaultHandlers decodes) ctx e))"
proof -
  obtain r ctx' where h: "HandleEvent (DefaultHandlers decodes) ctx e = (r, ctx')" by fastforce
  have app: "valid_utf8 (RemoteApp ctx')"
    using default_event_effect(2) [OF h] assms(2,3) by (auto simp: labels_utf8_def event_utf8_def)
  show ?thesis
  proof (cases "identity ctx' = identity ctx")
    case True
    then show ?thesis using app assms(2) h by (simp add: labels_utf8_def identity_def)
  next
    case False
    then obtain s rest a w where new: "ev_Params e = JStr s # rest" "split_worker s = (a, w)"
      "CleanWallet decodes a = Inr (WalletAddr ctx')" "WorkerName ctx' = cut_worker w"
      using default_event_effect(1) [OF h] by (auto simp: authorized_as_def)
    have "valid_utf8 w" using split_worker_utf8 [OF _ new(2)] assms(3) new(1) by (simp add: event_utf8_def)
    then show ?thesis
      using app h new(4) cut_worker_bounds CleanWallet_decodes [OF new(3)] assms(1) by (auto simp: labels_utf8_def)
  qed
qed

text \<open>No default handler panics or touches the mining state or the address of the peer.\<close>

lemma default_event_frame:
  "fst (HandleEvent (DefaultHandlers decodes) ctx e) \<noteq> Panic m"
  "State (snd (HandleEvent (DefaultHandlers decodes) ctx e)) = State ctx"
  "RemoteAddr (snd (HandleEvent (DefaultHandlers decodes) ctx e)) = RemoteAddr ctx"
proof -
  have auth: "State (snd (HandleAuthorize decodes ctx e)) = State ctx \<and> RemoteAddr (snd (HandleAuthorize decodes ctx e)) = RemoteAddr ctx"
  proof (cases rule: HandleAuthorize_effect [of decodes ctx e])
    case (new wallet name)
    then show ?thesis using same_but_ioD(1,7) [OF new(3)] by simp
  qed simp
  have sub: "State (snd (HandleSubscribe ctx e)) = State ctx \<and> RemoteAddr (snd (HandleSubscribe ctx e)) = RemoteAddr ctx"
    using same_but_ioD(1,7) [OF HandleSubscribe_effect [THEN conjunct1], of ctx e] by simp
  show "State (snd (HandleEvent (DefaultHandlers decodes) ctx e)) = State ctx"
    "RemoteAddr (snd (HandleEvent (DefaultHandlers decodes) ctx e)) = RemoteAddr ctx"
    using auth sub by (auto simp: HandleEvent_def DefaultHandlers_def HandleSubmit_stub_def)
  have "fst (HandleSubscribe ctx e) \<noteq> Panic m" by (simp add: HandleSubscribe_def split: prod.split option.split)
  moreover have "fst (HandleAuthorize decodes ctx e) \<noteq> Panic m"
    by (simp add: HandleAuthorize_def Let_def split: list.split json.split prod.split sum.split option.split)
  ultimately show "fst (HandleEvent (DefaultHandlers decodes) ctx e) \<noteq> Panic m"
    by (auto simp: HandleEvent_def DefaultHandlers_def HandleSubmit_stub_def)
qed

text \<open>
  The values that reach the metrics as labels stay valid UTF-8 and the worker name stays
  within 64 bytes, whatever a miner sends: given an address decoder that accepts only valid
  UTF-8, and events whose strings are valid UTF-8 as Go's JSON decoder makes them.
\<close>

theorem event_labels_utf8:
  assumes "\<And>a p. decodes a p \<Longrightarrow> valid_utf8 a" "labels_utf8 ctx" "event_utf8 e"
  shows "labels_utf8 (snd (HandleEvent (DefaultHandlers decodes) ctx e))"
  by (rule default_event_labels [OF assms])

lemma ascii_utf8: "list_all (\<lambda>c. byte_of c < 128) s \<Longrightarrow> valid_utf8 s"
  by (induction s) (simp_all add: valid_utf8_def rune_width.simps rune_need_def)

lemma wallet_char_ascii: "wallet_char c \<Longrightarrow> byte_of c < 128"
  by (auto simp: wallet_char_def)

lemma hoosat_ascii: "list_all (\<lambda>c. byte_of c < 128) ''hoosat:''"
  by simp

lemma hoosat_length: "length ''hoosat:'' = 7"
  by simp

lemma sample_decodes_utf8:
  assumes "sample_decodes a p"
  shows "valid_utf8 a"
proof (rule ascii_utf8)
  from assms have pre: "hasPrefix a ''hoosat:''" "list_all wallet_char (drop 7 a)"
    by (auto simp: sample_decodes_def split: bech32_prefix.splits)
  have "a = ''hoosat:'' @ drop 7 a"
    using pre(1) append_take_drop_id [of "length ''hoosat:''" a] unfolding hasPrefix_def
    by (metis (no_types) hoosat_length)
  then show "list_all (\<lambda>c. byte_of c < 128) a"
    using pre(2) by (metis (no_types, lifting) list_all_append list.pred_mono_strong wallet_char_ascii hoosat_ascii)
qed

theorem event_labels_utf8_witness:
  "labels_utf8 (snd (HandleEvent (DefaultHandlers sample_decodes) (open_context (\<lambda>n. WriteOk))
     (authorize_event ''qz7.rig1'')))"
  by (rule event_labels_utf8) (auto simp: sample_decodes_utf8 labels_utf8_def open_context_def event_utf8_def
      authorize_event_def NewEvent_def intro: ascii_utf8)

lemma identity_in_identities: "identity ctx \<in> set (identities h ctx es)"
  by (cases es) auto

lemma identities_bound:
  assumes "0 \<le> authorizeCount ctx" "authorizeCount ctx + int (length es) < 2 ^ 63"
  shows "card (set (identities (HandleEvent (DefaultHandlers decodes)) ctx es)) \<le>
    1 + nat (maxAuthorizePerConn - authorizeCount ctx)"
  using assms
proof (induction es arbitrary: ctx)
  case (Cons e es)
  let ?h = "HandleEvent (DefaultHandlers decodes)"
  obtain r ctx' where h: "?h ctx e = (r, ctx')" by fastforce
  have w: "wrap64 (authorizeCount ctx + 1) = authorizeCount ctx + 1" using Cons.prems by (intro wrap64_id) auto
  from default_event_effect(1) [OF h] have eff:
    "identity ctx' = identity ctx \<and> authorizeCount ctx' \<in> {authorizeCount ctx, authorizeCount ctx + 1} \<or>
     authorizeCount ctx + 1 \<le> maxAuthorizePerConn \<and> authorizeCount ctx' = authorizeCount ctx + 1"
    unfolding w by blast
  then have IH: "card (set (identities ?h ctx' es)) \<le> 1 + nat (maxAuthorizePerConn - authorizeCount ctx')"
    using Cons.prems by (intro Cons.IH) auto
  have eq: "set (identities ?h ctx (e # es)) = insert (identity ctx) (set (identities ?h ctx' es))"
    by (simp add: h)
  from eff show ?case
  proof
    assume same: "identity ctx' = identity ctx \<and> authorizeCount ctx' \<in> {authorizeCount ctx, authorizeCount ctx + 1}"
    then have "set (identities ?h ctx (e # es)) = set (identities ?h ctx' es)"
      unfolding eq using identity_in_identities [of ctx' ?h es] by auto
    then show ?thesis using IH same by auto
  next
    assume "authorizeCount ctx + 1 \<le> maxAuthorizePerConn \<and> authorizeCount ctx' = authorizeCount ctx + 1"
    moreover have "card (set (identities ?h ctx (e # es))) \<le> 1 + card (set (identities ?h ctx' es))"
      unfolding eq by (simp add: card_insert_if)
    ultimately show ?thesis using IH by auto
  qed
qed simp

text \<open>
  C23: one connection can take on at most four identities (wallet and worker name) beside the one
  it starts with, whatever sequence of events the miner sends: the number of per-worker
  statistics and metric series that a connection can create is bounded.
\<close>

theorem connection_identities_bounded:
  assumes "authorizeCount ctx = 0" "int (length events) < 2 ^ 63"
  shows "card (set (identities (HandleEvent (DefaultHandlers decodes)) ctx events)) \<le> 5"
  using identities_bound [of ctx events decodes] assms by (simp add: maxAuthorizePerConn_def)

theorem connection_identities_bounded_witness:
  "card (set (identities (HandleEvent (DefaultHandlers sample_decodes)) (open_context (\<lambda>n. WriteOk))
     (map authorize_event [''aa.1'', ''aa.2'', ''aa.3'', ''aa.4'', ''aa.5'', ''aa.6'']))) \<le> 5"
  by (rule connection_identities_bounded) (simp_all add: open_context_def)

end
