(* ===== verification/Share_Laws.thy ===== *)
theory Share_Laws
  imports Share_Handler Default_Client
begin

text \<open>
  What the share handler guarantees. Most of its steps respect a frame, a relation between the
  world before and after. The locale \<open>step_frame\<close> proves this once for every frame that allows
  logging, writing to the connection and creating statistics, and \<open>share_frame\<close> extends it by raising
  the tip and booking blocks. It is interpreted for the submitted blocks with the jobs (\<open>same_work\<close>) and for the share counters
  (\<open>same_tally\<close>). The absence of panics is a triple (\<open>safe\<close>) over the good states.
\<close>

subsection \<open>Frames\<close>

lemmas record_defs = RecordShareFound_def RecordStaleShare_def RecordDupeShare_def RecordInvalidShare_def
  RecordWeakShare_def RecordBlockFound_def RecordWorkerError_def InitWorkerCounters_def

lemmas reply_defs = ReplySuccess_def ReplyStaleShare_def ReplyDupeShare_def ReplyIncorrectData_def
  ReplyBadShare_def ReplyIncorrectPow_def ReplyLowDiffShare_def

lemma same_but_io_Summary: "same_but_io c c' \<Longrightarrow> Summary c' = Summary c"
  by (simp add: Summary_def same_but_ioD)

lemma replies_io:
  "same_but_io c (snd (ReplySuccess c i))" "same_but_io c (snd (ReplyStaleShare c i))"
  "same_but_io c (snd (ReplyDupeShare c i))" "same_but_io c (snd (ReplyIncorrectData c i))"
  "same_but_io c (snd (ReplyBadShare c i))" "same_but_io c (snd (ReplyIncorrectPow c i))"
  "same_but_io c (snd (ReplyLowDiffShare c i))"
  by (simp_all add: reply_defs Reply_io)

text \<open>The branch of the handler for a nonce that does not parse.\<close>

definition bad_nonce :: "node_env \<Rightarrow> ('s share_world_scheme, go_error option) handler" where
  "bad_nonce env w = wbind (RecordWorkerError (env_accepts env) (WalletAddr (sw_ctx w)) ErrBadDataFromMiner) (\<lambda>_.
     wret (Some (Wrap ''failed parsing noncestr'' (ErrMsg ''strconv.ParseUint'')))) w"

primrec ok_value :: "'e + 'a \<Rightarrow> 'a option" where
  "ok_value (Inl e) = None"
| "ok_value (Inr x) = Some x"

lemma ok_value_eq_Some [simp]: "ok_value r = Some x \<longleftrightarrow> r = Inr x"
  by (cases r) auto

text \<open>The reading of a submission, without the effects: what \<open>validateSubmit\<close> and the parsed nonce give.\<close>

definition parse_submit :: "node_lib \<Rightarrow> json_rpc_event \<Rightarrow> mining_state \<Rightarrow> submit_info option" where
  "parse_submit lib event ms =
     (if length (ev_Params event) < 4 then None
      else Option.bind (param_str event 1) (\<lambda>j. Option.bind (ParseInt10 j) (\<lambda>jobId.
        Option.bind (GetJob ms jobId) (\<lambda>block. Option.bind (param_str event 2) (\<lambda>noncestr.
        Option.bind (param_str event 3) (\<lambda>p.
        Option.bind (ok_value (NewDomainHashFromString lib (replace_first p ''0x'' []))) (\<lambda>h.
          map_option (\<lambda>n. \<lparr>si_jobId = jobId, si_block = block,
            si_noncestr = replace_first noncestr ''0x'' [], si_nonceVal = n, si_powHash = h\<rparr>)
            (ParseUint (replace_first noncestr ''0x'' []) 16))))))))"

lemma validateSubmit_result:
  assumes "validateSubmit env event w = (Ret (Inr si), w')"
  shows "w' = w \<and> parse_submit (env_lib env) event (State (sw_ctx w)) =
    map_option (\<lambda>n. si\<lparr>si_nonceVal := n\<rparr>) (ParseUint (si_noncestr si) 16)"
proof -
  have bad: "bad_data env code err w \<noteq> (Ret (Inr si), w')" for code err
    by (auto simp: bad_data_def wbind_def wret_def split: prod.splits outcome.splits)
  show ?thesis using assms bad
    by (auto simp: validateSubmit_def parse_submit_def wret_def option.map_comp comp_def
        split: if_splits option.splits sum.splits)
qed

named_theorems keeps_frame "steps that respect a frame of the share handler"

locale step_frame = frame R for R :: "'s share_world_scheme \<Rightarrow> 's share_world_scheme \<Rightarrow> bool" +
  assumes log: "R w (w\<lparr>prom_log := l\<rparr>)"
    and io: "same_but_io (sw_ctx w) c \<Longrightarrow> R w (w\<lparr>sw_ctx := c\<rparr>)"
    and create: "sh_stats (sw_sh w) (stats_key (sw_ctx w)) = None \<Longrightarrow>
      R w (w\<lparr>sw_sh := (sw_sh w)\<lparr>sh_stats := (sh_stats (sw_sh w))(stats_key (sw_ctx w) \<mapsto> new_stats n (sw_ctx w))\<rparr>\<rparr>)"
begin

lemma prom [keeps_frame]: "keeps R (prom_all accepts cs)"
proof (rule keepsI)
  fix w :: "'s share_world_scheme"
  obtain cs' where "snd (prom_all accepts cs w) = w\<lparr>prom_log := prom_log w @ cs'\<rparr>"
    using prom_all_effect by blast
  then show "R w (snd (prom_all accepts cs w))" using log by simp
qed

lemma records [keeps_frame]:
  "keeps R (RecordShareFound accepts c hv)" "keeps R (RecordStaleShare accepts c)"
  "keeps R (RecordDupeShare accepts c)" "keeps R (RecordInvalidShare accepts c)"
  "keeps R (RecordWeakShare accepts c)" "keeps R (RecordBlockFound accepts c n bl hash)"
  "keeps R (RecordWorkerError accepts addr code)" "keeps R (InitWorkerCounters accepts c)"
  by (simp_all only: record_defs prom)

lemma ctx_record [keeps_frame]: "(\<And>c. keeps R (f c)) \<Longrightarrow> keeps R (record_ctx f)"
  by (simp add: keeps_def record_ctx_def)

lemma reply: "(\<And>c i. same_but_io c (snd (f c i))) \<Longrightarrow> keeps R (reply_with f i)"
  by (simp add: keeps_def reply_with_def io)

lemmas replies [keeps_frame] = replies_io [THEN reply]

lemma hang [keeps_frame]: "keeps R whang"
  by (simp add: keeps_def whang_def frame_refl)

lemmas sequencing [keeps_frame] = keeps_wret keeps_wpanic keeps_wbind

lemma stats [keeps_frame]: "keeps R (getCreateStats env)"
proof (rule keepsI)
  fix w
  show "R w (snd (getCreateStats env w))"
  proof (cases "sh_stats (sw_sh w) (stats_key (sw_ctx w))")
    case None
    have "keeps R (wbind (record_ctx (InitWorkerCounters (env_accepts env))) (\<lambda>_. wret key))" for key
      by (intro keeps_frame)
    from frame_trans [OF create [OF None] keepsD [OF this]] show ?thesis
      using None by (simp add: getCreateStats_def Let_def upd_sh_def)
  qed (simp add: getCreateStats_def wret_def frame_refl)
qed

end

locale share_frame = step_frame R for R :: "'s share_world_scheme \<Rightarrow> 's share_world_scheme \<Rightarrow> bool" +
  assumes tip: "R w (w\<lparr>sw_sh := (sw_sh w)\<lparr>sh_tipBlueScore := t\<rparr>\<rparr>)"
    and book: "R w (w\<lparr>sw_sh := (sw_sh w)\<lparr>sh_miningDB := d, sh_rewardJobs := js\<rparr>\<rparr>)"
begin

lemma stale_record [keeps_frame]: "keeps R (wbind (record_ctx (RecordStaleShare accepts)) (\<lambda>_. wret x))"
  by (intro keeps_frame)

lemma stale_check [keeps_frame]: "keeps R (checkStales env si)"
proof (rule keepsI)
  fix w
  show "R w (snd (checkStales env si w))"
  proof (cases "si_block si")
    case (Some b)
    show ?thesis
      unfolding checkStales_def Some option.case Let_def
      by (simp only: split: if_split)
        (simp add: upd_sh_def wret_def tip frame_refl keepsD [OF stale_record])
  qed (simp add: checkStales_def wpanic_def frame_refl)
qed

lemma value_read [keeps_frame]: "keeps R hash_value"
  by (simp add: keeps_def hash_value_def wpanic_def wret_def frame_refl split: option.split)

lemma wallet [keeps_frame]: "keeps R (block_wallet b d)"
  by (simp add: block_wallet_def keeps_wret keeps_wpanic split: list.split option.split)

lemma booked: "keeps R (case r of
      (Some e, d') \<Rightarrow> upd_sh (\<lambda>sh. sh\<lparr>sh_miningDB := Some d'\<rparr>)
    | (None, d') \<Rightarrow> upd_sh (\<lambda>sh. sh\<lparr>sh_miningDB := Some d', sh_rewardJobs := sh_rewardJobs sh @ [h]\<rparr>))"
proof (rule keepsI)
  fix w
  have "R w (w\<lparr>sw_sh := (sw_sh w)\<lparr>sh_miningDB := d\<rparr>\<rparr>)" for d
    using book [of w "sh_rewardJobs (sw_sh w)" d] by simp
  then show "R w (snd ((case r of
      (Some e, d') \<Rightarrow> upd_sh (\<lambda>sh. sh\<lparr>sh_miningDB := Some d'\<rparr>)
    | (None, d') \<Rightarrow> upd_sh (\<lambda>sh. sh\<lparr>sh_miningDB := Some d', sh_rewardJobs := sh_rewardJobs sh @ [h]\<rparr>)) w))"
    by (simp add: upd_sh_def wmodify_def book split: prod.split option.split)
qed

lemma persisted [keeps_frame]: "keeps R (persist env key b h)"
proof (rule keepsI)
  fix w
  show "R w (snd (persist env key b h w))"
  proof (cases "sh_miningDB (sw_sh w)")
    case (Some d)
    show ?thesis unfolding persist_def Some option.case
      by (rule keepsD, intro keeps_wbind wallet booked)
  qed (simp add: persist_def wret_def frame_refl)
qed

lemma bad [keeps_frame]: "keeps R (bad_data env code err)"
  by (rule keepsI) (unfold bad_data_def, rule keepsD, intro keeps_frame)

lemma nonce [keeps_frame]: "keeps R (bad_nonce env)"
  by (rule keepsI) (unfold bad_nonce_def, rule keepsD, intro keeps_frame)

lemma validation [keeps_frame]: "keeps R (validateSubmit env event)"
  by (rule keepsI) (simp add: validateSubmit_def wret_def frame_refl keepsD [OF bad] split: option.split sum.split)

lemma answers [keeps_frame]:
  "keeps R (wbind (record_ctx (RecordInvalidShare accepts)) (\<lambda>_. reply_with ReplyIncorrectData i))"
  "keeps R (wbind (record_ctx (RecordInvalidShare accepts)) (\<lambda>_. reply_with ReplyBadShare i))"
  "keeps R (wbind (record_ctx (RecordStaleShare accepts)) (\<lambda>_. reply_with ReplyStaleShare i))"
  by (intro keeps_frame)+

lemma submit_invalid:
  assumes "parse_submit (env_lib env) event (State (sw_ctx w)) = None"
  shows "R w (snd (HandleSubmit env event solo w))"
proof -
  obtain r w1 where v: "validateSubmit env event w = (r, w1)" by (cases "validateSubmit env event w")
  have w1: "R w w1" by (rule keeps_Ret [OF validation v])
  show ?thesis
  proof (cases r)
    case (Ret x)
    show ?thesis
    proof (cases x)
      case (Inl err)
      have "R w1 (snd (reply_with ReplyIncorrectData (ev_Id event) w1))"
        by (rule keepsD, intro replies)
      then show ?thesis using v Ret Inl frame_trans [OF w1] keepsD [OF answers(3)]
        by (auto simp: HandleSubmit_def wbind_def)
    next
      case (Inr si)
      then have "w1 = w" "ParseUint (si_noncestr si) 16 = None"
        using validateSubmit_result [of env event w si w1] v Ret assms by simp_all
      then have "HandleSubmit env event solo w = bad_nonce env w"
        using v Ret Inr by (simp add: HandleSubmit_def wbind_def [of "validateSubmit env event"] bad_nonce_def)
      then show ?thesis using keepsD [OF nonce] by simp
    qed
  qed (use v w1 in \<open>simp_all add: HandleSubmit_def wbind_def\<close>)
qed

end

subsection \<open>Submitted blocks and jobs\<close>

text \<open>What was submitted, the jobs and difficulty of the connection, and who is connected.\<close>

definition same_work :: "'s share_world_scheme \<Rightarrow> 's share_world_scheme \<Rightarrow> bool" where
  "same_work w w' \<longleftrightarrow>
     sh_submitted (sw_sh w') = sh_submitted (sw_sh w) \<and> State (sw_ctx w') = State (sw_ctx w) \<and>
     Summary (sw_ctx w') = Summary (sw_ctx w)"

interpretation work: share_frame same_work
  by unfold_locales (auto simp: same_work_def same_but_ioD(7) same_but_io_Summary)

lemma keeps_upd_stats [keeps_frame]: "keeps same_work (upd_stats key f)"
  by (simp add: keeps_def upd_stats_def upd_sh_def wmodify_def same_work_def)

lemma keeps_upd_overall [keeps_frame]: "keeps same_work (upd_overall f)"
  by (simp add: keeps_def upd_overall_def upd_sh_def wmodify_def same_work_def)

lemma keeps_reject [keeps_frame]:
  "(\<And>c. keeps same_work (metric c)) \<Longrightarrow> (\<And>c i. same_but_io c (snd (answer c i))) \<Longrightarrow>
   keeps same_work (reject key f g metric answer i)"
  unfolding reject_def by (intro keeps_frame work.reply)

lemma keeps_rejections [keeps_frame]:
  "keeps same_work (reject_invalid env key i (RecordWeakShare accepts) ReplyLowDiffShare)"
  "keeps same_work (reject_invalid env key i (RecordInvalidShare accepts) ReplyIncorrectPow)"
  "keeps same_work (reject key f f (RecordStaleShare accepts) ReplyStaleShare i)"
  "keeps same_work (rejected_block env key i e)"
  by (simp_all add: rejected_block_def reject_invalid_def keeps_frame replies_io)

lemma keeps_accept_share [keeps_frame]: "keeps same_work (accept_share env key i b c)"
  unfolding accept_share_def Let_def by (intro keeps_frame)

subsection \<open>What is handed to the node\<close>

lemma reject_stale_submitted:
  "sh_submitted (sw_sh (snd (reject_stale env si key i e w))) = sh_submitted (sw_sh w)"
  "State (sw_ctx (snd (reject_stale env si key i e w))) = RemoveJob (State (sw_ctx w)) (si_jobId si)"
  using keepsD [OF keeps_rejections(3), of "w\<lparr>sw_ctx := c\<rparr>" key "rolling_stale (env_now env) \<circ> inc_stale" "env_accepts env" i for c]
    keepsD [OF work.answers(2), of "w\<lparr>sw_ctx := c\<rparr>" "env_accepts env" i for c]
  by (auto simp: reject_stale_def upd_ctx_def same_work_def)

lemma submit_unsynced: "\<not> node_synced env \<Longrightarrow> submit env block si w = (Ret (Some not_synced), w)"
  by (simp add: submit_def wret_def)

lemma submit_synced:
  assumes "node_synced env" "n = si_nonceVal si" "submit env (with_nonce conv n) si w = (r, w1)"
  shows "r = Ret (env_SubmitBlock env (with_nonce conv n) (HashString (env_lib env) (si_powHash si)))"
    "sh_submitted (sw_sh w1) = sh_submitted (sw_sh w) @ [(with_nonce conv n, HashString (env_lib env) (si_powHash si))]"
    "State (sw_ctx w1) = RemoveJob (State (sw_ctx w)) (si_jobId si)" "Summary (sw_ctx w1) = Summary (sw_ctx w)"
  using assms by (auto simp: submit_def Let_def upd_sh_def upd_ctx_def wret_def with_nonce_def Summary_def)

lemma GetJob_RemoveJob_same: "GetJob (RemoveJob ms i) i = None"
  by (simp add: GetJob_def)

lemma judge_share_submits:
  assumes "judge_share env si key i b (with_nonce conv (si_nonceVal si)) target num w = (r, w')"
  shows "same_work w w' \<or>
    node_synced env \<and> toBig (si_powHash si) = num \<and> num \<le> target \<and>
    sh_submitted (sw_sh w') = sh_submitted (sw_sh w) @
      [(with_nonce conv (si_nonceVal si), HashString (env_lib env) (si_powHash si))] \<and>
    State (sw_ctx w') = RemoveJob (State (sw_ctx w)) (si_jobId si)"
proof (cases "toBig (si_powHash si) = num \<and> num \<le> target")
  case True
  let ?blk = "with_nonce conv (si_nonceVal si)"
  let ?k = "\<lambda>err. case err of Some e \<Rightarrow> rejected_block env key i e | None \<Rightarrow> accept_share env key i b ?blk"
  have j: "wbind (submit env ?blk si) ?k w = (r, w')" using assms True by (simp add: judge_share_def)
  have k: "keeps same_work (?k err)" for err by (simp add: keeps_frame split: option.split)
  show ?thesis
  proof (cases "node_synced env")
    case False
    then have "?k (Some not_synced) w = (r, w')" using j by (simp add: submit_unsynced wbind_Ret)
    then show ?thesis using keeps_Ret [OF k] by blast
  next
    case sync: True
    obtain r1 w1 where s: "submit env ?blk si w = (r1, w1)" by (cases "submit env ?blk si w")
    note eff = submit_synced [OF sync refl s]
    have "?k (env_SubmitBlock env ?blk (HashString (env_lib env) (si_powHash si))) w1 = (r, w')"
      using j s eff(1) by (simp add: wbind_def)
    from keeps_Ret [OF k this] show ?thesis using eff True sync by (simp add: same_work_def)
  qed
next
  case False
  have "same_work w (snd (judge_share env si key i b (with_nonce conv (si_nonceVal si)) target num w))"
    using False by (auto simp: judge_share_def wpanic_def work.frame_refl keepsD [OF keeps_accept_share]
        keepsD [OF keeps_rejections(1)] keepsD [OF keeps_rejections(2)]
        split: option.split)
  then show ?thesis using assms by simp
qed

lemma check_work_submits:
  assumes "check_work env si key i b w = (r, w')"
  shows "same_work w w' \<or>
    (\<exists>conv ps h. node_synced env \<and>
      RPCBlockToDomainBlock (env_lib env) b (HashString (env_lib env) (si_powHash si)) = Inr conv \<and>
      NewState (env_lib env) (env_gm env) (db_Header (with_nonce conv (si_nonceVal si))) = Some ps \<and>
      CalculateProofOfWorkValue (env_lib env) (env_gm env) ps = Some (toBig (si_powHash si), h) \<and>
      toBig (si_powHash si) \<le> Target ps \<and>
      sh_submitted (sw_sh w') = sh_submitted (sw_sh w) @
        [(with_nonce conv (si_nonceVal si), HashString (env_lib env) (si_powHash si))] \<and>
      State (sw_ctx w') = RemoveJob (State (sw_ctx w)) (si_jobId si))"
proof (cases "RPCBlockToDomainBlock (env_lib env) b (HashString (env_lib env) (si_powHash si))")
  case (Inl e)
  then have "wbind (record_ctx (RecordInvalidShare (env_accepts env))) (\<lambda>_. reply_with ReplyIncorrectData i) w = (r, w')"
    using assms by (simp add: check_work_def)
  from keeps_Ret [OF work.answers(1) this] show ?thesis by blast
next
  case (Inr conv)
  note eq = assms [unfolded check_work_def Inr sum.case Let_def]
  show ?thesis
  proof (cases "NewState (env_lib env) (env_gm env) (db_Header (with_nonce conv (si_nonceVal si)))")
    case None
    then show ?thesis using eq by (simp add: whang_def work.frame_refl)
  next
    case ns: (Some ps)
    show ?thesis
    proof (cases "CalculateProofOfWorkValue (env_lib env) (env_gm env) ps")
      case None
      then show ?thesis using eq ns by (simp add: whang_def work.frame_refl)
    next
      case (Some v)
      then show ?thesis using judge_share_submits [of env si key i b conv "Target ps" "fst v" w r w'] eq ns Inr
        by (cases v) auto
    qed
  qed
qed

lemma check_share_submits:
  assumes "check_share env si i w = (r, w')"
  shows "sh_submitted (sw_sh w') = sh_submitted (sw_sh w) \<or>
    (\<exists>b conv ps h. si_block si = Some b \<and> node_synced env \<and>
      RPCBlockToDomainBlock (env_lib env) b (HashString (env_lib env) (si_powHash si)) = Inr conv \<and>
      NewState (env_lib env) (env_gm env) (db_Header (with_nonce conv (si_nonceVal si))) = Some ps \<and>
      CalculateProofOfWorkValue (env_lib env) (env_gm env) ps = Some (toBig (si_powHash si), h) \<and>
      toBig (si_powHash si) \<le> Target ps \<and>
      sh_submitted (sw_sh w') = sh_submitted (sw_sh w) @
        [(with_nonce conv (si_nonceVal si), HashString (env_lib env) (si_powHash si))] \<and>
      State (sw_ctx w') = RemoveJob (State (sw_ctx w)) (si_jobId si))"
proof -
  obtain r1 w1 where g: "getCreateStats env w = (r1, w1)" by (cases "getCreateStats env w")
  have w1: "same_work w w1" by (rule keeps_Ret [OF work.stats g])
  show ?thesis
  proof (cases r1)
    case (Ret key)
    obtain r2 w2 where c: "checkStales env si w1 = (r2, w2)" by (cases "checkStales env si w1")
    have w2: "same_work w w2" using work.frame_trans [OF w1 keeps_Ret [OF work.stale_check c]] .
    note eq = assms [unfolded check_share_def wbind_def g Ret prod.case outcome.case c]
    show ?thesis
    proof (cases r2)
      case (Ret err)
      show ?thesis
      proof (cases err)
        case (Some e)
        then have "reject_stale env si key i e w2 = (r, w')" using eq Ret by simp
        then show ?thesis using reject_stale_submitted(1) [of env si key i e w2] w2 by (simp add: same_work_def)
      next
        case None
        show ?thesis
        proof (cases "si_block si")
          case None
          then show ?thesis using eq Ret \<open>err = None\<close> w2 by (auto simp: wpanic_def same_work_def)
        next
          case (Some b)
          then have "check_work env si key i b w2 = (r, w')" using eq Ret None by simp
          from check_work_submits [OF this] w2 Some show ?thesis by (auto simp: same_work_def)
        qed
      qed
    qed (use eq w2 in \<open>auto simp: same_work_def\<close>)
  qed (use assms w1 in \<open>auto simp: check_share_def wbind_def g same_work_def\<close>)
qed

text \<open>The handler by cases of the validation.\<close>

lemma HandleSubmit_valid:
  assumes "parse_submit (env_lib env) event (State (sw_ctx w)) = Some si"
  shows "HandleSubmit env event solo w = check_share env si (ev_Id event) w"
proof -
  have "\<exists>si0. validateSubmit env event w = (Ret (Inr si0), w)"
    using assms by (auto simp: parse_submit_def validateSubmit_def wret_def bind_eq_Some_conv split: if_splits)
  then obtain si0 where v: "validateSubmit env event w = (Ret (Inr si0), w)" ..
  note p = validateSubmit_result [OF v, THEN conjunct2]
  with v show ?thesis using assms
    by (cases "ParseUint (si_noncestr si0) 16") (auto simp: HandleSubmit_def wbind_Ret)
qed

lemma HandleSubmit_submits:
  assumes "HandleSubmit env event solo w = (r, w')"
  shows "sh_submitted (sw_sh w') = sh_submitted (sw_sh w) \<or>
    (\<exists>si b conv ps h. parse_submit (env_lib env) event (State (sw_ctx w)) = Some si \<and> si_block si = Some b \<and>
      node_synced env \<and>
      RPCBlockToDomainBlock (env_lib env) b (HashString (env_lib env) (si_powHash si)) = Inr conv \<and>
      NewState (env_lib env) (env_gm env) (db_Header (with_nonce conv (si_nonceVal si))) = Some ps \<and>
      CalculateProofOfWorkValue (env_lib env) (env_gm env) ps = Some (toBig (si_powHash si), h) \<and>
      toBig (si_powHash si) \<le> Target ps \<and>
      sh_submitted (sw_sh w') = sh_submitted (sw_sh w) @
        [(with_nonce conv (si_nonceVal si), HashString (env_lib env) (si_powHash si))] \<and>
      State (sw_ctx w') = RemoveJob (State (sw_ctx w)) (si_jobId si))"
proof (cases "parse_submit (env_lib env) event (State (sw_ctx w))")
  case None
  then show ?thesis using work.submit_invalid [of env event w solo] assms by (simp add: same_work_def)
next
  case (Some si)
  then have "check_share env si (ev_Id event) w = (r, w')" using assms HandleSubmit_valid by metis
  from check_share_submits [OF this] Some show ?thesis by blast
qed

text \<open>
  C3: the handler gives the node at most one block per submission, and only if the node is
  synced, the job is in the store, and the hash the miner claims is the hash recomputed from the
  job with the submitted nonce, and meets the network target. The block handed over is the job
  with that nonce, and its job id is no longer valid afterwards.
\<close>

theorem only_proven_blocks_submitted:
  "let w' = snd (HandleSubmit env event solo w)
   in sh_submitted (sw_sh w') = sh_submitted (sw_sh w) \<or>
      (\<exists>si b conv ps h. parse_submit (env_lib env) event (State (sw_ctx w)) = Some si \<and> si_block si = Some b \<and>
        node_synced env \<and>
        RPCBlockToDomainBlock (env_lib env) b (HashString (env_lib env) (si_powHash si)) = Inr conv \<and>
        NewState (env_lib env) (env_gm env) (db_Header (with_nonce conv (si_nonceVal si))) = Some ps \<and>
        CalculateProofOfWorkValue (env_lib env) (env_gm env) ps = Some (toBig (si_powHash si), h) \<and>
        toBig (si_powHash si) \<le> Target ps \<and>
        sh_submitted (sw_sh w') = sh_submitted (sw_sh w) @
          [(with_nonce conv (si_nonceVal si), HashString (env_lib env) (si_powHash si))] \<and>
        GetJob (State (sw_ctx w')) (si_jobId si) = None)"
proof -
  obtain r w' where h: "HandleSubmit env event solo w = (r, w')" by (cases "HandleSubmit env event solo w")
  from HandleSubmit_submits [OF h] show ?thesis by (auto simp: h GetJob_RemoveJob_same)
qed

subsection \<open>Metrics accept what the handler records\<close>

lemma dec_str_utf8: "valid_utf8 (dec_str n)"
proof (rule ascii_utf8)
  have "byte_of (hex_char d) < 128" if "d < 10" for d using that by (simp add: hex_char_def)
  then show "list_all (\<lambda>c. byte_of c < 128) (dec_str n)"
    by (induction n rule: dec_str.induct) (subst dec_str.simps, simp)
qed

definition labels_ok :: "stratum_context \<Rightarrow> bool" where
  "labels_ok c \<longleftrightarrow> labels_utf8 c \<and> valid_utf8 (RemoteAddr c)"

lemma prom_all_ok:
  "accepts_ok accepts \<Longrightarrow> \<forall>c \<in> set cs. call_ok c \<Longrightarrow> prom_all accepts cs s = (Ret (), s\<lparr>prom_log := prom_log s @ cs\<rparr>)"
  by (rule prom_all_accepted) (simp add: accepts_ok_def)

lemma records_ok:
  assumes "accepts_ok accepts" "labels_ok c"
  shows "\<exists>cs. RecordStaleShare accepts c s = (Ret (), s\<lparr>prom_log := prom_log s @ cs\<rparr>)"
    "\<exists>cs. RecordDupeShare accepts c s = (Ret (), s\<lparr>prom_log := prom_log s @ cs\<rparr>)"
    "\<exists>cs. RecordInvalidShare accepts c s = (Ret (), s\<lparr>prom_log := prom_log s @ cs\<rparr>)"
    "\<exists>cs. RecordWeakShare accepts c s = (Ret (), s\<lparr>prom_log := prom_log s @ cs\<rparr>)"
    "\<exists>cs. InitWorkerCounters accepts c s = (Ret (), s\<lparr>prom_log := prom_log s @ cs\<rparr>)"
    "\<not> f64_lt hv (Fin 0) \<Longrightarrow> \<exists>cs. RecordShareFound accepts c hv s = (Ret (), s\<lparr>prom_log := prom_log s @ cs\<rparr>)"
    "valid_utf8 hash \<Longrightarrow> \<exists>cs. RecordBlockFound accepts c n bl hash s = (Ret (), s\<lparr>prom_log := prom_log s @ cs\<rparr>)"
    "\<exists>cs. RecordWorkerError accepts (WalletAddr c) code s = (Ret (), s\<lparr>prom_log := prom_log s @ cs\<rparr>)"
proof -
  note ok = prom_all_ok [OF assms(1)]
  have v: "valid_utf8 (WorkerName c)" "valid_utf8 (RemoteApp c)" "valid_utf8 (WalletAddr c)" "valid_utf8 (RemoteAddr c)"
    using assms(2) by (simp_all add: labels_ok_def labels_utf8_def)
  have kinds: "valid_utf8 ''stale''" "valid_utf8 ''duplicate''" "valid_utf8 ''invalid''" "valid_utf8 ''weak''"
    by (simp_all add: ascii_utf8)
  have code: "valid_utf8 (short_code code)" by (cases code) (simp_all add: ascii_utf8)
  note s = call_ok_def commonLabels_def invalid_call_def init_invalid_call_def v kinds code dec_str_utf8
  show "\<exists>cs. RecordStaleShare accepts c s = (Ret (), s\<lparr>prom_log := prom_log s @ cs\<rparr>)"
    "\<exists>cs. RecordDupeShare accepts c s = (Ret (), s\<lparr>prom_log := prom_log s @ cs\<rparr>)"
    "\<exists>cs. RecordInvalidShare accepts c s = (Ret (), s\<lparr>prom_log := prom_log s @ cs\<rparr>)"
    "\<exists>cs. RecordWeakShare accepts c s = (Ret (), s\<lparr>prom_log := prom_log s @ cs\<rparr>)"
    "\<exists>cs. InitWorkerCounters accepts c s = (Ret (), s\<lparr>prom_log := prom_log s @ cs\<rparr>)"
    "\<not> f64_lt hv (Fin 0) \<Longrightarrow> \<exists>cs. RecordShareFound accepts c hv s = (Ret (), s\<lparr>prom_log := prom_log s @ cs\<rparr>)"
    "valid_utf8 hash \<Longrightarrow> \<exists>cs. RecordBlockFound accepts c n bl hash s = (Ret (), s\<lparr>prom_log := prom_log s @ cs\<rparr>)"
    "\<exists>cs. RecordWorkerError accepts (WalletAddr c) code s = (Ret (), s\<lparr>prom_log := prom_log s @ cs\<rparr>)"
    unfolding record_defs by (rule exI, rule ok, simp add: s)+
qed

subsection \<open>No panics\<close>

text \<open>
  The state of a connection that has been sent work: labels are valid, a difficulty with a target
  is set, and the stored jobs are blocks whose first transaction, if any, is there.
\<close>

definition difficulty_set :: "mining_state \<Rightarrow> bool" where
  "difficulty_set ms \<longleftrightarrow> (\<exists>d t. stratumDiff ms = Some d \<and> targetValue d = Some t \<and> \<not> f64_lt (hashValue d) (Fin 0))"

definition blocks_present :: "mining_state \<Rightarrow> bool" where
  "blocks_present ms \<longleftrightarrow>
     (\<forall>k ob. Jobs ms k = Some ob \<longrightarrow> (\<exists>b. ob = Some b \<and> (case b_Transactions b of None # txs \<Rightarrow> False | _ \<Rightarrow> True)))"

definition share_ok :: "'s share_world_scheme \<Rightarrow> bool" where
  "share_ok w \<longleftrightarrow> labels_ok (sw_ctx w) \<and> difficulty_set (State (sw_ctx w)) \<and> blocks_present (State (sw_ctx w))"

named_theorems safe_share "steps that do not panic in a good state"

declare safe_wbind [safe_share] safe_wret [safe_share]

lemma labels_ok_Summary: "Summary c' = Summary c \<Longrightarrow> labels_ok c' = labels_ok c"
  by (simp add: Summary_def labels_ok_def labels_utf8_def)

lemma share_ok_same_work: "same_work w w' \<Longrightarrow> share_ok w \<Longrightarrow> share_ok w'"
  using labels_ok_Summary [of "sw_ctx w'" "sw_ctx w"] by (simp add: share_ok_def same_work_def)

lemma share_ok_remove:
  assumes "share_ok w"
  shows "share_ok (w\<lparr>sw_ctx := (sw_ctx w)\<lparr>State := RemoveJob (State (sw_ctx w)) i\<rparr>\<rparr>)"
proof -
  have "labels_ok ((sw_ctx w)\<lparr>State := ms\<rparr>) = labels_ok (sw_ctx w)" for ms
    by (rule labels_ok_Summary) (simp add: Summary_def)
  then show ?thesis using assms by (auto simp: share_ok_def difficulty_set_def blocks_present_def)
qed

lemma safe_calm:
  assumes "keeps same_work m" "\<And>w e. share_ok w \<Longrightarrow> fst (m w) \<noteq> Panic e"
  shows "safe share_ok m"
  using assms share_ok_same_work by (intro safeI) (blast dest: keepsD)

lemma safe_recorded:
  assumes "\<And>c s. labels_ok c \<Longrightarrow> \<exists>cs. f c s = (Ret (), s\<lparr>prom_log := prom_log s @ cs\<rparr>)"
  shows "safe share_ok (record_ctx f)"
proof (rule safeI)
  fix w :: "'a share_world_scheme" assume w: "share_ok w"
  then obtain cs where "f (sw_ctx w) w = (Ret (), w\<lparr>prom_log := prom_log w @ cs\<rparr>)"
    using assms [of "sw_ctx w" w] by (auto simp: share_ok_def)
  moreover have "share_ok (w\<lparr>prom_log := prom_log w @ cs\<rparr>)" using w by (simp add: share_ok_def)
  ultimately show "share_ok (snd (record_ctx f w)) \<and> (\<forall>e. fst (record_ctx f w) \<noteq> Panic e)"
    by (simp add: record_ctx_def)
qed

lemma safe_records [safe_share]:
  assumes "accepts_ok accepts"
  shows "safe share_ok (record_ctx (RecordStaleShare accepts))" "safe share_ok (record_ctx (RecordDupeShare accepts))"
    "safe share_ok (record_ctx (RecordInvalidShare accepts))" "safe share_ok (record_ctx (RecordWeakShare accepts))"
    "safe share_ok (record_ctx (InitWorkerCounters accepts))"
    "valid_utf8 hash \<Longrightarrow> safe share_ok (record_ctx (\<lambda>c. RecordBlockFound accepts c n bl hash))"
    "\<not> f64_lt hv (Fin 0) \<Longrightarrow> safe share_ok (record_ctx (\<lambda>c. RecordShareFound accepts c hv))"
  by (rule safe_recorded, rule records_ok [OF assms]; assumption)+

lemma safe_upd_stats [safe_share]: "safe share_ok (upd_stats key f)"
  by (rule safe_calm [OF keeps_upd_stats]) (simp add: upd_stats_def upd_sh_def wmodify_def)

lemma safe_upd_overall [safe_share]: "safe share_ok (upd_overall f)"
  by (rule safe_calm [OF keeps_upd_overall]) (simp add: upd_overall_def upd_sh_def wmodify_def)

lemma safe_reply_with:
  assumes "\<And>c i. same_but_io c (snd (f c i))"
  shows "safe share_ok (reply_with f i)"
  by (rule safe_calm [OF work.reply [OF assms]]) (simp add: reply_with_def)

lemmas safe_replies [safe_share] = replies_io [THEN safe_reply_with]

lemma safe_reject [safe_share]:
  "safe share_ok (record_ctx metric) \<Longrightarrow> (\<And>c i. same_but_io c (snd (answer c i))) \<Longrightarrow>
   safe share_ok (reject key f g metric answer i)"
  unfolding reject_def by (intro safe_share safe_reply_with)

lemma safe_rejections [safe_share]:
  assumes "accepts_ok (env_accepts env)"
  shows "safe share_ok (rejected_block env key i e)"
    "safe share_ok (reject_invalid env key i (RecordWeakShare (env_accepts env)) ReplyLowDiffShare)"
    "safe share_ok (reject_invalid env key i (RecordInvalidShare (env_accepts env)) ReplyIncorrectPow)"
    "safe share_ok (reject_stale env si key i err)"
proof -
  show "safe share_ok (rejected_block env key i e)"
    by (simp add: rejected_block_def reject_invalid_def safe_share replies_io assms)
  show "safe share_ok (reject_invalid env key i (RecordWeakShare (env_accepts env)) ReplyLowDiffShare)"
    "safe share_ok (reject_invalid env key i (RecordInvalidShare (env_accepts env)) ReplyIncorrectPow)"
    by (simp_all add: reject_invalid_def safe_share replies_io assms)
  have "safe share_ok (upd_ctx (\<lambda>c. c\<lparr>State := RemoveJob (State c) (si_jobId si)\<rparr>))"
    unfolding upd_ctx_def by (rule safe_wmodify) (rule share_ok_remove)
  then show "safe share_ok (reject_stale env si key i err)"
    unfolding reject_stale_def by (intro safe_share) (simp_all add: safe_share replies_io assms)
qed

lemma safe_getCreateStats [safe_share]:
  assumes "accepts_ok (env_accepts env)"
  shows "safe share_ok (getCreateStats env)"
proof (rule safeI)
  fix w :: "'a share_world_scheme" assume w: "share_ok w"
  have "safe share_ok (wbind (upd_sh (\<lambda>sh. sh\<lparr>sh_stats := (sh_stats sh)(key \<mapsto> st)\<rparr>)) (\<lambda>_.
    wbind (record_ctx (InitWorkerCounters (env_accepts env))) (\<lambda>_. wret key))
      :: ('a share_world_scheme, string) handler)" for key st
    by (intro safe_share assms) (auto simp: upd_sh_def share_ok_def intro!: safe_wmodify)
  from safeD [OF this w] show "share_ok (snd (getCreateStats env w)) \<and> (\<forall>e. fst (getCreateStats env w) \<noteq> Panic e)"
    using w by (simp add: getCreateStats_def Let_def wret_def split: option.split)
qed

lemma safe_checkStales [safe_share]:
  assumes "accepts_ok (env_accepts env)" "si_block si = Some b"
  shows "safe share_ok (checkStales env si)"
proof (rule safeI)
  fix w :: "'a share_world_scheme" assume w: "share_ok w"
  have "safe share_ok (wbind (record_ctx (RecordStaleShare (env_accepts env))) (\<lambda>_. wret x)
    :: ('a share_world_scheme, go_error option) handler)" for x
    by (intro safe_share assms)
  from safeD [OF this w] show "share_ok (snd (checkStales env si w)) \<and> (\<forall>e. fst (checkStales env si w) \<noteq> Panic e)"
    unfolding checkStales_def assms(2) option.case Let_def using w
    by (simp only: split: if_split) (simp add: upd_sh_def wret_def share_ok_def)
qed

lemma safe_hash_value:
  assumes "\<And>hv. \<not> f64_lt hv (Fin 0) \<Longrightarrow> safe share_ok (f hv)"
  shows "safe share_ok (wbind hash_value f)"
proof (rule safeI)
  fix w :: "'a share_world_scheme" assume w: "share_ok w"
  then obtain d where d: "stratumDiff (State (sw_ctx w)) = Some d" "\<not> f64_lt (hashValue d) (Fin 0)"
    by (auto simp: share_ok_def difficulty_set_def)
  then have "wbind hash_value f w = f (hashValue d) w" by (simp add: wbind_def hash_value_def wret_def)
  then show "share_ok (snd (wbind hash_value f w)) \<and> (\<forall>e. fst (wbind hash_value f w) \<noteq> Panic e)"
    using safeD [OF assms [OF d(2)] w] by simp
qed

definition first_tx_present :: "rpc_block \<Rightarrow> bool" where
  "first_tx_present b \<longleftrightarrow> (case b_Transactions b of None # txs \<Rightarrow> False | _ \<Rightarrow> True)"

lemma safe_persist [safe_share]:
  assumes "first_tx_present b"
  shows "safe share_ok (persist env key b h)"
proof (rule safe_calm [OF work.persisted])
  fix w :: "'a share_world_scheme" and e
  obtain a where "block_wallet b (WalletAddr (sw_ctx w)) = (wret a :: ('a share_world_scheme, string) handler)"
    using assms by (auto simp: first_tx_present_def block_wallet_def split: list.splits option.splits)
  then show "fst (persist env key b h w) \<noteq> Panic e"
    by (simp add: persist_def wret_def upd_sh_def wmodify_def split: option.split prod.split)
qed

lemma safe_accept_share [safe_share]:
  assumes "accepts_ok (env_accepts env)" "first_tx_present b" "\<And>h. valid_utf8 (HashString (env_lib env) h)"
  shows "safe share_ok (accept_share env key i b c)"
  unfolding accept_share_def Let_def
  by (intro safe_share safe_hash_value assms)

lemma safe_submit [safe_share]: "safe share_ok (submit env block si)"
proof (cases "node_synced env")
  case True
  have "safe share_ok (upd_ctx (\<lambda>c. c\<lparr>State := RemoveJob (State c) (si_jobId si)\<rparr>))"
    unfolding upd_ctx_def by (rule safe_wmodify) (rule share_ok_remove)
  moreover have "safe share_ok (upd_sh f)" for f
    unfolding upd_sh_def by (rule safe_wmodify) (simp add: share_ok_def)
  ultimately show ?thesis using True by (auto simp: submit_def Let_def intro!: safe_wbind safe_wret)
qed (simp add: submit_def safe_wret)

lemma safe_judge_share [safe_share]:
  assumes "accepts_ok (env_accepts env)" "first_tx_present b" "\<And>h. valid_utf8 (HashString (env_lib env) h)"
  shows "safe share_ok (judge_share env si key i b c target num)"
proof (rule safeI)
  fix w :: "'a share_world_scheme" assume w: "share_ok w"
  then obtain d t where d: "stratumDiff (State (sw_ctx w)) = Some d" "targetValue d = Some t"
    by (auto simp: share_ok_def difficulty_set_def)
  have "safe share_ok (wbind (submit env c si) (\<lambda>err. case err of
      Some e \<Rightarrow> rejected_block env key i e | None \<Rightarrow> accept_share env key i b c)
    :: ('a share_world_scheme, go_error option) handler)"
    using assms by (intro safe_wbind safe_submit) (simp add: safe_share split: option.split)
  note s = safeD [OF this w] safeD [OF safe_accept_share [OF assms] w]
    safeD [OF safe_rejections(2) [OF assms(1)] w] safeD [OF safe_rejections(3) [OF assms(1)] w]
  show "share_ok (snd (judge_share env si key i b c target num w)) \<and>
    (\<forall>e. fst (judge_share env si key i b c target num w) \<noteq> Panic e)"
    unfolding judge_share_def d option.case by (simp only: s split: if_split) simp
qed

lemma safe_check_work [safe_share]:
  assumes "accepts_ok (env_accepts env)" "first_tx_present b" "\<And>h. valid_utf8 (HashString (env_lib env) h)"
  shows "safe share_ok (check_work env si key i b)"
proof -
  have "safe share_ok whang" by (simp add: safe_def whang_def)
  moreover have "safe share_ok (wbind (record_ctx (RecordInvalidShare (env_accepts env))) (\<lambda>_. reply_with ReplyIncorrectData i))"
    by (intro safe_share assms)
  ultimately show ?thesis using assms
    by (auto simp: check_work_def Let_def safe_judge_share split: sum.split option.split)
qed

lemma safe_check_share:
  assumes "accepts_ok (env_accepts env)" "si_block si = Some b" "first_tx_present b"
    "\<And>h. valid_utf8 (HashString (env_lib env) h)"
  shows "safe share_ok (check_share env si i)"
  unfolding check_share_def
  by (intro safe_wbind safe_getCreateStats safe_checkStales assms)
    (auto simp: assms safe_rejections safe_check_work split: option.split)

lemma parse_submit_block:
  "parse_submit lib event ms = Some si \<Longrightarrow> \<exists>k. Jobs ms k = Some (si_block si)"
  by (auto simp: parse_submit_def GetJob_def bind_eq_Some_conv split: if_splits)

lemma safe_bad_data [safe_share]:
  assumes "accepts_ok (env_accepts env)"
  shows "safe share_ok (bad_data env code err)"
proof (rule safe_calm [OF work.bad])
  fix w :: "'a share_world_scheme" and e assume "share_ok w"
  then obtain cs where "RecordWorkerError (env_accepts env) (WalletAddr (sw_ctx w)) code w = (Ret (), w\<lparr>prom_log := prom_log w @ cs\<rparr>)"
    using records_ok(8) [OF assms, of "sw_ctx w" code w] by (auto simp: share_ok_def)
  then show "fst (bad_data env code err w) \<noteq> Panic e" by (simp add: bad_data_def wbind_def wret_def)
qed

lemma safe_validateSubmit [safe_share]:
  assumes "accepts_ok (env_accepts env)"
  shows "safe share_ok (validateSubmit env event)"
  by (rule safeI) (simp add: validateSubmit_def wret_def safeD [OF safe_bad_data [OF assms]]
      split: option.split sum.split)

lemma safe_bad_nonce [safe_share]:
  assumes "accepts_ok (env_accepts env)"
  shows "safe share_ok (bad_nonce env)"
proof (rule safe_calm [OF work.nonce])
  fix w :: "'a share_world_scheme" and e assume "share_ok w"
  then obtain cs where "RecordWorkerError (env_accepts env) (WalletAddr (sw_ctx w)) ErrBadDataFromMiner w =
      (Ret (), w\<lparr>prom_log := prom_log w @ cs\<rparr>)"
    using records_ok(8) [OF assms, of "sw_ctx w" _ w] by (auto simp: share_ok_def)
  then show "fst (bad_nonce env w) \<noteq> Panic e" by (simp add: bad_nonce_def wbind_def wret_def)
qed

lemma safe_answers [safe_share]:
  assumes "accepts_ok accepts"
  shows "safe share_ok (wbind (record_ctx (RecordStaleShare accepts)) (\<lambda>_. reply_with ReplyStaleShare i))"
  by (intro safe_share assms)

lemma HandleSubmit_invalid_safe:
  assumes "accepts_ok (env_accepts env)" "share_ok w" "parse_submit (env_lib env) event (State (sw_ctx w)) = None"
  shows "share_ok (snd (HandleSubmit env event solo w)) \<and> (\<forall>e. fst (HandleSubmit env event solo w) \<noteq> Panic e)"
proof -
  obtain r w1 where v: "validateSubmit env event w = (r, w1)" by (cases "validateSubmit env event w")
  have w1: "share_ok w1" "\<And>e. r \<noteq> Panic e"
    using safeD [OF safe_validateSubmit [OF assms(1), of event] assms(2)] v by auto
  show ?thesis
  proof (cases r)
    case (Ret x)
    show ?thesis
    proof (cases x)
      case (Inl err)
      then show ?thesis using v Ret safeD [OF safe_answers [OF assms(1)] w1(1)] safeD [OF safe_replies(4) w1(1)]
        by (simp add: HandleSubmit_def wbind_Ret)
    next
      case (Inr si)
      then have "w1 = w" "ParseUint (si_noncestr si) 16 = None"
        using validateSubmit_result [of env event w si w1] v Ret assms(3) by simp_all
      then have "HandleSubmit env event solo w = bad_nonce env w"
        using v Ret Inr by (simp add: HandleSubmit_def wbind_def [of "validateSubmit env event"] bad_nonce_def)
      then show ?thesis using safeD [OF safe_bad_nonce [OF assms(1)] assms(2)] by simp
    qed
  qed (use v w1 in \<open>simp_all add: HandleSubmit_def wbind_def\<close>)
qed

lemma HandleSubmit_safe:
  assumes "accepts_ok (env_accepts env)" "\<And>h. valid_utf8 (HashString (env_lib env) h)" "share_ok w"
  shows "share_ok (snd (HandleSubmit env event solo w)) \<and> (\<forall>e. fst (HandleSubmit env event solo w) \<noteq> Panic e)"
proof (cases "parse_submit (env_lib env) event (State (sw_ctx w))")
  case (Some si)
  obtain b where b: "si_block si = Some b" "first_tx_present b"
    using parse_submit_block [OF Some] assms(3) by (auto simp: share_ok_def blocks_present_def first_tx_present_def)
  show ?thesis using safeD [OF safe_check_share [OF assms(1) b assms(2)] assms(3)] HandleSubmit_valid [OF Some] by metis
next
  case None
  then show ?thesis by (rule HandleSubmit_invalid_safe [OF assms(1,3)])
qed

text \<open>
  Once a connection has been sent work, whatever a miner submits makes the handler neither
  panic nor leave that state: the metrics accept the labels, the difficulty has a target, and the
  stored blocks are there. The assumptions are those of the metrics library and of the printed
  form of hashes.
\<close>

theorem HandleSubmit_never_panics:
  assumes "accepts_ok (env_accepts env)" "\<And>h. valid_utf8 (HashString (env_lib env) h)" "share_ok w"
  shows "share_ok (snd (HandleSubmit env event solo w)) \<and> (\<forall>e. fst (HandleSubmit env event solo w) \<noteq> Panic e)"
  by (rule HandleSubmit_safe [OF assms])

subsection \<open>Stale shares\<close>

lemma word_window:
  fixes tip blue :: "64 word"
  assumes "\<not> tip < blue"
  shows "workWindow < tip - blue \<longleftrightarrow> unat blue + 8 < unat tip"
proof -
  have "unat (tip - blue) = unat tip - unat blue" using assms by (simp add: unat_sub not_less)
  moreover have "unat blue \<le> unat tip" using assms by (simp add: word_less_nat_alt)
  ultimately show ?thesis by (auto simp: workWindow_def word_less_nat_alt)
qed

lemma checkStales_fresh:
  assumes "si_block si = Some b" "unat (sh_tipBlueScore (sw_sh w)) \<le> unat (h_BlueScore (b_Header b)) + 8"
  shows "checkStales env si w = (Ret None, w\<lparr>sw_sh := (sw_sh w)\<lparr>sh_tipBlueScore :=
    max (sh_tipBlueScore (sw_sh w)) (h_BlueScore (b_Header b))\<rparr>\<rparr>)"
proof (cases "sh_tipBlueScore (sw_sh w) < h_BlueScore (b_Header b)")
  case True
  then show ?thesis using assms by (simp add: checkStales_def upd_sh_def wret_def max_def)
next
  case False
  then have "\<not> workWindow < sh_tipBlueScore (sw_sh w) - h_BlueScore (b_Header b)"
    using assms(2) word_window by fastforce
  moreover have "max (sh_tipBlueScore (sw_sh w)) (h_BlueScore (b_Header b)) = sh_tipBlueScore (sw_sh w)"
    using False by (simp add: max_def not_less)
  ultimately show ?thesis using assms(1) False by (simp add: checkStales_def wret_def Let_def)
qed

text \<open>
  The staleness check accepts a job exactly when its blue score is at most eight below the
  highest one seen, with no wrap-around of the unsigned difference, and the highest score seen
  becomes the maximum: it never falls.
\<close>

theorem checkStales_window:
  assumes "si_block si = Some b" "accepts_ok (env_accepts env)" "labels_ok (sw_ctx w)"
  shows "(\<exists>r w'. checkStales env si w = (Ret r, w') \<and>
      (r = None \<longleftrightarrow> unat (sh_tipBlueScore (sw_sh w)) \<le> unat (h_BlueScore (b_Header b)) + 8) \<and>
      sh_tipBlueScore (sw_sh w') = max (sh_tipBlueScore (sw_sh w)) (h_BlueScore (b_Header b)) \<and>
      (\<forall>e. r = Some e \<longrightarrow> error_is e ErrStaleShare))"
proof (cases "unat (sh_tipBlueScore (sw_sh w)) \<le> unat (h_BlueScore (b_Header b)) + 8")
  case True
  then show ?thesis using checkStales_fresh [OF assms(1) True, of env] by auto
next
  case False
  then have old: "\<not> sh_tipBlueScore (sw_sh w) < h_BlueScore (b_Header b)" by (auto simp: word_less_nat_alt)
  then have "workWindow < sh_tipBlueScore (sw_sh w) - h_BlueScore (b_Header b)" using word_window False by fastforce
  moreover have "max (sh_tipBlueScore (sw_sh w)) (h_BlueScore (b_Header b)) = sh_tipBlueScore (sw_sh w)"
    using old by (simp add: max_def not_less)
  moreover obtain cs where "RecordStaleShare (env_accepts env) (sw_ctx w) w = (Ret (), w\<lparr>prom_log := prom_log w @ cs\<rparr>)"
    using records_ok(1) [OF assms(2,3), of w] by auto
  ultimately show ?thesis using assms(1) old False
    by (simp add: checkStales_def Let_def record_ctx_def wbind_def wret_def)
qed

subsection \<open>A proven block reaches the node\<close>

lemma getCreateStats_effect:
  assumes "accepts_ok (env_accepts env)" "labels_ok (sw_ctx w)"
  obtains log where "getCreateStats env w = (Ret (stats_key (sw_ctx w)), w\<lparr>
    sw_sh := (sw_sh w)\<lparr>sh_stats := (sh_stats (sw_sh w))(stats_key (sw_ctx w) \<mapsto>
      (case sh_stats (sw_sh w) (stats_key (sw_ctx w)) of None \<Rightarrow> new_stats (env_now env) (sw_ctx w) | Some st \<Rightarrow> st))\<rparr>,
    prom_log := log\<rparr>)"
proof (cases "sh_stats (sw_sh w) (stats_key (sw_ctx w))")
  case None
  define w1 where "w1 = w\<lparr>sw_sh := (sw_sh w)\<lparr>sh_stats := (sh_stats (sw_sh w))(stats_key (sw_ctx w) \<mapsto> new_stats (env_now env) (sw_ctx w))\<rparr>\<rparr>"
  obtain cs where "InitWorkerCounters (env_accepts env) (sw_ctx w) w1 = (Ret (), w1\<lparr>prom_log := prom_log w1 @ cs\<rparr>)"
    using records_ok(5) [OF assms, of w1] by auto
  then have "getCreateStats env w = (Ret (stats_key (sw_ctx w)), w1\<lparr>prom_log := prom_log w1 @ cs\<rparr>)"
    using None by (simp add: getCreateStats_def Let_def upd_sh_def record_ctx_def wbind_def wmodify_def wret_def w1_def)
  then show ?thesis using that None by (simp add: w1_def)
next
  case (Some st)
  then have "(sh_stats (sw_sh w))(stats_key (sw_ctx w) \<mapsto> st) = sh_stats (sw_sh w)" by (simp add: fun_upd_idem)
  then show ?thesis using that [of "prom_log w"] Some by (simp add: getCreateStats_def wret_def)
qed

lemma getCreateStats_returns:
  assumes "accepts_ok (env_accepts env)" "labels_ok (sw_ctx w)"
  obtains w' where "getCreateStats env w = (Ret (stats_key (sw_ctx w)), w')" "sh_tipBlueScore (sw_sh w') = sh_tipBlueScore (sw_sh w)"
  by (rule getCreateStats_effect [OF assms]) (rule that, assumption, simp)

lemma proven_submitted:
  assumes "parse_submit (env_lib env) event (State (sw_ctx w)) = Some si" "si_block si = Some b"
    "accepts_ok (env_accepts env)" "labels_ok (sw_ctx w)" "node_synced env"
    "unat (sh_tipBlueScore (sw_sh w)) \<le> unat (h_BlueScore (b_Header b)) + 8"
    "RPCBlockToDomainBlock (env_lib env) b (HashString (env_lib env) (si_powHash si)) = Inr conv"
    "NewState (env_lib env) (env_gm env) (db_Header (with_nonce conv (si_nonceVal si))) = Some ps"
    "CalculateProofOfWorkValue (env_lib env) (env_gm env) ps = Some (toBig (si_powHash si), h)"
    "toBig (si_powHash si) \<le> Target ps"
  shows "sh_submitted (sw_sh (snd (HandleSubmit env event solo w))) =
    sh_submitted (sw_sh w) @ [(with_nonce conv (si_nonceVal si), HashString (env_lib env) (si_powHash si))]"
proof -
  let ?blk = "with_nonce conv (si_nonceVal si)"
  let ?k = "\<lambda>key err. case err of Some e \<Rightarrow> rejected_block env key (ev_Id event) e
    | None \<Rightarrow> accept_share env key (ev_Id event) b ?blk"
  obtain w1 where g: "getCreateStats env w = (Ret (stats_key (sw_ctx w)), w1)"
    and tip: "sh_tipBlueScore (sw_sh w1) = sh_tipBlueScore (sw_sh w)"
    by (rule getCreateStats_returns [OF assms(3,4)])
  obtain w2 where c: "checkStales env si w1 = (Ret None, w2)"
    using checkStales_fresh [OF assms(2), of w1 env] assms(6) tip by auto
  have w2: "same_work w w2"
    using work.frame_trans [OF keeps_Ret [OF work.stats g] keeps_Ret [OF work.stale_check c]] .
  obtain r3 w3 where s: "submit env ?blk si w2 = (r3, w3)" by (cases "submit env ?blk si w2")
  note eff = submit_synced [OF assms(5) refl s]
  have "HandleSubmit env event solo w = check_work env si (stats_key (sw_ctx w)) (ev_Id event) b w2"
    using HandleSubmit_valid [OF assms(1)] g c assms(2) by (simp add: check_share_def wbind_Ret)
  also have "\<dots> = ?k (stats_key (sw_ctx w)) (env_SubmitBlock env ?blk (HashString (env_lib env) (si_powHash si))) w3"
    using assms(7-10) s eff(1) by (simp add: check_work_def Let_def judge_share_def wbind_Ret)
  finally have hs: "HandleSubmit env event solo w =
    ?k (stats_key (sw_ctx w)) (env_SubmitBlock env ?blk (HashString (env_lib env) (si_powHash si))) w3" .
  have "same_work w3 (snd (?k key err w3))" for key err
    by (cases err) (simp_all add: keepsD [OF keeps_accept_share] keepsD [OF keeps_rejections(4)])
  then show ?thesis using hs eff(2) w2 by (simp add: same_work_def)
qed

text \<open>
  C4: the converse: a submission for a known job that is not stale, whose claimed hash is the
  recomputed one and meets the network target, is handed to a synced node.
\<close>

theorem proven_block_submitted:
  assumes "parse_submit (env_lib env) event (State (sw_ctx w)) = Some si" "si_block si = Some b"
    "accepts_ok (env_accepts env)" "labels_ok (sw_ctx w)" "node_synced env"
    "unat (sh_tipBlueScore (sw_sh w)) \<le> unat (h_BlueScore (b_Header b)) + 8"
    "RPCBlockToDomainBlock (env_lib env) b (HashString (env_lib env) (si_powHash si)) = Inr conv"
    "NewState (env_lib env) (env_gm env) (db_Header (with_nonce conv (si_nonceVal si))) = Some ps"
    "CalculateProofOfWorkValue (env_lib env) (env_gm env) ps = Some (toBig (si_powHash si), h)"
    "toBig (si_powHash si) \<le> Target ps"
  shows "sh_submitted (sw_sh (snd (HandleSubmit env event solo w))) =
    sh_submitted (sw_sh w) @ [(with_nonce conv (si_nonceVal si), HashString (env_lib env) (si_powHash si))]"
  using assms by (rule proven_submitted)

subsection \<open>Resubmission\<close>

lemma HandleSubmit_missing:
  assumes "4 \<le> length (ev_Params event)" "param_str event 1 = Some j" "ParseInt10 j = Some jobId"
    "GetJob (State (sw_ctx w)) jobId = None" "accepts_ok (env_accepts env)" "labels_ok (sw_ctx w)"
  shows "\<exists>log. HandleSubmit env event solo w =
    (Ret (fst (ReplyStaleShare (sw_ctx w) (ev_Id event))),
     w\<lparr>prom_log := prom_log w @ log, sw_ctx := snd (ReplyStaleShare (sw_ctx w) (ev_Id event))\<rparr>)"
proof -
  obtain cs where cs: "RecordWorkerError (env_accepts env) (WalletAddr (sw_ctx w)) ErrMissingJob w =
    (Ret (), w\<lparr>prom_log := prom_log w @ cs\<rparr>)" using records_ok(8) [OF assms(5,6), of _ w] by blast
  define w1 where "w1 = w\<lparr>prom_log := prom_log w @ cs\<rparr>"
  obtain cs' where cs': "RecordStaleShare (env_accepts env) (sw_ctx w) w1 = (Ret (), w1\<lparr>prom_log := prom_log w1 @ cs'\<rparr>)"
    using records_ok(1) [OF assms(5,6), of w1] by blast
  have "validateSubmit env event w = (Ret (Inl (ErrMsg missing_job)), w1)"
    using assms(1-4) cs by (simp add: validateSubmit_def bad_data_def wbind_def wret_def w1_def not_less)
  moreover have "sw_ctx w1 = sw_ctx w" by (simp add: w1_def)
  ultimately have "HandleSubmit env event solo w =
    (Ret (fst (ReplyStaleShare (sw_ctx w) (ev_Id event))),
     w\<lparr>prom_log := prom_log w @ (cs @ cs'), sw_ctx := snd (ReplyStaleShare (sw_ctx w) (ev_Id event))\<rparr>)"
    using cs' by (simp add: HandleSubmit_def wbind_def record_ctx_def reply_with_def w1_def)
  then show ?thesis by blast
qed

lemma parse_submit_params:
  "parse_submit lib event ms = Some si \<Longrightarrow> 4 \<le> length (ev_Params event) \<and>
   (\<exists>j. param_str event 1 = Some j \<and> ParseInt10 j = Some (si_jobId si))"
  by (auto simp: parse_submit_def bind_eq_Some_conv split: if_splits)


subsection \<open>Examples\<close>

text \<open>
  A library whose hashes are all zero, a block of version 5 with a target of 2000, a synced node
  and a connection with one job: every submitted nonce is a solution.
\<close>

definition zero_lib :: node_lib where
  "zero_lib = sample_lib\<lparr>Blake3Hash := (\<lambda>m. replicate 32 0), RPCBlockToDomainBlock := (\<lambda>b p. Inr
     \<lparr>db_Header = sample_domain_header\<lparr>dh_Version := 5, dh_Bits := 2000\<rparr>, db_Transactions = [], db_PoWHash = []\<rparr>)\<rparr>"

definition sample_rpc_header :: rpc_header where
  "sample_rpc_header =
     \<lparr>h_Version = 5, h_Parents = [], h_HashMerkleRoot = [], h_AcceptedIDMerkleRoot = [], h_UTXOCommitment = [],
      h_Timestamp = 0, h_Bits = 2000, h_Nonce = 0, h_DAAScore = 0, h_BlueScore = 100, h_BlueWork = [],
      h_PruningPoint = []\<rparr>"

definition sample_block :: rpc_block where
  "sample_block = \<lparr>b_Header = sample_rpc_header, b_Transactions = [], b_VerboseData = None\<rparr>"

definition sample_env :: node_env where
  "sample_env =
     \<lparr>env_now = 600000000000, env_lib = zero_lib, env_gm = sample_math, env_accepts = (\<lambda>c. True),
      env_GetInfo = Inr (Some True), env_SubmitBlock = (\<lambda>b p. None)\<rparr>"

definition sample_diff :: hoosatDiff where
  "sample_diff = \<lparr>hashValue = Fin 4, diffValue = Fin 1, targetValue = Some 5000\<rparr>"

definition sample_world :: share_world where
  "sample_world =
     \<lparr>prom_log = [], sw_ctx = (open_context (\<lambda>n. WriteOk))\<lparr>State :=
        (snd (AddJob (MiningStateGenerator 0) (Some sample_block) False))\<lparr>stratumDiff := Some sample_diff\<rparr>\<rparr>,
      sw_sh = newShareHandler True True None\<rparr>"

definition sample_submission :: json_rpc_event where
  "sample_submission = NewEvent ''1'' ''mining.submit'' [JStr ''miner'', JStr ''1'', JStr ''0x2a'', JStr ''0x00'']"

definition sample_si :: submit_info where
  "sample_si = \<lparr>si_jobId = 1, si_block = Some sample_block, si_noncestr = ''2a'', si_nonceVal = 42, si_powHash = replicate 32 0\<rparr>"

lemma sample_parse: "parse_submit (env_lib sample_env) sample_submission (State (sw_ctx sample_world)) = Some sample_si"
  by (simp add: parse_submit_def sample_submission_def sample_si_def NewEvent_def param_str_def ParseInt10_def
      GetJob_def sample_world_def Jobs_AddJob MiningStateGenerator_def go_rem_def maxjobs_def wrap64_def
      sample_env_def zero_lib_def sample_lib_def sample_digest_def replace_first_def hasPrefix_def ParseUint_def
      digit_val_def Let_def)

lemma sample_accepts: "accepts_ok (env_accepts sample_env)"
  by (simp add: accepts_ok_def sample_env_def)

lemma sample_labels: "labels_ok (sw_ctx sample_world)"
  by (simp add: labels_ok_def labels_utf8_def sample_world_def open_context_def ascii_utf8)

lemma sample_ok: "share_ok sample_world"
  by (auto simp: share_ok_def sample_labels)
    (auto simp: sample_world_def difficulty_set_def blocks_present_def sample_diff_def Jobs_AddJob
      MiningStateGenerator_def sample_block_def split: if_splits)

lemma zero_pow:
  assumes "5 \<le> dh_Version header"
  shows "\<exists>ps h. NewState zero_lib gm header = Some ps \<and> Target ps = uint (dh_Bits header) \<and>
    CalculateProofOfWorkValue zero_lib gm ps = Some (toBig (replicate 32 0), h)"
proof -
  obtain ps where ps: "NewState zero_lib gm header = Some ps" "BlockVersion ps = dh_Version header"
    "floatMat ps = GenerateHoohashMatrixV110 (pre_pow_hash zero_lib header)"
    using NewState_v5 [OF assms] by auto
  have t: "Target ps = uint (dh_Bits header)"
    using ps(1) assms by (auto simp: NewState_def Let_def zero_lib_def sample_lib_def split: if_splits)
  obtain h where h: "HoohashMatrixMultiplicationV110 zero_lib gm (floatMat ps) (Blake3Hash zero_lib (pow_message zero_lib ps)) (Nonce ps) = Some h"
    using v110_total unfolding ps(3) by blast
  then have "h = replicate 32 0" using v110_digest [OF h] by (auto simp: zero_lib_def)
  then have "CalculateProofOfWorkValue zero_lib gm ps = Some (toBig (replicate 32 0), h)"
    using pow_v5 [of ps] assms ps(2) h by (simp add: CalculateProofOfWorkValueHoohashV110_def pow_value_def)
  then show ?thesis using ps(1) t by blast
qed

lemma get_le_zeros: "get_le (replicate n 0) = 0"
  by (induction n) simp_all

lemma toBig_zeros: "toBig (replicate n 0) = 0"
  by (simp add: toBig_le get_le_zeros)

lemma sample_solution:
  obtains conv ps h where "si_block sample_si = Some sample_block" "node_synced sample_env"
    "unat (sh_tipBlueScore (sw_sh sample_world)) \<le> unat (h_BlueScore (b_Header sample_block)) + 8"
    "RPCBlockToDomainBlock (env_lib sample_env) sample_block (HashString (env_lib sample_env) (si_powHash sample_si)) = Inr conv"
    "NewState (env_lib sample_env) (env_gm sample_env) (db_Header (with_nonce conv (si_nonceVal sample_si))) = Some ps"
    "CalculateProofOfWorkValue (env_lib sample_env) (env_gm sample_env) ps = Some (toBig (si_powHash sample_si), h)"
    "toBig (si_powHash sample_si) \<le> Target ps"
proof -
  define conv where "conv = \<lparr>db_Header = sample_domain_header\<lparr>dh_Version := 5, dh_Bits := 2000\<rparr>,
    db_Transactions = [], db_PoWHash = []\<rparr>"
  define hd where "hd = db_Header (with_nonce conv (si_nonceVal sample_si))"
  have hdr: "5 \<le> dh_Version hd" "dh_Bits hd = 2000" by (simp_all add: hd_def with_nonce_def conv_def)
  obtain ps h where ps: "NewState zero_lib sample_math hd = Some ps" "Target ps = uint (dh_Bits hd)"
    "CalculateProofOfWorkValue zero_lib sample_math ps = Some (toBig (replicate 32 0), h)"
    using zero_pow [OF hdr(1)] by blast
  show thesis
    by (rule that [of conv ps h]) (use ps hdr in \<open>simp_all add: sample_si_def sample_env_def node_synced_def
      sample_world_def newShareHandler_def zero_lib_def conv_def hd_def toBig_zeros\<close>)
qed

lemma sample_no_submissions: "sh_submitted (sw_sh sample_world) = []"
  by (simp add: sample_world_def newShareHandler_def)

theorem proven_block_submitted_witness:
  "\<exists>blk. sh_submitted (sw_sh (snd (HandleSubmit sample_env sample_submission False sample_world))) = [blk]"
  by (rule sample_solution)
    (drule (6) proven_block_submitted [OF sample_parse _ sample_accepts sample_labels], auto simp: sample_no_submissions)

lemma sample_submitted:
  "\<exists>blk. sh_submitted (sw_sh (snd (HandleSubmit sample_env sample_submission False sample_world))) = [blk]"
  by (rule sample_solution)
    (drule (6) proven_submitted [OF sample_parse _ sample_accepts sample_labels], auto simp: sample_no_submissions)

theorem HandleSubmit_never_panics_witness:
  "share_ok (snd (HandleSubmit sample_env sample_submission False sample_world)) \<and>
   (\<forall>e. fst (HandleSubmit sample_env sample_submission False sample_world) \<noteq> Panic e)"
  by (rule HandleSubmit_never_panics)
    (simp_all add: sample_accepts sample_ok, simp add: sample_env_def zero_lib_def sample_lib_def)

theorem checkStales_window_witness:
  "\<exists>r w'. checkStales sample_env sample_si sample_world = (Ret r, w') \<and> r = None \<and> sh_tipBlueScore (sw_sh w') = 100"
  using checkStales_window [of sample_si sample_block sample_env sample_world] sample_accepts sample_labels
  by (auto simp: sample_si_def sample_world_def newShareHandler_def sample_block_def sample_rpc_header_def max_def)


end
