(* ===== verification/Share_Counts.thy ===== *)
theory Share_Counts
  imports Share_Laws
begin

text \<open>
  How the share handler counts: the counters of the worker and of the whole bridge that a
  submission changes, the statistics kept per worker, and the difficulty floor of a client.
\<close>

subsection \<open>Counters\<close>

text \<open>Valid, stale and invalid shares, and blocks.\<close>

type_synonym share_counts = "int \<times> int \<times> int \<times> int"

definition counts :: "work_stats \<Rightarrow> share_counts" where
  "counts st = (SharesFound st, StaleShares st, InvalidShares st, BlocksFound st)"

datatype verdict = Uncounted | Accepted | Stale | Invalid

fun tally :: "verdict \<Rightarrow> share_counts \<Rightarrow> share_counts" where
  "tally Uncounted c = c"
| "tally Accepted (f, s, i, b) = (wrap64 (f + 1), s, i, wrap64 (b + 1))"
| "tally Stale (f, s, i, b) = (f, wrap64 (s + 1), i, b)"
| "tally Invalid (f, s, i, b) = (f, s, wrap64 (i + 1), b)"

definition worker_counts :: "share_handler \<Rightarrow> string \<Rightarrow> share_counts" where
  "worker_counts sh key = (case sh_stats sh key of None \<Rightarrow> (0, 0, 0, 0) | Some st \<Rightarrow> counts st)"

text \<open>A step that counts the worker's share as one verdict and the bridge's as another.\<close>

definition counted :: "string \<Rightarrow> verdict \<Rightarrow> verdict \<Rightarrow> 's share_world_scheme \<Rightarrow> 's share_world_scheme \<Rightarrow> bool" where
  "counted key v vo w w' \<longleftrightarrow>
     worker_counts (sw_sh w') key = tally v (worker_counts (sw_sh w) key) \<and>
     counts (sh_overall (sw_sh w')) = tally vo (counts (sh_overall (sw_sh w))) \<and>
     (sh_stats (sw_sh w) key \<noteq> None \<longrightarrow> sh_stats (sw_sh w') key \<noteq> None) \<and>
     stats_key (sw_ctx w') = stats_key (sw_ctx w)"

lemma stats_key_io: "same_but_io c c' \<Longrightarrow> stats_key c' = stats_key c"
  by (simp add: stats_key_def same_but_ioD)

lemma counts_new_stats [simp]: "counts (new_stats n c) = (0, 0, 0, 0)"
  by (simp add: counts_def new_stats_def empty_stats_def)

interpretation tally: share_frame "counted key Uncounted Uncounted"
  by unfold_locales (auto simp: counted_def worker_counts_def stats_key_io)

lemma counted_after: "counted key v vo w w1 \<Longrightarrow> counted key Uncounted Uncounted w1 w' \<Longrightarrow> counted key v vo w w'"
  by (simp add: counted_def)

lemma counted_before: "counted key Uncounted Uncounted w w1 \<Longrightarrow> counted key v vo w1 w' \<Longrightarrow> counted key v vo w w'"
  by (simp add: counted_def)

lemma rolling_counts [simp]: "counts (updateRollingCounters now d a b st) = counts st"
  by (simp add: counts_def updateRollingCounters_def Let_def)

text \<open>An update of the worker's and of the bridge's counters.\<close>

lemma reject_counted:
  assumes "reject key f g metric answer i w = (Ret r, w')" "sh_stats (sw_sh w) key \<noteq> None"
    "\<And>st. counts (f st) = tally v (counts st)" "\<And>st. counts (g st) = tally vo (counts st)"
    "\<And>c. keeps (counted key Uncounted Uncounted) (metric c)" "\<And>c i. same_but_io c (snd (answer c i))"
  shows "counted key v vo w w'"
proof -
  define w1 where "w1 = w\<lparr>sw_sh := (sw_sh w)\<lparr>sh_stats := (sh_stats (sw_sh w))(key := map_option f (sh_stats (sw_sh w) key)),
    sh_overall := g (sh_overall (sw_sh w))\<rparr>\<rparr>"
  have "wbind (record_ctx metric) (\<lambda>_. reply_with answer i) w1 = (Ret r, w')"
    using assms(1) by (simp add: reject_def upd_stats_def upd_overall_def upd_sh_def w1_def)
  moreover have "keeps (counted key Uncounted Uncounted) (wbind (record_ctx metric) (\<lambda>_. reply_with answer i))"
    using assms(5,6) by (intro tally.keeps_wbind tally.ctx_record tally.reply)
  ultimately have "counted key Uncounted Uncounted w1 w'" by (rule keeps_Ret [rotated])
  moreover have "counted key v vo w w1"
    using assms(2-4) by (auto simp: counted_def worker_counts_def w1_def)
  ultimately show ?thesis by (rule counted_after [rotated])
qed

lemma inc_counts [simp]:
  "counts (inc_found st) = (case counts st of (f, s, i, b) \<Rightarrow> (wrap64 (f + 1), s, i, b))"
  "counts (inc_blocks st) = (case counts st of (f, s, i, b) \<Rightarrow> (f, s, i, wrap64 (b + 1)))"
  "counts (inc_stale st) = tally Stale (counts st)" "counts (inc_invalid st) = tally Invalid (counts st)"
  "counts (rolling_stale now st) = counts st" "counts (rolling_invalid now st) = counts st"
  by (simp_all add: inc_found_def inc_blocks_def inc_stale_def inc_invalid_def rolling_stale_def rolling_invalid_def)
    (simp_all add: counts_def)

lemma accept_share_counted:
  assumes "accept_share env key i b c w = (Ret r, w')" "sh_stats (sw_sh w) key \<noteq> None"
  shows "counted key Accepted Accepted w w'"
proof -
  obtain st where st: "sh_stats (sw_sh w) key = Some st" using assms(2) by blast
  obtain d where d: "stratumDiff (State (sw_ctx w)) = Some d"
    using assms(1) by (cases "stratumDiff (State (sw_ctx w))")
      (auto simp: accept_share_def upd_stats_def upd_sh_def wbind_def hash_value_def wpanic_def wmodify_def)
  define hv where "hv = hashValue d"
  define g where "g = updateRollingCounters (env_now env) hv False False"
  define st1 where "st1 = g ((inc_found st)\<lparr>SharesDiff := f64_add (SharesDiff (inc_found st)) hv, LastShare := Some (env_now env)\<rparr>)"
  define w1 where "w1 = w\<lparr>sw_sh := (sw_sh w)\<lparr>sh_stats := (sh_stats (sw_sh w))(key \<mapsto> st1),
    sh_overall := g (inc_found (sh_overall (sw_sh w)))\<rparr>\<rparr>"
  define hash where "hash = HashString (env_lib env) (BlockHash (env_lib env) c)"
  let ?tail = "wbind (record_ctx (\<lambda>x. RecordBlockFound (env_accepts env) x (dh_Nonce (db_Header c)) (dh_BlueScore (db_Header c)) hash)) (\<lambda>_.
    wbind (persist env key b hash) (\<lambda>_. wbind (reply_with ReplySuccess i) (\<lambda>_. wret None)))"
  have "wbind (record_ctx (\<lambda>x. RecordShareFound (env_accepts env) x hv)) (\<lambda>_.
      wbind (upd_stats key inc_blocks) (\<lambda>_. wbind (upd_overall inc_blocks) (\<lambda>_. ?tail))) w1 = (Ret r, w')"
    using assms(1) st d
    by (simp add: accept_share_def Let_def upd_stats_def upd_overall_def upd_sh_def hash_value_def wbind_Ret wret_def
        w1_def st1_def g_def hv_def hash_def wbind_def [of hash_value])
  then obtain w2 where r2: "record_ctx (\<lambda>x. RecordShareFound (env_accepts env) x hv) w1 = (Ret (), w2)"
    and t: "wbind (upd_stats key inc_blocks) (\<lambda>_. wbind (upd_overall inc_blocks) (\<lambda>_. ?tail)) w2 = (Ret r, w')"
    using wbind_RetD by fastforce
  have w2: "counted key Uncounted Uncounted w1 w2"
  proof -
    have "keeps (counted key Uncounted Uncounted) (record_ctx (\<lambda>x. RecordShareFound (env_accepts env) x hv)
      :: ('a share_world_scheme, unit) handler)" by (intro keeps_frame)
    then show ?thesis using r2 by (rule keeps_Ret)
  qed
  define w3 where "w3 = w2\<lparr>sw_sh := (sw_sh w2)\<lparr>sh_stats := (sh_stats (sw_sh w2))(key := map_option inc_blocks (sh_stats (sw_sh w2) key)),
    sh_overall := inc_blocks (sh_overall (sw_sh w2))\<rparr>\<rparr>"
  have "?tail w3 = (Ret r, w')" using t by (simp add: upd_stats_def upd_overall_def upd_sh_def w3_def)
  then have "counted key Uncounted Uncounted w3 w'" by (rule keeps_Ret [rotated]) (intro keeps_frame)
  moreover have "counted key Accepted Accepted w w3"
  proof -
    have "counts st1 = counts (inc_found st)" "\<And>x. counts (g x) = counts x"
      by (simp_all add: st1_def g_def) (simp add: counts_def inc_found_def)
    then have "worker_counts (sw_sh w1) key = counts (inc_found st)" "sh_stats (sw_sh w1) key \<noteq> None"
      "counts (sh_overall (sw_sh w1)) = counts (inc_found (sh_overall (sw_sh w)))" "stats_key (sw_ctx w1) = stats_key (sw_ctx w)"
      by (simp_all add: w1_def worker_counts_def)
    then show ?thesis using w2 st
      by (cases "counts st"; cases "counts (sh_overall (sw_sh w))")
        (auto simp: counted_def w3_def worker_counts_def split: prod.splits option.splits)
  qed
  ultimately show ?thesis by (rule counted_after [rotated])
qed

text \<open>The pairs of verdicts that occur: a block the node finds invalid is stale for the worker.\<close>

definition verdicts_agree :: "verdict \<Rightarrow> verdict \<Rightarrow> bool" where
  "verdicts_agree v vo \<longleftrightarrow> v = vo \<or> v = Stale \<and> vo = Invalid"

definition counted_ok :: "string \<Rightarrow> 's share_world_scheme \<Rightarrow> 's share_world_scheme \<Rightarrow> bool" where
  "counted_ok key w w' \<longleftrightarrow> (\<exists>v vo. verdicts_agree v vo \<and> counted key v vo w w')"

lemma counted_okI: "counted key v v w w' \<Longrightarrow> counted_ok key w w'" "counted key Stale Invalid w w' \<Longrightarrow> counted_ok key w w'"
  by (auto simp: counted_ok_def verdicts_agree_def)

lemma counted_ok_before: "counted key Uncounted Uncounted w w1 \<Longrightarrow> counted_ok key w1 w' \<Longrightarrow> counted_ok key w w'"
  by (auto simp: counted_ok_def intro: counted_before)

lemma reject_invalid_counted:
  assumes "reject_invalid env key i metric answer w = (Ret r, w')" "sh_stats (sw_sh w) key \<noteq> None"
    "\<And>c. keeps (counted key Uncounted Uncounted) (metric c)" "\<And>c i. same_but_io c (snd (answer c i))"
  shows "counted key Invalid Invalid w w'"
  using assms(1) unfolding reject_invalid_def
  by (rule reject_counted) (use assms(2-4) in simp_all)

lemma rejected_block_counted:
  assumes "rejected_block env key i e w = (Ret r, w')" "sh_stats (sw_sh w) key \<noteq> None"
  shows "counted_ok key w w'"
proof -
  consider "reject key inc_stale inc_stale (RecordDupeShare (env_accepts env)) ReplyDupeShare i w = (Ret r, w')"
    | "reject key (rolling_stale (env_now env) \<circ> inc_stale) (rolling_invalid (env_now env) \<circ> inc_invalid)
        (RecordInvalidShare (env_accepts env)) ReplyIncorrectPow i w = (Ret r, w')"
    | "reject_invalid env key i (RecordInvalidShare (env_accepts env)) ReplyBadShare w = (Ret r, w')"
    using assms(1) by (auto simp: rejected_block_def split: if_splits)
  then show ?thesis
  proof cases
    case 1
    then have "counted key Stale Stale w w'"
      by (rule reject_counted) (simp_all add: assms(2) tally.records replies_io)
    then show ?thesis by (rule counted_okI)
  next
    case 2
    then have "counted key Stale Invalid w w'"
      by (rule reject_counted) (simp_all add: assms(2) tally.records replies_io)
    then show ?thesis by (rule counted_okI)
  next
    case 3
    then have "counted key Invalid Invalid w w'"
      by (rule reject_invalid_counted) (simp_all add: assms(2) tally.records replies_io)
    then show ?thesis by (rule counted_okI)
  qed
qed

lemma submit_counted: "counted key Uncounted Uncounted w (snd (submit env block si w))"
  by (simp add: submit_def Let_def upd_sh_def upd_ctx_def wret_def counted_def worker_counts_def stats_key_def)

lemma judge_share_counted:
  assumes "judge_share env si key i b c target num w = (Ret r, w')" "sh_stats (sw_sh w) key \<noteq> None"
  shows "counted_ok key w w'"
proof (cases "toBig (si_powHash si) = num \<and> num \<le> target")
  case True
  then have "wbind (submit env c si) (\<lambda>err. case err of Some e \<Rightarrow> rejected_block env key i e
      | None \<Rightarrow> accept_share env key i b c) w = (Ret r, w')" using assms(1) by (simp add: judge_share_def)
  then obtain err w1 where w1: "submit env c si w = (Ret err, w1)"
    and k: "(case err of Some e \<Rightarrow> rejected_block env key i e | None \<Rightarrow> accept_share env key i b c) w1 = (Ret r, w')"
    by (blast dest: wbind_RetD)
  have c1: "counted key Uncounted Uncounted w w1" using submit_counted [of key w env c si] w1 by simp
  then have e: "sh_stats (sw_sh w1) key \<noteq> None" using assms(2) by (simp add: counted_def)
  have "counted_ok key w1 w'"
  proof (cases err)
    case None
    then show ?thesis using k accept_share_counted [of env key i b c w1 r w'] e by (auto intro: counted_okI)
  next
    case (Some x)
    then show ?thesis using k rejected_block_counted [of env key i x w1 r w'] e by simp
  qed
  with c1 show ?thesis by (rule counted_ok_before)
next
  case False
  then consider "reject_invalid env key i (RecordWeakShare (env_accepts env)) ReplyLowDiffShare w = (Ret r, w')"
    | "reject_invalid env key i (RecordInvalidShare (env_accepts env)) ReplyIncorrectPow w = (Ret r, w')"
    | "accept_share env key i b c w = (Ret r, w')"
    using assms(1) by (auto simp: judge_share_def wpanic_def split: if_splits option.splits)
  then show ?thesis
  proof cases
    case 1
    then have "counted key Invalid Invalid w w'"
      by (rule reject_invalid_counted) (simp_all add: assms(2) tally.records replies_io)
    then show ?thesis by (rule counted_okI)
  next
    case 2
    then have "counted key Invalid Invalid w w'"
      by (rule reject_invalid_counted) (simp_all add: assms(2) tally.records replies_io)
    then show ?thesis by (rule counted_okI)
  next
    case 3
    then show ?thesis using accept_share_counted assms(2) by (blast intro: counted_okI)
  qed
qed

lemma check_work_counted:
  assumes "check_work env si key i b w = (Ret r, w')" "sh_stats (sw_sh w) key \<noteq> None"
  shows "counted_ok key w w'"
proof (cases "RPCBlockToDomainBlock (env_lib env) b (HashString (env_lib env) (si_powHash si))")
  case (Inl e)
  then have "wbind (record_ctx (RecordInvalidShare (env_accepts env))) (\<lambda>_. reply_with ReplyIncorrectData i) w = (Ret r, w')"
    using assms by (simp add: check_work_def)
  from keeps_Ret [OF tally.answers(1) this] show ?thesis by (rule counted_okI)
next
  case (Inr conv)
  then obtain ps :: pow_state and num where "judge_share env si key i b (with_nonce conv (si_nonceVal si)) (Target ps) num w = (Ret r, w')"
    using assms(1) by (auto simp: check_work_def Let_def whang_def split: option.splits)
  then show ?thesis using assms(2) by (rule judge_share_counted)
qed

lemma reject_stale_counted:
  assumes "reject_stale env si key i e w = (Ret r, w')" "sh_stats (sw_sh w) key \<noteq> None"
  shows "counted_ok key w w'"
proof -
  define w1 where "w1 = w\<lparr>sw_ctx := (sw_ctx w)\<lparr>State := RemoveJob (State (sw_ctx w)) (si_jobId si)\<rparr>\<rparr>"
  have c1: "counted key Uncounted Uncounted w w1" by (simp add: w1_def counted_def stats_key_def)
  consider "reject key (rolling_stale (env_now env) \<circ> inc_stale) (rolling_stale (env_now env) \<circ> inc_stale)
        (RecordStaleShare (env_accepts env)) ReplyStaleShare i w1 = (Ret r, w')"
    | "wbind (record_ctx (RecordInvalidShare (env_accepts env))) (\<lambda>_. reply_with ReplyBadShare i) w1 = (Ret r, w')"
    using assms(1) by (auto simp: reject_stale_def upd_ctx_def w1_def split: if_splits)
  then have "counted_ok key w1 w'"
  proof cases
    case 1
    then have "counted key Stale Stale w1 w'"
      by (rule reject_counted) (use assms(2) in \<open>simp_all add: w1_def tally.records replies_io\<close>)
    then show ?thesis by (rule counted_okI)
  next
    case 2
    from keeps_Ret [OF tally.answers(2) this] show ?thesis by (rule counted_okI)
  qed
  with c1 show ?thesis by (rule counted_ok_before)
qed

lemma getCreateStats_key:
  assumes "getCreateStats env w = (Ret key, w1)"
  shows "key = stats_key (sw_ctx w)" "sh_stats (sw_sh w1) key \<noteq> None"
proof -
  have "key = stats_key (sw_ctx w) \<and> sh_stats (sw_sh w1) key \<noteq> None"
  proof (cases "sh_stats (sw_sh w) (stats_key (sw_ctx w))")
    case None
    define w2 where "w2 = w\<lparr>sw_sh := (sw_sh w)\<lparr>sh_stats := (sh_stats (sw_sh w))(stats_key (sw_ctx w) \<mapsto> new_stats (env_now env) (sw_ctx w))\<rparr>\<rparr>"
    have "wbind (record_ctx (InitWorkerCounters (env_accepts env))) (\<lambda>_. wret (stats_key (sw_ctx w))) w2 = (Ret key, w1)"
      using assms None by (simp add: getCreateStats_def Let_def upd_sh_def w2_def)
    then obtain u where u: "record_ctx (InitWorkerCounters (env_accepts env)) w2 = (Ret (), u)" "key = stats_key (sw_ctx w)" "w1 = u"
      using wbind_RetD by (fastforce simp: wret_def)
    have "sh_stats (sw_sh w2) (stats_key (sw_ctx w)) \<noteq> None" by (simp add: w2_def)
    moreover have "counted (stats_key (sw_ctx w)) Uncounted Uncounted w2 u"
    proof -
      have "keeps (counted (stats_key (sw_ctx w)) Uncounted Uncounted) (record_ctx (InitWorkerCounters (env_accepts env))
        :: ('a share_world_scheme, unit) handler)" by (intro keeps_frame)
      then show ?thesis using u(1) by (rule keeps_Ret)
    qed
    ultimately show ?thesis using u(2,3) by (auto simp: counted_def)
  qed (use assms in \<open>auto simp: getCreateStats_def wret_def\<close>)
  then show "key = stats_key (sw_ctx w)" "sh_stats (sw_sh w1) key \<noteq> None" by blast+
qed

lemma check_share_counted:
  assumes "check_share env si i w = (Ret r, w')"
  shows "counted_ok (stats_key (sw_ctx w)) w w'"
proof -
  obtain key w1 err w2 where g: "getCreateStats env w = (Ret key, w1)" and c: "checkStales env si w1 = (Ret err, w2)"
    and k: "(case err of Some e \<Rightarrow> reject_stale env si key i e
      | None \<Rightarrow> (case si_block si of None \<Rightarrow> wpanic ''nil pointer dereference''
        | Some b \<Rightarrow> check_work env si key i b)) w2 = (Ret r, w')"
    using assms unfolding check_share_def by (blast dest: wbind_RetD)
  note key = getCreateStats_key [OF g]
  have c2: "counted key Uncounted Uncounted w w2"
    using tally.frame_trans [OF keeps_Ret [OF tally.stats g] keeps_Ret [OF tally.stale_check c]] .
  have e: "sh_stats (sw_sh w2) key \<noteq> None"
    using keeps_Ret [OF tally.stale_check c, of key] key(2) by (simp add: counted_def)
  have "counted_ok key w2 w'"
    using k e by (auto simp: wpanic_def split: option.splits intro: reject_stale_counted check_work_counted)
  from counted_ok_before [OF c2 this] key(1) show ?thesis by simp
qed



subsection \<open>Variable difficulty of a client\<close>

definition vardiff_floor :: f64 where
  "vardiff_floor = f64_round False (1 / 100000)"

lemma vardiff_floor_pos: "\<exists>r > 0. vardiff_floor = Fin r"
proof -
  have "pow2 (- 1022) \<le> pow2 (- 17)" by (rule pow2_mono) simp
  also have "pow2 (- 17) \<le> 1 / 100000" by (simp add: pow2_def)
  finally have lo: "pow2 (- 1022) \<le> 1 / 100000" .
  have "(1 :: rat) / 100000 \<le> pow2 0" by simp
  also have "pow2 0 \<le> pow2 1023" by (rule pow2_mono) simp
  finally have "vardiff_floor = Fin (bf_round 53 (1 / 100000))"
    using lo unfolding vardiff_floor_def by (intro f64_round_normal)
  moreover have "0 < bf_round 53 (1 / 100000)" by (rule bf_round_pos) simp_all
  ultimately show ?thesis by blast
qed

lemma f64_max_floor: "\<not> f64_lt (f64_max d vardiff_floor) vardiff_floor"
proof -
  obtain r where r: "0 < r" "vardiff_floor = Fin r" using vardiff_floor_pos by blast
  show ?thesis unfolding r(2) using r(1) by (cases d) (auto simp: f64_max_def)
qed

text \<open>
  Setting a client's difficulty and reading it back: the minimum difficulty is the requested
  one raised to the floor of 0.00001, the tracker restarts in its first window, and the
  previous difficulty is returned; reading it changes nothing.
\<close>

theorem client_vardiff_roundtrip:
  assumes "accepts_ok (env_accepts env)" "labels_ok (sw_ctx w)"
  shows "\<exists>w' st. setClientVardiff env d w =
      (Ret (case sh_stats (sw_sh w) (stats_key (sw_ctx w)) of None \<Rightarrow> Fin 0 | Some s \<Rightarrow> MinDiff s), w') \<and>
    sh_stats (sw_sh w') (stats_key (sw_ctx w')) = Some st \<and> MinDiff st = f64_max d vardiff_floor \<and>
    VarDiffWindow st = 0 \<and> VarDiffSharesFound st = 0 \<and> VarDiffStartTime st = Some (env_now env) \<and>
    \<not> f64_lt (MinDiff st) vardiff_floor \<and>
    getClientVardiff env' w' = (Ret (f64_max d vardiff_floor), w')"
proof -
  define key where "key = stats_key (sw_ctx w)"
  define st where "st = (case sh_stats (sw_sh w) key of None \<Rightarrow> new_stats (env_now env) (sw_ctx w) | Some st \<Rightarrow> st)"
  obtain log where "getCreateStats env w = (Ret (stats_key (sw_ctx w)), w\<lparr>
    sw_sh := (sw_sh w)\<lparr>sh_stats := (sh_stats (sw_sh w))(stats_key (sw_ctx w) \<mapsto>
      (case sh_stats (sw_sh w) (stats_key (sw_ctx w)) of None \<Rightarrow> new_stats (env_now env) (sw_ctx w) | Some st \<Rightarrow> st))\<rparr>,
    prom_log := log\<rparr>)"
    by (rule getCreateStats_effect [OF assms])
  then have g: "getCreateStats env w =
      (Ret key, w\<lparr>sw_sh := (sw_sh w)\<lparr>sh_stats := (sh_stats (sw_sh w))(key \<mapsto> st)\<rparr>, prom_log := log\<rparr>)"
    by (simp only: st_def key_def)
  define st' where "st' = startVarDiff (env_now env) (snd (updateVarDiff (f64_max d vardiff_floor) st))"
  define w' where "w' = w\<lparr>sw_sh := (sw_sh w)\<lparr>sh_stats := (sh_stats (sw_sh w))(key \<mapsto> st')\<rparr>, prom_log := log\<rparr>"
  have "setClientVardiff env d w = (Ret (MinDiff st), w')"
    by (simp add: setClientVardiff_def wbind_def g stats_field_def upd_stats_def upd_sh_def wmodify_def wret_def
        w'_def st'_def vardiff_floor_def)
  moreover have "MinDiff st = (case sh_stats (sw_sh w) key of None \<Rightarrow> Fin 0 | Some s \<Rightarrow> MinDiff s)"
    by (simp add: st_def new_stats_def empty_stats_def split: option.split)
  moreover have "sh_stats (sw_sh w') (stats_key (sw_ctx w')) = Some st'" by (simp add: w'_def key_def)
  moreover have "MinDiff st' = f64_max d vardiff_floor \<and> VarDiffWindow st' = 0 \<and> VarDiffSharesFound st' = 0 \<and>
    VarDiffStartTime st' = Some (env_now env)" by (simp add: st'_def startVarDiff_def updateVarDiff_def)
  moreover have "\<not> f64_lt (f64_max d vardiff_floor) vardiff_floor"
    by (rule f64_max_floor)
  moreover have "getClientVardiff env' w' = (Ret (f64_max d vardiff_floor), w')"
    using calculation(3,4) by (simp add: getClientVardiff_def getCreateStats_def wbind_def wret_def stats_field_def)
  ultimately show ?thesis unfolding key_def [symmetric] by (intro exI [of _ w'] exI [of _ st']) simp
qed

theorem client_vardiff_roundtrip_witness:
  "\<exists>w'. setClientVardiff sample_env (Fin 0) sample_world = (Ret (Fin 0), w') \<and>
     getClientVardiff sample_env w' = (Ret vardiff_floor, w')"
proof -
  obtain r where r: "0 < r" "vardiff_floor = Fin r" using vardiff_floor_pos by blast
  have "f64_max (Fin 0) vardiff_floor = vardiff_floor" unfolding r(2) using r(1) by (simp add: f64_max_def)
  then show ?thesis
    using client_vardiff_roundtrip [OF sample_accepts sample_labels, of "Fin 0" sample_env]
    by (auto simp: sample_world_def newShareHandler_def)
qed

end
