(* ===== verification/Pow_Arm.thy ===== *)
theory Pow_Arm
  imports Pow
begin

text \<open>
  The variant of the proof of work for aarch64 under Linux, \<open>src/pow/pow_aarch64_linux.go\<close>. It
  repeats the functions of \<open>src/pow/pow.go\<close> on a state of its own and can leave the newest
  multiplication to a C library, the parameter \<open>CHoohash\<close> of \<open>node_lib\<close>. The last theorem compares
  the two variants.
\<close>

text \<open>
  The state has a copy of the float matrix for the C library and the flag whether to use it; both
  are set for versions from 5 on. \<open>SetUseHoohashCLibrary\<close> ignores its argument: it turns the
  library off on other platforms and on here.
\<close>

record arm_state = pow_state +
  cMatrix :: "f64 list list"
  useCLibrary :: bool

definition arm_SetUseHoohashCLibrary :: "bool \<Rightarrow> bool" where
  "arm_SetUseHoohashCLibrary use = True"

definition arm_NewState :: "node_lib \<Rightarrow> go_math \<Rightarrow> bool \<Rightarrow> domain_header \<Rightarrow> arm_state option" where
  "arm_NewState lib gm UseHoohashCLibrary header =
     (let target = CompactToBig lib (dh_Bits header);
          prevHeader = pre_pow_hash lib header;
          mk = (\<lambda>m fm cm use. \<lparr>mat = m, floatMat = fm, Timestamp = dh_TimeInMilliseconds header,
                 Nonce = dh_Nonce header, Target = target, PrevHeader = prevHeader,
                 BlockVersion = dh_Version header, cMatrix = cm, useCLibrary = use\<rparr>);
          plain = (\<lambda>m. mk m zero_floatMatrix zero_floatMatrix False)
      in if dh_Version header = 1 then map_option plain (GenerateMatrix prevHeader)
         else if dh_Version header = 2 then map_option plain (GenerateHoohashMatrix gm prevHeader)
         else if dh_Version header = 3 \<or> dh_Version header = 4 then map_option plain (GenerateMatrix prevHeader)
         else if 5 \<le> dh_Version header
         then (let fm = GenerateHoohashMatrixV110 prevHeader
               in Some (mk zero_matrix fm (if UseHoohashCLibrary then fm else zero_floatMatrix) UseHoohashCLibrary))
         else map_option plain (GenerateMatrix prevHeader))"

definition arm_CalculateProofOfWorkValueHoohashV1 :: "node_lib \<Rightarrow> go_math \<Rightarrow> arm_state \<Rightarrow> (int \<times> bytes) option" where
  "arm_CalculateProofOfWorkValueHoohashV1 lib gm st =
     map_option pow_value (HoohashMatrixMultiplicationV1 lib gm (mat st) (Blake3Hash lib (pow_message lib st)))"

definition arm_CalculateProofOfWorkValueHoohashV101 :: "node_lib \<Rightarrow> go_math \<Rightarrow> arm_state \<Rightarrow> (int \<times> bytes) option" where
  "arm_CalculateProofOfWorkValueHoohashV101 lib gm st =
     map_option pow_value (HoohashMatrixMultiplicationV101 lib gm (mat st) (Blake3Hash lib (pow_message lib st)))"

definition arm_CalculateProofOfWorkValueHoohashV110 :: "node_lib \<Rightarrow> go_math \<Rightarrow> arm_state \<Rightarrow> (int \<times> bytes) option" where
  "arm_CalculateProofOfWorkValueHoohashV110 lib gm st =
     (let firstPass = Blake3Hash lib (pow_message lib st)
      in if useCLibrary st then Some (pow_value (CHoohash lib (cMatrix st) firstPass (Nonce st)))
         else map_option pow_value
           (HoohashMatrixMultiplicationV110 lib gm (floatMat st) firstPass (Nonce st)))"

definition arm_CalculateProofOfWorkValuePyrinhash :: "node_lib \<Rightarrow> arm_state \<Rightarrow> (int \<times> bytes) option" where
  "arm_CalculateProofOfWorkValuePyrinhash lib st =
     Some (pow_value (bHeavyHash lib (mat st) (PoWHash lib (pow_message lib st))))"

definition arm_CalculateProofOfWorkValue :: "node_lib \<Rightarrow> go_math \<Rightarrow> arm_state \<Rightarrow> (int \<times> bytes) option" where
  "arm_CalculateProofOfWorkValue lib gm st =
     (if BlockVersion st = 1 then arm_CalculateProofOfWorkValuePyrinhash lib st
      else if BlockVersion st = 2 then arm_CalculateProofOfWorkValueHoohashV1 lib gm st
      else if BlockVersion st = 3 \<or> BlockVersion st = 4 then arm_CalculateProofOfWorkValueHoohashV101 lib gm st
      else if 5 \<le> BlockVersion st then arm_CalculateProofOfWorkValueHoohashV110 lib gm st
      else arm_CalculateProofOfWorkValuePyrinhash lib st)"

definition arm_IncrementNonce :: "arm_state \<Rightarrow> arm_state" where
  "arm_IncrementNonce st = st\<lparr>Nonce := Nonce st + 1\<rparr>"

definition arm_toBig :: "bytes \<Rightarrow> int" where
  "arm_toBig hash = SetBytes (swap_ends hash)"

lemma arm_toBig: "arm_toBig = toBig"
  by (rule ext) (simp add: arm_toBig_def toBig_def)

definition arm_CheckProofOfWork :: "node_lib \<Rightarrow> go_math \<Rightarrow> arm_state \<Rightarrow> domain_block \<Rightarrow> bool \<Rightarrow> bool option" where
  "arm_CheckProofOfWork lib gm st block powSkip =
     (case arm_CalculateProofOfWorkValue lib gm st of
        None \<Rightarrow> None
      | Some (powNum, _) \<Rightarrow> Some
          (if BlockVersion st < PoWIntegrityMinVersion lib then powNum \<le> Target st
           else if powSkip \<and> PoWIntegrityMinVersion lib \<le> BlockVersion st then powNum \<le> Target st
           else if PoWIntegrityMinVersion lib \<le> BlockVersion st
           then (case NewDomainHashFromString lib (db_PoWHash block) of
                   Inl err \<Rightarrow> False
                 | Inr powHash \<Rightarrow>
                     if powHash \<noteq> replicate 32 0
                     then (if arm_toBig powHash = powNum then powNum \<le> Target st else False)
                     else False)
           else False))"

definition arm_CheckProofOfWorkByBits ::
  "node_lib \<Rightarrow> go_math \<Rightarrow> bool \<Rightarrow> domain_header \<Rightarrow> domain_block \<Rightarrow> bool \<Rightarrow> bool option" where
  "arm_CheckProofOfWorkByBits lib gm UseHoohashCLibrary header block powSkip =
     (case arm_NewState lib gm UseHoohashCLibrary header of
        None \<Rightarrow> None
      | Some st \<Rightarrow> arm_CheckProofOfWork lib gm st block powSkip)"

definition arm_BlockLevel :: "node_lib \<Rightarrow> go_math \<Rightarrow> bool \<Rightarrow> domain_header \<Rightarrow> int \<Rightarrow> int option" where
  "arm_BlockLevel lib gm UseHoohashCLibrary header maxBlockLevel =
     (if dh_DirectParents header = [] then Some maxBlockLevel
      else case arm_NewState lib gm UseHoohashCLibrary header of
             None \<Rightarrow> None
           | Some st \<Rightarrow>
               (case arm_CalculateProofOfWorkValue lib gm st of
                  None \<Rightarrow> None
                | Some (v, _) \<Rightarrow> Some (max (maxBlockLevel - int (BitLen v)) 0)))"

subsection \<open>Equivalence with the portable variant\<close>

lemma arm_NewState_truncate:
  "map_option pow_state.truncate (arm_NewState lib gm use header) = NewState lib gm header"
  by (simp add: arm_NewState_def NewState_def Let_def option.map_comp comp_def pow_state.defs)

text \<open>What the equivalence needs of a state: from version 5 on a state that uses the library has a copy of the matrix.\<close>

lemma arm_NewState_matrix:
  assumes "arm_NewState lib gm use header = Some st" "5 \<le> BlockVersion st"
  shows "floatMat st = GenerateHoohashMatrixV110 (pre_pow_hash lib header)" "useCLibrary st \<Longrightarrow> cMatrix st = floatMat st"
proof -
  have v: "dh_Version header = BlockVersion st"
    using assms(1) by (auto simp: arm_NewState_def Let_def split: if_splits)
  have "NewState lib gm header = Some (pow_state.truncate st)"
    using arm_NewState_truncate [of lib gm use header] assms(1) by simp
  then show "floatMat st = GenerateHoohashMatrixV110 (pre_pow_hash lib header)"
    using NewState_v5 [of header lib gm] assms(2) by (auto simp: v pow_state.defs)
  show "useCLibrary st \<Longrightarrow> cMatrix st = floatMat st"
    using assms(1) by (auto simp: arm_NewState_def Let_def split: if_splits)
qed

text \<open>What the equivalence asks of the C library.\<close>

definition c_library_agrees :: "node_lib \<Rightarrow> go_math \<Rightarrow> bool" where
  "c_library_agrees lib gm \<longleftrightarrow>
     (\<forall>seed h n. HoohashMatrixMultiplicationV110 lib gm (GenerateHoohashMatrixV110 seed) h n =
        Some (CHoohash lib (GenerateHoohashMatrixV110 seed) h n))"

lemma arm_message:
  "pow_message lib (pow_state.truncate st) = pow_message lib st" "mat (pow_state.truncate st) = mat st"
  "floatMat (pow_state.truncate st) = floatMat st" "Nonce (pow_state.truncate st) = Nonce st"
  "Target (pow_state.truncate st) = Target st" "BlockVersion (pow_state.truncate st) = BlockVersion st"
  by (simp_all add: pow_message_def pow_state.defs)

lemma arm_value:
  assumes "c_library_agrees lib gm" "arm_NewState lib gm use header = Some st"
  shows "arm_CalculateProofOfWorkValue lib gm st = CalculateProofOfWorkValue lib gm (pow_state.truncate st)"
proof -
  have "arm_CalculateProofOfWorkValueHoohashV110 lib gm st =
    CalculateProofOfWorkValueHoohashV110 lib gm (pow_state.truncate st)" if "5 \<le> BlockVersion st"
    using arm_NewState_matrix [OF assms(2) that] assms(1)
    by (auto simp: arm_CalculateProofOfWorkValueHoohashV110_def CalculateProofOfWorkValueHoohashV110_def Let_def
        arm_message c_library_agrees_def)
  then show ?thesis
    by (auto simp: arm_CalculateProofOfWorkValue_def CalculateProofOfWorkValue_def arm_message
        arm_CalculateProofOfWorkValueHoohashV1_def CalculateProofOfWorkValueHoohashV1_def
        arm_CalculateProofOfWorkValueHoohashV101_def CalculateProofOfWorkValueHoohashV101_def
        arm_CalculateProofOfWorkValuePyrinhash_def CalculateProofOfWorkValuePyrinhash_def)
qed


definition agreeing_lib :: node_lib where
  "agreeing_lib = sample_lib\<lparr>CHoohash := (\<lambda>m h n. the (HoohashMatrixMultiplicationV110 sample_lib sample_math m h n))\<rparr>"

lemma agreeing_lib_agrees: "c_library_agrees agreeing_lib sample_math"
proof -
  have e: "Blake3Hash agreeing_lib = Blake3Hash sample_lib" "Uint32Array agreeing_lib = Uint32Array sample_lib"
    by (simp_all add: agreeing_lib_def)
  have "HoohashMatrixMultiplicationV110 agreeing_lib sample_math = HoohashMatrixMultiplicationV110 sample_lib sample_math"
    by (intro ext) (simp only: HoohashMatrixMultiplicationV110_def e)
  then have "HoohashMatrixMultiplicationV110 agreeing_lib sample_math (GenerateHoohashMatrixV110 seed) h n =
    Some (CHoohash agreeing_lib (GenerateHoohashMatrixV110 seed) h n)" for seed h n
    using v110_total [of sample_lib sample_math seed h n] by (auto simp: agreeing_lib_def)
  then show ?thesis by (simp add: c_library_agrees_def)
qed


end
