(* ===== verification/Htn_Api.thy ===== *)
theory Htn_Api
  imports Share_Laws Bridge_Fee
begin

text \<open>
  The connection to the node (\<open>src/htnstratum/htnapi.go\<close>): requesting block templates with the
  diversion to the bridge's own address, the cache of templates per payout address, waiting for
  the node to sync, and the loops that refresh work and network statistics. What the node answers
  and what the clock shows are parameters (\<open>gbt_env\<close>). The cache is shared by the goroutines of
  all clients and its lock is not held during the request to the node, so its laws are proved for
  every interleaving of the goroutines' steps (\<open>gbt_step\<close>); a whole call of \<open>GetBlockTemplate\<close> is
  then a sequence of such steps.
\<close>

subsection \<open>State\<close>

text \<open>Of a template response the block it carries, which may be nil.\<close>

type_synonym gbt_template = "rpc_block option"

record gbt_cache_entry =
  ce_template :: gbt_template
  ce_isFeeJob :: bool
  ce_fetchedAt :: int

record bridge_fee_config =
  bf_Enabled :: bool
  bf_RatePpm :: int
  bf_Address :: string
  bf_ServerSalt :: string

text \<open>\<open>api_requests\<close> records the payout address and extra data of the requests sent to the node.\<close>

record htn_api =
  api_address :: string
  api_blockWaitTime :: int
  api_hoosat :: bool \<comment> \<open>whether the client is set\<close>
  api_connected :: bool
  api_bridgeFee :: bridge_fee_config
  api_jobCounter :: "64 word"
  api_gbtTotal :: "64 word"
  api_gbtDiverted :: "64 word"
  api_gbtCache :: "string \<rightharpoonup> gbt_cache_entry"
  api_gbtCacheTTL :: int
  api_gbtCacheHits :: "64 word"
  api_gbtCacheMisses :: "64 word"
  api_requests :: "(string \<times> string) list"

definition NewHoosatAPI ::
  "go_error option \<Rightarrow> string \<Rightarrow> int \<Rightarrow> bridge_fee_config \<Rightarrow> int \<Rightarrow> go_error + htn_api" where
  "NewHoosatAPI dial address blockWaitTime bridgeFee gbtCacheTTL =
     (case dial of
        Some e \<Rightarrow> Inl e
      | None \<Rightarrow> Inr \<lparr>api_address = address, api_blockWaitTime = blockWaitTime, api_hoosat = True,
          api_connected = True, api_bridgeFee = bridgeFee, api_jobCounter = 0, api_gbtTotal = 0,
          api_gbtDiverted = 0, api_gbtCache = Map.empty, api_gbtCacheTTL = gbtCacheTTL,
          api_gbtCacheHits = 0, api_gbtCacheMisses = 0, api_requests = []\<rparr>)"

record api_world = share_world +
  aw_api :: htn_api

text \<open>
  The answers of the node to one request, and the clock (in nanoseconds) when the job key is
  built, the cache is read, and an entry is stored.
\<close>

record gbt_env =
  ge_DAGInfo :: "go_error + string list" \<comment> \<open>\<open>TipHashes\<close>\<close>
  ge_GetBlockTemplate :: "string \<Rightarrow> string \<Rightarrow> go_error + gbt_template"
  ge_key_time :: int
  ge_check_time :: int
  ge_store_time :: int
  ge_accepts :: "prom_call \<Rightarrow> bool"

definition upd_api :: "(htn_api \<Rightarrow> htn_api) \<Rightarrow> ('s api_world_scheme, unit) handler" where
  "upd_api f = wmodify (\<lambda>w. w\<lparr>aw_api := f (aw_api w)\<rparr>)"

subsection \<open>The cache\<close>

definition cache_lookup :: "int \<Rightarrow> int \<Rightarrow> string \<Rightarrow> (string \<rightharpoonup> gbt_cache_entry) \<Rightarrow> gbt_template option" where
  "cache_lookup ttl now payoutAddress cache =
     (case cache payoutAddress of
        None \<Rightarrow> None
      | Some entry \<Rightarrow> if now - ce_fetchedAt entry < ttl then Some (ce_template entry) else None)"

definition cache_store :: "int \<Rightarrow> string \<Rightarrow> gbt_template \<Rightarrow> (string \<rightharpoonup> gbt_cache_entry) \<Rightarrow> (string \<rightharpoonup> gbt_cache_entry)" where
  "cache_store now payoutAddress template cache =
     cache(payoutAddress \<mapsto> \<lparr>ce_template = template, ce_isFeeJob = False, ce_fetchedAt = now\<rparr>)"

text \<open>One tick of the clean-up thread, which runs only when caching is enabled.\<close>

definition cache_cleanup :: "int \<Rightarrow> int \<Rightarrow> (string \<rightharpoonup> gbt_cache_entry) \<Rightarrow> (string \<rightharpoonup> gbt_cache_entry)" where
  "cache_cleanup ttl now cache =
     (\<lambda>addr. case cache addr of
        None \<Rightarrow> None
      | Some entry \<Rightarrow> if now - ce_fetchedAt entry \<ge> ttl then None else Some entry)"

definition startCacheCleanupThread :: "int \<Rightarrow> htn_api \<Rightarrow> htn_api" where
  "startCacheCleanupThread now api =
     (if api_gbtCacheTTL api = 0 then api
      else api\<lparr>api_gbtCache := cache_cleanup (api_gbtCacheTTL api) now (api_gbtCache api)\<rparr>)"

definition invalidateGBTCache :: "htn_api \<Rightarrow> htn_api" where
  "invalidateGBTCache api = (if api_gbtCacheTTL api = 0 then api else api\<lparr>api_gbtCache := Map.empty\<rparr>)"

subsection \<open>Requesting a template\<close>

definition worker_id_char :: "char \<Rightarrow> bool" where
  "worker_id_char c =
     (let n = byte_of c
      in 97 \<le> n \<and> n \<le> 122 \<or> 65 \<le> n \<and> n \<le> 90 \<or> 48 \<le> n \<and> n \<le> 57 \<or> n = 46 \<or> n = 95 \<or> n = 45)"

text \<open>Every rune outside the class is removed with all its bytes, none of which is in the class.\<close>

definition sanitizeWorkerID :: "string \<Rightarrow> string" where
  "sanitizeWorkerID s =
     (let s = trimSpace s
      in if s = [] then s
         else take 32 (filter worker_id_char (replace_char (CHR '' '') (CHR ''_'') s)))"

definition job_key :: "64 word \<Rightarrow> bytes \<Rightarrow> int \<Rightarrow> string \<Rightarrow> bytes" where
  "job_key jobCounterValue prevBlockHashBytes now workerID =
     be64 jobCounterValue @ prevBlockHashBytes @ be64 (word_of_int (now div 1000000000)) @ map of_char workerID"

definition version :: string where
  "version = ''v2.18.2-FozPool-1''"

definition dec_int :: "int \<Rightarrow> string" where
  "dec_int k = (if k < 0 then ''-'' @ dec_str (nat (- k)) else dec_str (nat k))"

definition extra_data :: "int \<Rightarrow> string \<Rightarrow> string \<Rightarrow> int \<Rightarrow> int \<Rightarrow> string" where
  "extra_data ttl payoutAddress workerName poll vote =
     (if poll \<noteq> 0 \<and> vote \<noteq> 0
      then ''Mined by '' @ payoutAddress @ '' via htn-stratum-bridge_'' @ version @ '' as worker '' @
        sanitizeWorkerID workerName @ '' poll '' @ dec_int poll @ '' vote '' @ dec_int vote
      else if 0 < ttl
      then ''Mined by '' @ payoutAddress @ '' via htn-stratum-bridge version '' @ version
      else ''Mined by '' @ payoutAddress @ '' via htn-stratum-bridge_'' @ version @ '' as worker '' @
        sanitizeWorkerID workerName)"

text \<open>The payout address and whether the job is the bridge's.\<close>

definition select_payout :: "gbt_env \<Rightarrow> ('s api_world_scheme, string \<times> bool) handler" where
  "select_payout env w =
     (let fee = api_bridgeFee (aw_api w); own = (WalletAddr (sw_ctx w), False)
      in if bf_Enabled fee \<and> bf_ServerSalt fee \<noteq> []
         then (case ge_DAGInfo env of
                 Inl e \<Rightarrow> wret own w
               | Inr [] \<Rightarrow> wret own w
               | Inr (tip # _) \<Rightarrow>
                   wbind (upd_api (\<lambda>a. a\<lparr>api_jobCounter := api_jobCounter a + 1\<rparr>)) (\<lambda>_ w1.
                     case hex_decode tip of
                       (prev, False) \<Rightarrow> wret own w1
                     | (prev, True) \<Rightarrow>
                         if ShouldReplaceGBT (bf_ServerSalt fee) (bf_RatePpm fee)
                              (job_key (api_jobCounter (aw_api w1)) prev (ge_key_time env)
                                (sanitizeWorkerID (WorkerName (sw_ctx w1))))
                         then wbind (upd_api (\<lambda>a. a\<lparr>api_gbtDiverted := api_gbtDiverted a + 1\<rparr>)) (\<lambda>_.
                              wbind (RecordDivertedGBT (ge_accepts env)) (\<lambda>_. wret (bf_Address fee, True))) w1
                         else wret own w1) w)
         else wret own w)"

definition node_template :: "gbt_env \<Rightarrow> string \<Rightarrow> string \<Rightarrow> ('s api_world_scheme, go_error + gbt_template) handler" where
  "node_template env payoutAddress extraData =
     wbind (upd_api (\<lambda>a. a\<lparr>api_requests := api_requests a @ [(payoutAddress, extraData)]\<rparr>)) (\<lambda>_.
     wret (ge_GetBlockTemplate env payoutAddress extraData))"

text \<open>With the cache every job is returned as an ordinary one.\<close>

definition cached_template :: "gbt_env \<Rightarrow> string \<Rightarrow> string \<Rightarrow> ('s api_world_scheme, go_error + gbt_template \<times> bool) handler" where
  "cached_template env payoutAddress extraData w =
     (case cache_lookup (api_gbtCacheTTL (aw_api w)) (ge_check_time env) payoutAddress (api_gbtCache (aw_api w)) of
        Some cached \<Rightarrow>
          wbind (upd_api (\<lambda>a. a\<lparr>api_gbtCacheHits := api_gbtCacheHits a + 1\<rparr>)) (\<lambda>_. wret (Inr (cached, False))) w
      | None \<Rightarrow>
          wbind (upd_api (\<lambda>a. a\<lparr>api_gbtCacheMisses := api_gbtCacheMisses a + 1\<rparr>)) (\<lambda>_.
          wbind (node_template env payoutAddress extraData) (\<lambda>r.
            case r of
              Inl e \<Rightarrow> wret (Inl (Wrap ''failed fetching new block template from hoosat'' e))
            | Inr template \<Rightarrow>
                wbind (upd_api (\<lambda>a. a\<lparr>api_gbtCache :=
                  cache_store (ge_store_time env) payoutAddress template (api_gbtCache a)\<rparr>)) (\<lambda>_.
                wret (Inr (template, False))))) w)"

definition fresh_template :: "gbt_env \<Rightarrow> string \<Rightarrow> string \<Rightarrow> bool \<Rightarrow> ('s api_world_scheme, go_error + gbt_template \<times> bool) handler" where
  "fresh_template env payoutAddress extraData isFeeJob =
     wbind (node_template env payoutAddress extraData) (\<lambda>r.
       case r of
         Inl e \<Rightarrow> wret (Inl (Wrap ''failed fetching fresh block template from hoosat'' e))
       | Inr template \<Rightarrow> wret (Inr (template, isFeeJob)))"

definition GetBlockTemplate :: "gbt_env \<Rightarrow> int \<Rightarrow> int \<Rightarrow> ('s api_world_scheme, go_error + gbt_template \<times> bool) handler" where
  "GetBlockTemplate env poll vote =
     wbind (upd_api (\<lambda>a. a\<lparr>api_gbtTotal := api_gbtTotal a + 1\<rparr>)) (\<lambda>_.
     wbind (select_payout env) (\<lambda>(payoutAddress, isFeeJob) w.
       let ttl = api_gbtCacheTTL (aw_api w);
           extraData = extra_data ttl payoutAddress (WorkerName (sw_ctx w)) poll vote
       in if 0 < ttl \<and> poll = 0 \<and> vote = 0 then cached_template env payoutAddress extraData w
          else fresh_template env payoutAddress extraData isFeeJob w))"

subsection \<open>Keeping the connection\<close>

text \<open>\<open>dial\<close> is the result of \<open>NewRPCClient\<close>, \<open>again\<close> that of the client's own \<open>Reconnect\<close>.\<close>

definition reconnect :: "go_error option \<Rightarrow> go_error option \<Rightarrow> htn_api \<Rightarrow> go_error option \<times> htn_api" where
  "reconnect again dial api =
     (if api_hoosat api then (again, api)
      else case dial of
             Some e \<Rightarrow> (Some e, api)
           | None \<Rightarrow> (None, invalidateGBTCache (api\<lparr>api_hoosat := True\<rparr>)))"

text \<open>
  \<open>info n\<close> is the answer to the n-th \<open>GetInfo\<close>. The loop ends with the first answer that says the
  node is synced; it has no error to return.
\<close>

partial_function (option) waitForSync :: "(nat \<Rightarrow> go_error + bool) \<Rightarrow> nat \<Rightarrow> nat option" where
  "waitForSync info n = (if info n = Inr True then Some n else waitForSync info (Suc n))"

lemma waitForSync_Some:
  assumes "waitForSync info n = Some m"
  shows "n \<le> m \<and> info m = Inr True"
proof (rule waitForSync.raw_induct [where P = "\<lambda>info n m. n \<le> m \<and> info m = Inr True", OF _ assms])
  fix loop :: "(nat \<Rightarrow> go_error + bool) \<Rightarrow> nat \<Rightarrow> nat option" and info n m
  assume "\<And>info n m. loop info n = Some m \<Longrightarrow> n \<le> m \<and> info m = Inr True"
    and "(if info n = Inr True then Some n else loop info (Suc n)) = Some m"
  then show "n \<le> m \<and> info m = Inr True" by (auto split: if_splits dest: Suc_leD)
qed

lemma waitForSync_reaches: "(\<And>k. n \<le> k \<Longrightarrow> k < m \<Longrightarrow> info k \<noteq> Inr True) \<Longrightarrow> n \<le> m \<Longrightarrow> info m = Inr True \<Longrightarrow> waitForSync info n = Some m"
proof (induction "m - n" arbitrary: n)
  case 0
  then show ?case by (simp add: waitForSync.simps)
next
  case (Suc d)
  then have "waitForSync info (Suc n) = Some m" by (intro Suc.hyps(1)) auto
  moreover have "info n \<noteq> Inr True" using Suc by simp
  ultimately show ?case by (subst waitForSync.simps) simp
qed

text \<open>
  Waiting for the node to sync ends with the first answer that says it is synced, and never
  when there is none: an error of the node does not end it, so the reconnection that the template
  listener would start on an error is never reached.
\<close>

theorem waitForSync_first:
  "waitForSync info n = (if \<exists>m. n \<le> m \<and> info m = Inr True then Some (LEAST m. n \<le> m \<and> info m = Inr True) else None)"
proof (cases "\<exists>m. n \<le> m \<and> info m = Inr True")
  case True
  define m where "m = (LEAST m. n \<le> m \<and> info m = Inr True)"
  have "n \<le> m \<and> info m = Inr True" unfolding m_def using True by (rule LeastI_ex)
  moreover have "info k \<noteq> Inr True" if "n \<le> k" "k < m" for k using that not_less_Least [of k] unfolding m_def by blast
  ultimately have "waitForSync info n = Some m" by (intro waitForSync_reaches) auto
  then show ?thesis using True by (simp add: m_def)
next
  case False
  then show ?thesis using waitForSync_Some [of info n] by (cases "waitForSync info n") auto
qed

datatype listener_event = CtxDone | BlockReady | TimerFired

text \<open>One round of the template listener: whether it goes on and whether the callback runs.\<close>

fun listener_round :: "listener_event \<Rightarrow> htn_api \<Rightarrow> bool \<times> bool \<times> htn_api" where
  "listener_round CtxDone api = (False, False, api)"
| "listener_round BlockReady api = (True, True, invalidateGBTCache api)"
| "listener_round TimerFired api = (True, True, api)"

record dag_info =
  di_TipHashes :: "string list"
  di_BlockCount :: "64 word"
  di_Difficulty :: f64

text \<open>One tick of the statistics thread.\<close>

definition network_stats_tick ::
  "(prom_call \<Rightarrow> bool) \<Rightarrow> go_error + dag_info \<Rightarrow> (string \<Rightarrow> go_error + 64 word) \<Rightarrow> ('s prom_state_scheme, unit) handler" where
  "network_stats_tick accepts dag estimate =
     (case dag of
        Inl e \<Rightarrow> wret ()
      | Inr d \<Rightarrow>
          (case di_TipHashes d of
             [] \<Rightarrow> wpanic ''index out of range''
           | tip # _ \<Rightarrow>
               (case estimate tip of
                  Inl e \<Rightarrow> wret ()
                | Inr hps \<Rightarrow> RecordNetworkStats accepts hps (di_BlockCount d) (di_Difficulty d))))"

subsection \<open>Interleaved use of the cache\<close>

text \<open>
  The state that the goroutines share: the clock, the cache, what each goroutine is doing, and a
  record of the node's answers, the stored entries and the templates handed out, each with its
  payout address and time.
\<close>

datatype gbt_phase = Idle | Missed string | Fetched string gbt_template

record gbt_sys =
  gs_clock :: int
  gs_cache :: "string \<rightharpoonup> gbt_cache_entry"
  gs_phase :: "nat \<Rightarrow> gbt_phase"
  gs_answers :: "(string \<times> gbt_template \<times> int) set"
  gs_stores :: "(string \<times> gbt_template \<times> int) set"
  gs_served :: "(string \<times> gbt_template \<times> int) list"

definition gbt_start :: "int \<Rightarrow> gbt_sys" where
  "gbt_start now = \<lparr>gs_clock = now, gs_cache = Map.empty, gs_phase = (\<lambda>i. Idle), gs_answers = {}, gs_stores = {}, gs_served = []\<rparr>"

text \<open>The atomic steps of the goroutines, for a lifetime \<open>ttl\<close> of the entries.\<close>

inductive gbt_step :: "int \<Rightarrow> gbt_sys \<Rightarrow> gbt_sys \<Rightarrow> bool" for ttl where
  step_time: "0 \<le> dt \<Longrightarrow> gbt_step ttl s (s\<lparr>gs_clock := gs_clock s + dt\<rparr>)"
| step_hit: "gs_phase s i = Idle \<Longrightarrow> cache_lookup ttl (gs_clock s) p (gs_cache s) = Some t \<Longrightarrow>
    gbt_step ttl s (s\<lparr>gs_served := gs_served s @ [(p, t, gs_clock s)]\<rparr>)"
| step_miss: "gs_phase s i = Idle \<Longrightarrow> cache_lookup ttl (gs_clock s) p (gs_cache s) = None \<Longrightarrow>
    gbt_step ttl s (s\<lparr>gs_phase := (gs_phase s)(i := Missed p)\<rparr>)"
| step_answer: "gs_phase s i = Missed p \<Longrightarrow>
    gbt_step ttl s (s\<lparr>gs_phase := (gs_phase s)(i := Fetched p t), gs_answers := insert (p, t, gs_clock s) (gs_answers s)\<rparr>)"
| step_fail: "gs_phase s i = Missed p \<Longrightarrow> gbt_step ttl s (s\<lparr>gs_phase := (gs_phase s)(i := Idle)\<rparr>)"
| step_store: "gs_phase s i = Fetched p t \<Longrightarrow>
    gbt_step ttl s (s\<lparr>gs_cache := cache_store (gs_clock s) p t (gs_cache s), gs_phase := (gs_phase s)(i := Idle),
      gs_stores := insert (p, t, gs_clock s) (gs_stores s), gs_served := gs_served s @ [(p, t, gs_clock s)]\<rparr>)"
| step_invalidate: "gbt_step ttl s (s\<lparr>gs_cache := Map.empty\<rparr>)"
| step_cleanup: "gbt_step ttl s (s\<lparr>gs_cache := cache_cleanup ttl (gs_clock s) (gs_cache s)\<rparr>)"

text \<open>Every entry was stored, everything stored or held was answered by the node for that address.\<close>

definition cache_linked :: "gbt_sys \<Rightarrow> bool" where
  "cache_linked s \<longleftrightarrow>
     (\<forall>p e. gs_cache s p = Some e \<longrightarrow> (p, ce_template e, ce_fetchedAt e) \<in> gs_stores s)"

definition stores_linked :: "gbt_sys \<Rightarrow> bool" where
  "stores_linked s \<longleftrightarrow>
     (\<forall>p t n. (p, t, n) \<in> gs_stores s \<longrightarrow> n \<le> gs_clock s \<and> (\<exists>a \<le> n. (p, t, a) \<in> gs_answers s))"

definition held_linked :: "gbt_sys \<Rightarrow> bool" where
  "held_linked s \<longleftrightarrow>
     (\<forall>i p t. gs_phase s i = Fetched p t \<longrightarrow> (\<exists>a \<le> gs_clock s. (p, t, a) \<in> gs_answers s))"

definition served_linked :: "int \<Rightarrow> gbt_sys \<Rightarrow> bool" where
  "served_linked ttl s \<longleftrightarrow>
     (\<forall>p t n. (p, t, n) \<in> set (gs_served s) \<longrightarrow> (\<exists>m. (p, t, m) \<in> gs_stores s \<and> m \<le> n \<and> n - m < ttl))"

lemma cache_linked_step: "gbt_step ttl s s' \<Longrightarrow> cache_linked s \<Longrightarrow> cache_linked s'"
  by (induction rule: gbt_step.induct)
    (auto simp: cache_linked_def cache_store_def cache_cleanup_def split: option.splits if_splits)

lemma stores_linked_mono:
  "stores_linked s \<Longrightarrow> gs_stores s' = gs_stores s \<Longrightarrow> gs_answers s \<subseteq> gs_answers s' \<Longrightarrow> gs_clock s \<le> gs_clock s' \<Longrightarrow>
   stores_linked s'"
  unfolding stores_linked_def by (metis order_trans subsetD)

lemma held_linked_mono:
  "held_linked s \<Longrightarrow> (\<And>i p t. gs_phase s' i = Fetched p t \<Longrightarrow> gs_phase s i = Fetched p t) \<Longrightarrow>
   gs_answers s \<subseteq> gs_answers s' \<Longrightarrow> gs_clock s \<le> gs_clock s' \<Longrightarrow> held_linked s'"
  unfolding held_linked_def by (metis order_trans subsetD)

lemma stores_linked_step: "gbt_step ttl s s' \<Longrightarrow> stores_linked s \<Longrightarrow> held_linked s \<Longrightarrow> stores_linked s'"
proof (induction rule: gbt_step.induct)
  case (step_store s i p t)
  then obtain a where "a \<le> gs_clock s" "(p, t, a) \<in> gs_answers s" unfolding held_linked_def by blast
  then show ?case using step_store.prems(1) by (auto simp: stores_linked_def)
qed (erule stores_linked_mono; force)+

lemma held_linked_step: "gbt_step ttl s s' \<Longrightarrow> held_linked s \<Longrightarrow> held_linked s'"
proof (induction rule: gbt_step.induct)
  case (step_answer s i p t)
  have "\<exists>a \<le> gs_clock s. (q, u, a) \<in> insert (p, t, gs_clock s) (gs_answers s)"
    if "((gs_phase s)(i := Fetched p t)) j = Fetched q u" for j q u
  proof (cases "j = i")
    case False
    then show ?thesis using that step_answer.prems unfolding held_linked_def by simp blast
  qed (use that in auto)
  then show ?case unfolding held_linked_def by simp
qed (erule held_linked_mono; simp split: if_splits)+

lemma served_linked_step:
  assumes "gbt_step ttl s s'" "0 < ttl" "cache_linked s" "stores_linked s" "served_linked ttl s"
  shows "served_linked ttl s'"
  using assms(1,3-)
proof (induction rule: gbt_step.induct)
  case (step_hit s i p t)
  obtain e where e: "gs_cache s p = Some e" "ce_template e = t" "gs_clock s - ce_fetchedAt e < ttl"
    using step_hit.hyps(2) by (auto simp: cache_lookup_def split: option.splits if_splits)
  then have "(p, t, ce_fetchedAt e) \<in> gs_stores s" using step_hit.prems(1) by (auto simp: cache_linked_def)
  moreover from this have "ce_fetchedAt e \<le> gs_clock s" using step_hit.prems(2) by (auto simp: stores_linked_def)
  ultimately show ?case using step_hit.prems(3) e(3) by (auto simp: served_linked_def)
next
  case (step_store s i p t)
  then show ?case using assms(2) unfolding served_linked_def by (auto; force)
qed (auto simp: served_linked_def)

lemma gbt_reachable_linked:
  assumes "(gbt_step ttl)\<^sup>*\<^sup>* (gbt_start now) s" "0 < ttl"
  shows "cache_linked s \<and> stores_linked s \<and> held_linked s \<and> served_linked ttl s"
  using assms(1)
proof (induction rule: rtranclp_induct)
  case base
  then show ?case by (simp add: gbt_start_def cache_linked_def stores_linked_def held_linked_def served_linked_def)
next
  case (step s s')
  then show ?case
    using cache_linked_step stores_linked_step held_linked_step served_linked_step [OF step.hyps(2) assms(2)] by blast
qed

text \<open>
  C12: whatever way the goroutines of the clients interleave with each other, with invalidations
  and with the clean-up, a template handed out for a payout address was produced by the node for
  that same address, and was stored less than the cache's lifetime ago: nobody mines on another
  address's template or on one that is too old.
\<close>

theorem served_templates_fresh:
  assumes "(gbt_step ttl)\<^sup>*\<^sup>* (gbt_start now) s" "0 < ttl" "(payout, template, n) \<in> set (gs_served s)"
  shows "\<exists>asked stored. (payout, template, asked) \<in> gs_answers s \<and> asked \<le> stored \<and> stored \<le> n \<and> n - stored < ttl"
proof -
  note linked = gbt_reachable_linked [OF assms(1,2)]
  from linked assms(3) obtain m where "(payout, template, m) \<in> gs_stores s" "m \<le> n" "n - m < ttl"
    unfolding served_linked_def by blast
  moreover from this(1) linked obtain a where "a \<le> m" "(payout, template, a) \<in> gs_answers s"
    unfolding stores_linked_def by blast
  ultimately show ?thesis by blast
qed

definition sample_path :: "gbt_sys list" where
  "sample_path =
     (let s0 = gbt_start 0;
          s1 = s0\<lparr>gs_phase := (gs_phase s0)(0 := Missed ''p'')\<rparr>;
          s2 = s1\<lparr>gs_phase := (gs_phase s1)(0 := Fetched ''p'' None), gs_answers := {(''p'', None, 0)}\<rparr>;
          s3 = s2\<lparr>gs_cache := cache_store 0 ''p'' None (gs_cache s2), gs_phase := (gs_phase s2)(0 := Idle),
             gs_stores := {(''p'', None, 0)}, gs_served := [(''p'', None, 0)]\<rparr>
      in [s0, s1, s2, s3])"

theorem served_templates_fresh_witness:
  "\<exists>asked stored. (''p'', None, asked) \<in> gs_answers (last sample_path) \<and> asked \<le> stored \<and> stored \<le> 0 \<and> 0 - stored < 150"
proof (rule served_templates_fresh)
  have "gbt_step 150 (sample_path ! 0) (sample_path ! 1)"
    using step_miss [of "gbt_start 0" 0 150 "''p''"] by (simp add: sample_path_def Let_def gbt_start_def cache_lookup_def)
  moreover have "gbt_step 150 (sample_path ! 1) (sample_path ! 2)"
    using step_answer [of "sample_path ! 1" 0 "''p''" 150 None] by (simp add: sample_path_def Let_def gbt_start_def)
  moreover have "gbt_step 150 (sample_path ! 2) (last sample_path)"
    using step_store [of "sample_path ! 2" 0 "''p''" None 150] by (simp add: sample_path_def Let_def gbt_start_def)
  moreover have "sample_path ! 0 = gbt_start 0" by (simp add: sample_path_def Let_def)
  ultimately show "(gbt_step 150)\<^sup>*\<^sup>* (gbt_start 0) (last sample_path)" by (metis converse_rtranclp_into_rtranclp rtranclp.rtrancl_refl)
qed (simp_all add: sample_path_def Let_def)

subsection \<open>A call as a sequence of steps\<close>

lemma diverted_recorded:
  "RecordDivertedGBT accepts w = (Ret x, w') \<Longrightarrow> w' = w\<lparr>prom_log := prom_log w'\<rparr>"
  by (auto simp: RecordDivertedGBT_def wbind_def prom_do_def wret_def split: if_splits)

text \<open>Choosing the payout address touches the fee counters and the metrics only.\<close>

definition same_cache :: "htn_api \<Rightarrow> htn_api \<Rightarrow> bool" where
  "same_cache a b \<longleftrightarrow> api_gbtCache b = api_gbtCache a \<and> api_gbtCacheTTL b = api_gbtCacheTTL a \<and> api_requests b = api_requests a"

lemma select_payout_effect:
  assumes "select_payout env w = (Ret (payout, fee), w')"
  shows "sw_ctx w' = sw_ctx w \<and> sw_sh w' = sw_sh w \<and>
    payout = (if fee then bf_Address (api_bridgeFee (aw_api w)) else WalletAddr (sw_ctx w)) \<and>
    api_gbtDiverted (aw_api w') = (if fee then api_gbtDiverted (aw_api w) + 1 else api_gbtDiverted (aw_api w)) \<and>
    same_cache (aw_api w) (aw_api w')"
proof -
  show ?thesis
  proof (cases "fee")
    case False
    have "payout = WalletAddr (sw_ctx w) \<and> (w' = w \<or> w' = w\<lparr>aw_api := (aw_api w)\<lparr>api_jobCounter := api_jobCounter (aw_api w) + 1\<rparr>\<rparr>)"
      using assms False
      by (auto simp: select_payout_def Let_def wret_def upd_api_def wbind_def wmodify_def
          split: if_splits sum.splits list.splits prod.splits bool.splits outcome.splits)
    then show ?thesis using False by (auto simp: same_cache_def)
  next
    case True
    define w1 where "w1 = w\<lparr>aw_api := (aw_api w)\<lparr>api_jobCounter := api_jobCounter (aw_api w) + 1,
      api_gbtDiverted := api_gbtDiverted (aw_api w) + 1\<rparr>\<rparr>"
    have "payout = bf_Address (api_bridgeFee (aw_api w)) \<and> (\<exists>x. RecordDivertedGBT (ge_accepts env) w1 = (Ret x, w'))"
      using assms True
      by (auto simp: select_payout_def Let_def wret_def upd_api_def wbind_def wmodify_def w1_def
          split: if_splits sum.splits list.splits prod.splits bool.splits outcome.splits)
    moreover from this obtain l where "w' = w1\<lparr>prom_log := l\<rparr>" using diverted_recorded by blast
    ultimately show ?thesis using True by (auto simp: w1_def same_cache_def)
  qed
qed

lemma lookup_miss_path:
  assumes "gs_phase s i = Idle" "cache_lookup ttl (gs_clock s) p (gs_cache s) = None"
  shows "(gbt_step ttl)\<^sup>*\<^sup>* s (s\<lparr>gs_phase := (gs_phase s)(i := Idle)\<rparr>)"
    "0 \<le> dt \<Longrightarrow> \<exists>s'. (gbt_step ttl)\<^sup>*\<^sup>* s s' \<and> gs_cache s' = cache_store (gs_clock s + dt) p t (gs_cache s) \<and>
       gs_served s' = gs_served s @ [(p, t, gs_clock s + dt)] \<and> gs_phase s' = gs_phase s"
proof -
  let ?s1 = "s\<lparr>gs_phase := (gs_phase s)(i := Missed p)\<rparr>"
  have 1: "gbt_step ttl s ?s1" using assms by (rule step_miss)
  show "(gbt_step ttl)\<^sup>*\<^sup>* s (s\<lparr>gs_phase := (gs_phase s)(i := Idle)\<rparr>)"
    using 1 step_fail [of ?s1 i p ttl] by (simp add: converse_rtranclp_into_rtranclp)
  assume dt: "0 \<le> dt"
  let ?s2 = "?s1\<lparr>gs_phase := (gs_phase ?s1)(i := Fetched p t), gs_answers := insert (p, t, gs_clock ?s1) (gs_answers ?s1)\<rparr>"
  let ?s3 = "?s2\<lparr>gs_clock := gs_clock ?s2 + dt\<rparr>"
  let ?s4 = "?s3\<lparr>gs_cache := cache_store (gs_clock ?s3) p t (gs_cache ?s3), gs_phase := (gs_phase ?s3)(i := Idle),
      gs_stores := insert (p, t, gs_clock ?s3) (gs_stores ?s3), gs_served := gs_served ?s3 @ [(p, t, gs_clock ?s3)]\<rparr>"
  have "gbt_step ttl ?s1 ?s2" by (rule step_answer) simp
  moreover have "gbt_step ttl ?s2 ?s3" using dt by (rule step_time)
  moreover have "gbt_step ttl ?s3 ?s4" by (rule step_store) simp
  ultimately have "(gbt_step ttl)\<^sup>*\<^sup>* s ?s4" using 1 by (meson converse_rtranclp_into_rtranclp rtranclp.rtrancl_refl)
  then show "\<exists>s'. (gbt_step ttl)\<^sup>*\<^sup>* s s' \<and> gs_cache s' = cache_store (gs_clock s + dt) p t (gs_cache s) \<and>
       gs_served s' = gs_served s @ [(p, t, gs_clock s + dt)] \<and> gs_phase s' = gs_phase s"
    using assms(1) by (intro exI [of _ ?s4]) auto
qed

definition served_as :: "gbt_sys \<Rightarrow> gbt_sys \<Rightarrow> string \<Rightarrow> go_error + gbt_template \<times> bool \<Rightarrow> bool" where
  "served_as s s' payout r \<longleftrightarrow>
     (case r of
        Inl e \<Rightarrow> gs_served s' = gs_served s
      | Inr (t, fee) \<Rightarrow> \<not> fee \<and> (\<exists>n. gs_served s' = gs_served s @ [(payout, t, n)]))"

lemma cached_template_path:
  assumes "gs_cache s = api_gbtCache (aw_api w)" "gs_clock s = ge_check_time env" "gs_phase s i = Idle"
    "ge_check_time env \<le> ge_store_time env" "cached_template env payout extra w = (Ret r, w')"
  shows "\<exists>s'. (gbt_step (api_gbtCacheTTL (aw_api w)))\<^sup>*\<^sup>* s s' \<and> gs_cache s' = api_gbtCache (aw_api w') \<and>
    gs_phase s' i = Idle \<and> served_as s s' payout r"
proof (cases "cache_lookup (api_gbtCacheTTL (aw_api w)) (ge_check_time env) payout (api_gbtCache (aw_api w))")
  case (Some t)
  then have "gbt_step (api_gbtCacheTTL (aw_api w)) s (s\<lparr>gs_served := gs_served s @ [(payout, t, gs_clock s)]\<rparr>)"
    using assms(1-3) by (intro step_hit) simp_all
  moreover have "r = Inr (t, False)" "api_gbtCache (aw_api w') = api_gbtCache (aw_api w)"
    using assms(5) Some by (auto simp: cached_template_def upd_api_def wret_def)
  ultimately show ?thesis using assms(1,3) by (auto simp: served_as_def)
next
  case None
  note path = lookup_miss_path [OF assms(3), of "api_gbtCacheTTL (aw_api w)" payout]
  have dt: "0 \<le> ge_store_time env - ge_check_time env" using assms(4) by simp
  show ?thesis
  proof (cases "ge_GetBlockTemplate env payout extra")
    case (Inl e)
    then have "\<exists>e'. r = Inl e'" "api_gbtCache (aw_api w') = api_gbtCache (aw_api w)"
      using assms(5) None by (auto simp: cached_template_def node_template_def upd_api_def wbind_assoc wret_def)
    then show ?thesis using path(1) None assms(1-3) by (auto simp: served_as_def)
  next
    case (Inr t)
    then have "r = Inr (t, False)" "api_gbtCache (aw_api w') = cache_store (ge_store_time env) payout t (api_gbtCache (aw_api w))"
      using assms(5) None by (auto simp: cached_template_def node_template_def upd_api_def wbind_assoc wret_def)
    then show ?thesis using path(2) [OF _ dt, of t] None assms(1-3) by (auto simp: served_as_def)
  qed
qed

text \<open>
  C13: a whole call of \<open>GetBlockTemplate\<close> with the cache enabled refines the interleaved cache: it
  is a sequence of the goroutine's atomic steps from the cache it finds to the cache it leaves,
  what it returns is what these steps hand out for the chosen payout address, which is the
  bridge's own address exactly when the call was counted as diverted. Even then the job is
  returned as an ordinary one.
\<close>

theorem GetBlockTemplate_refines:
  assumes "0 < api_gbtCacheTTL (aw_api w)" "ge_check_time env \<le> ge_store_time env"
    "gs_cache s = api_gbtCache (aw_api w)" "gs_clock s = ge_check_time env" "gs_phase s i = Idle"
    "GetBlockTemplate env 0 0 w = (Ret r, w')"
  shows "\<exists>s' payout. (gbt_step (api_gbtCacheTTL (aw_api w)))\<^sup>*\<^sup>* s s' \<and> gs_cache s' = api_gbtCache (aw_api w') \<and>
    gs_phase s' i = Idle \<and> served_as s s' payout r \<and>
    payout = (if api_gbtDiverted (aw_api w') = api_gbtDiverted (aw_api w) then WalletAddr (sw_ctx w)
      else bf_Address (api_bridgeFee (aw_api w)))"
proof -
  define w1 where "w1 = w\<lparr>aw_api := (aw_api w)\<lparr>api_gbtTotal := api_gbtTotal (aw_api w) + 1\<rparr>\<rparr>"
  have "GetBlockTemplate env 0 0 w = wbind (select_payout env) (\<lambda>(payoutAddress, isFeeJob) w.
       let ttl = api_gbtCacheTTL (aw_api w);
           extraData = extra_data ttl payoutAddress (WorkerName (sw_ctx w)) 0 0
       in if 0 < ttl \<and> (0 :: int) = 0 \<and> (0 :: int) = 0 then cached_template env payoutAddress extraData w
          else fresh_template env payoutAddress extraData isFeeJob w) w1"
    unfolding GetBlockTemplate_def by (simp add: upd_api_def w1_def)
  with assms(6) obtain payout fee w2 where p: "select_payout env w1 = (Ret (payout, fee), w2)"
    and g: "(let ttl = api_gbtCacheTTL (aw_api w2); extraData = extra_data ttl payout (WorkerName (sw_ctx w2)) 0 0
       in if 0 < ttl then cached_template env payout extraData w2 else fresh_template env payout extraData fee w2) = (Ret r, w')"
    by (auto simp: wbind_def Let_def split: prod.splits outcome.splits)
  have c: "same_cache (aw_api w) (aw_api w2)"
    "payout = (if fee then bf_Address (api_bridgeFee (aw_api w)) else WalletAddr (sw_ctx w))"
    "fee \<longleftrightarrow> api_gbtDiverted (aw_api w2) \<noteq> api_gbtDiverted (aw_api w)"
    using select_payout_effect [OF p] by (auto simp: w1_def same_cache_def split: if_splits)
  have run: "cached_template env payout (extra_data (api_gbtCacheTTL (aw_api w2)) payout (WorkerName (sw_ctx w2)) 0 0) w2 = (Ret r, w')"
    using g c(1) assms(1) by (simp add: Let_def same_cache_def)
  have "api_gbtDiverted (aw_api w') = api_gbtDiverted (aw_api w2)"
    using run by (auto simp: cached_template_def node_template_def upd_api_def wbind_assoc wret_def split: option.splits sum.splits)
  moreover obtain s' where "(gbt_step (api_gbtCacheTTL (aw_api w)))\<^sup>*\<^sup>* s s'" "gs_cache s' = api_gbtCache (aw_api w')"
    "gs_phase s' i = Idle" "served_as s s' payout r"
    using cached_template_path [OF _ assms(4,5,2) run] assms(3) c(1) by (auto simp: same_cache_def)
  ultimately show ?thesis using c(2,3) by auto
qed

text \<open>A miner of a bridge without a fee asks for its first template.\<close>

definition plain_ctx :: "string \<Rightarrow> stratum_context" where
  "plain_ctx wallet =
     \<lparr>RemoteAddr = ''10.0.0.1'', WalletAddr = wallet, WorkerName = ''rig'', RemoteApp = [], Id = 1, disconnecting = False,
      State = MiningStateGenerator 0, Extranonce = [], authorizeCount = 0, conn = (\<lambda>n. WriteOk), attempts = 0, sent = [],
      closes = 0, notified = 0, pending = 0\<rparr>"

definition sample_api :: htn_api where
  "sample_api = \<lparr>api_address = [], api_blockWaitTime = 0, api_hoosat = True, api_connected = True,
     api_bridgeFee = \<lparr>bf_Enabled = False, bf_RatePpm = 50, bf_Address = ''b'', bf_ServerSalt = []\<rparr>, api_jobCounter = 0,
     api_gbtTotal = 0, api_gbtDiverted = 0, api_gbtCache = Map.empty, api_gbtCacheTTL = 150, api_gbtCacheHits = 0,
     api_gbtCacheMisses = 0, api_requests = []\<rparr>"

definition sample_api_world :: api_world where
  "sample_api_world = \<lparr>prom_log = [], sw_ctx = plain_ctx ''w'', sw_sh = newShareHandler False False None, aw_api = sample_api\<rparr>"

definition sample_gbt_env :: gbt_env where
  "sample_gbt_env = \<lparr>ge_DAGInfo = Inr [], ge_GetBlockTemplate = (\<lambda>p x. Inr None), ge_key_time = 0, ge_check_time = 0,
     ge_store_time = 5, ge_accepts = (\<lambda>c. True)\<rparr>"

lemma sample_call: "fst (GetBlockTemplate sample_gbt_env 0 0 sample_api_world) = Ret (Inr (None, False))"
  by (simp add: GetBlockTemplate_def select_payout_def cached_template_def node_template_def cache_lookup_def wbind_assoc
      upd_api_def wbind_def wmodify_def wret_def sample_gbt_env_def sample_api_world_def sample_api_def Let_def)

theorem GetBlockTemplate_refines_witness:
  "\<exists>s' payout. (gbt_step 150)\<^sup>*\<^sup>* (gbt_start 0) s' \<and> served_as (gbt_start 0) s' payout (Inr (None, False))"
proof -
  obtain w' where "GetBlockTemplate sample_gbt_env 0 0 sample_api_world = (Ret (Inr (None, False)), w')"
    using sample_call by (metis prod.collapse)
  from GetBlockTemplate_refines [OF _ _ _ _ _ this, of "gbt_start 0" 0] show ?thesis
    by (auto simp: sample_gbt_env_def sample_api_world_def sample_api_def gbt_start_def)
qed

end
