(* ===== verification/Client_Handler.thy ===== *)
theory Client_Handler
  imports Htn_Api
begin

text \<open>
  The registry of clients and the distribution of work (\<open>src/htnstratum/client_handler.go\<close>).
  \<open>OnConnect\<close> gives a client its identifier and its extranonce, \<open>OnDisconnect\<close> forgets it, and
  \<open>NewBlockAvailable\<close> starts a goroutine per connected client that fetches a template, stores it as
  a job, sets the difficulty and notifies the miner. The registry owns the contexts; a goroutine
  works on the world of its own client (\<open>api_world\<close>), and the goroutines run one after the other in
  an order that is a parameter, as the iteration order of Go's maps is not specified.
\<close>

subsection \<open>The registry\<close>

record client_listener =
  cl_clients :: "int \<rightharpoonup> stratum_context"
  cl_lastBalanceCheck :: int
  cl_clientCounter :: int
  cl_minShareDiff :: f64
  cl_extranonceSize :: nat
  cl_maxExtranonce :: int
  cl_nextExtranonce :: int

text \<open>The only caller passes a size from zero to three.\<close>

definition newClientListener :: "int \<Rightarrow> f64 \<Rightarrow> nat \<Rightarrow> client_listener" where
  "newClientListener zero_time minShareDiff extranonceSize =
     \<lparr>cl_clients = Map.empty, cl_lastBalanceCheck = zero_time, cl_clientCounter = 0, cl_minShareDiff = minShareDiff,
      cl_extranonceSize = extranonceSize, cl_maxExtranonce = 2 ^ (8 * min extranonceSize 3) - 1, cl_nextExtranonce = 0\<rparr>"

definition take_extranonce :: "client_listener \<Rightarrow> int \<times> client_listener" where
  "take_extranonce c =
     (if 0 < cl_extranonceSize c
      then (cl_nextExtranonce c,
        c\<lparr>cl_nextExtranonce := (if cl_nextExtranonce c < cl_maxExtranonce c then cl_nextExtranonce c + 1 else 0)\<rparr>)
      else (0, c))"

definition OnConnect :: "stratum_context \<Rightarrow> client_listener \<Rightarrow> stratum_context \<times> client_listener" where
  "OnConnect ctx c =
     (let idx = wrap32 (cl_clientCounter c + 1);
          (extranonce, c1) = take_extranonce (c\<lparr>cl_clientCounter := idx\<rparr>);
          ctx1 = ctx\<lparr>Id := idx\<rparr>;
          ctx2 = (if 0 < cl_extranonceSize c
                  then ctx1\<lparr>Extranonce := hex_pad (cl_extranonceSize c * 2) (nat extranonce)\<rparr> else ctx1)
      in (ctx2, c1\<lparr>cl_clients := (cl_clients c1)(idx \<mapsto> ctx2)\<rparr>))"

record client_world = api_world +
  cw_listener :: client_listener

definition upd_listener :: "(client_listener \<Rightarrow> client_listener) \<Rightarrow> ('s client_world_scheme, unit) handler" where
  "upd_listener f = wmodify (\<lambda>w. w\<lparr>cw_listener := f (cw_listener w)\<rparr>)"

definition OnDisconnect :: "(prom_call \<Rightarrow> bool) \<Rightarrow> stratum_context \<Rightarrow> ('s client_world_scheme, unit) handler" where
  "OnDisconnect accepts ctx =
     wbind (upd_listener (\<lambda>c. c\<lparr>cl_clients := (cl_clients c)(Id ctx := None)\<rparr>)) (\<lambda>_.
     wbind (upd_sh (removeStats ctx)) (\<lambda>_.
     RecordDisconnect accepts ctx))"

subsection \<open>Work for one client\<close>

record job_env =
  je_node :: node_env
  je_gbt :: gbt_env
  je_blake3 :: "bytes \<Rightarrow> bytes \<Rightarrow> bytes"
  je_minShareDiff :: f64
  je_soloMining :: bool
  je_poll :: int
  je_vote :: int

definition upd_state :: "(mining_state \<Rightarrow> mining_state) \<Rightarrow> ('s share_world_scheme, unit) handler" where
  "upd_state f = upd_ctx (\<lambda>c. c\<lparr>State := f (State c)\<rparr>)"

definition worker_error :: "job_env \<Rightarrow> error_short_code \<Rightarrow> ('s share_world_scheme, unit) handler" where
  "worker_error env code w = RecordWorkerError (env_accepts (je_node env)) (WalletAddr (sw_ctx w)) code w"

definition send_event :: "json_rpc_event \<Rightarrow> ('s share_world_scheme, go_error option) handler" where
  "send_event ev w = (Ret (fst (Send (sw_ctx w) ev)), w\<lparr>sw_ctx := snd (Send (sw_ctx w) ev)\<rparr>)"

text \<open>A value of the current difficulty, a nil dereference before there is one.\<close>

definition current_diff :: "('s share_world_scheme, hoosatDiff) handler" where
  "current_diff w =
     (case stratumDiff (State (sw_ctx w)) of
        None \<Rightarrow> wpanic ''nil pointer dereference'' w
      | Some d \<Rightarrow> wret d w)"

definition sendClientDiff :: "job_env \<Rightarrow> ('s share_world_scheme, unit) handler" where
  "sendClientDiff env =
     wbind current_diff (\<lambda>d.
     wbind (send_event \<lparr>ev_Id = JNull, ev_Version = ''2.0'', ev_Method = ''mining.set_difficulty'',
       ev_Params = [JNum (diffValue d)]\<rparr>) (\<lambda>err.
       case err of
         None \<Rightarrow> wret ()
       | Some e \<Rightarrow> if error_is e ErrorDisconnected then worker_error env ErrDisconnected
                   else worker_error env ErrFailedSetDiff))"

text \<open>\<open>state.stratumDiff.setDiffValue(diff)\<close>, on a fresh difficulty where there is none.\<close>

definition set_difficulty :: "f64 \<Rightarrow> ('s share_world_scheme, unit) handler" where
  "set_difficulty diff w =
     (case setDiffValue (case stratumDiff (State (sw_ctx w)) of None \<Rightarrow> newHoosatDiff | Some d \<Rightarrow> d) diff of
        Ret d \<Rightarrow> upd_state (\<lambda>st. st\<lparr>stratumDiff := Some d\<rparr>) w
      | Panic m \<Rightarrow> wpanic m w
      | Hang \<Rightarrow> whang w)"

definition fresh_difficulty :: "f64 \<Rightarrow> ('s share_world_scheme, unit) handler" where
  "fresh_difficulty diff =
     wbind (upd_state (\<lambda>st. st\<lparr>stratumDiff := Some newHoosatDiff\<rparr>)) (\<lambda>_. set_difficulty diff)"

definition bigJobRegex :: "string \<Rightarrow> bool" where
  "bigJobRegex s = str_contains s ''BzMiner''"

text \<open>The first time through.\<close>

definition init_client :: "job_env \<Rightarrow> ('s share_world_scheme, unit) handler" where
  "init_client env w =
     (if initialized (State (sw_ctx w)) then wret () w
      else wbind (upd_ctx (\<lambda>c. c\<lparr>State := (State c)\<lparr>initialized := True, useBigJob := bigJobRegex (RemoteApp c)\<rparr>\<rparr>)) (\<lambda>_.
           wbind (fresh_difficulty (je_minShareDiff env)) (\<lambda>_.
           wbind (if je_soloMining env then wret () else sendClientDiff env) (\<lambda>_.
           wbind (setClientVardiff (je_node env) (je_minShareDiff env)) (\<lambda>_. wret ())))) w)"

definition add_job :: "gbt_template \<Rightarrow> bool \<Rightarrow> ('s share_world_scheme, int) handler" where
  "add_job b isFeeJob w =
     (case AddJob (State (sw_ctx w)) b isFeeJob of
        (jobId, st) \<Rightarrow> (Ret jobId, w\<lparr>sw_ctx := (sw_ctx w)\<lparr>State := st\<rparr>\<rparr>))"

definition lift_out :: "'a outcome \<Rightarrow> ('s, 'a) handler" where
  "lift_out x s = (x, s)"

text \<open>The difficulty that this template asks for.\<close>

definition wanted_diff :: "job_env \<Rightarrow> ('s share_world_scheme, f64) handler" where
  "wanted_diff env w =
     wbind (lift_out (TargetToDiff (bigDiff (State (sw_ctx w))))) (\<lambda>varDiff.
     wbind (upd_sh (setSoloDiff varDiff)) (\<lambda>_.
       if je_soloMining env then wret varDiff else getClientVardiff (je_node env))) w"

definition read_diff :: "('s share_world_scheme, f64) handler" where
  "read_diff w = (Ret (case stratumDiff (State (sw_ctx w)) of None \<Rightarrow> Fin 0 | Some d \<Rightarrow> diffValue d), w)"

definition has_diff :: "('s share_world_scheme, bool) handler" where
  "has_diff w = (Ret (stratumDiff (State (sw_ctx w)) \<noteq> None), w)"

text \<open>A difficulty of zero was not computed: the current one, or the configured one, stays.\<close>

definition settle_diff :: "job_env \<Rightarrow> f64 \<Rightarrow> ('s share_world_scheme, f64 \<times> f64) handler" where
  "settle_diff env varDiff =
     wbind read_diff (\<lambda>currentDiff.
       if f64_eq varDiff (Fin 0)
       then wbind has_diff (\<lambda>known.
            wbind (if known then wret () else fresh_difficulty (je_minShareDiff env)) (\<lambda>_.
            wbind read_diff (\<lambda>cur. wret (cur, cur))))
       else wret (varDiff, currentDiff))"

definition adjust_diff :: "job_env \<Rightarrow> f64 \<Rightarrow> ('s share_world_scheme, unit) handler" where
  "adjust_diff env varDiff0 =
     wbind (settle_diff env varDiff0) (\<lambda>(varDiff, currentDiff).
     wbind has_diff (\<lambda>known.
       if \<not> known \<or> \<not> f64_eq varDiff currentDiff
       then wbind (set_difficulty varDiff) (\<lambda>_.
            wbind (sendClientDiff env) (\<lambda>_. startClientVardiff (je_node env)))
       else wret ()))"

definition job_params :: "bytes \<Rightarrow> rpc_block \<Rightarrow> int \<Rightarrow> bool \<Rightarrow> json list outcome" where
  "job_params hdr b jobId big =
     (if big
      then out_bind (GenerateLargeJobParams hdr (word_of_int (h_Timestamp (b_Header b)))) (\<lambda>p.
        Ret [JStr (dec_int jobId), JStr p])
      else out_bind (GenerateJobHeader hdr) (\<lambda>ids.
        Ret [JStr (dec_int jobId), JList (map (\<lambda>v. JInt (uint v)) ids), JInt (h_Timestamp (b_Header b))]))"

definition notify :: "job_env \<Rightarrow> bytes \<Rightarrow> rpc_block \<Rightarrow> int \<Rightarrow> ('s share_world_scheme, unit) handler" where
  "notify env hdr b jobId w =
     wbind (lift_out (job_params hdr b jobId (useBigJob (State (sw_ctx w))))) (\<lambda>params.
     wbind (send_event \<lparr>ev_Id = JInt jobId, ev_Version = ''2.0'', ev_Method = ''mining.notify'', ev_Params = params\<rparr>) (\<lambda>err.
       case err of
         Some e \<Rightarrow>
           if error_is e ErrorDisconnected then worker_error env ErrDisconnected
           else wbind (worker_error env ErrFailedSendWork) (\<lambda>_. record_ctx (RecordNewJob (env_accepts (je_node env))))
       | None \<Rightarrow> record_ctx (RecordNewJob (env_accepts (je_node env))))) w"

text \<open>
  The work for a template. Writing the header into a buffer cannot fail, so the serialisation has
  no error.
\<close>

definition send_work :: "job_env \<Rightarrow> rpc_block \<Rightarrow> bool \<Rightarrow> ('s share_world_scheme, unit) handler" where
  "send_work env b isFeeJob =
     wbind (upd_state (\<lambda>st. st\<lparr>bigDiff := CalculateTarget (ucast (h_Bits (b_Header b)))\<rparr>)) (\<lambda>_.
     wbind (add_job (Some b) isFeeJob) (\<lambda>jobId.
     wbind (init_client env) (\<lambda>_.
     wbind (wanted_diff env) (\<lambda>varDiff.
     wbind (adjust_diff env varDiff) (\<lambda>_.
     notify env (SerializeBlockHeader (je_blake3 env) b) b jobId)))))"

definition no_wallet :: "job_env \<Rightarrow> ('s share_world_scheme, unit) handler" where
  "no_wallet env w =
     (if 20000000000 < env_now (je_node env) - connectTime (State (sw_ctx w))
      then wbind (worker_error env ErrNoMinerAddress) (\<lambda>_. upd_ctx Disconnect) w
      else wret () w)"

definition no_template :: "job_env \<Rightarrow> go_error \<Rightarrow> ('s share_world_scheme, unit) handler" where
  "no_template env err =
     (if str_contains (error_string err) ''Could not decode address''
      then wbind (worker_error env ErrInvalidAddressFmt) (\<lambda>_. upd_ctx Disconnect)
      else worker_error env ErrFailedBlockFetch)"

text \<open>The goroutine of one client.\<close>

definition serve_client :: "job_env \<Rightarrow> ('s api_world_scheme, unit) handler" where
  "serve_client env w =
     (if WalletAddr (sw_ctx w) = [] then no_wallet env w
      else wbind (GetBlockTemplate (je_gbt env) (je_poll env) (je_vote env)) (\<lambda>r.
        case r of
          Inl err \<Rightarrow> no_template env err
        | Inr (None, isFeeJob) \<Rightarrow> wpanic ''nil pointer dereference''
        | Inr (Some b, isFeeJob) \<Rightarrow> send_work env b isFeeJob) w)"

subsection \<open>Work for all clients\<close>

text \<open>The clients of the registry that are connected, in the order of the iteration.\<close>

definition connected_clients :: "int list \<Rightarrow> client_listener \<Rightarrow> (int \<times> stratum_context) list" where
  "connected_clients order c =
     List.map_filter (\<lambda>i. case cl_clients c i of None \<Rightarrow> None | Some ctx \<Rightarrow> if Connected ctx then Some (i, ctx) else None) order"

text \<open>
  A goroutine runs on the world of its client and leaves the context in the registry; a panic of a
  goroutine ends the process.
\<close>

definition run_client :: "(int \<Rightarrow> job_env) \<Rightarrow> int \<Rightarrow> ('s client_world_scheme, unit) handler" where
  "run_client env i w =
     (case cl_clients (cw_listener w) i of
        None \<Rightarrow> wret () w
      | Some ctx \<Rightarrow>
          wbind (serve_client (env i)) (\<lambda>_ w1.
            (Ret (), w1\<lparr>cw_listener := (cw_listener w1)\<lparr>cl_clients := (cl_clients (cw_listener w1))(i \<mapsto> sw_ctx w1)\<rparr>\<rparr>))
            (w\<lparr>sw_ctx := ctx\<rparr>))"

fun run_clients :: "(int \<Rightarrow> job_env) \<Rightarrow> int list \<Rightarrow> ('s client_world_scheme, unit) handler" where
  "run_clients env [] = wret ()"
| "run_clients env (i # is) = wbind (run_client env i) (\<lambda>_. run_clients env is)"

definition balanceDelay :: int where
  "balanceDelay = 60000000000"

text \<open>At most once a minute the balances of the connected wallets are recorded.\<close>

definition check_balances ::
  "(prom_call \<Rightarrow> bool) \<Rightarrow> int \<Rightarrow> (string list \<Rightarrow> go_error + (string \<times> 64 word) list) \<Rightarrow> string list \<Rightarrow>
   ('s client_world_scheme, unit) handler" where
  "check_balances accepts now balances addresses w =
     (if balanceDelay < now - cl_lastBalanceCheck (cw_listener w)
      then wbind (upd_listener (\<lambda>c. c\<lparr>cl_lastBalanceCheck := now\<rparr>)) (\<lambda>_.
        if addresses = [] then wret ()
        else case balances addresses of
               Inl e \<Rightarrow> wret ()
             | Inr entries \<Rightarrow> RecordBalances accepts entries) w
      else wret () w)"

definition NewBlockAvailable ::
  "(int \<Rightarrow> job_env) \<Rightarrow> (prom_call \<Rightarrow> bool) \<Rightarrow> int \<Rightarrow> (string list \<Rightarrow> go_error + (string \<times> 64 word) list) \<Rightarrow> int list \<Rightarrow>
   ('s client_world_scheme, unit) handler" where
  "NewBlockAvailable env accepts now balances order w =
     (let served = connected_clients order (cw_listener w);
          addresses = filter (\<lambda>a. a \<noteq> []) (map (\<lambda>(i, ctx). WalletAddr ctx) served)
      in wbind (run_clients env (map fst served)) (\<lambda>_. check_balances accepts now balances addresses) w)"

subsection \<open>Extranonces\<close>

text \<open>A sequence of connections.\<close>

fun connect_all :: "stratum_context list \<Rightarrow> client_listener \<Rightarrow> stratum_context list \<times> client_listener" where
  "connect_all [] c = ([], c)"
| "connect_all (ctx # ctxs) c =
     (let (ctx1, c1) = OnConnect ctx c; (rest, c2) = connect_all ctxs c1 in (ctx1 # rest, c2))"

definition extranonce_inv :: "client_listener \<Rightarrow> bool" where
  "extranonce_inv c \<longleftrightarrow> cl_maxExtranonce c = 2 ^ (8 * min (cl_extranonceSize c) 3) - 1 \<and>
     0 \<le> cl_nextExtranonce c \<and> cl_nextExtranonce c \<le> cl_maxExtranonce c"

lemma extranonce_inv_new: "extranonce_inv (newClientListener z d n)"
  by (simp add: extranonce_inv_def newClientListener_def)

lemma OnConnect_effect:
  assumes "0 < cl_extranonceSize c" "extranonce_inv c"
  shows "Extranonce (fst (OnConnect ctx c)) = hex_pad (cl_extranonceSize c * 2) (nat (cl_nextExtranonce c))"
    "cl_extranonceSize (snd (OnConnect ctx c)) = cl_extranonceSize c"
    "cl_maxExtranonce (snd (OnConnect ctx c)) = cl_maxExtranonce c"
    "extranonce_inv (snd (OnConnect ctx c))"
    "cl_nextExtranonce (snd (OnConnect ctx c)) = (cl_nextExtranonce c + 1) mod (cl_maxExtranonce c + 1)"
proof -
  have "(cl_nextExtranonce c + 1) mod (cl_maxExtranonce c + 1) =
    (if cl_nextExtranonce c < cl_maxExtranonce c then cl_nextExtranonce c + 1 else 0)"
    using assms(2) by (cases "cl_nextExtranonce c = cl_maxExtranonce c") (auto simp: extranonce_inv_def simp del: mod_mult_self1)
  then show "cl_nextExtranonce (snd (OnConnect ctx c)) = (cl_nextExtranonce c + 1) mod (cl_maxExtranonce c + 1)"
    using assms by (simp add: OnConnect_def take_extranonce_def Let_def)
qed (use assms in \<open>auto simp: OnConnect_def take_extranonce_def extranonce_inv_def Let_def not_less\<close>)

text \<open>The extranonces count up modulo the number of extranonces.\<close>

lemma connect_all_extranonces:
  assumes "0 < cl_extranonceSize c" "extranonce_inv c"
  shows "map Extranonce (fst (connect_all ctxs c)) =
    map (\<lambda>k. hex_pad (cl_extranonceSize c * 2) (nat ((cl_nextExtranonce c + int k) mod (cl_maxExtranonce c + 1)))) [0..<length ctxs]"
  using assms
proof (induction ctxs arbitrary: c)
  case (Cons ctx ctxs)
  define c1 where "c1 = snd (OnConnect ctx c)"
  note e = OnConnect_effect [OF Cons.prems, of ctx, folded c1_def]
  have pos: "0 \<le> cl_nextExtranonce c" "cl_nextExtranonce c < cl_maxExtranonce c + 1" using Cons.prems(2) by (auto simp: extranonce_inv_def)
  have step: "((cl_nextExtranonce c + 1) mod (cl_maxExtranonce c + 1) + k) mod (cl_maxExtranonce c + 1) =
    (cl_nextExtranonce c + (1 + k)) mod (cl_maxExtranonce c + 1)" for k
    by (simp add: mod_simps ac_simps)
  have "map Extranonce (fst (connect_all ctxs c1)) = map (\<lambda>k. hex_pad (cl_extranonceSize c * 2)
      (nat ((cl_nextExtranonce c + (1 + int k)) mod (cl_maxExtranonce c + 1)))) [0..<length ctxs]"
    using Cons.IH [OF _ e(4)] e Cons.prems(1) by (simp add: step)
  also have "\<dots> = map (\<lambda>k. hex_pad (cl_extranonceSize c * 2)
      (nat ((cl_nextExtranonce c + int k) mod (cl_maxExtranonce c + 1)))) [1..<Suc (length ctxs)]"
    unfolding One_nat_def map_Suc_upt [symmetric] map_map comp_def by simp
  finally show ?case
    using e(1) pos by (simp add: c1_def case_prod_beta upt_conv_Cons del: upt_Suc)
qed simp

lemma hex_pad_inject:
  assumes "hex_pad w m = hex_pad w n"
  shows "m = n"
proof -
  have "digit_val (CHR ''0'') = Some 0" using digit_val_hex_char [of 0] unfolding hex_char_0 by simp
  then have z: "parse_digits 16 0 (replicate k (CHR ''0'') @ s) = parse_digits 16 0 s" for k s
    by (induction k) simp_all
  have p: "parse_digits 16 0 (hex_pad w k) = Some k" for k by (simp add: hex_pad_def z parse_hex_str)
  have "Some m = Some n" using p [of m] p [of n] unfolding assms by (rule trans [OF sym])
  then show ?thesis by simp
qed

lemma mod_window_inj:
  fixes n :: int
  assumes "(n + int i) mod N = (n + int j) mod N" "int i < N" "int j < N"
  shows "i = j"
proof -
  have "(int i - int j) mod N = 0" using assms(1) by (metis add_diff_cancel_left mod_eq_dvd_iff dvd_imp_mod_0)
  then have "N dvd int i - int j" by presburger
  then have "N dvd int j - int i" by (simp add: dvd_diff_commute)
  with \<open>N dvd int i - int j\<close> show ?thesis
    using assms(2,3) zdvd_not_zless [of "int i - int j" N] zdvd_not_zless [of "int j - int i" N]
    by (cases i j rule: linorder_cases) auto
qed

text \<open>
  C17: with an extranonce size of \<open>n\<close> bytes (at most three) any \<open>256^n\<close> consecutive connections
  get pairwise different extranonces of exactly \<open>2 n\<close> hexadecimal digits, from whatever point of
  the counter they start: the counter wraps only after all of them were given out.
\<close>

theorem extranonces_distinct:
  assumes "0 < cl_extranonceSize c" "cl_extranonceSize c \<le> 3" "extranonce_inv c" "length ctxs \<le> 256 ^ cl_extranonceSize c"
  shows "distinct (map Extranonce (fst (connect_all ctxs c))) \<and>
    (\<forall>ctx \<in> set (fst (connect_all ctxs c)). length (Extranonce ctx) = 2 * cl_extranonceSize c) \<and>
    extranonce_inv (snd (connect_all ctxs c))"
proof -
  let ?N = "cl_maxExtranonce c + 1"
  let ?x = "\<lambda>k. hex_pad (cl_extranonceSize c * 2) (nat ((cl_nextExtranonce c + int k) mod ?N))"
  have N: "?N = 256 ^ cl_extranonceSize c" using assms(2,3) by (simp add: extranonce_inv_def min_def power_mult)
  then have "int (length ctxs) \<le> ?N" using assms(4) by (metis of_nat_le_iff of_nat_numeral of_nat_power)
  then have "inj_on ?x {0..<length ctxs}"
    using mod_window_inj [of "cl_nextExtranonce c" _ ?N] N
    by (intro inj_onI) (auto dest!: hex_pad_inject simp: nat_eq_iff split: if_splits)
  moreover have "length (?x k) = 2 * cl_extranonceSize c" for k
  proof -
    have "nat ((cl_nextExtranonce c + int k) mod ?N) < 16 ^ (cl_extranonceSize c * 2)"
      unfolding N by (simp add: power_mult nat_less_iff mult.commute [of _ 2])
    then show ?thesis using assms(1) by (simp add: length_hex_pad)
  qed
  moreover have "extranonce_inv (snd (connect_all ctxs c))"
    using assms(1,3)
  proof (induction ctxs arbitrary: c)
    case (Cons ctx ctxs)
    then show ?case using OnConnect_effect [OF Cons.prems] by (simp add: case_prod_beta)
  qed simp
  moreover have "Extranonce ctx \<in> ?x ` {0..<length ctxs}" if "ctx \<in> set (fst (connect_all ctxs c))" for ctx
  proof -
    have "Extranonce ctx \<in> set (map Extranonce (fst (connect_all ctxs c)))" using that by simp
    then show ?thesis unfolding connect_all_extranonces [OF assms(1,3)] by simp
  qed
  ultimately show ?thesis
    unfolding connect_all_extranonces [OF assms(1,3)] by (fastforce simp: distinct_map)
qed

theorem extranonces_distinct_witness:
  "distinct (map Extranonce (fst (connect_all (replicate 256 (plain_ctx ''w'')) (newClientListener 0 (Fin 4) 1))))"
  using extranonces_distinct [OF _ _ extranonce_inv_new, of 0 "Fin 4" 1 "replicate 256 (plain_ctx ''w'')"]
  by (simp add: newClientListener_def)

end
