(* ===== verification/Work_Laws.thy ===== *)
theory Work_Laws
  imports Client_Handler Share_Counts
begin

text \<open>
  What the distribution of work guarantees. A connection is ready when its difficulty has a target,
  its stored jobs carry blocks, its labels are valid text, and no worker's variable difficulty is
  negative or undefined. Readiness is a frame of the share handler (the locale \<open>share_frame\<close> gives
  its steps), it is reached by the first work that is sent, and kept by everything after.
\<close>

subsection \<open>Good difficulties\<close>

definition diff_positive :: "f64 \<Rightarrow> bool" where
  "diff_positive d \<longleftrightarrow> d \<noteq> FNaN \<and> \<not> f64_is_zero d \<and> \<not> f64_lt d (Fin 0)"

definition diff_nonneg :: "f64 \<Rightarrow> bool" where
  "diff_nonneg d \<longleftrightarrow> d \<noteq> FNaN \<and> \<not> f64_lt d (Fin 0)"

definition diff_usable :: "hoosatDiff \<Rightarrow> bool" where
  "diff_usable d \<longleftrightarrow> diff_positive (diffValue d) \<and> targetValue d \<noteq> None \<and> \<not> f64_lt (hashValue d) (Fin 0)"

lemma diff_positive_nonneg: "diff_positive d \<Longrightarrow> diff_nonneg d"
  by (simp add: diff_positive_def diff_nonneg_def)

lemma diff_nonneg_cases: "diff_nonneg d \<Longrightarrow> \<not> f64_eq d (Fin 0) \<Longrightarrow> diff_positive d"
  by (cases d) (auto simp: diff_nonneg_def diff_positive_def)

lemma f64_round_nonneg:
  assumes "0 \<le> r"
  shows "diff_nonneg (f64_round False r)"
proof -
  define u where "u = pow2 (max (ilog2 r) (- 1022) - 52)"
  have "0 \<le> r / u" using assms by (simp add: u_def)
  then have "round_half_even 0 \<le> round_half_even (r / u)" by (rule round_half_even_mono)
  then have "0 \<le> round_half_even (r / u)" using round_half_even_of_int [of 0] by simp
  then have "0 \<le> rat_of_int (round_half_even (r / u)) * u" by (simp add: u_def)
  then show ?thesis
    using assms by (auto simp: f64_round_def diff_nonneg_def f64_zero_def Let_def u_def [symmetric] not_less)
qed

lemma bf_round_nonneg: "0 \<le> r \<Longrightarrow> 0 < p \<Longrightarrow> 0 \<le> bf_round p r"
  using bf_round_pos [of r p] by (cases "r = 0") auto

text \<open>Setting a positive difficulty gives a usable one.\<close>

lemma setDiffValue_usable:
  assumes "diff_positive d"
  shows "\<exists>k'. setDiffValue k d = Ret k' \<and> diff_usable k'"
proof -
  obtain t where t: "DiffToTarget d = Ret t" "t \<noteq> None"
    using DiffToTarget_Ret [of d] assms by (auto simp: diff_positive_def)
  have "\<exists>h. DiffToHash d = Ret h \<and> diff_nonneg h"
  proof (cases d)
    case (Fin r)
    then have "0 < r" using assms by (simp add: diff_positive_def)
    then show ?thesis using Fin
      by (simp add: DiffToHash_def minHash_eq bigGig_def bf_mul_def bf_quo_def bf_round_pos bf_round_nonneg f64_round_nonneg
          less_imp_neq [THEN not_sym] bf_zero_def)
  qed (use assms in \<open>auto simp: DiffToHash_def minHash_eq bigGig_def bf_mul_def bf_quo_def diff_positive_def diff_nonneg_def\<close>)
  then show ?thesis using t assms by (auto simp: setDiffValue_def diff_usable_def diff_nonneg_def)
qed

lemma TargetToDiff_nonneg:
  assumes "0 \<le> target"
  shows "\<exists>d. TargetToDiff target = Ret d \<and> diff_nonneg d"
  using assms
  by (auto simp: TargetToDiff_def bf_SetInt_def maxTarget_eq bf_quo_def bf_zero_def diff_nonneg_def [of "FInf _"]
      bf_round_nonneg f64_round_nonneg Let_def)

lemma vardiff_floor_max: "d \<noteq> FNaN \<Longrightarrow> diff_positive (f64_max d vardiff_floor)"
proof -
  assume "d \<noteq> FNaN"
  obtain r where r: "0 < r" "vardiff_floor = Fin r" using vardiff_floor_pos by blast
  show ?thesis unfolding r(2) using r(1) \<open>d \<noteq> FNaN\<close> by (cases d) (auto simp: f64_max_def diff_positive_def)
qed

lemma CalculateTarget_nonneg: "0 \<le> CalculateTarget bits"
  by (simp add: CalculateTarget_def Let_def)

subsection \<open>Readiness\<close>

definition vardiff_ok :: "share_handler \<Rightarrow> bool" where
  "vardiff_ok sh \<longleftrightarrow> (\<forall>k st. sh_stats sh k = Some st \<longrightarrow> diff_nonneg (MinDiff st))"

definition ready_state :: "mining_state \<Rightarrow> bool" where
  "ready_state ms \<longleftrightarrow> initialized ms \<and> blocks_present ms \<and> 0 \<le> bigDiff ms \<and> (\<exists>d. stratumDiff ms = Some d \<and> diff_usable d)"

definition ready :: "'s share_world_scheme \<Rightarrow> bool" where
  "ready w \<longleftrightarrow> labels_ok (sw_ctx w) \<and> ready_state (State (sw_ctx w)) \<and> vardiff_ok (sw_sh w)"

definition same_ready :: "'s share_world_scheme \<Rightarrow> 's share_world_scheme \<Rightarrow> bool" where
  "same_ready w w' \<longleftrightarrow>
     State (sw_ctx w') = State (sw_ctx w) \<and> Summary (sw_ctx w') = Summary (sw_ctx w) \<and>
     (vardiff_ok (sw_sh w) \<longrightarrow> vardiff_ok (sw_sh w'))"

lemma vardiff_ok_stats [simp]: "vardiff_ok (sh\<lparr>sh_tipBlueScore := t\<rparr>) = vardiff_ok sh"
    "vardiff_ok (sh\<lparr>sh_miningDB := d, sh_rewardJobs := js\<rparr>) = vardiff_ok sh"
  by (simp_all add: vardiff_ok_def)

lemma vardiff_ok_upd: "vardiff_ok sh \<Longrightarrow> diff_nonneg (MinDiff st) \<Longrightarrow> vardiff_ok (sh\<lparr>sh_stats := (sh_stats sh)(k \<mapsto> st)\<rparr>)"
  by (simp add: vardiff_ok_def)

lemma new_stats_nonneg: "diff_nonneg (MinDiff (new_stats n c))"
  by (simp add: new_stats_def empty_stats_def diff_nonneg_def)

interpretation calm: share_frame same_ready
  by unfold_locales
    (simp_all add: same_ready_def same_but_ioD(7) same_but_io_Summary vardiff_ok_upd new_stats_nonneg)

lemma ready_share_ok: "ready w \<Longrightarrow> share_ok w"
  by (auto simp: ready_def ready_state_def share_ok_def difficulty_set_def diff_usable_def)

lemma ready_same: "same_ready w w' \<Longrightarrow> ready w \<Longrightarrow> ready w'"
  using labels_ok_Summary [of "sw_ctx w'" "sw_ctx w"] by (simp add: ready_def same_ready_def)

named_theorems safe_ready "steps that keep a connection ready and do not panic"

declare safe_wbind [safe_ready] safe_wret [safe_ready]

lemma safe_ready_calm:
  assumes "keeps same_ready m" "\<And>w e. ready w \<Longrightarrow> fst (m w) \<noteq> Panic e"
  shows "safe ready m"
  using assms ready_same by (intro safeI) (blast dest: keepsD)

lemma safe_ready_share:
  assumes "keeps same_ready m" "safe share_ok m"
  shows "safe ready m"
  by (rule safe_ready_calm [OF assms(1)]) (use safeD [OF assms(2)] ready_share_ok in blast)

lemma ready_getCreateStats [safe_ready]: "accepts_ok (env_accepts env) \<Longrightarrow> safe ready (getCreateStats env)"
  by (rule safe_ready_share [OF calm.stats safe_getCreateStats])

lemma ready_upd_stats [safe_ready]:
  assumes "\<And>st. diff_nonneg (MinDiff st) \<Longrightarrow> diff_nonneg (MinDiff (f st))"
  shows "safe ready (upd_stats key f)"
  unfolding upd_stats_def upd_sh_def
proof (rule safe_wmodify)
  fix w :: "'a share_world_scheme" assume w: "ready w"
  then have "vardiff_ok ((sw_sh w)\<lparr>sh_stats := (sh_stats (sw_sh w))(key := map_option f (sh_stats (sw_sh w) key))\<rparr>)"
    using vardiff_ok_upd [of "sw_sh w" _ key] assms
    by (cases "sh_stats (sw_sh w) key") (auto simp: ready_def vardiff_ok_def)
  then show "ready (w\<lparr>sw_sh := (sw_sh w)\<lparr>sh_stats := (sh_stats (sw_sh w))(key := map_option f (sh_stats (sw_sh w) key))\<rparr>\<rparr>)"
    using w by (simp add: ready_def)
qed

lemma ready_upd_sh [safe_ready]: "(\<And>sh. sh_stats (f sh) = sh_stats sh) \<Longrightarrow> safe ready (upd_sh f)"
  unfolding upd_sh_def by (rule safe_wmodify) (simp add: ready_def vardiff_ok_def)

lemma ready_startClientVardiff [safe_ready]: "accepts_ok (env_accepts env) \<Longrightarrow> safe ready (startClientVardiff env)"
  unfolding startClientVardiff_def by (intro safe_ready) (simp_all add: startVarDiff_def)

lemma ready_stats_field [safe_ready]: "safe ready (stats_field f key)"
  by (simp add: safe_def stats_field_def)

lemma ready_setClientVardiff [safe_ready]:
  assumes "accepts_ok (env_accepts env)" "d \<noteq> FNaN"
  shows "safe ready (setClientVardiff env d)"
  unfolding setClientVardiff_def vardiff_floor_def [symmetric]
  by (intro safe_ready assms)
    (use vardiff_floor_max [OF assms(2)] in \<open>simp add: startVarDiff_def updateVarDiff_def diff_positive_nonneg\<close>)

lemma ready_worker_error [safe_ready]:
  assumes "accepts_ok (env_accepts (je_node env))"
  shows "safe ready (worker_error env code)"
proof (rule safe_ready_calm)
  show "keeps same_ready (worker_error env code)"
    by (rule keepsI) (simp add: worker_error_def keepsD [OF calm.records(7)])
  fix w :: "'a share_world_scheme" and e assume "ready w"
  then show "fst (worker_error env code w) \<noteq> Panic e"
    using records_ok(8) [OF assms, of "sw_ctx w" code w] by (auto simp: ready_def worker_error_def)
qed

lemma ready_send_event [safe_ready]: "safe ready (send_event ev)"
  by (rule safe_ready_calm) (simp_all add: keeps_def send_event_def calm.io Send_io)

lemma ready_current_diff [safe_ready]: "safe ready current_diff"
  by (auto simp: safe_def current_diff_def ready_def ready_state_def wret_def)

lemma ready_sendClientDiff [safe_ready]:
  assumes "accepts_ok (env_accepts (je_node env))"
  shows "safe ready (sendClientDiff env)"
  unfolding sendClientDiff_def
  by (intro safe_ready assms) (simp add: safe_ready assms split: option.split)

subsection \<open>Work on a ready connection\<close>

text \<open>A safe step whose result has a property, and what may follow it.\<close>

definition yields :: "('s \<Rightarrow> bool) \<Rightarrow> ('s, 'a) handler \<Rightarrow> ('a \<Rightarrow> bool) \<Rightarrow> bool" where
  "yields I m Q \<longleftrightarrow> safe I m \<and> (\<forall>s x s'. I s \<longrightarrow> m s = (Ret x, s') \<longrightarrow> Q x)"

lemma yieldsD: "yields I m Q \<Longrightarrow> I s \<Longrightarrow> m s = (Ret x, s') \<Longrightarrow> Q x \<and> I s'"
  by (metis yields_def safeD snd_conv)

lemma safe_wbind_after:
  assumes "I (snd (m s)) \<and> (\<forall>e. fst (m s) \<noteq> Panic e)" "\<And>x s'. m s = (Ret x, s') \<Longrightarrow> safe I (f x)"
  shows "I (snd (wbind m f s)) \<and> (\<forall>e. fst (wbind m f s) \<noteq> Panic e)"
proof (cases "m s")
  case (Pair r s')
  show ?thesis
  proof (cases r)
    case (Ret x)
    then show ?thesis using safeD [OF assms(2), of x s' s'] assms(1) Pair by (simp add: wbind_def)
  qed (use assms(1) Pair in \<open>simp_all add: wbind_def\<close>)
qed

lemma safe_yields_wbind:
  assumes "yields I m Q" "\<And>x. Q x \<Longrightarrow> safe I (f x)"
  shows "safe I (wbind m f)"
proof (rule safeI)
  fix s assume "I s"
  then show "I (snd (wbind m f s)) \<and> (\<forall>e. fst (wbind m f s) \<noteq> Panic e)"
    using assms yieldsD [OF assms(1)] by (intro safe_wbind_after) (auto simp: yields_def safe_def)
qed

lemma yields_wbind:
  assumes "yields I m Q" "\<And>x. Q x \<Longrightarrow> yields I (f x) P"
  shows "yields I (wbind m f) P"
  unfolding yields_def
proof (intro conjI allI impI)
  show "safe I (wbind m f)" using assms by (intro safe_yields_wbind [OF assms(1)]) (simp add: yields_def)
  fix s y s' assume "I s" "wbind m f s = (Ret y, s')"
  then obtain x s1 where "m s = (Ret x, s1)" "f x s1 = (Ret y, s')" by (blast dest: wbind_RetD)
  then show "P y" using yieldsD [OF assms(1) \<open>I s\<close>] yieldsD [OF assms(2)] by blast
qed

lemma yields_any: "safe I m \<Longrightarrow> yields I m (\<lambda>x. True)"
  by (simp add: yields_def)

lemma yields_wret: "Q x \<Longrightarrow> yields I (wret x) Q"
  by (auto simp: yields_def safe_wret wret_def)

lemma yields_vardiff:
  assumes "accepts_ok (env_accepts env)"
  shows "yields ready (getClientVardiff env) diff_nonneg"
  unfolding getClientVardiff_def
proof (rule yields_wbind [OF yields_any [OF ready_getCreateStats [OF assms]]])
  fix key
  show "yields ready (stats_field MinDiff key) diff_nonneg"
    by (auto simp: yields_def ready_stats_field stats_field_def ready_def vardiff_ok_def empty_stats_def diff_nonneg_def
        split: option.splits)
qed

lemma yields_wanted_diff:
  assumes "accepts_ok (env_accepts (je_node env))"
  shows "yields ready (wanted_diff env) diff_nonneg"
proof -
  have sd: "safe ready (upd_sh (setSoloDiff d) :: ('a share_world_scheme, unit) handler)" for d
    by (rule ready_upd_sh) (simp add: setSoloDiff_def)
  have t: "yields ready (wbind (upd_sh (setSoloDiff d)) (\<lambda>_.
      if je_soloMining env then wret d else getClientVardiff (je_node env)) :: ('a share_world_scheme, f64) handler) diff_nonneg"
    if "diff_nonneg d" for d
    using that by (intro yields_wbind [OF yields_any [OF sd]]) (simp add: yields_wret yields_vardiff [OF assms])
  have "wanted_diff env w = wbind (upd_sh (setSoloDiff d)) (\<lambda>_.
      if je_soloMining env then wret d else getClientVardiff (je_node env)) w" if "TargetToDiff (bigDiff (State (sw_ctx w))) = Ret d"
    for w :: "'a share_world_scheme" and d
    using that by (simp add: wanted_diff_def lift_out_def wbind_def)
  moreover have "\<exists>d. TargetToDiff (bigDiff (State (sw_ctx w))) = Ret d \<and> diff_nonneg d" if "ready w"
    for w :: "'a share_world_scheme"
    using that TargetToDiff_nonneg by (auto simp: ready_def ready_state_def)
  ultimately show ?thesis using t unfolding yields_def safe_def by metis
qed

lemma ready_set_difficulty [safe_ready]:
  assumes "diff_positive d"
  shows "safe ready (set_difficulty d)"
proof (rule safeI)
  fix w :: "'a share_world_scheme" assume w: "ready w"
  obtain k where "setDiffValue (case stratumDiff (State (sw_ctx w)) of None \<Rightarrow> newHoosatDiff | Some d \<Rightarrow> d) d = Ret k" "diff_usable k"
    using setDiffValue_usable [OF assms] by blast
  moreover have "labels_ok ((sw_ctx w)\<lparr>State := ms\<rparr>)" for ms
    using w labels_ok_Summary [of "(sw_ctx w)\<lparr>State := ms\<rparr>" "sw_ctx w"] by (simp add: ready_def Summary_def)
  ultimately show "ready (snd (set_difficulty d w)) \<and> (\<forall>e. fst (set_difficulty d w) \<noteq> Panic e)"
    using w by (simp add: set_difficulty_def upd_state_def upd_ctx_def wmodify_def ready_def ready_state_def blocks_present_def)
qed

lemma yields_settle_diff:
  assumes "diff_nonneg v"
  shows "yields ready (settle_diff env v) (\<lambda>(a, b). diff_positive a)"
proof -
  have "settle_diff env v w = (Ret (if f64_eq v (Fin 0) then (diffValue d, diffValue d) else (v, diffValue d)), w)"
    if "stratumDiff (State (sw_ctx w)) = Some d" for w :: "'a share_world_scheme" and d
    using that by (simp add: settle_diff_def read_diff_def has_diff_def wbind_def wret_def)
  moreover have "\<exists>d. stratumDiff (State (sw_ctx w)) = Some d \<and> diff_positive (diffValue d)" if "ready w" for w :: "'a share_world_scheme"
    using that by (auto simp: ready_def ready_state_def diff_usable_def)
  ultimately show ?thesis using diff_nonneg_cases [OF assms] by (fastforce simp: yields_def safe_def split: if_splits)
qed

lemma ready_has_diff [safe_ready]: "safe ready has_diff"
  by (simp add: safe_def has_diff_def)

lemma ready_adjust_diff:
  assumes "accepts_ok (env_accepts (je_node env))" "diff_nonneg v"
  shows "safe ready (adjust_diff env v)"
  unfolding adjust_diff_def
proof (rule safe_yields_wbind [OF yields_settle_diff [OF assms(2)]])
  fix ab :: "f64 \<times> f64"
  assume "case ab of (a, b) \<Rightarrow> diff_positive a"
  then show "safe ready (case ab of (a, b) \<Rightarrow> wbind has_diff (\<lambda>known.
       if \<not> known \<or> \<not> f64_eq a b
       then wbind (set_difficulty a) (\<lambda>_. wbind (sendClientDiff env) (\<lambda>_. startClientVardiff (je_node env)))
       else wret ()))"
    by (cases ab) (simp add: safe_ready assms)
qed

lemma ready_record_job [safe_ready]:
  assumes "accepts_ok accepts"
  shows "safe ready (record_ctx (RecordNewJob accepts))"
proof (rule safe_ready_calm)
  show "keeps same_ready (record_ctx (RecordNewJob accepts))"
    unfolding RecordNewJob_def by (intro calm.ctx_record calm.prom)
  fix w :: "'a share_world_scheme" and e assume "ready w"
  then have "labels_ok (sw_ctx w)" by (simp add: ready_def)
  then have "\<forall>c \<in> set [PInc ''htn_worker_job_counter'' (commonLabels (sw_ctx w))]. call_ok c"
    by (simp add: call_ok_def call_labels.simps commonLabels_def labels_ok_def labels_utf8_def)
  from prom_all_ok [OF assms this, of w] show "fst (record_ctx (RecordNewJob accepts) w) \<noteq> Panic e"
    unfolding record_ctx_def RecordNewJob_def by simp
qed

lemma job_params_Ret: "length hdr = 32 \<Longrightarrow> \<exists>ps. job_params hdr b jobId big = Ret ps"
  by (simp add: job_params_def GenerateLargeJobParams_def GenerateJobHeader_def read_words_Some read_words_be_Some
      le_uint64_def be64_def)

lemma ready_notify [safe_ready]:
  assumes "accepts_ok (env_accepts (je_node env))" "length hdr = 32"
  shows "safe ready (notify env hdr b jobId)"
proof (rule safeI)
  fix w :: "'a share_world_scheme" assume w: "ready w"
  obtain ps where ps: "job_params hdr b jobId (useBigJob (State (sw_ctx w))) = Ret ps" using job_params_Ret [OF assms(2)] by blast
  have "safe ready (wbind (send_event \<lparr>ev_Id = JInt jobId, ev_Version = ''2.0'', ev_Method = ''mining.notify'', ev_Params = ps\<rparr>) (\<lambda>err.
       case err of
         Some e \<Rightarrow>
           if error_is e ErrorDisconnected then worker_error env ErrDisconnected
           else wbind (worker_error env ErrFailedSendWork) (\<lambda>_. record_ctx (RecordNewJob (env_accepts (je_node env))))
       | None \<Rightarrow> record_ctx (RecordNewJob (env_accepts (je_node env)))) :: ('a share_world_scheme, unit) handler)"
    by (intro safe_ready) (simp add: safe_ready assms split: option.split)
  from safeD [OF this w] show "ready (snd (notify env hdr b jobId w)) \<and> (\<forall>e. fst (notify env hdr b jobId w) \<noteq> Panic e)"
    using ps by (simp add: notify_def lift_out_def wbind_def [of "lift_out _"])
qed

subsection \<open>The first work\<close>

text \<open>A connection before its first work: no job, no difficulty; or ready.\<close>

definition idle_ok :: "'s share_world_scheme \<Rightarrow> bool" where
  "idle_ok w \<longleftrightarrow> labels_ok (sw_ctx w) \<and> vardiff_ok (sw_sh w) \<and>
     (ready_state (State (sw_ctx w)) \<or> \<not> initialized (State (sw_ctx w)) \<and> Jobs (State (sw_ctx w)) = Map.empty)"

text \<open>A connection that holds jobs but may not have a difficulty yet.\<close>

definition stocked :: "'s share_world_scheme \<Rightarrow> bool" where
  "stocked w \<longleftrightarrow> labels_ok (sw_ctx w) \<and> vardiff_ok (sw_sh w) \<and> blocks_present (State (sw_ctx w)) \<and>
     0 \<le> bigDiff (State (sw_ctx w)) \<and> (initialized (State (sw_ctx w)) \<longrightarrow> ready_state (State (sw_ctx w)))"

lemma ready_idle_ok: "ready w \<Longrightarrow> idle_ok w"
  by (simp add: ready_def idle_ok_def)

lemma labels_ok_State: "labels_ok (c\<lparr>State := ms\<rparr>) = labels_ok c"
  by (rule labels_ok_Summary) (simp add: Summary_def)

lemma init_client_ready:
  assumes "accepts_ok (env_accepts (je_node env))" "diff_positive (je_minShareDiff env)" "stocked w"
  shows "ready (snd (init_client env w)) \<and> (\<forall>e. fst (init_client env w) \<noteq> Panic e)"
proof (cases "initialized (State (sw_ctx w))")
  case True
  then show ?thesis using assms(3) by (simp add: init_client_def wret_def ready_def stocked_def)
next
  case False
  define w1 where "w1 = w\<lparr>sw_ctx := (sw_ctx w)\<lparr>State := (State (sw_ctx w))\<lparr>initialized := True,
    useBigJob := bigJobRegex (RemoteApp (sw_ctx w))\<rparr>\<rparr>\<rparr>"
  obtain k where k: "setDiffValue newHoosatDiff (je_minShareDiff env) = Ret k" "diff_usable k"
    using setDiffValue_usable [OF assms(2)] by blast
  define w2 where "w2 = w1\<lparr>sw_ctx := (sw_ctx w1)\<lparr>State := (State (sw_ctx w1))\<lparr>stratumDiff := Some k\<rparr>\<rparr>\<rparr>"
  have "fresh_difficulty (je_minShareDiff env) w1 = (Ret (), w2)"
    using k(1) by (simp add: fresh_difficulty_def set_difficulty_def upd_state_def upd_ctx_def wmodify_def w2_def)
  then have run: "init_client env w = wbind (if je_soloMining env then wret () else sendClientDiff env) (\<lambda>_.
      wbind (setClientVardiff (je_node env) (je_minShareDiff env)) (\<lambda>_. wret ())) w2"
    using False by (simp add: init_client_def upd_ctx_def w1_def [symmetric] wbind_Ret)
  have "ready w2" using assms(3) k(2)
    by (simp add: ready_def ready_state_def stocked_def w2_def w1_def labels_ok_State blocks_present_def)
  moreover have "je_minShareDiff env \<noteq> FNaN" using assms(2) by (simp add: diff_positive_def)
  then have "safe ready (wbind (if je_soloMining env then wret () else sendClientDiff env) (\<lambda>_.
      wbind (setClientVardiff (je_node env) (je_minShareDiff env)) (\<lambda>_. wret ())) :: ('a share_world_scheme, unit) handler)"
    by (simp add: safe_ready assms)
  ultimately show ?thesis using run safeD by metis
qed

lemma blocks_present_AddJob:
  assumes "blocks_present ms" "first_tx_present b"
  shows "blocks_present (snd (AddJob ms (Some b) fee))"
  using assms by (auto simp: blocks_present_def AddJob_def first_tx_present_def Let_def)

lemma AddJob_frame:
  "initialized (snd (AddJob ms b fee)) = initialized ms" "stratumDiff (snd (AddJob ms b fee)) = stratumDiff ms"
  "bigDiff (snd (AddJob ms b fee)) = bigDiff ms" "useBigJob (snd (AddJob ms b fee)) = useBigJob ms"
  by (simp_all add: AddJob_def Let_def)

text \<open>Sending work brings every good connection into a ready state.\<close>

lemma send_work_ready:
  assumes "accepts_ok (env_accepts (je_node env))" "diff_positive (je_minShareDiff env)"
    "length (SerializeBlockHeader (je_blake3 env) b) = 32" "first_tx_present b" "idle_ok w"
  shows "ready (snd (send_work env b fee w)) \<and> (\<forall>e. fst (send_work env b fee w) \<noteq> Panic e)"
proof -
  define ms where "ms = (State (sw_ctx w))\<lparr>bigDiff := CalculateTarget (ucast (h_Bits (b_Header b)))\<rparr>"
  define w2 where "w2 = w\<lparr>sw_ctx := (sw_ctx w)\<lparr>State := snd (AddJob ms (Some b) fee)\<rparr>\<rparr>"
  have run: "send_work env b fee w = wbind (init_client env) (\<lambda>_. wbind (wanted_diff env) (\<lambda>varDiff.
     wbind (adjust_diff env varDiff) (\<lambda>_. notify env (SerializeBlockHeader (je_blake3 env) b) b (fst (AddJob ms (Some b) fee))))) w2"
    by (cases "AddJob ms (Some b) fee")
      (simp add: send_work_def upd_state_def upd_ctx_def add_job_def wbind_def [of "add_job _ _"] ms_def w2_def)
  have "blocks_present ms"
    using assms(5) by (auto simp: idle_ok_def ready_state_def blocks_present_def ms_def)
  then have "stocked w2"
    using assms(4,5) blocks_present_AddJob [of ms b fee] AddJob_frame [of ms "Some b" fee]
    by (auto simp: stocked_def w2_def labels_ok_State idle_ok_def ready_state_def ms_def CalculateTarget_nonneg)
  from init_client_ready [OF assms(1,2) this]
  show ?thesis unfolding run
    by (rule safe_wbind_after) (intro safe_yields_wbind [OF yields_wanted_diff [OF assms(1)]] safe_ready ready_adjust_diff assms)
qed

subsection \<open>Templates\<close>

definition template_ok :: "gbt_template \<Rightarrow> bool" where
  "template_ok t \<longleftrightarrow> (\<exists>b. t = Some b \<and> first_tx_present b)"

definition cache_ok :: "htn_api \<Rightarrow> bool" where
  "cache_ok api \<longleftrightarrow> (\<forall>p e. api_gbtCache api p = Some e \<longrightarrow> template_ok (ce_template e))"

definition gbt_env_ok :: "gbt_env \<Rightarrow> bool" where
  "gbt_env_ok env \<longleftrightarrow> accepts_ok (ge_accepts env) \<and> (\<forall>p x t. ge_GetBlockTemplate env p x = Inr t \<longrightarrow> template_ok t)"

text \<open>A request leaves client and share handler alone, keeps the cache good, and answers with a good template.\<close>

definition asks_ok :: "('s api_world_scheme, 'a) handler \<Rightarrow> ('a \<Rightarrow> bool) \<Rightarrow> bool" where
  "asks_ok m Q \<longleftrightarrow> (\<forall>w. cache_ok (aw_api w) \<longrightarrow>
     (\<exists>x w'. m w = (Ret x, w') \<and> Q x \<and> cache_ok (aw_api w') \<and> sw_ctx w' = sw_ctx w \<and> sw_sh w' = sw_sh w))"

lemma asks_okD:
  assumes "asks_ok m Q" "cache_ok (aw_api w)"
  obtains x w' where "m w = (Ret x, w')" "Q x" "cache_ok (aw_api w')" "sw_ctx w' = sw_ctx w" "sw_sh w' = sw_sh w"
  using assms unfolding asks_ok_def by blast

lemma asks_ok_wbind:
  assumes "asks_ok m Q" "\<And>x. Q x \<Longrightarrow> asks_ok (f x) P"
  shows "asks_ok (wbind m f) P"
  unfolding asks_ok_def
proof (intro allI impI)
  fix w :: "'a api_world_scheme" assume "cache_ok (aw_api w)"
  with assms(1) obtain x w1 where x: "m w = (Ret x, w1)" "Q x" "cache_ok (aw_api w1)" "sw_ctx w1 = sw_ctx w" "sw_sh w1 = sw_sh w"
    by (rule asks_okD)
  from assms(2) [OF x(2)] x(3) obtain y w2 where "f x w1 = (Ret y, w2)" "P y" "cache_ok (aw_api w2)"
    "sw_ctx w2 = sw_ctx w1" "sw_sh w2 = sw_sh w1" by (rule asks_okD)
  then show "\<exists>y w'. wbind m f w = (Ret y, w') \<and> P y \<and> cache_ok (aw_api w') \<and> sw_ctx w' = sw_ctx w \<and> sw_sh w' = sw_sh w"
    using x by (simp add: wbind_Ret)
qed

lemma asks_ok_wret: "Q x \<Longrightarrow> asks_ok (wret x) Q"
  by (simp add: asks_ok_def wret_def)

lemma asks_ok_upd: "(\<And>a. cache_ok a \<Longrightarrow> cache_ok (f a)) \<Longrightarrow> asks_ok (upd_api f) (\<lambda>_. True)"
  by (simp add: asks_ok_def upd_api_def wmodify_def)

lemma cache_ok_counters [simp]:
  "cache_ok (a\<lparr>api_jobCounter := n\<rparr>) = cache_ok a" "cache_ok (a\<lparr>api_gbtDiverted := n\<rparr>) = cache_ok a"
  "cache_ok (a\<lparr>api_gbtTotal := n\<rparr>) = cache_ok a" "cache_ok (a\<lparr>api_gbtCacheHits := n\<rparr>) = cache_ok a"
  "cache_ok (a\<lparr>api_gbtCacheMisses := n\<rparr>) = cache_ok a" "cache_ok (a\<lparr>api_requests := l\<rparr>) = cache_ok a"
  by (simp_all add: cache_ok_def)

lemma asks_ok_node_template:
  assumes "gbt_env_ok env"
  shows "asks_ok (node_template env p x) (\<lambda>r. \<forall>t. r = Inr t \<longrightarrow> template_ok t)"
  unfolding node_template_def
  by (rule asks_ok_wbind [OF asks_ok_upd]) (use assms in \<open>auto simp: gbt_env_ok_def intro: asks_ok_wret\<close>)

lemma select_payout_returns:
  assumes "gbt_env_ok env"
  shows "\<exists>r w'. select_payout env w = (Ret r, w')"
proof -
  have "RecordDivertedGBT (ge_accepts env) w = (Ret (), w\<lparr>prom_log := prom_log w @ [PInc ''htn_diverted_gbt_total'' []]\<rparr>)"
    for w :: "'a api_world_scheme"
    using assms unfolding RecordDivertedGBT_def by (intro prom_all_ok) (simp_all add: gbt_env_ok_def call_ok_def call_labels.simps)
  then have "fst (select_payout env w) \<noteq> Panic e \<and> fst (select_payout env w) \<noteq> Hang" for e
    by (auto simp: select_payout_def Let_def wret_def upd_api_def wbind_def wmodify_def
        split: sum.split list.split prod.split bool.split)
  then show ?thesis by (metis outcome.exhaust prod.collapse)
qed

lemma asks_ok_select_payout: "gbt_env_ok env \<Longrightarrow> asks_ok (select_payout env) (\<lambda>_. True)"
  unfolding asks_ok_def
proof (intro allI impI)
  fix w :: "'a api_world_scheme" assume a: "gbt_env_ok env" "cache_ok (aw_api w)"
  then obtain p fee w' where r: "select_payout env w = (Ret (p, fee), w')" using select_payout_returns by (metis prod.exhaust)
  from select_payout_effect [OF this] a(2)
  show "\<exists>x w'. select_payout env w = (Ret x, w') \<and> True \<and> cache_ok (aw_api w') \<and> sw_ctx w' = sw_ctx w \<and> sw_sh w' = sw_sh w"
    using r by (auto simp: cache_ok_def same_cache_def)
qed

lemma asks_ok_cached_template:
  assumes "gbt_env_ok env"
  shows "asks_ok (cached_template env p x) (\<lambda>r. \<forall>t fee. r = Inr (t, fee) \<longrightarrow> template_ok t)"
  unfolding asks_ok_def
proof (intro allI impI)
  fix w :: "'a api_world_scheme" assume w: "cache_ok (aw_api w)"
  let ?Q = "\<lambda>r. \<forall>t fee. r = Inr (t, fee) \<longrightarrow> template_ok t"
  show "\<exists>r w'. cached_template env p x w = (Ret r, w') \<and> ?Q r \<and> cache_ok (aw_api w') \<and> sw_ctx w' = sw_ctx w \<and> sw_sh w' = sw_sh w"
  proof (cases "cache_lookup (api_gbtCacheTTL (aw_api w)) (ge_check_time env) p (api_gbtCache (aw_api w))")
    case (Some t)
    then have "template_ok t" using w by (auto simp: cache_lookup_def cache_ok_def split: option.splits if_splits)
    then show ?thesis using w Some by (simp add: cached_template_def upd_api_def wret_def)
  next
    case None
    have st: "cache_ok (a\<lparr>api_gbtCache := cache_store n p t (api_gbtCache a)\<rparr>)" if "cache_ok a" "template_ok t" for a n t
      using that by (auto simp: cache_ok_def cache_store_def)
    have "asks_ok (wbind (upd_api (\<lambda>a. a\<lparr>api_gbtCacheMisses := api_gbtCacheMisses a + 1\<rparr>)) (\<lambda>_.
          wbind (node_template env p x) (\<lambda>r.
            case r of
              Inl e \<Rightarrow> wret (Inl (Wrap ''failed fetching new block template from hoosat'' e))
            | Inr template \<Rightarrow>
                wbind (upd_api (\<lambda>a. a\<lparr>api_gbtCache :=
                  cache_store (ge_store_time env) p template (api_gbtCache a)\<rparr>)) (\<lambda>_.
                wret (Inr (template, False))))) :: ('a api_world_scheme, _) handler) ?Q"
      by (intro asks_ok_wbind [OF asks_ok_upd] asks_ok_wbind [OF asks_ok_node_template [OF assms]])
        (auto split: sum.split intro!: asks_ok_wret asks_ok_wbind [OF asks_ok_upd] st)
    then show ?thesis using None w unfolding cached_template_def asks_ok_def by (simp only: option.case)
  qed
qed

lemma asks_ok_fresh_template:
  assumes "gbt_env_ok env"
  shows "asks_ok (fresh_template env p x isFee) (\<lambda>r. \<forall>t fee. r = Inr (t, fee) \<longrightarrow> template_ok t)"
  unfolding fresh_template_def
  by (intro asks_ok_wbind [OF asks_ok_node_template [OF assms]]) (auto split: sum.split intro!: asks_ok_wret)

lemma asks_ok_choice:
  "(\<And>x. asks_ok (f x) Q) \<Longrightarrow> (\<And>x. asks_ok (g x) Q) \<Longrightarrow> asks_ok (\<lambda>w. if P w then f (h w) w else g (h w) w) Q"
  by (simp add: asks_ok_def)

lemma asks_ok_GetBlockTemplate:
  assumes "gbt_env_ok env"
  shows "asks_ok (GetBlockTemplate env poll vote) (\<lambda>r. \<forall>t fee. r = Inr (t, fee) \<longrightarrow> template_ok t)"
  unfolding GetBlockTemplate_def
proof (intro asks_ok_wbind [OF asks_ok_upd] asks_ok_wbind [OF asks_ok_select_payout [OF assms]])
  fix x :: "string \<times> bool"
  show "asks_ok (case x of (p, fee) \<Rightarrow> \<lambda>w.
       let ttl = api_gbtCacheTTL (aw_api w); extraData = extra_data ttl p (WorkerName (sw_ctx w)) poll vote
       in if 0 < ttl \<and> poll = 0 \<and> vote = 0 then cached_template env p extraData w
          else fresh_template env p extraData fee w) (\<lambda>r. \<forall>t fee. r = Inr (t, fee) \<longrightarrow> template_ok t)"
    unfolding Let_def case_prod_beta
    by (rule asks_ok_choice, rule asks_ok_cached_template [OF assms], rule asks_ok_fresh_template [OF assms])
qed simp

subsection \<open>Serving a client\<close>

definition job_env_ok :: "job_env \<Rightarrow> bool" where
  "job_env_ok env \<longleftrightarrow> accepts_ok (env_accepts (je_node env)) \<and> gbt_env_ok (je_gbt env) \<and>
     diff_positive (je_minShareDiff env) \<and> (\<forall>k m. length (je_blake3 env k m) = 32)"

definition session_ok :: "'s api_world_scheme \<Rightarrow> bool" where
  "session_ok w \<longleftrightarrow> idle_ok w \<and> cache_ok (aw_api w)"

lemma idle_ok_same: "same_ready w w' \<Longrightarrow> idle_ok w \<Longrightarrow> idle_ok w'"
  using labels_ok_Summary [of "sw_ctx w'" "sw_ctx w"] by (simp add: idle_ok_def same_ready_def)

lemma idle_error:
  assumes "accepts_ok (env_accepts (je_node env))" "idle_ok w"
  shows "\<exists>cs. worker_error env code w = (Ret (), w\<lparr>prom_log := prom_log w @ cs\<rparr>)"
  using records_ok(8) [OF assms(1), of "sw_ctx w" code w] assms(2) by (simp add: worker_error_def idle_ok_def)

lemma idle_ok_log: "idle_ok (w\<lparr>prom_log := l\<rparr>) = idle_ok w"
  by (simp add: idle_ok_def)

lemma idle_ok_Disconnect: "idle_ok w \<Longrightarrow> idle_ok (w\<lparr>sw_ctx := Disconnect (sw_ctx w)\<rparr>)"
  using labels_ok_Summary [of "Disconnect (sw_ctx w)" "sw_ctx w"] by (simp add: idle_ok_def Disconnect_def Summary_def)

lemma no_wallet_ok:
  assumes "accepts_ok (env_accepts (je_node env))" "idle_ok w"
  shows "idle_ok (snd (no_wallet env w)) \<and> (\<forall>e. fst (no_wallet env w) \<noteq> Panic e)"
  using idle_error [OF assms, of ErrNoMinerAddress] assms(2) idle_ok_Disconnect [of "w\<lparr>prom_log := l\<rparr>" for l]
  by (auto simp: no_wallet_def wbind_def wret_def upd_ctx_def wmodify_def idle_ok_log)

lemma no_template_ok:
  assumes "accepts_ok (env_accepts (je_node env))" "idle_ok w"
  shows "idle_ok (snd (no_template env err w)) \<and> (\<forall>e. fst (no_template env err w) \<noteq> Panic e)"
  using idle_error [OF assms, of ErrInvalidAddressFmt] idle_error [OF assms, of ErrFailedBlockFetch] assms(2)
    idle_ok_Disconnect [of "w\<lparr>prom_log := l\<rparr>" for l]
  by (auto simp: no_template_def wbind_def wret_def upd_ctx_def wmodify_def idle_ok_log)

end
