(* ===== verification/Session_Laws.thy ===== *)
theory Session_Laws
  imports Work_Laws
begin

text \<open>
  What a submission leaves alone. The locale \<open>submit_frame\<close> extends the frame of the share handler
  by the steps that count shares, hand a block to the node and remove a job, and proves once that
  the whole handler respects it; it is interpreted for the relation that only thins out the jobs
  (\<open>thinned\<close>) and for the node connection (\<open>same_api\<close>). Together with the laws of the work that is
  sent this gives the invariant of a connection's whole life.
\<close>

subsection \<open>A frame for whole submissions\<close>

definition count_only :: "(work_stats \<Rightarrow> work_stats) \<Rightarrow> bool" where
  "count_only f \<longleftrightarrow> (\<forall>st. MinDiff (f st) = MinDiff st)"

lemma updateRolling_MinDiff: "MinDiff (updateRollingCounters now d stale bad st) = MinDiff st"
  by (simp add: updateRollingCounters_def Let_def)

lemma count_only_steps:
  "count_only inc_found" "count_only inc_stale" "count_only inc_invalid" "count_only inc_blocks"
  "count_only (rolling_stale now)" "count_only (rolling_invalid now)"
  "count_only (\<lambda>st. updateRollingCounters now hv False False (st\<lparr>SharesDiff := f st, LastShare := l\<rparr>))"
  by (simp_all add: count_only_def inc_found_def inc_stale_def inc_invalid_def inc_blocks_def rolling_stale_def
      rolling_invalid_def updateRolling_MinDiff)

lemma count_only_comp: "count_only f \<Longrightarrow> count_only g \<Longrightarrow> count_only (f \<circ> g)"
  by (simp add: count_only_def)

locale submit_frame = share_frame R for R :: "'s share_world_scheme \<Rightarrow> 's share_world_scheme \<Rightarrow> bool" +
  assumes counted: "count_only f \<Longrightarrow>
      R w (w\<lparr>sw_sh := (sw_sh w)\<lparr>sh_stats := (sh_stats (sw_sh w))(key := map_option f (sh_stats (sw_sh w) key))\<rparr>\<rparr>)"
    and overall: "R w (w\<lparr>sw_sh := (sw_sh w)\<lparr>sh_overall := st\<rparr>\<rparr>)"
    and handed: "R w (w\<lparr>sw_sh := (sw_sh w)\<lparr>sh_invalidations := n, sh_solved := m, sh_submitted := bs\<rparr>\<rparr>)"
    and removed: "R w (w\<lparr>sw_ctx := (sw_ctx w)\<lparr>State := RemoveJob (State (sw_ctx w)) i\<rparr>\<rparr>)"
begin

lemma kept_counts: "count_only f \<Longrightarrow> keeps R (upd_stats key f)"
  by (simp add: keeps_def upd_stats_def upd_sh_def wmodify_def counted)

lemma kept_overall: "keeps R (upd_overall f)"
  by (simp add: keeps_def upd_overall_def upd_sh_def wmodify_def overall)

lemma kept_removal: "keeps R (upd_ctx (\<lambda>c. c\<lparr>State := RemoveJob (State c) i\<rparr>))"
  by (simp add: keeps_def upd_ctx_def wmodify_def removed)

lemma kept_reject:
  "count_only f \<Longrightarrow> (\<And>c. keeps R (metric c)) \<Longrightarrow> (\<And>c i. same_but_io c (snd (answer c i))) \<Longrightarrow>
   keeps R (reject key f g metric answer i)"
  unfolding reject_def by (intro keeps_wbind kept_counts kept_overall ctx_record reply)

lemma kept_rejections:
  "keeps R (reject_invalid env key i (RecordWeakShare accepts) ReplyLowDiffShare)"
  "keeps R (reject_invalid env key i (RecordInvalidShare accepts) ReplyIncorrectPow)"
  "keeps R (reject_invalid env key i (RecordInvalidShare accepts) ReplyBadShare)"
  "keeps R (rejected_block env key i e)"
  "keeps R (reject_stale env si key i e)"
proof -
  show r: "keeps R (reject_invalid env key i (RecordWeakShare accepts) ReplyLowDiffShare)"
    "keeps R (reject_invalid env key i (RecordInvalidShare accepts) ReplyIncorrectPow)"
    "keeps R (reject_invalid env key i (RecordInvalidShare accepts) ReplyBadShare)" for accepts
    unfolding reject_invalid_def by (intro kept_reject count_only_comp count_only_steps records replies_io)+
  show "keeps R (rejected_block env key i e)"
    unfolding rejected_block_def
    by (simp add: r kept_reject count_only_comp count_only_steps records replies_io)
  show "keeps R (reject_stale env si key i e)"
    unfolding reject_stale_def
    by (rule keeps_wbind [OF kept_removal])
      (simp add: kept_reject count_only_comp count_only_steps records replies_io answers)
qed

lemma kept_submit: "keeps R (submit env block si)"
proof -
  have "keeps R (upd_sh (\<lambda>sh. sh\<lparr>sh_submitted := sh_submitted sh @ bs\<rparr>))" for bs
    using handed [where n = "sh_invalidations (sw_sh w)" and m = "sh_solved (sw_sh w)" and w = w for w]
    by (simp add: keeps_def upd_sh_def wmodify_def)
  moreover have "keeps R (upd_sh (\<lambda>sh. if P \<and> sh_invalidateGBTCache sh then sh\<lparr>sh_invalidations := sh_invalidations sh + 1\<rparr> else sh))" for P
    using handed [where n = "sh_invalidations (sw_sh w) + 1" and m = "sh_solved (sw_sh w)" and bs = "sh_submitted (sw_sh w)" and w = w for w]
    by (simp add: keeps_def upd_sh_def wmodify_def frame_refl)
  moreover have "keeps R (upd_sh (\<lambda>sh. if P \<and> sh_onBlockSolved sh then sh\<lparr>sh_solved := sh_solved sh + 1\<rparr> else sh))" for P
    using handed [where n = "sh_invalidations (sw_sh w)" and m = "sh_solved (sw_sh w) + 1" and bs = "sh_submitted (sw_sh w)" and w = w for w]
    by (simp add: keeps_def upd_sh_def wmodify_def frame_refl)
  ultimately show ?thesis
    unfolding submit_def Let_def by (simp add: keeps_wret keeps_wbind kept_removal)
qed

lemma kept_accept: "keeps R (accept_share env key i b c)"
  unfolding accept_share_def Let_def
  by (intro keeps_wbind kept_counts kept_overall count_only_steps value_read ctx_record records persisted replies keeps_wret)

lemma kept_judge: "keeps R (judge_share env si key i b c target num)"
proof (rule keepsI)
  fix w
  have "keeps R (wbind (submit env c si) (\<lambda>err. case err of
      Some e \<Rightarrow> rejected_block env key i e | None \<Rightarrow> accept_share env key i b c))"
    by (rule keeps_wbind [OF kept_submit]) (simp add: kept_rejections kept_accept split: option.split)
  from keepsD [OF this] show "R w (snd (judge_share env si key i b c target num w))"
    by (simp add: judge_share_def keepsD [OF kept_accept] keepsD [OF kept_rejections(1)] keepsD [OF kept_rejections(2)]
        wpanic_def frame_refl split: option.split)
qed

lemma kept_work: "keeps R (check_work env si key i b)"
  by (simp add: check_work_def kept_judge answers hang Let_def split: sum.split option.split)

lemma kept_check: "keeps R (check_share env si i)"
  unfolding check_share_def
  by (intro keeps_wbind stats stale_check)
    (simp add: kept_rejections kept_work keeps_wpanic split: option.split)

lemma kept_HandleSubmit: "keeps R (HandleSubmit env event solo)"
proof (rule keepsI)
  fix w
  show "R w (snd (HandleSubmit env event solo w))"
  proof (cases "parse_submit (env_lib env) event (State (sw_ctx w))")
    case None
    then show ?thesis by (rule submit_invalid)
  next
    case (Some si)
    then show ?thesis using keepsD [OF kept_check] by (simp add: HandleSubmit_valid)
  qed
qed

end

subsection \<open>Submissions thin out the jobs\<close>

definition thinned_jobs :: "mining_state \<Rightarrow> mining_state \<Rightarrow> bool" where
  "thinned_jobs ms ms' \<longleftrightarrow> ms' = ms\<lparr>Jobs := Jobs ms', FeeJobs := FeeJobs ms'\<rparr> \<and> Jobs ms' \<subseteq>\<^sub>m Jobs ms"

lemma thinned_jobs_refl [simp]: "thinned_jobs ms ms"
  by (simp add: thinned_jobs_def)

lemma thinned_jobs_trans: "thinned_jobs a b \<Longrightarrow> thinned_jobs b c \<Longrightarrow> thinned_jobs a c"
  by (cases a; cases b; cases c) (auto simp: thinned_jobs_def intro: map_le_trans)

lemma thinned_jobs_remove: "thinned_jobs ms (RemoveJob ms i)"
  by (simp add: thinned_jobs_def RemoveJob_def Let_def)

lemma thinned_jobsD:
  assumes "thinned_jobs ms ms'"
  shows "initialized ms' = initialized ms" "bigDiff ms' = bigDiff ms" "stratumDiff ms' = stratumDiff ms"
    "Jobs ms' k = Some ob \<Longrightarrow> Jobs ms k = Some ob" "Jobs ms = Map.empty \<Longrightarrow> Jobs ms' = Map.empty"
proof -
  have e: "ms' = ms\<lparr>Jobs := Jobs ms', FeeJobs := FeeJobs ms'\<rparr>" and le: "Jobs ms' \<subseteq>\<^sub>m Jobs ms"
    using assms by (simp_all add: thinned_jobs_def)
  show "initialized ms' = initialized ms" "bigDiff ms' = bigDiff ms" "stratumDiff ms' = stratumDiff ms"
    by (subst e, simp)+
  show "Jobs ms' k = Some ob \<Longrightarrow> Jobs ms k = Some ob" using le by (metis map_le_def domI)
  show "Jobs ms = Map.empty \<Longrightarrow> Jobs ms' = Map.empty" using map_le_implies_dom_le [OF le] by auto
qed

definition thinned :: "'s share_world_scheme \<Rightarrow> 's share_world_scheme \<Rightarrow> bool" where
  "thinned w w' \<longleftrightarrow>
     Summary (sw_ctx w') = Summary (sw_ctx w) \<and> thinned_jobs (State (sw_ctx w)) (State (sw_ctx w')) \<and>
     (vardiff_ok (sw_sh w) \<longrightarrow> vardiff_ok (sw_sh w'))"

lemma vardiff_ok_count:
  assumes "vardiff_ok sh" "count_only f"
  shows "vardiff_ok (sh\<lparr>sh_stats := (sh_stats sh)(key := map_option f (sh_stats sh key))\<rparr>)"
  using assms vardiff_ok_upd [of sh _ key]
  by (cases "sh_stats sh key") (auto simp: vardiff_ok_def count_only_def)

lemma vardiff_ok_rest [simp]:
  "vardiff_ok (sh\<lparr>sh_overall := st\<rparr>) = vardiff_ok sh"
  "vardiff_ok (sh\<lparr>sh_invalidations := n, sh_solved := m, sh_submitted := bs\<rparr>) = vardiff_ok sh"
  by (simp_all add: vardiff_ok_def)

interpretation thin: submit_frame thinned
proof unfold_locales
  fix a b c :: "'s share_world_scheme"
  assume "thinned a b" "thinned b c"
  then show "thinned a c" using thinned_jobs_trans by (auto simp: thinned_def)
next
  fix w :: "'s share_world_scheme" and i
  show "thinned w (w\<lparr>sw_ctx := (sw_ctx w)\<lparr>State := RemoveJob (State (sw_ctx w)) i\<rparr>\<rparr>)"
    using thinned_jobs_remove by (simp add: thinned_def Summary_def)
qed (simp_all add: thinned_def same_but_ioD(7) same_but_io_Summary vardiff_ok_upd new_stats_nonneg vardiff_ok_count)

definition same_api :: "'s api_world_scheme \<Rightarrow> 's api_world_scheme \<Rightarrow> bool" where
  "same_api w w' \<longleftrightarrow> aw_api w' = aw_api w"

interpretation quiet: submit_frame same_api
  by unfold_locales (simp_all add: same_api_def)

lemma ready_state_thinned: "thinned_jobs ms ms' \<Longrightarrow> ready_state ms \<Longrightarrow> ready_state ms'"
  by (simp add: ready_state_def blocks_present_def thinned_jobsD(1-3)) (blast dest: thinned_jobsD(4))

lemma idle_ok_thinned:
  assumes "thinned w w'" "idle_ok w"
  shows "idle_ok w'"
proof -
  have t: "thinned_jobs (State (sw_ctx w)) (State (sw_ctx w'))" using assms(1) by (simp add: thinned_def)
  show ?thesis using assms ready_state_thinned [OF t] thinned_jobsD(1,5) [OF t] labels_ok_Summary [of "sw_ctx w'" "sw_ctx w"]
    by (simp add: idle_ok_def thinned_def) blast
qed

subsection \<open>Submissions before the first work\<close>

text \<open>Without jobs only the labels matter.\<close>

definition labelled :: "'s share_world_scheme \<Rightarrow> bool" where
  "labelled w \<longleftrightarrow> labels_ok (sw_ctx w)"

lemma labelled_kept: "keeps same_work m \<Longrightarrow> labelled w \<Longrightarrow> labelled (snd (m w))"
  unfolding labelled_def by (metis keepsD same_work_def labels_ok_Summary)

lemma labelled_error:
  assumes "accepts_ok accepts" "labelled w"
  shows "\<exists>cs. RecordWorkerError accepts (WalletAddr (sw_ctx w)) code w = (Ret (), w\<lparr>prom_log := prom_log w @ cs\<rparr>)"
    "\<exists>cs. record_ctx (RecordStaleShare accepts) w = (Ret (), w\<lparr>prom_log := prom_log w @ cs\<rparr>)"
  using records_ok(8) [OF assms(1), of "sw_ctx w" code w] records_ok(1) [OF assms(1), of "sw_ctx w" w] assms(2)
  by (simp_all add: labelled_def record_ctx_def)

lemma labelled_bad_data:
  assumes "accepts_ok (env_accepts env)" "labelled w"
  shows "fst (bad_data env code err w) = Ret (Inl err)"
  using labelled_error(1) [OF assms, of code] by (auto simp: bad_data_def wbind_def wret_def)

lemma labelled_validate:
  assumes "accepts_ok (env_accepts env)" "labelled w"
  shows "\<exists>v w1. validateSubmit env event w = (Ret v, w1) \<and> labelled w1"
proof -
  have "\<exists>v. fst (validateSubmit env event w) = Ret v"
    by (simp add: validateSubmit_def labelled_bad_data [OF assms] wret_def split: option.split sum.split)
  moreover have "labelled (snd (validateSubmit env event w))"
    using work.validation assms(2) by (rule labelled_kept)
  ultimately show ?thesis by (metis prod.collapse)
qed

lemma HandleSubmit_jobless:
  assumes "accepts_ok (env_accepts env)" "labelled w" "Jobs (State (sw_ctx w)) = Map.empty"
  shows "fst (HandleSubmit env event solo w) \<noteq> Panic e"
proof -
  obtain v w1 where v: "validateSubmit env event w = (Ret v, w1)" "labelled w1" using labelled_validate [OF assms(1,2)] by blast
  show ?thesis
  proof (cases v)
    case (Inl err)
    then show ?thesis using v labelled_error(2) [OF assms(1) v(2)]
      by (auto simp: HandleSubmit_def wbind_def reply_with_def)
  next
    case (Inr si)
    have "GetJob (State (sw_ctx w)) j = None" for j using assms(3) by (simp add: GetJob_def Let_def)
    then have "parse_submit (env_lib env) event (State (sw_ctx w)) = None" by (auto simp: parse_submit_def bind_eq_None_conv)
    then have "ParseUint (si_noncestr si) 16 = None" using validateSubmit_result v(1) Inr by fastforce
    then show ?thesis using v Inr labelled_error(1) [OF assms(1) v(2), of ErrBadDataFromMiner]
      by (auto simp: HandleSubmit_def wbind_def wret_def)
  qed
qed

text \<open>A submission keeps a good connection good and does not panic.\<close>

lemma HandleSubmit_idle:
  assumes "accepts_ok (env_accepts env)" "\<And>h. valid_utf8 (HashString (env_lib env) h)" "idle_ok w"
  shows "idle_ok (snd (HandleSubmit env event solo w)) \<and> (\<forall>e. fst (HandleSubmit env event solo w) \<noteq> Panic e)"
proof (intro conjI allI)
  show "idle_ok (snd (HandleSubmit env event solo w))"
    using keepsD [OF thin.kept_HandleSubmit] assms(3) by (rule idle_ok_thinned)
  fix e
  show "fst (HandleSubmit env event solo w) \<noteq> Panic e"
  proof (cases "ready_state (State (sw_ctx w))")
    case True
    then have "ready w" using assms(3) by (simp add: ready_def idle_ok_def)
    then show ?thesis using HandleSubmit_safe [OF assms(1,2)] ready_share_ok by blast
  next
    case False
    then show ?thesis using assms(3) HandleSubmit_jobless [OF assms(1)] by (auto simp: idle_ok_def labelled_def)
  qed
qed

subsection \<open>A frame for serving work\<close>

text \<open>
  What the work that is sent changes after the job was stored: the difficulty, the statistics, the
  connection and the log. The locale extends the frame of elementary steps by these.
\<close>

locale serve_frame = step_frame R for R :: "'s share_world_scheme \<Rightarrow> 's share_world_scheme \<Rightarrow> bool" +
  assumes worker: "R w (w\<lparr>sw_sh := (sw_sh w)\<lparr>sh_stats := st\<rparr>\<rparr>)"
    and solo: "R w (w\<lparr>sw_sh := (sw_sh w)\<lparr>sh_soloDiff := d\<rparr>\<rparr>)"
    and difficulty: "R w (w\<lparr>sw_ctx := (sw_ctx w)\<lparr>State := (State (sw_ctx w))\<lparr>initialized := i, useBigJob := b, stratumDiff := k\<rparr>\<rparr>\<rparr>)"
begin

lemma kept_stats: "keeps R (upd_stats key f)"
  by (simp add: keeps_def upd_stats_def upd_sh_def wmodify_def worker)

lemma kept_solo: "keeps R (upd_sh (setSoloDiff d))"
  by (simp add: keeps_def upd_sh_def wmodify_def setSoloDiff_def solo)

lemma kept_mark: "keeps R (upd_ctx (\<lambda>c. c\<lparr>State := (State c)\<lparr>initialized := True, useBigJob := f c\<rparr>\<rparr>))"
  using difficulty [where i = True and k = "stratumDiff (State (sw_ctx w))" and w = w for w]
  by (simp add: keeps_def upd_ctx_def wmodify_def)

lemma kept_diff: "keeps R (upd_state (\<lambda>st. st\<lparr>stratumDiff := k\<rparr>))"
  using difficulty [where i = "initialized (State (sw_ctx w))" and b = "useBigJob (State (sw_ctx w))" and w = w for w]
  by (simp add: keeps_def upd_state_def upd_ctx_def wmodify_def)

lemma kept_send: "keeps R (send_event ev)"
  by (simp add: keeps_def send_event_def io Send_io)

lemma kept_reads:
  "keeps R current_diff" "keeps R read_diff" "keeps R has_diff" "keeps R (stats_field q key)" "keeps R (lift_out x)"
  by (simp_all add: keeps_def current_diff_def read_diff_def has_diff_def stats_field_def lift_out_def wret_def wpanic_def
      frame_refl split: option.split)

lemma kept_worker_error: "keeps R (worker_error env code)"
  by (rule keepsI) (simp add: worker_error_def keepsD [OF records(7)])

lemma kept_set_difficulty: "keeps R (set_difficulty d)"
  by (rule keepsI) (simp add: set_difficulty_def keepsD [OF kept_diff] wpanic_def whang_def frame_refl split: outcome.split)

lemma kept_fresh_difficulty: "keeps R (fresh_difficulty d)"
  unfolding fresh_difficulty_def by (intro keeps_wbind kept_diff kept_set_difficulty)

lemma kept_sendClientDiff: "keeps R (sendClientDiff env)"
  unfolding sendClientDiff_def
  by (intro keeps_wbind kept_reads kept_send) (simp add: kept_worker_error keeps_wret split: option.split)

lemma kept_vardiff:
  "keeps R (startClientVardiff env)" "keeps R (getClientVardiff env)" "keeps R (setClientVardiff env d)"
  unfolding startClientVardiff_def getClientVardiff_def setClientVardiff_def
  by (intro keeps_wbind stats kept_stats kept_reads keeps_wret)+

lemma kept_init: "keeps R (init_client env)"
proof (rule keepsI)
  fix w
  have "keeps R (wbind (upd_ctx (\<lambda>c. c\<lparr>State := (State c)\<lparr>initialized := True, useBigJob := bigJobRegex (RemoteApp c)\<rparr>\<rparr>)) (\<lambda>_.
      wbind (fresh_difficulty (je_minShareDiff env)) (\<lambda>_. wbind (if je_soloMining env then wret () else sendClientDiff env) (\<lambda>_.
      wbind (setClientVardiff (je_node env) (je_minShareDiff env)) (\<lambda>_. wret ())))))"
    by (cases "je_soloMining env")
      (simp_all add: keeps_wbind kept_mark kept_fresh_difficulty kept_sendClientDiff kept_vardiff keeps_wret)
  from keepsD [OF this] show "R w (snd (init_client env w))" by (simp add: init_client_def wret_def frame_refl)
qed

lemma kept_wanted: "keeps R (wanted_diff env)"
proof (rule keepsI)
  fix w
  have "keeps R (wbind (lift_out x) (\<lambda>varDiff. wbind (upd_sh (setSoloDiff varDiff)) (\<lambda>_.
       if je_soloMining env then wret varDiff else getClientVardiff (je_node env))))" for x
    by (cases "je_soloMining env") (simp_all add: keeps_wbind kept_reads kept_solo kept_vardiff keeps_wret)
  from keepsD [OF this] show "R w (snd (wanted_diff env w))" by (simp add: wanted_diff_def)
qed

lemma kept_adjust: "keeps R (adjust_diff env v)"
proof -
  have "keeps R (settle_diff env v)"
    unfolding settle_diff_def by (intro keeps_wbind kept_reads) (simp add: keeps_wbind kept_reads kept_fresh_difficulty keeps_wret)
  then show ?thesis unfolding adjust_diff_def
    by (intro keeps_wbind) (auto simp: keeps_wbind kept_reads kept_set_difficulty kept_sendClientDiff kept_vardiff keeps_wret)
qed

lemma kept_notify: "keeps R (notify env hdr b jobId)"
proof (rule keepsI)
  fix w
  have r: "keeps R (record_ctx (RecordNewJob accepts))" for accepts unfolding RecordNewJob_def by (intro ctx_record prom)
  have "keeps R (wbind (lift_out x) (\<lambda>params.
     wbind (send_event \<lparr>ev_Id = JInt jobId, ev_Version = ''2.0'', ev_Method = ''mining.notify'', ev_Params = params\<rparr>) (\<lambda>err.
       case err of
         Some e \<Rightarrow>
           if error_is e ErrorDisconnected then worker_error env ErrDisconnected
           else wbind (worker_error env ErrFailedSendWork) (\<lambda>_. record_ctx (RecordNewJob (env_accepts (je_node env))))
       | None \<Rightarrow> record_ctx (RecordNewJob (env_accepts (je_node env))))))" for x
    by (intro keeps_wbind kept_reads kept_send) (simp add: r keeps_wbind kept_worker_error split: option.split)
  from keepsD [OF this] show "R w (snd (notify env hdr b jobId w))" by (simp add: notify_def)
qed

text \<open>Everything that follows the storing of the job.\<close>

lemma kept_after_job: "keeps R (wbind (init_client env) (\<lambda>_. wbind (wanted_diff env) (\<lambda>varDiff.
     wbind (adjust_diff env varDiff) (\<lambda>_. notify env hdr b jobId))))"
  by (intro keeps_wbind kept_init kept_wanted kept_adjust kept_notify)

end

definition same_jobs :: "'s share_world_scheme \<Rightarrow> 's share_world_scheme \<Rightarrow> bool" where
  "same_jobs w w' \<longleftrightarrow> Jobs (State (sw_ctx w')) = Jobs (State (sw_ctx w))"

interpretation api_serve: serve_frame same_api
  by unfold_locales (simp_all add: same_api_def)

interpretation job_serve: serve_frame same_jobs
  by unfold_locales (simp_all add: same_jobs_def same_but_ioD(7))

subsection \<open>Serving keeps a connection good\<close>

lemma send_work_split:
  defines "ms w b \<equiv> (State (sw_ctx w))\<lparr>bigDiff := CalculateTarget (ucast (h_Bits (b_Header b)))\<rparr>"
  shows "send_work env b fee w = wbind (init_client env) (\<lambda>_. wbind (wanted_diff env) (\<lambda>varDiff.
     wbind (adjust_diff env varDiff) (\<lambda>_. notify env (SerializeBlockHeader (je_blake3 env) b) b (fst (AddJob (ms w b) (Some b) fee)))))
     (w\<lparr>sw_ctx := (sw_ctx w)\<lparr>State := snd (AddJob (ms w b) (Some b) fee)\<rparr>\<rparr>)"
  unfolding ms_def
  by (cases "AddJob ((State (sw_ctx w))\<lparr>bigDiff := CalculateTarget (ucast (h_Bits (b_Header b)))\<rparr>) (Some b) fee")
    (simp add: send_work_def upd_state_def upd_ctx_def add_job_def wbind_def [of "add_job _ _"])

lemma keeps_api_send_work: "keeps same_api (send_work env b fee)"
proof (rule keepsI)
  fix w :: "'a api_world_scheme"
  show "same_api w (snd (send_work env b fee w))"
    unfolding send_work_split by (rule quiet.frame_trans [OF _ keepsD [OF api_serve.kept_after_job]]) (simp add: same_api_def)
qed

text \<open>The job that was announced is found under its id.\<close>

lemma send_work_job:
  "GetJob (State (sw_ctx (snd (send_work env b fee w)))) (wrap64 (jobCounter (State (sw_ctx w)) + 1)) = Some (Some b)"
proof -
  define ms where "ms = (State (sw_ctx w))\<lparr>bigDiff := CalculateTarget (ucast (h_Bits (b_Header b)))\<rparr>"
  have "Jobs (State (sw_ctx (snd (send_work env b fee w)))) = Jobs (snd (AddJob ms (Some b) fee))"
    unfolding send_work_split ms_def
    by (simp only: keepsD [OF job_serve.kept_after_job, unfolded same_jobs_def]) simp
  then show ?thesis by (simp add: GetJob_def AddJob_def Let_def ms_def)
qed

lemma keeps_api_boot: "keeps same_api (wbind (worker_error env code) (\<lambda>_. upd_ctx Disconnect))"
  by (rule quiet.keeps_wbind [OF api_serve.kept_worker_error]) (simp add: keeps_def upd_ctx_def wmodify_def same_api_def)

lemma keeps_api_refusals: "keeps same_api (no_template env err)" "keeps same_api (no_wallet env)"
  by (simp add: no_template_def keeps_api_boot api_serve.kept_worker_error)
    (rule keepsI, simp add: no_wallet_def wret_def quiet.frame_refl keepsD [OF keeps_api_boot])

lemma idle_ok_parts: "sw_ctx w' = sw_ctx w \<Longrightarrow> sw_sh w' = sw_sh w \<Longrightarrow> idle_ok w' = idle_ok w"
  by (simp add: idle_ok_def)

text \<open>The goroutine of a client keeps the connection and the cache good and does not panic.\<close>

lemma serve_client_ok:
  assumes "job_env_ok env" "session_ok w"
  shows "session_ok (snd (serve_client env w)) \<and> (\<forall>e. fst (serve_client env w) \<noteq> Panic e)"
proof (cases "WalletAddr (sw_ctx w) = []")
  case True
  then show ?thesis
    using no_wallet_ok [of env w] keepsD [OF keeps_api_refusals(2), of w env] assms
    by (simp add: serve_client_def session_ok_def job_env_ok_def same_api_def)
next
  case False
  have a: "accepts_ok (env_accepts (je_node env))" "gbt_env_ok (je_gbt env)" "diff_positive (je_minShareDiff env)"
    "length (SerializeBlockHeader (je_blake3 env) b) = 32" for b
    using assms(1) by (simp_all add: job_env_ok_def SerializeBlockHeader_def)
  have w: "idle_ok w" "cache_ok (aw_api w)" using assms(2) by (simp_all add: session_ok_def)
  from asks_ok_GetBlockTemplate [OF a(2)] w(2) obtain r w1 where g:
    "GetBlockTemplate (je_gbt env) (je_poll env) (je_vote env) w = (Ret r, w1)" "\<forall>t fee. r = Inr (t, fee) \<longrightarrow> template_ok t"
    "cache_ok (aw_api w1)" "sw_ctx w1 = sw_ctx w" "sw_sh w1 = sw_sh w" by (rule asks_okD)
  have w1: "idle_ok w1" using w(1) idle_ok_parts [OF g(4,5)] by simp
  show ?thesis
  proof (cases r)
    case (Inl err)
    then have "serve_client env w = no_template env err w1" using False g(1) by (simp add: serve_client_def wbind_Ret)
    then show ?thesis using no_template_ok [OF a(1) w1, of err] keepsD [OF keeps_api_refusals(1), of w1 env err] g(3)
      by (simp add: session_ok_def same_api_def)
  next
    case (Inr tf)
    then obtain b fee where b: "r = Inr (Some b, fee)" "first_tx_present b"
      using g(2) by (cases tf) (auto simp: template_ok_def)
    then have "serve_client env w = send_work env b fee w1" using False g(1) by (simp add: serve_client_def wbind_Ret)
    then show ?thesis using send_work_ready [OF a(1,3,4) b(2) w1, of fee] keepsD [OF keeps_api_send_work, of w1 env b fee] g(3)
      by (simp add: session_ok_def same_api_def ready_idle_ok)
  qed
qed

end
