(* ===== verification/Miner_Rewards.thy ===== *)
theory Miner_Rewards
  imports Mining_DB Go_Strings Go_Bytes Node_Types "HOL-Library.Char_ord" "HOL-Library.List_Lexorder"
begin

text \<open>
  The rewards report (\<open>src/htnstratum/miner_rewards.go\<close>): which payments of the chain belong to
  blocks that this bridge mined, and how a payment is split among them. The node is the parameter
  \<open>node_api\<close>; a failed call, a nil answer and an answer without block are the same to the code
  and are \<open>None\<close>. The tables of \<open>unicode\<close> for runes beyond ASCII are the parameter \<open>go_unicode\<close>.
\<close>

record node_api =
  na_GetBlock :: "string \<Rightarrow> rpc_block option"
  na_TipHashes :: "go_error + string list" \<comment> \<open>\<open>GetBlockDAGInfo\<close>\<close>
  na_AddedChain :: "string \<Rightarrow> string list option" \<comment> \<open>\<open>GetVirtualSelectedParentChainFromBlock\<close>\<close>

record go_unicode =
  uc_IsLetter :: "nat \<Rightarrow> bool"
  uc_IsDigit :: "nat \<Rightarrow> bool"
  uc_ToLower :: "nat \<Rightarrow> nat"

subsection \<open>Text\<close>

definition ascii_letter :: "nat \<Rightarrow> bool" where
  "ascii_letter r = (65 \<le> r \<and> r \<le> 90 \<or> 97 \<le> r \<and> r \<le> 122)"

definition ascii_digit :: "nat \<Rightarrow> bool" where
  "ascii_digit r = (48 \<le> r \<and> r \<le> 57)"

definition IsLetter :: "go_unicode \<Rightarrow> nat \<Rightarrow> bool" where
  "IsLetter uc r = (if r < 128 then ascii_letter r else uc_IsLetter uc r)"

definition IsDigit :: "go_unicode \<Rightarrow> nat \<Rightarrow> bool" where
  "IsDigit uc r = (if r < 128 then ascii_digit r else uc_IsDigit uc r)"

definition lower_rune :: "go_unicode \<Rightarrow> nat \<Rightarrow> nat" where
  "lower_rune uc r = (if r < 128 then (if 65 \<le> r \<and> r \<le> 90 then r + 32 else r) else uc_ToLower uc r)"

definition rune_codes :: "string \<Rightarrow> nat list" where
  "rune_codes s = map (\<lambda>(ok, v, bs). v) (runes s)"

definition toLower :: "go_unicode \<Rightarrow> string \<Rightarrow> string" where
  "toLower uc s = concat (map (\<lambda>v. utf8_encode (lower_rune uc v)) (rune_codes s))"

text \<open>The loop that keeps letters, digits and \<open>._-\<close> until 32 bytes are written.\<close>

definition id_rune :: "go_unicode \<Rightarrow> nat \<Rightarrow> bool" where
  "id_rune uc r = (IsLetter uc r \<or> IsDigit uc r \<or> r = 46 \<or> r = 95 \<or> r = 45)"

fun keep_id_runes :: "go_unicode \<Rightarrow> nat list \<Rightarrow> string \<Rightarrow> string" where
  "keep_id_runes uc [] b = b"
| "keep_id_runes uc (r # rs) b =
     (if id_rune uc r
      then (let b1 = b @ utf8_encode r in if 32 \<le> length b1 then b1 else keep_id_runes uc rs b1)
      else keep_id_runes uc rs b)"

definition sanitizeWorkerIDRewards :: "go_unicode \<Rightarrow> string \<Rightarrow> string" where
  "sanitizeWorkerIDRewards uc s =
     (let s = trimSpace s
      in if s = [] then []
         else toLower uc (keep_id_runes uc (rune_codes (replace_char (CHR '' '') (CHR ''_'') s)) []))"

definition stripHRPRewards :: "string \<Rightarrow> string" where
  "stripHRPRewards s =
     (if hasPrefix s ''hoosat:'' then drop 7 s
      else if hasPrefix s ''hoosattest:'' then drop 11 s
      else s)"

subsection \<open>Payments of a coinbase\<close>

definition output_pays :: "go_unicode \<Rightarrow> string \<Rightarrow> rpc_output option \<Rightarrow> bool" where
  "output_pays uc addr o' =
     (case o' of
        None \<Rightarrow> False
      | Some x \<Rightarrow> (case o_Address x of None \<Rightarrow> False | Some a \<Rightarrow> toLower uc (stripHRPRewards a) = addr))"

definition output_amount :: "rpc_output option \<Rightarrow> 64 word" where
  "output_amount o' = (case o' of None \<Rightarrow> 0 | Some x \<Rightarrow> o_Amount x)"

definition coinbaseSumToAddress :: "go_unicode \<Rightarrow> rpc_block \<Rightarrow> string \<Rightarrow> bool \<times> 64 word" where
  "coinbaseSumToAddress uc block addr =
     (case b_Transactions block of
        Some cb # _ \<Rightarrow>
          (let target = toLower uc (stripHRPRewards (trimSpace addr));
               mine = filter (output_pays uc target) (t_Outputs cb)
           in (mine \<noteq> [], sum_list (map output_amount mine)))
      | _ \<Rightarrow> (False, 0))"

subsection \<open>The worker named in a payload\<close>

definition is_hex_char :: "char \<Rightarrow> bool" where
  "is_hex_char c =
     (let n = of_char c :: nat
      in 48 \<le> n \<and> n \<le> 57 \<or> 97 \<le> n \<and> n \<le> 102 \<or> 65 \<le> n \<and> n \<le> 70)"

definition payload_text :: "string \<Rightarrow> string" where
  "payload_text payload =
     (let raw = (if even (length payload) \<and> list_all is_hex_char payload
                 then map (\<lambda>b. char_of (unat b)) (fst (hex_decode payload)) else [])
      in if raw = [] then payload else raw)"

text \<open>White space controls become spaces, other controls dots.\<close>

definition norm_rune :: "nat \<Rightarrow> nat" where
  "norm_rune r = (if r = 10 \<or> r = 13 \<or> r = 9 then 32 else if r < 32 then 46 else r)"

text \<open>
  The regular expression \<open>(?i)\b(?:as|by)\s+worker\s+([A-Za-z0-9._-]{1,32})\<close>, matched at the
  leftmost place. Ignoring case, \<open>s\<close> and \<open>k\<close> also match U+017F and U+212A.
\<close>

definition fold_eq :: "nat \<Rightarrow> nat \<Rightarrow> bool" where
  "fold_eq c r = (r = c \<or> r + 32 = c \<or> c = 115 \<and> r = 383 \<or> c = 107 \<and> r = 8490)"

fun match_word :: "nat list \<Rightarrow> nat list \<Rightarrow> nat list option" where
  "match_word [] rs = Some rs"
| "match_word (c # cs) [] = None"
| "match_word (c # cs) (r # rs) = (if fold_eq c r then match_word cs rs else None)"

definition re_space :: "nat \<Rightarrow> bool" where
  "re_space r = (r = 9 \<or> r = 10 \<or> r = 12 \<or> r = 13 \<or> r = 32)"

definition match_spaces :: "nat list \<Rightarrow> nat list option" where
  "match_spaces rs = (case rs of r # _ \<Rightarrow> if re_space r then Some (dropWhile re_space rs) else None | [] \<Rightarrow> None)"

definition name_rune :: "nat \<Rightarrow> bool" where
  "name_rune r = (ascii_letter r \<or> ascii_digit r \<or> r = 46 \<or> r = 95 \<or> r = 45 \<or> r = 383 \<or> r = 8490)"

definition match_at :: "nat list \<Rightarrow> nat list option" where
  "match_at rs =
     Option.bind (case match_word [97, 115] rs of Some t \<Rightarrow> Some t | None \<Rightarrow> match_word [98, 121] rs) (\<lambda>t.
     Option.bind (match_spaces t) (\<lambda>t.
     Option.bind (match_word [119, 111, 114, 107, 101, 114] t) (\<lambda>t.
     Option.bind (match_spaces t) (\<lambda>t.
       let name = take 32 (takeWhile name_rune t) in if name = [] then None else Some name))))"

definition word_rune :: "nat \<Rightarrow> bool" where
  "word_rune r = (ascii_letter r \<or> ascii_digit r \<or> r = 95)"

text \<open>\<open>prev\<close> is the rune before the place, if any; the place must be a word boundary.\<close>

fun reWorker :: "nat option \<Rightarrow> nat list \<Rightarrow> nat list option" where
  "reWorker prev [] = None"
| "reWorker prev (r # rs) =
     (case (if (case prev of None \<Rightarrow> False | Some p \<Rightarrow> word_rune p) then None else match_at (r # rs)) of
        Some name \<Rightarrow> Some name
      | None \<Rightarrow> reWorker (Some r) rs)"

definition extractWorkerFromPayload :: "go_unicode \<Rightarrow> rpc_block \<Rightarrow> string" where
  "extractWorkerFromPayload uc block =
     (case b_Transactions block of
        Some cb # _ \<Rightarrow>
          (if t_Payload cb = [] then []
           else case reWorker None (map norm_rune (rune_codes (payload_text (t_Payload cb)))) of
                  None \<Rightarrow> []
                | Some w \<Rightarrow> trimSpace (keep_id_runes uc w []))
      | _ \<Rightarrow> [])"

subsection \<open>Blocks of the merge set that this bridge mined\<close>

record mined_blue =
  mb_Hash :: string
  mb_Worker :: string

text \<open>With a database: the blocks it knows; a database error skips the block.\<close>

fun mined_from_db :: "string list \<Rightarrow> mining_db \<Rightarrow> mined_blue list \<times> mining_db" where
  "mined_from_db [] d = ([], d)"
| "mined_from_db (h # hs) d =
     (if length h \<noteq> 64 then mined_from_db hs d
      else case GetBlock d h of
             (Inr (Some rec), d1) \<Rightarrow>
               (let (out, d2) = mined_from_db hs d1 in (\<lparr>mb_Hash = h, mb_Worker = r_WorkerName rec\<rparr> # out, d2))
           | (_, d1) \<Rightarrow> mined_from_db hs d1)"

text \<open>Without one: the blocks whose coinbase pays the wallet.\<close>

definition mined_from_node :: "go_unicode \<Rightarrow> node_api \<Rightarrow> string \<Rightarrow> string list \<Rightarrow> mined_blue list" where
  "mined_from_node uc api wallet hashes =
     List.map_filter (\<lambda>h.
       if length h \<noteq> 64 then None
       else case na_GetBlock api h of
              None \<Rightarrow> None
            | Some b \<Rightarrow> if fst (coinbaseSumToAddress uc b wallet)
                        then Some \<lparr>mb_Hash = h, mb_Worker = extractWorkerFromPayload uc b\<rparr> else None) hashes"

definition findMinedBluesFromMergeSet ::
  "go_unicode \<Rightarrow> node_api \<Rightarrow> string list \<Rightarrow> string \<Rightarrow> mining_db option \<Rightarrow> mined_blue list \<times> mining_db option" where
  "findMinedBluesFromMergeSet uc api hashes wallet db =
     (case db of
        Some d \<Rightarrow> (let (out, d1) = mined_from_db hashes d in (sort_key mb_Hash out, Some d1))
      | None \<Rightarrow> (sort_key mb_Hash (mined_from_node uc api wallet hashes), None))"

subsection \<open>Rows of the report\<close>

record rewards_row =
  rr_MinedBlueHash :: string
  rr_Worker :: string
  rr_RewardAtoms :: "64 word"
  rr_PaidByBlockHash :: string
  rr_PaidBlueScore :: "64 word"
  rr_PaidAtMS :: int

text \<open>The loop over the mined blocks; \<open>rest\<close> is the remainder until the first row has taken it.\<close>

fun reward_rows :: "(mined_blue \<Rightarrow> bool) \<Rightarrow> 64 word \<Rightarrow> 64 word \<Rightarrow> rewards_row \<Rightarrow> mined_blue list \<Rightarrow> rewards_row list" where
  "reward_rows wanted portion rest row [] = []"
| "reward_rows wanted portion rest row (mb # mbs) =
     (if wanted mb
      then row\<lparr>rr_MinedBlueHash := mb_Hash mb, rr_Worker := mb_Worker mb, rr_RewardAtoms := portion + rest\<rparr> #
        reward_rows wanted portion 0 row mbs
      else reward_rows wanted portion rest row mbs)"

definition worker_wanted :: "go_unicode \<Rightarrow> string \<Rightarrow> mined_blue \<Rightarrow> bool" where
  "worker_wanted uc workerFilter mb =
     (workerFilter = [] \<or> sanitizeWorkerIDRewards uc (mb_Worker mb) = sanitizeWorkerIDRewards uc workerFilter)"

definition processPayingBlock ::
  "go_unicode \<Rightarrow> node_api \<Rightarrow> rpc_block \<Rightarrow> string \<Rightarrow> string \<Rightarrow> mining_db option \<Rightarrow> rewards_row list \<times> mining_db option" where
  "processPayingBlock uc api block addr workerFilter db =
     (case b_VerboseData block of
        None \<Rightarrow> ([], db)
      | Some v \<Rightarrow>
          if \<not> v_IsChainBlock v then ([], db)
          else (case coinbaseSumToAddress uc block addr of
                  (ok, amount) \<Rightarrow>
                    if \<not> ok \<or> amount = 0 then ([], db)
                    else (case findMinedBluesFromMergeSet uc api (v_MergeSetBluesHashes v) addr db of
                            (mined, db1) \<Rightarrow>
                              if mined = [] then ([], db1)
                              else (let n = word_of_nat (length mined);
                                        row = \<lparr>rr_MinedBlueHash = [], rr_Worker = [], rr_RewardAtoms = 0,
                                          rr_PaidByBlockHash = v_Hash v, rr_PaidBlueScore = v_BlueScore v,
                                          rr_PaidAtMS = h_Timestamp (b_Header block)\<rparr>
                                    in (reward_rows (worker_wanted uc workerFilter) (amount div n) (amount mod n) row mined,
                                        db1)))))"

subsection \<open>Fetching the chain\<close>

text \<open>
  The walk along the selected parents from a tip, until the cursor, the limit, or a block without
  parent. With a limit of zero or less the walk has no bound of its own.
\<close>

definition usable :: "node_api \<Rightarrow> string \<Rightarrow> (rpc_block \<times> rpc_verbose) option" where
  "usable api h =
     (case na_GetBlock api h of
        None \<Rightarrow> None
      | Some b \<Rightarrow> (case b_VerboseData b of None \<Rightarrow> None | Some v \<Rightarrow> Some (b, v)))"

partial_function (option) walk_chain :: "node_api \<Rightarrow> string option \<Rightarrow> int \<Rightarrow> string \<Rightarrow> rpc_block list \<Rightarrow> rpc_block list option" where
  "walk_chain api startHash capLimit cur out =
     (if \<not> (capLimit \<le> 0 \<and> startHash \<noteq> None \<or> int (length out) < capLimit) then Some out
      else case usable api cur of
             None \<Rightarrow> Some out
           | Some (b, v) \<Rightarrow>
               if startHash = Some (v_Hash v) then Some out
               else if length (v_SelectedParentHash v) \<noteq> 64 then Some (out @ [b])
               else walk_chain api startHash capLimit (v_SelectedParentHash v) (out @ [b]))"

definition from_tip :: "node_api \<Rightarrow> (string \<Rightarrow> rpc_block list option) \<Rightarrow> (go_error + rpc_block list) option" where
  "from_tip api walk =
     (case na_TipHashes api of
        Inl e \<Rightarrow> Some (Inl e)
      | Inr [] \<Rightarrow> Some (Inl (ErrMsg ''no tip hashes''))
      | Inr (tip # _) \<Rightarrow> map_option Inr (walk tip))"

definition fetchRecentChainBlocks :: "node_api \<Rightarrow> int \<Rightarrow> (go_error + rpc_block list) option" where
  "fetchRecentChainBlocks api limit = from_tip api (\<lambda>tip. walk_chain api None limit tip [])"

text \<open>\<open>hashes[len(hashes)-capLimit:]\<close>.\<close>

definition last_hashes :: "int \<Rightarrow> string list \<Rightarrow> string list" where
  "last_hashes capLimit hashes =
     (if 0 < capLimit \<and> capLimit < int (length hashes) then drop (length hashes - nat capLimit) hashes else hashes)"

definition fetchAddedChainBlocksFrom :: "node_api \<Rightarrow> string \<Rightarrow> int \<Rightarrow> (go_error + rpc_block list) option" where
  "fetchAddedChainBlocksFrom api startHash capLimit =
     (case (if startHash \<noteq> [] then na_AddedChain api startHash else None) of
        Some (h # hs) \<Rightarrow> Some (Inr (List.map_filter (\<lambda>h. map_option fst (usable api h)) (rev (last_hashes capLimit (h # hs)))))
      | _ \<Rightarrow> from_tip api (\<lambda>tip. walk_chain api (Some startHash) capLimit tip []))"

subsection \<open>The endpoint\<close>

datatype rewards_response =
    BadRequest string
  | BadGateway string
  | RewardsOk "rewards_row list"

definition request_limit :: "string \<Rightarrow> int" where
  "request_limit v =
     (if v = [] then 400
      else case ParseInt10 v of
             None \<Rightarrow> 400
           | Some n \<Rightarrow> if n \<le> 0 then 400 else if 2000 < n then 2000 else n)"

fun collect_rows ::
  "go_unicode \<Rightarrow> node_api \<Rightarrow> string \<Rightarrow> string \<Rightarrow> rpc_block list \<Rightarrow> mining_db option \<Rightarrow> rewards_row list \<times> mining_db option" where
  "collect_rows uc api addr workerFilter [] db = ([], db)"
| "collect_rows uc api addr workerFilter (b # bs) db =
     (let (rows, db1) = processPayingBlock uc api b addr workerFilter db;
          (more, db2) = collect_rows uc api addr workerFilter bs db1
      in (rows @ more, db2))"

text \<open>The four query values, decoded from the URL.\<close>

definition miner_rewards ::
  "go_unicode \<Rightarrow> node_api \<Rightarrow> string \<Rightarrow> string \<Rightarrow> string \<Rightarrow> string \<Rightarrow> mining_db option \<Rightarrow>
   (rewards_response \<times> mining_db option) option" where
  "miner_rewards uc api address limit startHash worker db =
     (let addr = trimSpace address; startHash = trimSpace startHash; workerFilter = trimSpace worker
      in if addr = [] then Some (BadRequest ''missing required query parameter: address'', db)
         else case (if startHash \<noteq> [] then fetchAddedChainBlocksFrom api startHash (request_limit limit)
                    else fetchRecentChainBlocks api (request_limit limit)) of
                None \<Rightarrow> None
              | Some (Inl e) \<Rightarrow> Some (BadGateway ''failed to fetch chain blocks'', db)
              | Some (Inr blocks) \<Rightarrow>
                  (case collect_rows uc api addr workerFilter blocks db of
                     (out, db1) \<Rightarrow> Some (RewardsOk out, db1)))"

subsection \<open>Laws\<close>

text \<open>The atoms of the rows: a portion each, and the remainder once.\<close>

lemma reward_rows_sum:
  assumes "unat p + unat r < 2 ^ 64"
  shows "sum_list (map (\<lambda>x. unat (rr_RewardAtoms x)) (reward_rows wanted p r row mbs)) =
    length (filter wanted mbs) * unat p + (if filter wanted mbs = [] then 0 else unat r)"
  using assms
proof (induction mbs arbitrary: r)
  case (Cons mb mbs)
  have "unat (p + r) = unat p + unat r" using Cons.prems by (simp add: unat_word_ariths)
  moreover have "unat p + unat (0 :: 64 word) < 2 ^ 64" using Cons.prems by simp
  ultimately show ?case using Cons.IH [of 0] Cons.IH [of r] Cons.prems
    by (cases "wanted mb") (simp_all del: sum_list_eq_0_iff)
qed simp

lemma reward_rows_length: "length (reward_rows wanted p r row mbs) = length (filter wanted mbs)"
  by (induction mbs arbitrary: r) auto

lemma mined_from_db_length: "length (fst (mined_from_db hs d)) \<le> length hs"
proof (induction hs d rule: mined_from_db.induct)
  case (2 h hs d)
  show ?case
    using 2 by (auto simp: Let_def le_Suc_eq split: prod.splits sum.splits option.splits) fastforce+
qed simp

lemma mined_length: "length (fst (findMinedBluesFromMergeSet uc api hs w db)) \<le> length hs"
proof (cases db)
  case None
  have "length (mined_from_node uc api w hs) \<le> length hs"
    unfolding mined_from_node_def map_filter_def by (simp add: le_trans [OF length_filter_le])
  then show ?thesis using None by (simp add: findMinedBluesFromMergeSet_def)
next
  case (Some d)
  then show ?thesis using mined_from_db_length [of hs d]
    by (cases "mined_from_db hs d") (simp add: findMinedBluesFromMergeSet_def)
qed

text \<open>
  C14: a payment is neither lost nor multiplied: without a worker filter the rows of a paying
  block are one for each block of ours that it merged and add up to exactly the amount its
  coinbase pays to the address; with a filter they add up to at most that amount.
\<close>

theorem rewards_add_up:
  assumes "b_VerboseData block = Some v" "length (v_MergeSetBluesHashes v) < 2 ^ 64"
    "processPayingBlock uc api block addr workerFilter db = (rs, db1)" "rs \<noteq> []"
  shows "sum_list (map (\<lambda>x. unat (rr_RewardAtoms x)) rs) \<le> unat (snd (coinbaseSumToAddress uc block addr)) \<and>
    (workerFilter = [] \<longrightarrow>
      sum_list (map (\<lambda>x. unat (rr_RewardAtoms x)) rs) = unat (snd (coinbaseSumToAddress uc block addr)) \<and>
      map rr_MinedBlueHash rs = map mb_Hash (fst (findMinedBluesFromMergeSet uc api (v_MergeSetBluesHashes v) addr db)))"
proof -
  define amount where "amount = snd (coinbaseSumToAddress uc block addr)"
  define mined where "mined = fst (findMinedBluesFromMergeSet uc api (v_MergeSetBluesHashes v) addr db)"
  define N where "N = length mined"
  define row where "row = \<lparr>rr_MinedBlueHash = [], rr_Worker = [], rr_RewardAtoms = 0,
    rr_PaidByBlockHash = v_Hash v, rr_PaidBlueScore = v_BlueScore v, rr_PaidAtMS = h_Timestamp (b_Header block)\<rparr>"
  let ?n = "word_of_nat N :: 64 word"
  have rs: "rs = reward_rows (worker_wanted uc workerFilter) (amount div ?n) (amount mod ?n) row mined"
    using assms(1,3,4)
    by (auto simp: processPayingBlock_def amount_def mined_def N_def row_def Let_def split: prod.splits if_splits)
  have "N < 2 ^ 64" using mined_length [of uc api "v_MergeSetBluesHashes v" addr db] assms(2) by (simp add: N_def mined_def)
  then have n: "unat ?n = N" by (simp add: unsigned_of_nat take_bit_nat_eq_self)
  have d: "unat (amount div ?n) = unat amount div N" "unat (amount mod ?n) = unat amount mod N"
    by (simp_all add: unat_div unat_mod n)
  have nz: "mined \<noteq> []" using rs assms(4) by auto
  have small: "unat (amount div ?n) + unat (amount mod ?n) \<le> unat amount"
  proof -
    have "unat amount div N \<le> N * (unat amount div N)" using nz by (simp add: N_def Suc_le_eq)
    then show ?thesis unfolding d using mult_div_mod_eq [of N "unat amount"] by linarith
  qed
  moreover have "unat amount < 2 ^ LENGTH(64)" by (rule unsigned_less)
  ultimately have "unat (amount div ?n) + unat (amount mod ?n) < 2 ^ 64" by simp
  note sum = reward_rows_sum [OF this, of "worker_wanted uc workerFilter" row mined, folded rs]
  have "length (filter (worker_wanted uc workerFilter) mined) \<le> N" by (simp add: N_def)
  then have le: "length (filter (worker_wanted uc workerFilter) mined) * (unat amount div N) \<le> N * (unat amount div N)"
    by (rule mult_le_mono1)
  have total: "N * (unat amount div N) + unat amount mod N = unat amount" by simp
  have bound: "length (filter (worker_wanted uc workerFilter) mined) * (unat amount div N) + unat amount mod N \<le> unat amount"
    using le total by linarith
  have "filter (worker_wanted uc []) mined = mined" by (simp add: worker_wanted_def)
  moreover have "map rr_MinedBlueHash (reward_rows (worker_wanted uc []) p r row mbs) = map mb_Hash mbs" for p r mbs
    by (induction mbs arbitrary: r) (simp_all add: worker_wanted_def)
  ultimately show ?thesis
    using sum bound total nz unfolding d amount_def [symmetric] mined_def [symmetric]
    by (auto simp: N_def rs)
qed

definition plain_unicode :: go_unicode where
  "plain_unicode = \<lparr>uc_IsLetter = (\<lambda>r. False), uc_IsDigit = (\<lambda>r. False), uc_ToLower = (\<lambda>r. r)\<rparr>"

definition paying_block :: rpc_block where
  "paying_block =
     \<lparr>b_Header = \<lparr>h_Version = 5, h_Parents = [], h_HashMerkleRoot = [], h_AcceptedIDMerkleRoot = [], h_UTXOCommitment = [],
        h_Timestamp = 7, h_Bits = 0, h_Nonce = 0, h_DAAScore = 0, h_BlueScore = 9, h_BlueWork = [], h_PruningPoint = []\<rparr>,
      b_Transactions = [Some \<lparr>t_Payload = ''as worker W'', t_Outputs = [Some \<lparr>o_Amount = 10, o_Address = Some ''hoosat:qA''\<rparr>, None]\<rparr>],
      b_VerboseData = Some \<lparr>v_Hash = ''p'', v_IsChainBlock = True, v_BlueScore = 9, v_SelectedParentHash = [],
        v_MergeSetBluesHashes = [replicate 64 (CHR ''b''), replicate 64 (CHR ''a''), replicate 64 (CHR ''c'')],
        v_MergeSetRedsHashes = []\<rparr>\<rparr>"

definition paying_api :: node_api where
  "paying_api = \<lparr>na_GetBlock = (\<lambda>h. Some paying_block), na_TipHashes = Inr [], na_AddedChain = (\<lambda>h. None)\<rparr>"

lemma ascii_runes: "list_all (\<lambda>c. byte_of c < 128) s \<Longrightarrow> runes s = map (\<lambda>c. (True, byte_of c, [c])) s"
  by (induction s) (simp_all add: rune_width.simps rune_need_def rune_value_def)

lemma paying_coinbase: "coinbaseSumToAddress plain_unicode paying_block ''hoosat:qa'' = (True, 10)"
  by (simp add: coinbaseSumToAddress_def paying_block_def output_pays_def output_amount_def toLower_def rune_codes_def
      trimSpace_def item_bytes_def space_item_def rune_space_def ascii_runes stripHRPRewards_def
      hasPrefix_def utf8_encode_def lower_rune_def plain_unicode_def Let_def
      del: runes.simps)

lemma paying_rows: "fst (processPayingBlock plain_unicode paying_api paying_block ''hoosat:qa'' [] None) \<noteq> []"
proof -
  have v: "b_VerboseData paying_block = Some v \<Longrightarrow> v_IsChainBlock v \<and> length (v_MergeSetBluesHashes v) = 3 \<and>
    list_all (\<lambda>h. length h = 64) (v_MergeSetBluesHashes v)" for v by (auto simp: paying_block_def)
  obtain v where bv: "b_VerboseData paying_block = Some v" by (simp add: paying_block_def)
  have "mined_from_node plain_unicode paying_api ''hoosat:qa'' hs =
    map (\<lambda>h. \<lparr>mb_Hash = h, mb_Worker = extractWorkerFromPayload plain_unicode paying_block\<rparr>) hs"
    if "list_all (\<lambda>h. length h = 64) hs" for hs
    using that by (induction hs) (simp_all add: mined_from_node_def paying_api_def paying_coinbase map_filter_simps)
  then have "fst (findMinedBluesFromMergeSet plain_unicode paying_api (v_MergeSetBluesHashes v) ''hoosat:qa'' None) \<noteq> []"
    using v [OF bv] by (auto simp: findMinedBluesFromMergeSet_def simp flip: length_0_conv)
  moreover have "reward_rows (worker_wanted plain_unicode []) p r row mbs \<noteq> []" if "mbs \<noteq> []" for p r row mbs
    using that by (cases mbs) (simp_all add: worker_wanted_def)
  ultimately show ?thesis using bv v [OF bv] paying_coinbase
    by (cases "findMinedBluesFromMergeSet plain_unicode paying_api (v_MergeSetBluesHashes v) ''hoosat:qa'' None")
      (simp add: processPayingBlock_def Let_def)
qed

theorem rewards_add_up_witness:
  "sum_list (map (\<lambda>x. unat (rr_RewardAtoms x))
     (fst (processPayingBlock plain_unicode paying_api paying_block ''hoosat:qa'' [] None))) =
   unat (snd (coinbaseSumToAddress plain_unicode paying_block ''hoosat:qa''))"
proof -
  obtain rs db1 where p: "processPayingBlock plain_unicode paying_api paying_block ''hoosat:qa'' [] None = (rs, db1)"
    by fastforce
  obtain v where v: "b_VerboseData paying_block = Some v" "length (v_MergeSetBluesHashes v) = 3"
    by (simp add: paying_block_def)
  have "rs \<noteq> []" using paying_rows p by simp
  then show ?thesis using rewards_add_up [OF v(1) _ p] v(2) p by simp
qed

subsection \<open>The walk ends\<close>

text \<open>A chain: each block is the selected parent of the one before it.\<close>

fun parent_chain :: "node_api \<Rightarrow> string \<Rightarrow> rpc_block list \<Rightarrow> bool" where
  "parent_chain api cur [] = True"
| "parent_chain api cur (b # bs) =
     (na_GetBlock api cur = Some b \<and>
      (case b_VerboseData b of None \<Rightarrow> False | Some v \<Rightarrow> parent_chain api (v_SelectedParentHash v) bs))"

lemma walk_chain_total:
  assumes "0 < capLimit"
  shows "\<exists>bs. walk_chain api startHash capLimit cur out = Some (out @ bs) \<and> parent_chain api cur bs \<and>
    length bs \<le> nat (capLimit - int (length out))"
proof (induction "nat (capLimit - int (length out))" arbitrary: cur out rule: less_induct)
  case less
  show ?case
  proof (cases "int (length out) < capLimit")
    case False
    then show ?thesis using assms by (subst walk_chain.simps) auto
  next
    case True
    show ?thesis
    proof (cases "usable api cur")
      case None
      then show ?thesis by (subst walk_chain.simps) (auto intro: exI [of _ "[]"])
    next
      case (Some bv)
      obtain b v where bv: "bv = (b, v)" by (cases bv)
      have u: "na_GetBlock api cur = Some b" "b_VerboseData b = Some v"
        using Some bv by (auto simp: usable_def split: option.splits)
      obtain bs where bs: "walk_chain api startHash capLimit (v_SelectedParentHash v) (out @ [b]) = Some ((out @ [b]) @ bs)"
        "parent_chain api (v_SelectedParentHash v) bs" "length bs \<le> nat (capLimit - int (length (out @ [b])))"
        using less [of "out @ [b]" "v_SelectedParentHash v"] True by auto
      have room: "1 + length bs \<le> nat (capLimit - int (length out))" using bs(3) True by simp
      show ?thesis
      proof (cases "startHash = Some (v_Hash v)")
        case True
        then show ?thesis using Some bv by (subst walk_chain.simps) (auto intro: exI [of _ "[]"])
      next
        case False
        show ?thesis
        proof (cases "length (v_SelectedParentHash v) = 64")
          case True
          then show ?thesis using Some bv False u bs room \<open>int (length out) < capLimit\<close>
            by (subst walk_chain.simps) (auto intro!: exI [of _ "b # bs"])
        next
          case len: False
          then show ?thesis using Some bv False u room \<open>int (length out) < capLimit\<close>
            by (subst walk_chain.simps) (auto intro!: exI [of _ "[b]"])
        qed
      qed
    qed
  qed
qed

lemma request_limit_bounds: "0 < request_limit v \<and> request_limit v \<le> 2000"
  by (auto simp: request_limit_def split: option.split)

text \<open>
  C15: the rewards endpoint always answers, whatever the node returns: the walk along the chain
  is cut by the requested limit, between 1 and 2000 blocks, and visits consecutive selected
  parents from the tip.
\<close>

theorem rewards_endpoint_answers:
  "(\<exists>r. miner_rewards uc api address limit startHash worker db = Some r) \<and>
   (\<exists>r. fetchRecentChainBlocks api (request_limit limit) = Some r \<and>
      (case r of Inl e \<Rightarrow> True | Inr bs \<Rightarrow> length bs \<le> 2000 \<and> (\<exists>tip. parent_chain api tip bs)))"
proof -
  have walk: "\<exists>bs. walk_chain api sh (request_limit limit) tip [] = Some bs \<and> parent_chain api tip bs \<and> length bs \<le> 2000"
    for sh tip using walk_chain_total [of "request_limit limit" api sh tip "[]"] request_limit_bounds [of limit] by auto
  have tip: "\<exists>r. from_tip api (\<lambda>tip. walk_chain api sh (request_limit limit) tip []) = Some r \<and>
      (case r of Inl e \<Rightarrow> True | Inr bs \<Rightarrow> length bs \<le> 2000 \<and> (\<exists>tip. parent_chain api tip bs))" for sh
    using walk [of sh] by (fastforce simp: from_tip_def split: sum.splits list.splits)
  have added: "\<exists>r. fetchAddedChainBlocksFrom api sh (request_limit limit) = Some r" for sh
    using tip [of "Some sh"] by (auto simp: fetchAddedChainBlocksFrom_def split: option.splits list.splits)
  define sh where "sh = trimSpace startHash"
  obtain r where "(if sh \<noteq> [] then fetchAddedChainBlocksFrom api sh (request_limit limit)
      else fetchRecentChainBlocks api (request_limit limit)) = Some r"
    using added [of sh] tip [of None] by (cases "sh = []") (auto simp: fetchRecentChainBlocks_def)
  then have "\<exists>r. miner_rewards uc api address limit startHash worker db = Some r"
    unfolding miner_rewards_def Let_def sh_def [symmetric] by (cases r) (simp_all split: prod.split)
  then show ?thesis using tip [of None] by (simp add: fetchRecentChainBlocks_def)
qed

end
