(* ===== verification/Reward_Booking.thy ===== *)
theory Reward_Booking
  imports Miner_Rewards
begin

text \<open>
  Booking the reward of a mined block (\<open>fetchAndUpdateReward\<close> of
  \<open>src/htnstratum/share_handler.go\<close>): a goroutine per block that asks the node up to fifteen times
  which chain block merged the block, and writes the payment into the database. The node may
  answer differently at each attempt, so it is a function of the attempt; the pauses between the
  attempts are not modelled. A block without verbose data makes the goroutine panic.
\<close>

definition maxAttempts :: nat where
  "maxAttempts = 15"

text \<open>
  The walk over the accepting chain: \<open>Some\<close> status and reward when the block's fate is known. The
  result of \<open>SetAcceptingBlockHash\<close> is only logged.
\<close>

fun find_payment ::
  "go_unicode \<Rightarrow> node_api \<Rightarrow> string \<Rightarrow> string \<Rightarrow> string list \<Rightarrow> mining_db \<Rightarrow> (string \<times> 64 word) option outcome \<times> mining_db" where
  "find_payment uc api wallet blockHash [] d = (Ret None, d)"
| "find_payment uc api wallet blockHash (a # as) d =
     (case HasAcceptingBlockForWalletExcluding d wallet a blockHash of
        (Inl e, d1) \<Rightarrow> find_payment uc api wallet blockHash as d1
      | (Inr alreadyBooked, d1) \<Rightarrow>
          (case na_GetBlock api a of
             None \<Rightarrow> find_payment uc api wallet blockHash as d1
           | Some b \<Rightarrow>
               (case b_VerboseData b of
                  None \<Rightarrow> (Panic ''nil pointer dereference'', d1)
                | Some v \<Rightarrow>
                    if blockHash \<in> set (v_MergeSetBluesHashes v)
                    then (case coinbaseSumToAddress uc b wallet of
                            (ok, totalAmount) \<Rightarrow>
                              if \<not> ok \<or> totalAmount = 0 then (Ret (Some (''blue'', 0)), d1)
                              else if alreadyBooked then (Ret (Some (''merge_duplicate'', 0)), d1)
                              else (Ret (Some (''blue'', totalAmount)), snd (SetAcceptingBlockHash d1 blockHash a)))
                    else if blockHash \<in> set (v_MergeSetRedsHashes v) then (Ret (Some (''red'', 0)), d1)
                    else find_payment uc api wallet blockHash as d1)))"

text \<open>One attempt.\<close>

definition try_reward ::
  "go_unicode \<Rightarrow> node_api \<Rightarrow> string \<Rightarrow> mining_db \<Rightarrow> (string \<times> 64 word) option outcome \<times> mining_db" where
  "try_reward uc api blockHash d =
     (case na_GetBlock api blockHash of
        None \<Rightarrow> (Ret None, d)
      | Some br \<Rightarrow>
          (case na_AddedChain api blockHash of
             None \<Rightarrow> (Ret None, d)
           | Some [] \<Rightarrow> (Ret None, d)
           | Some (h # hs) \<Rightarrow>
               (case GetBlock d blockHash of
                  (Inr (Some origRecord), d1) \<Rightarrow> find_payment uc api (WalletAddress origRecord) blockHash (h # hs) d1
                | (_, d1) \<Rightarrow> (Ret None, d1))))"

fun attempts_from ::
  "go_unicode \<Rightarrow> (nat \<Rightarrow> node_api) \<Rightarrow> string \<Rightarrow> nat \<Rightarrow> nat \<Rightarrow> mining_db \<Rightarrow> (string \<times> 64 word) outcome \<times> mining_db" where
  "attempts_from uc apis blockHash attempt 0 d = (Ret (''red'', 0), d)"
| "attempts_from uc apis blockHash attempt (Suc n) d =
     (case try_reward uc (apis attempt) blockHash d of
        (Ret (Some fate), d1) \<Rightarrow> (Ret fate, d1)
      | (Ret None, d1) \<Rightarrow> attempts_from uc apis blockHash (Suc attempt) n d1
      | (Panic m, d1) \<Rightarrow> (Panic m, d1)
      | (Hang, d1) \<Rightarrow> (Hang, d1))"

definition fetchAndUpdateReward ::
  "go_unicode \<Rightarrow> (nat \<Rightarrow> node_api) \<Rightarrow> string \<Rightarrow> mining_db option \<Rightarrow> unit outcome \<times> mining_db option" where
  "fetchAndUpdateReward uc apis blockHash db =
     (case db of
        None \<Rightarrow> (Ret (), None)
      | Some d \<Rightarrow>
          (case attempts_from uc apis blockHash 0 maxAttempts d of
             (Ret (status, reward), d1) \<Rightarrow> (Ret (), Some (snd (UpdateReward d1 blockHash reward status)))
           | (Panic m, d1) \<Rightarrow> (Panic m, Some d1)
           | (Hang, d1) \<Rightarrow> (Hang, Some d1)))"

subsection \<open>Invariant\<close>

text \<open>Rows that carry a reward name the block that paid it.\<close>

definition paid_rows_linked :: "mining_db \<Rightarrow> bool" where
  "paid_rows_linked d \<longleftrightarrow> (\<forall>r \<in> set (rows d). RewardAtoms r \<noteq> 0 \<longrightarrow> accepting_key r \<noteq> None)"

definition named_chain :: "(nat \<Rightarrow> node_api) \<Rightarrow> string \<Rightarrow> bool" where
  "named_chain apis blockHash \<longleftrightarrow>
     (\<forall>n hs. na_AddedChain (apis n) blockHash = Some hs \<longrightarrow> [] \<notin> set hs)"

text \<open>
  The database after an attempt: only the accepting block of the row may have changed; where a
  reward was found it is set.
\<close>

definition booked_as :: "string \<Rightarrow> string option \<Rightarrow> mining_db \<Rightarrow> mining_db \<Rightarrow> bool" where
  "booked_as blockHash a d d' \<longleftrightarrow> no_faults d' \<and> db_inv d' \<and>
     rows d' = (case a of None \<Rightarrow> rows d
       | Some h \<Rightarrow> map (\<lambda>r. if r_BlockHash r = blockHash then r\<lparr>AcceptingBlockHash := Some h\<rparr> else r) (rows d))"

lemma no_faults_call: "no_faults d \<Longrightarrow> no_faults (d\<lparr>calls := n\<rparr>)"
  by (simp add: no_faults_def)

lemma no_faults_after: "no_faults d \<Longrightarrow> no_faults (snd (SetAcceptingBlockHash d b a)) \<and> no_faults (snd (UpdateReward d b w s))"
  by (simp add: SetAcceptingBlockHash_def UpdateReward_def db_call_ok update_rows_def no_faults_def Let_def
      split: option.split)

lemma db_inv_call: "db_inv d \<Longrightarrow> db_inv (d\<lparr>calls := n\<rparr>)"
  by (subst db_inv_cong) simp_all

lemma same_hash_same_row: "db_inv d \<Longrightarrow> r \<in> set (rows d) \<Longrightarrow> s \<in> set (rows d) \<Longrightarrow> r_BlockHash r = r_BlockHash s \<Longrightarrow> r = s"
  by (auto simp: db_inv_def distinct_map inj_on_def)

text \<open>A link that no other row of the wallet has can be set.\<close>

lemma SetAccepting_ok:
  assumes "no_faults d" "db_inv d" "rec \<in> set (rows d)" "r_BlockHash rec = blockHash" "a \<noteq> []"
    "\<not> list_ex (\<lambda>r. WalletAddress r = WalletAddress rec \<and> AcceptingBlockHash r = Some a \<and> r_BlockHash r \<noteq> blockHash) (rows d)"
  shows "booked_as blockHash (Some a) d (snd (SetAcceptingBlockHash d blockHash a))"
proof -
  define upd where "upd r = (if r_BlockHash r = blockHash then r\<lparr>AcceptingBlockHash := Some a\<rparr> else r)" for r :: block_record
  have "\<not> (r \<in> set (map upd (rows d)) \<and> r_BlockHash r = blockHash \<and> s \<in> set (map upd (rows d)) \<and> r_BlockHash s \<noteq> blockHash \<and>
    accepting_key r \<noteq> None \<and> accepting_key r = accepting_key s)" for r s
  proof
    assume c: "r \<in> set (map upd (rows d)) \<and> r_BlockHash r = blockHash \<and> s \<in> set (map upd (rows d)) \<and> r_BlockHash s \<noteq> blockHash \<and>
      accepting_key r \<noteq> None \<and> accepting_key r = accepting_key s"
    then obtain r0 where r0: "r0 \<in> set (rows d)" "r = upd r0" by auto
    then have "r_BlockHash r0 = blockHash" using c by (cases "r_BlockHash r0 = blockHash") (simp_all add: upd_def)
    then have "r0 = rec" using same_hash_same_row [OF assms(2) r0(1) assms(3)] assms(4) by simp
    then have k: "accepting_key r = Some (WalletAddress rec, a)" using r0 assms(4,5) by (simp add: upd_def accepting_key_def)
    obtain s0 where s0: "s0 \<in> set (rows d)" "s = upd s0" using c by auto
    have "r_BlockHash s0 \<noteq> blockHash" using c s0(2) by (cases "r_BlockHash s0 = blockHash") (simp_all add: upd_def)
    then have "s \<in> set (rows d)" using s0 by (simp add: upd_def)
    moreover have "accepting_key s = Some (WalletAddress rec, a)" using c k by simp
    then have "WalletAddress s = WalletAddress rec \<and> AcceptingBlockHash s = Some a"
      by (simp add: accepting_key_def split: option.splits if_splits)
    ultimately show False using assms(6) c by (auto simp: list_ex_iff)
  qed
  then have "\<not> list_ex (\<lambda>r. r_BlockHash r = blockHash \<and> list_ex (\<lambda>s. r_BlockHash s \<noteq> blockHash \<and>
      accepting_key r \<noteq> None \<and> accepting_key r = accepting_key s) (map upd (rows d))) (map upd (rows d))"
    unfolding list_ex_iff by blast
  then have "rows (snd (SetAcceptingBlockHash d blockHash a)) = map upd (rows d)"
    using assms(1) by (simp add: SetAcceptingBlockHash_def db_call_ok Let_def update_rows_def upd_def [abs_def])
  then show ?thesis
    using SetAccepting_inv [OF assms(2)] no_faults_after [OF assms(1)] by (simp add: booked_as_def upd_def [abs_def])
qed

definition fate_ok :: "string option \<Rightarrow> (string \<times> 64 word) \<Rightarrow> bool" where
  "fate_ok a fate \<longleftrightarrow> fst fate \<in> {''blue'', ''red'', ''merge_duplicate''} \<and> (snd fate \<noteq> 0 \<longrightarrow> a \<noteq> None \<and> a \<noteq> Some [])"

lemma booked_as_calls [simp]: "booked_as b a (d\<lparr>calls := n\<rparr>) d' = booked_as b a d d'"
  by (cases a) (simp_all add: booked_as_def)

lemma booked_as_refl: "no_faults d \<Longrightarrow> db_inv d \<Longrightarrow> booked_as b None d (d\<lparr>calls := n\<rparr>)"
  by (simp add: booked_as_def no_faults_call db_inv_call)

lemma find_payment_books:
  assumes "no_faults d" "db_inv d" "rec \<in> set (rows d)" "r_BlockHash rec = blockHash" "[] \<notin> set as"
    "find_payment uc api (WalletAddress rec) blockHash as d = (Ret fate, d')"
  shows "\<exists>a. booked_as blockHash a d d' \<and> (fate = None \<longrightarrow> a = None) \<and> (\<forall>f. fate = Some f \<longrightarrow> fate_ok a f)"
  using assms
proof (induction as arbitrary: d)
  case Nil
  then show ?case by (intro exI [of _ None]) (auto simp: booked_as_def)
next
  case (Cons h as)
  define d1 where "d1 = d\<lparr>calls := calls d + 1\<rparr>"
  define booked where "booked = list_ex (\<lambda>r. WalletAddress r = WalletAddress rec \<and> AcceptingBlockHash r = Some h \<and>
    r_BlockHash r \<noteq> blockHash) (rows d)"
  have has: "HasAcceptingBlockForWalletExcluding d (WalletAddress rec) h blockHash = (Inr booked, d1)"
    using Cons.prems(1) by (simp add: HasAcceptingBlockForWalletExcluding_def db_call_ok booked_def d1_def)
  have d1: "no_faults d1" "db_inv d1" "rows d1 = rows d"
    using Cons.prems(1,2) by (simp_all add: d1_def no_faults_call db_inv_call)
  have later: ?case if "find_payment uc api (WalletAddress rec) blockHash as d1 = (Ret fate, d')"
    using Cons.IH [OF d1(1,2) _ Cons.prems(4) _ that] Cons.prems(3,5) d1(3) by (simp add: d1_def)
  have stay: ?case if "d' = d1" "\<exists>f. fate = Some f \<and> fate_ok None f"
    using that d1 by (intro exI [of _ None]) (auto simp: booked_as_def)
  note eq = Cons.prems(6) [unfolded find_payment.simps has prod.case sum.case]
  show ?case
  proof (cases "na_GetBlock api h")
    case None
    then show ?thesis using eq later by simp
  next
    case (Some b)
    show ?thesis
    proof (cases "b_VerboseData b")
      case None
      then show ?thesis using eq Some by simp
    next
      case v: (Some v)
      obtain ok total where cb: "coinbaseSumToAddress uc b (WalletAddress rec) = (ok, total)" by fastforce
      note eq' = eq [unfolded Some v option.case cb prod.case]
      consider (skip) "blockHash \<notin> set (v_MergeSetBluesHashes v)" | (unpaid) "\<not> ok \<or> total = 0 \<or> booked" "blockHash \<in> set (v_MergeSetBluesHashes v)"
        | (paid) "ok" "total \<noteq> 0" "\<not> booked" "blockHash \<in> set (v_MergeSetBluesHashes v)" by blast
      then show ?thesis
      proof cases
        case skip
        then show ?thesis using eq' later stay by (auto simp: fate_ok_def split: if_splits)
      next
        case unpaid
        then show ?thesis using eq' by (intro stay) (auto simp: fate_ok_def split: if_splits)
      next
        case paid
        then have d': "d' = snd (SetAcceptingBlockHash d1 blockHash h)" "fate = Some (''blue'', total)" using eq' by simp_all
        have "h \<noteq> []" using Cons.prems(5) by auto
        then have "booked_as blockHash (Some h) d1 d'" unfolding d'
          using SetAccepting_ok [OF d1(1,2), of rec blockHash h] Cons.prems(3,4) d1(3) paid(3) by (simp add: booked_def)
        then show ?thesis using \<open>h \<noteq> []\<close> d'(2) by (intro exI [of _ "Some h"]) (simp add: d1_def fate_ok_def)
      qed
    qed
  qed
qed

lemma booked_as_trans: "booked_as b None d d1 \<Longrightarrow> booked_as b a d1 d' \<Longrightarrow> booked_as b a d d'"
  by (cases a) (simp_all add: booked_as_def)

lemma try_reward_books:
  assumes "no_faults d" "db_inv d" "\<And>hs. na_AddedChain api blockHash = Some hs \<Longrightarrow> [] \<notin> set hs"
    "try_reward uc api blockHash d = (Ret fate, d')"
  shows "\<exists>a. booked_as blockHash a d d' \<and> (fate = None \<longrightarrow> a = None) \<and> (\<forall>f. fate = Some f \<longrightarrow> fate_ok a f)"
proof -
  define d1 where "d1 = d\<lparr>calls := calls d + 1\<rparr>"
  have d1: "no_faults d1" "db_inv d1" "rows d1 = rows d"
    using assms(1,2) by (simp_all add: d1_def no_faults_call db_inv_call)
  have stay: ?thesis if "d' = d \<or> d' = d1" "fate = None"
    using that d1 assms(1,2) by (intro exI [of _ None]) (auto simp: booked_as_def)
  show ?thesis
  proof (cases "na_GetBlock api blockHash = None \<or> na_AddedChain api blockHash = None \<or> na_AddedChain api blockHash = Some []")
    case True
    then show ?thesis using assms(4) by (intro stay) (auto simp: try_reward_def split: option.splits)
  next
    case False
    then obtain br h hs where n: "na_GetBlock api blockHash = Some br" "na_AddedChain api blockHash = Some (h # hs)"
      by (auto simp: neq_Nil_conv)
    show ?thesis
    proof (cases "fst (GetBlock d blockHash)")
      case (Inr rec)
      have g: "GetBlock d blockHash = (Inr rec, d1)"
        using Inr assms(1) by (auto simp: GetBlock_def db_call_ok d1_def split: option.splits if_splits)
      show ?thesis
      proof (cases rec)
        case None
        then show ?thesis using assms(4) n g by (intro stay) (simp_all add: try_reward_def)
      next
        case (Some r)
        then have r: "r \<in> set (rows d1)" "r_BlockHash r = blockHash"
          using g assms(1) d1(3) by (auto simp: GetBlock_def db_call_ok find_Some_iff split: option.splits if_splits)
        have "find_payment uc api (WalletAddress r) blockHash (h # hs) d1 = (Ret fate, d')"
          using assms(4) n g Some by (simp add: try_reward_def)
        from find_payment_books [OF d1(1,2) r assms(3) [OF n(2)] this] show ?thesis by (simp add: d1_def)
      qed
    next
      case (Inl e)
      have "GetBlock d blockHash = (Inl e, d1)"
        using Inl assms(1) by (auto simp: GetBlock_def db_call_ok d1_def split: option.splits if_splits)
      then show ?thesis using assms(4) n by (intro stay) (simp_all add: try_reward_def)
    qed
  qed
qed

lemma attempts_from_books:
  assumes "no_faults d" "db_inv d" "named_chain apis blockHash" "attempts_from uc apis blockHash k n d = (Ret fate, d')"
  shows "\<exists>a. booked_as blockHash a d d' \<and> fate_ok a fate"
  using assms
proof (induction n arbitrary: k d)
  case 0
  then show ?case by (intro exI [of _ None]) (auto simp: booked_as_def fate_ok_def)
next
  case (Suc n)
  obtain r d1 where t: "try_reward uc (apis k) blockHash d = (r, d1)" by fastforce
  then obtain x where r: "r = Ret x" using Suc.prems(4) by (cases r) auto
  have chain: "[] \<notin> set hs" if "na_AddedChain (apis k) blockHash = Some hs" for hs
    using Suc.prems(3) that by (auto simp: named_chain_def)
  obtain a where a: "booked_as blockHash a d d1" "x = None \<longrightarrow> a = None" "\<forall>f. x = Some f \<longrightarrow> fate_ok a f"
    using try_reward_books [OF Suc.prems(1,2) chain t [unfolded r]] by blast
  show ?case
  proof (cases x)
    case None
    then have b: "booked_as blockHash None d d1" using a by simp
    have "attempts_from uc apis blockHash (Suc k) n d1 = (Ret fate, d')" using Suc.prems(4) t r None by simp
    from Suc.IH [OF _ _ Suc.prems(3) this] b obtain a' where "booked_as blockHash a' d1 d'" "fate_ok a' fate"
      by (auto simp: booked_as_def)
    with booked_as_trans [OF b] show ?thesis by blast
  next
    case (Some f)
    then show ?thesis using Suc.prems(4) t r a by auto
  qed
qed

lemma find_payment_small:
  assumes "\<And>h b w. na_GetBlock api h = Some b \<Longrightarrow> snd (coinbaseSumToAddress uc b w) < 2 ^ 63"
    "fst (find_payment uc api wallet blockHash as d) = Ret (Some fate)"
  shows "snd fate < 2 ^ 63"
  using assms(2)
proof (induction as arbitrary: d)
  case (Cons h as)
  then show ?case using assms(1) [of h _ wallet]
    by (auto split: prod.splits sum.splits option.splits if_splits)
qed simp

lemma try_reward_found:
  assumes "try_reward uc api blockHash d = (Ret (Some f), d')"
  shows "\<exists>wallet hs d1. find_payment uc api wallet blockHash hs d1 = (Ret (Some f), d')"
proof (cases "na_GetBlock api blockHash = None \<or> na_AddedChain api blockHash = None \<or> na_AddedChain api blockHash = Some []")
  case True
  then show ?thesis using assms by (auto simp: try_reward_def split: option.splits)
next
  case False
  then obtain br h hs where n: "na_GetBlock api blockHash = Some br" "na_AddedChain api blockHash = Some (h # hs)"
    by (auto simp: neq_Nil_conv)
  obtain r d1 where g: "GetBlock d blockHash = (r, d1)" by fastforce
  then show ?thesis using assms n
    by (cases r) (auto simp: try_reward_def simp del: find_payment.simps split: option.splits)
qed

lemma attempts_from_small:
  assumes "\<And>k h b w. na_GetBlock (apis k) h = Some b \<Longrightarrow> snd (coinbaseSumToAddress uc b w) < 2 ^ 63"
    "attempts_from uc apis blockHash k n d = (Ret fate, d')"
  shows "snd fate < 2 ^ 63"
  using assms(2)
proof (induction n arbitrary: k d)
  case 0
  then show ?case by auto
next
  case (Suc n)
  obtain r d1 where t: "try_reward uc (apis k) blockHash d = (r, d1)" by fastforce
  then obtain x where r: "r = Ret x" using Suc.prems by (cases r) auto
  show ?case
  proof (cases x)
    case None
    then show ?thesis using Suc.IH [of "Suc k" d1] Suc.prems t r by simp
  next
    case (Some f)
    then obtain wallet hs d0 where "find_payment uc (apis k) wallet blockHash hs d0 = (Ret (Some f), d1)"
      using try_reward_found t r by blast
    then have "fst (find_payment uc (apis k) wallet blockHash hs d0) = Ret (Some f)" by simp
    with assms(1) have "snd f < 2 ^ 63" by (rule find_payment_small)
    then show ?thesis using Suc.prems t r Some by simp
  qed
qed


text \<open>A pending block that the chain block \<open>p\<close> merges as blue and pays with ten atoms.\<close>

definition booking_api :: node_api where
  "booking_api = paying_api\<lparr>na_AddedChain := (\<lambda>h. Some [''p''])\<rparr>"

definition booking_db :: mining_db where
  "booking_db = \<lparr>rows = [sample_row\<lparr>ID := 1, r_BlockHash := replicate 64 (CHR ''a''), WalletAddress := ''hoosat:qa''\<rparr>],
     next_id = 2, faults = (\<lambda>n. None), calls = 0\<rparr>"

definition booked_db :: mining_db where
  "booked_db = \<lparr>rows = [sample_row\<lparr>ID := 1, r_BlockHash := replicate 64 (CHR ''a''), WalletAddress := ''hoosat:qa'',
      RewardAtoms := 10, Status := ''blue'', AcceptingBlockHash := Some ''p''\<rparr>],
     next_id = 2, faults = (\<lambda>n. None), calls = 4\<rparr>"

lemma paying_small: "snd (coinbaseSumToAddress uc paying_block w) < 2 ^ 63"
  by (simp add: coinbaseSumToAddress_def paying_block_def output_amount_def Let_def)

lemma maxAttempts_Suc: "maxAttempts = Suc 14"
  by (simp add: maxAttempts_def)

lemma booking_run:
  "fetchAndUpdateReward plain_unicode (\<lambda>n. booking_api) (replicate 64 (CHR ''a'')) (Some booking_db) = (Ret (), Some booked_db)"
proof -
  have api: "na_GetBlock booking_api h = Some paying_block" "na_AddedChain booking_api h = Some [''p'']" for h
    by (simp_all add: booking_api_def paying_api_def)
  obtain v where v: "b_VerboseData paying_block = Some v" "replicate 64 (CHR ''a'') \<in> set (v_MergeSetBluesHashes v)"
    by (simp add: paying_block_def)
  have "try_reward plain_unicode booking_api (replicate 64 (CHR ''a'')) booking_db =
    (Ret (Some (''blue'', 10)), booked_db\<lparr>rows := map (\<lambda>r. r\<lparr>RewardAtoms := 0, Status := ''pending''\<rparr>) (rows booked_db), calls := 3\<rparr>)"
    using v(2) by (simp add: try_reward_def api v(1) paying_coinbase GetBlock_def HasAcceptingBlockForWalletExcluding_def
      SetAcceptingBlockHash_def update_rows_def accepting_key_def db_call_def booking_db_def booked_db_def sample_row_def Let_def)
  then have "attempts_from plain_unicode (\<lambda>n. booking_api) (replicate 64 (CHR ''a'')) 0 maxAttempts booking_db =
    (Ret (''blue'', 10), booked_db\<lparr>rows := map (\<lambda>r. r\<lparr>RewardAtoms := 0, Status := ''pending''\<rparr>) (rows booked_db), calls := 3\<rparr>)"
    unfolding maxAttempts_Suc attempts_from.simps by simp
  then show ?thesis
    by (simp add: fetchAndUpdateReward_def UpdateReward_def uint64_arg_def update_rows_def
        db_call_def booked_db_def sample_row_def Let_def)
qed


end
