(* ===== verification/Json_Text.thy ===== *)
theory Json_Text
  imports Stratum_Context Go_Bytes
begin

text \<open>
  The text of the JSON-RPC messages (\<open>src/gostratum/jsonrpc_event.go\<close>): \<open>UnmarshalEvent\<close> and
  \<open>UnmarshalResponse\<close> with the parts of \<open>encoding/json\<close> that they use, written out. The syntax is
  checked byte by byte by a machine with a stack, as in Go's scanner (its states keep their names
  where they have one), which also builds the value; there is no fuel. Texts of errors are not
  modelled: every error is \<open>json_error\<close>.
\<close>

definition json_error :: go_error where
  "json_error = ErrMsg ''json''"

subsection \<open>Strings\<close>

definition replacement :: string where
  "replacement = map char_of [239 :: nat, 191, 189]"

definition surrogate :: "nat \<Rightarrow> bool" where
  "surrogate r \<longleftrightarrow> 55296 \<le> r \<and> r < 57344"

text \<open>Four hexadecimal digits after \<open>\u\<close>.\<close>

definition getu4 :: "string \<Rightarrow> nat option" where
  "getu4 s =
     (if length s < 6 \<or> s ! 0 \<noteq> CHR 0x5C \<or> s ! 1 \<noteq> CHR ''u'' then None
      else case (hex_val (s ! 2), hex_val (s ! 3), hex_val (s ! 4), hex_val (s ! 5)) of
             (Some w, Some x, Some y, Some z) \<Rightarrow> Some (4096 * w + 256 * x + 16 * y + z)
           | _ \<Rightarrow> None)"

text \<open>\<open>utf16.DecodeRune\<close>, \<open>None\<close> for the replacement character.\<close>

definition decode_pair :: "nat \<Rightarrow> nat \<Rightarrow> nat option" where
  "decode_pair r1 r2 =
     (if 55296 \<le> r1 \<and> r1 < 56320 \<and> 56320 \<le> r2 \<and> r2 < 57344
      then Some ((r1 - 55296) * 1024 + (r2 - 56320) + 65536) else None)"

definition escaped :: "char \<Rightarrow> char" where
  "escaped c =
     (if c = CHR ''b'' then CHR 0x08 else if c = CHR ''f'' then CHR 0x0C else if c = CHR ''n'' then CHR 0x0A
      else if c = CHR ''r'' then CHR 0x0D else if c = CHR ''t'' then CHR 0x09 else c)"

definition string_escape :: "char \<Rightarrow> bool" where
  "string_escape c \<longleftrightarrow>
     c \<in> set [CHR ''b'', CHR ''f'', CHR ''n'', CHR ''r'', CHR ''t'', CHR ''/'', CHR 0x5C, CHR 0x22]"

text \<open>
  \<open>unquote\<close> of the text between the quotes, which the scanner has accepted: escapes are decoded,
  a lone surrogate and a byte that starts no rune become U+FFFD.
\<close>

function unquote :: "string \<Rightarrow> string" where
  "unquote [] = []"
| "unquote (c # s) =
     (if c = CHR 0x5C
      then (case s of
              [] \<Rightarrow> []
            | e # s' \<Rightarrow>
                if e = CHR ''u''
                then (case getu4 (c # s) of
                        None \<Rightarrow> []
                      | Some rr \<Rightarrow>
                          if \<not> surrogate rr then utf8_encode rr @ unquote (drop 5 s)
                          else (case getu4 (drop 5 s) of
                                  None \<Rightarrow> replacement @ unquote (drop 5 s)
                                | Some rr1 \<Rightarrow>
                                    (case decode_pair rr rr1 of
                                       None \<Rightarrow> replacement @ unquote (drop 5 s)
                                     | Some dec \<Rightarrow> utf8_encode dec @ unquote (drop 11 s))))
                else if string_escape e then escaped e # unquote s' else [])
      else (case rune_width (c # s) of
              None \<Rightarrow> replacement @ unquote s
            | Some n \<Rightarrow> take n (c # s) @ unquote (drop n (c # s))))"
  by pat_completeness auto
termination
  by (relation "measure length") (auto dest!: rune_width_pos)

declare unquote.simps(2) [simp del]

subsection \<open>Numbers\<close>

definition dec_val :: "string \<Rightarrow> nat" where
  "dec_val s = fold (\<lambda>c n. 10 * n + (byte_of c - 48)) s 0"

definition signed_val :: "string \<Rightarrow> int" where
  "signed_val s =
     (case s of
        [] \<Rightarrow> 0
      | c # t \<Rightarrow> if c = CHR ''-'' then - int (dec_val t) else if c = CHR ''+'' then int (dec_val t) else int (dec_val s))"

definition ten_pow :: "int \<Rightarrow> rat" where
  "ten_pow e = (if 0 \<le> e then 10 ^ nat e else 1 / 10 ^ nat (- e))"

definition exp_char :: "char \<Rightarrow> bool" where
  "exp_char c \<longleftrightarrow> c = CHR ''e'' \<or> c = CHR ''E''"

text \<open>\<open>strconv.ParseFloat\<close> of a number that the scanner has accepted: the nearest double.\<close>

definition ParseFloat :: "string \<Rightarrow> f64" where
  "ParseFloat s =
     (let neg = (s \<noteq> [] \<and> hd s = CHR ''-'');
          t = (if neg then tl s else s);
          mant = takeWhile (\<lambda>c. \<not> exp_char c) t;
          ex = signed_val (drop (length mant + 1) t);
          ip = takeWhile (\<lambda>c. c \<noteq> CHR ''.'') mant;
          fp = drop (length ip + 1) mant;
          v = of_nat (dec_val (ip @ fp)) * ten_pow (ex - int (length fp))
      in f64_round neg (if neg then - v else v))"

subsection \<open>The scanner\<close>

datatype json_frame =
    FArr "json list" \<comment> \<open>the elements so far, last first\<close>
  | FKey "(string \<times> json) list" \<comment> \<open>an object before its next key\<close>
  | FVal "(string \<times> json) list" string \<comment> \<open>an object with a key that has no value yet\<close>

datatype num_state = NumNeg | Num0 | Num1 | NumDot | NumDot0 | NumE | NumESign | NumE0

datatype json_state =
    BeginValue | BeginValueOrEmpty | BeginStringOrEmpty | BeginString
  | ObjectKey | EndValue | EndTop json
  | InString string | InStringEsc string | InStringEscU nat string
  | InNumber num_state string
  | InLiteral string json
  | Broken

type_synonym json_scanner = "json_state \<times> json_frame list"

definition maxNestingDepth :: nat where
  "maxNestingDepth = 10000"

definition json_space :: "char \<Rightarrow> bool" where
  "json_space c \<longleftrightarrow> c \<in> {CHR '' '', CHR 0x09, CHR 0x0D, CHR 0x0A}"

definition json_digit :: "char \<Rightarrow> bool" where
  "json_digit c \<longleftrightarrow> 48 \<le> byte_of c \<and> byte_of c \<le> 57"

text \<open>A value is complete: it goes where the innermost open array or object expects it.\<close>

fun deliver :: "json \<Rightarrow> json_frame list \<Rightarrow> json_scanner" where
  "deliver v [] = (EndTop v, [])"
| "deliver v (FArr vs # fs) = (EndValue, FArr (v # vs) # fs)"
| "deliver v (FVal kvs k # fs) = (EndValue, FKey ((k, v) # kvs) # fs)"
| "deliver v (FKey kvs # fs) = (case v of JStr k \<Rightarrow> (ObjectKey, FVal kvs k # fs) | _ \<Rightarrow> (Broken, []))"

definition pushParseState :: "json_frame \<Rightarrow> json_state \<Rightarrow> json_frame list \<Rightarrow> json_scanner" where
  "pushParseState f st fs = (if length fs < maxNestingDepth then (st, f # fs) else (Broken, []))"

definition begin_value :: "char \<Rightarrow> json_frame list \<Rightarrow> json_scanner" where
  "begin_value c fs =
     (if json_space c then (BeginValue, fs)
      else if c = CHR 0x7B then pushParseState (FKey []) BeginStringOrEmpty fs
      else if c = CHR ''['' then pushParseState (FArr []) BeginValueOrEmpty fs
      else if c = CHR 0x22 then (InString [], fs)
      else if c = CHR ''-'' then (InNumber NumNeg [c], fs)
      else if c = CHR ''0'' then (InNumber Num0 [c], fs)
      else if json_digit c then (InNumber Num1 [c], fs)
      else if c = CHR ''t'' then (InLiteral ''rue'' (JBool True), fs)
      else if c = CHR ''f'' then (InLiteral ''alse'' (JBool False), fs)
      else if c = CHR ''n'' then (InLiteral ''ull'' JNull, fs)
      else (Broken, []))"

definition begin_string :: "char \<Rightarrow> json_frame list \<Rightarrow> json_scanner" where
  "begin_string c fs =
     (if json_space c then (BeginString, fs) else if c = CHR 0x22 then (InString [], fs) else (Broken, []))"

text \<open>\<open>stateEndValue\<close>, after a complete value.\<close>

definition end_value :: "char \<Rightarrow> json_scanner \<Rightarrow> json_scanner" where
  "end_value c cfg =
     (case cfg of
        (EndTop v, fs) \<Rightarrow> if json_space c then cfg else (Broken, [])
      | (ObjectKey, fs) \<Rightarrow> if json_space c then cfg else if c = CHR '':'' then (BeginValue, fs) else (Broken, [])
      | (EndValue, FArr vs # fs) \<Rightarrow>
          if json_space c then cfg
          else if c = CHR '','' then (BeginValue, FArr vs # fs)
          else if c = CHR '']'' then deliver (JList (rev vs)) fs
          else (Broken, [])
      | (EndValue, FKey kvs # fs) \<Rightarrow>
          if json_space c then cfg
          else if c = CHR '','' then (BeginString, FKey kvs # fs)
          else if c = CHR 0x7D then deliver (JObj (rev kvs)) fs
          else (Broken, [])
      | _ \<Rightarrow> (Broken, []))"

text \<open>The next state of a number; \<open>None\<close> where the byte is not part of it.\<close>

fun num_next :: "num_state \<Rightarrow> char \<Rightarrow> num_state option" where
  "num_next NumNeg c = (if c = CHR ''0'' then Some Num0 else if json_digit c then Some Num1 else None)"
| "num_next Num1 c =
     (if json_digit c then Some Num1 else if c = CHR ''.'' then Some NumDot else if exp_char c then Some NumE else None)"
| "num_next Num0 c = (if c = CHR ''.'' then Some NumDot else if exp_char c then Some NumE else None)"
| "num_next NumDot c = (if json_digit c then Some NumDot0 else None)"
| "num_next NumDot0 c = (if json_digit c then Some NumDot0 else if exp_char c then Some NumE else None)"
| "num_next NumE c =
     (if c = CHR ''+'' \<or> c = CHR ''-'' then Some NumESign else if json_digit c then Some NumE0 else None)"
| "num_next NumESign c = (if json_digit c then Some NumE0 else None)"
| "num_next NumE0 c = (if json_digit c then Some NumE0 else None)"

definition num_final :: "num_state \<Rightarrow> bool" where
  "num_final q \<longleftrightarrow> q \<in> {Num0, Num1, NumDot0, NumE0}"

definition json_step :: "json_scanner \<Rightarrow> char \<Rightarrow> json_scanner" where
  "json_step cfg c =
     (case cfg of
        (BeginValue, fs) \<Rightarrow> begin_value c fs
      | (BeginValueOrEmpty, fs) \<Rightarrow>
          if json_space c then cfg
          else if c = CHR '']'' then deliver (JList []) (tl fs)
          else begin_value c fs
      | (BeginStringOrEmpty, fs) \<Rightarrow>
          if json_space c then cfg
          else if c = CHR 0x7D then deliver (JObj []) (tl fs)
          else begin_string c fs
      | (BeginString, fs) \<Rightarrow> begin_string c fs
      | (InString acc, fs) \<Rightarrow>
          if c = CHR 0x22 then deliver (JStr (unquote (rev acc))) fs
          else if c = CHR 0x5C then (InStringEsc (c # acc), fs)
          else if byte_of c < 32 then (Broken, [])
          else (InString (c # acc), fs)
      | (InStringEsc acc, fs) \<Rightarrow>
          if string_escape c then (InString (c # acc), fs)
          else if c = CHR ''u'' then (InStringEscU 3 (c # acc), fs)
          else (Broken, [])
      | (InStringEscU n acc, fs) \<Rightarrow>
          if hex_val c = None then (Broken, [])
          else if n = 0 then (InString (c # acc), fs)
          else (InStringEscU (n - 1) (c # acc), fs)
      | (InNumber q acc, fs) \<Rightarrow>
          (case num_next q c of
             Some q' \<Rightarrow> (InNumber q' (c # acc), fs)
           | None \<Rightarrow> if num_final q then end_value c (deliver (JNum (ParseFloat (rev acc))) fs) else (Broken, []))
      | (InLiteral s v, fs) \<Rightarrow>
          if s = [] \<or> c \<noteq> hd s then (Broken, [])
          else if tl s = [] then deliver v fs
          else (InLiteral (tl s) v, fs)
      | (Broken, fs) \<Rightarrow> (Broken, [])
      | _ \<Rightarrow> end_value c cfg)"

text \<open>At the end of the input the scanner is fed one more space.\<close>

definition scan_value :: "string \<Rightarrow> json option" where
  "scan_value s =
     (case json_step (foldl json_step (BeginValue, []) s) (CHR '' '') of
        (EndTop v, fs) \<Rightarrow> Some v
      | _ \<Rightarrow> None)"

subsection \<open>Decoding into the messages\<close>

text \<open>
  A value for an \<open>any\<close>: objects become maps, in which the last of equal keys wins. Numbers beyond
  the range of doubles are an error of the decoder (\<open>marshals\<close> is false of them).
\<close>

fun put_key :: "string \<Rightarrow> json \<Rightarrow> (string \<times> json) list \<Rightarrow> (string \<times> json) list" where
  "put_key k v [] = [(k, v)]"
| "put_key k v ((k', v') # kvs) = (if k = k' then (k, v) # kvs else (k', v') # put_key k v kvs)"

fun any_value :: "json \<Rightarrow> json" where
  "any_value (JList xs) = JList (map any_value xs)"
| "any_value (JObj kvs) = JObj (fold (\<lambda>(k, v). put_key k v) (map (\<lambda>(k, v). (k, any_value v)) kvs) [])"
| "any_value v = v"

text \<open>
  Keys are matched without regard to case: ASCII letters, and the two other runes that fold to
  ASCII letters, the long s and the Kelvin sign.
\<close>

function fold_name :: "string \<Rightarrow> string" where
  "fold_name s =
     (if s = [] then []
      else if hasPrefix s (utf8_encode 383) then CHR ''S'' # fold_name (drop 2 s)
      else if hasPrefix s (utf8_encode 8490) then CHR ''K'' # fold_name (drop 3 s)
      else (let n = byte_of (hd s) in if 97 \<le> n \<and> n \<le> 122 then char_of (n - 32) else hd s) # fold_name (tl s))"
  by pat_completeness auto
termination by (relation "measure length") auto

declare fold_name.simps [simp del]

definition find_field :: "string list \<Rightarrow> string \<Rightarrow> string option" where
  "find_field names key =
     (if key \<in> set names then Some key else find (\<lambda>f. fold_name f = fold_name key) names)"

text \<open>A value for a field of type string or slice: the new value of the field, or a type error.\<close>

fun string_value :: "json \<Rightarrow> string \<Rightarrow> string option" where
  "string_value (JStr s) old = Some s"
| "string_value JNull old = Some old"
| "string_value _ old = None"

fun slice_value :: "json \<Rightarrow> json list option option" where
  "slice_value (JList xs) = (if list_all marshals xs then Some (Some (map any_value xs)) else None)"
| "slice_value JNull = Some None"
| "slice_value _ = None"

definition empty_event :: json_rpc_event where
  "empty_event = \<lparr>ev_Id = JNull, ev_Version = [], ev_Method = [], ev_Params = []\<rparr>"

definition event_field :: "string \<Rightarrow> json \<Rightarrow> json_rpc_event \<Rightarrow> json_rpc_event option" where
  "event_field key v e =
     (case find_field [''id'', ''jsonrpc'', ''method'', ''params''] key of
        None \<Rightarrow> Some e
      | Some f \<Rightarrow>
          if f = ''id'' then (if marshals v then Some (e\<lparr>ev_Id := any_value v\<rparr>) else None)
          else if f = ''jsonrpc'' then map_option (\<lambda>s. e\<lparr>ev_Version := s\<rparr>) (string_value v (ev_Version e))
          else if f = ''method'' then map_option (\<lambda>s. e\<lparr>ev_Method := s\<rparr>) (string_value v (ev_Method e))
          else map_option (\<lambda>xs. e\<lparr>ev_Params := (case xs of None \<Rightarrow> [] | Some ys \<Rightarrow> ys)\<rparr>) (slice_value v))"

fun all_fields :: "(string \<Rightarrow> json \<Rightarrow> 'a \<Rightarrow> 'a option) \<Rightarrow> (string \<times> json) list \<Rightarrow> 'a \<Rightarrow> 'a option" where
  "all_fields put [] e = Some e"
| "all_fields put ((k, v) # kvs) e = Option.bind (put k v e) (all_fields put kvs)"

text \<open>
  A type error does not stop the decoder, but the caller gets the error and drops the value.
  \<open>null\<close> leaves the message empty.
\<close>

definition decode_struct :: "(string \<Rightarrow> json \<Rightarrow> 'a \<Rightarrow> 'a option) \<Rightarrow> 'a \<Rightarrow> string \<Rightarrow> go_error + 'a" where
  "decode_struct put e0 s =
     (case scan_value s of
        Some JNull \<Rightarrow> Inr e0
      | Some (JObj kvs) \<Rightarrow> (case all_fields put kvs e0 of None \<Rightarrow> Inl json_error | Some e \<Rightarrow> Inr e)
      | _ \<Rightarrow> Inl json_error)"

definition UnmarshalEvent :: "string \<Rightarrow> go_error + json_rpc_event" where
  "UnmarshalEvent = decode_struct event_field empty_event"

definition empty_response :: json_rpc_response where
  "empty_response = \<lparr>rsp_Id = JNull, rsp_Result = JNull, rsp_Error = None\<rparr>"

definition response_field :: "string \<Rightarrow> json \<Rightarrow> json_rpc_response \<Rightarrow> json_rpc_response option" where
  "response_field key v r =
     (case find_field [''id'', ''result'', ''error''] key of
        None \<Rightarrow> Some r
      | Some f \<Rightarrow>
          if f = ''id'' then (if marshals v then Some (r\<lparr>rsp_Id := any_value v\<rparr>) else None)
          else if f = ''result'' then (if marshals v then Some (r\<lparr>rsp_Result := any_value v\<rparr>) else None)
          else map_option (\<lambda>xs. r\<lparr>rsp_Error := xs\<rparr>) (slice_value v))"

definition UnmarshalResponse :: "string \<Rightarrow> go_error + json_rpc_response" where
  "UnmarshalResponse = decode_struct response_field empty_response"

subsection \<open>Decoded strings are valid UTF-8\<close>

lemma byte_of_char_of [simp]: "n < 256 \<Longrightarrow> byte_of (char_of n) = n"
  by simp

lemma utf8_encode_valid:
  assumes "r < 1114112" "\<not> surrogate r"
  shows "valid_utf8 (utf8_encode r)"
proof -
  have "rune_width (utf8_encode r) = Some (length (utf8_encode r))"
  proof -
    consider "r < 128" | "128 \<le> r" "r < 2048" | "2048 \<le> r" "r < 65536" | "65536 \<le> r" by linarith
    then show ?thesis
    proof cases
      case 1
      then show ?thesis by (simp add: utf8_encode_def rune_width.simps rune_need_def)
    next
      case 2
      then have "194 \<le> 192 + r div 64" "192 + r div 64 \<le> 223" by auto
      then show ?thesis using 2
        by (simp add: utf8_encode_def rune_width.simps rune_need_def second_ok_def cont_def cont_in_def Let_def)
    next
      case 3
      have b: "r div 4096 < 16" using 3 by auto
      have a: "32 \<le> r div 64 mod 64" if "r div 4096 = 0"
      proof -
        have "r < 4096" using that by (simp add: div_eq_0_iff)
        then have "r div 64 < 64" "32 \<le> r div 64" using 3(1) by simp_all
        then show ?thesis by simp
      qed
      have s: "r div 64 mod 64 < 32" if "r div 4096 = 13"
      proof -
        have "53248 \<le> r" "r < 57344" using that by simp_all
        then have "r div 64 < 864" using assms(2) by (simp add: surrogate_def)
        moreover have "r div 64 div 64 = 13" using that by (simp add: div_mult2_eq [symmetric])
        ultimately show ?thesis using mult_div_mod_eq [of 64 "r div 64"] by simp
      qed
      show ?thesis using 3 a b s
        by (auto simp: utf8_encode_def rune_width.simps rune_need_def second_ok_def cont_def cont_in_def Let_def)
    next
      case 4
      have b: "r div 262144 \<le> 4" using assms(1) by auto
      have a: "16 \<le> r div 4096 mod 64" if "r div 262144 = 0"
      proof -
        have "r < 262144" using that by (simp add: div_eq_0_iff)
        then have "r div 4096 < 64" "16 \<le> r div 4096" using 4 by simp_all
        then show ?thesis by simp
      qed
      have s: "r div 4096 mod 64 < 16" if "r div 262144 = 4"
      proof -
        have "r div 4096 < 272" using assms(1) by simp
        moreover have "r div 4096 div 64 = 4" using that by (simp add: div_mult2_eq [symmetric])
        ultimately show ?thesis using mult_div_mod_eq [of 64 "r div 4096"] by simp
      qed
      show ?thesis using 4 a b s
        by (auto simp: utf8_encode_def rune_width.simps rune_need_def second_ok_def cont_def cont_in_def Let_def)
    qed
  qed
  from valid_utf8_rune_bytes [OF this] show ?thesis by simp
qed

lemma replacement_valid: "valid_utf8 replacement"
  using utf8_encode_valid [of 65533] by (simp add: utf8_encode_def replacement_def surrogate_def)

lemma hex_val_bound: "hex_val c = Some n \<Longrightarrow> n < 16"
  by (auto simp: hex_val_def Let_def split: if_splits)

lemma getu4_bound: "getu4 s = Some r \<Longrightarrow> r < 65536"
  by (auto simp: getu4_def split: if_splits option.splits dest!: hex_val_bound)

lemma decode_pair_valid: "decode_pair a b = Some r \<Longrightarrow> valid_utf8 (utf8_encode r)"
  by (rule utf8_encode_valid) (auto simp: decode_pair_def surrogate_def split: if_splits)

lemma ascii_Cons: "byte_of c < 128 \<Longrightarrow> valid_utf8 s \<Longrightarrow> valid_utf8 (c # s)"
  using valid_utf8_rune [of "c # s" 1] by (simp add: rune_width.simps rune_need_def)

lemma escaped_ascii:
  assumes "string_escape c"
  shows "byte_of (escaped c) < 128"
  using assms unfolding string_escape_def list.set
  by (elim insertE emptyE) (simp_all add: escaped_def)

lemma unquote_valid: "valid_utf8 (unquote s)"
proof (induction s rule: unquote.induct)
  case (2 c s)
  show ?case
  proof (cases "c = CHR 0x5C")
    case False
    then show ?thesis using 2 replacement_valid
      by (auto simp: unquote.simps(2) valid_utf8_append valid_utf8_rune_bytes split: option.split)
  next
    case True
    show ?thesis
    proof (cases s)
      case (Cons e s')
      show ?thesis
      proof (cases "e = CHR ''u''")
        case False
        then have "unquote (c # s) = (if string_escape e then escaped e # unquote s' else [])"
          using True Cons by (simp add: unquote.simps(2))
        then show ?thesis using 2(5) [OF True Cons False] escaped_ascii ascii_Cons by simp
      next
        case u: True
        note ih = 2(1,2,3,4) [OF True Cons u]
        show ?thesis
        proof (cases "getu4 (c # s)")
          case (Some rr)
          show ?thesis
            using ih(1-4) [OF Some] True Cons u Some replacement_valid getu4_bound [OF Some]
            by (auto simp: unquote.simps(2) valid_utf8_append utf8_encode_valid decode_pair_valid split: option.splits)
        qed (simp add: True Cons u unquote.simps(2))
      qed
    qed (simp add: True unquote.simps(2))
  qed
qed simp

fun json_utf8 :: "json \<Rightarrow> bool" where
  "json_utf8 (JStr s) = valid_utf8 s"
| "json_utf8 (JList xs) = list_all json_utf8 xs"
| "json_utf8 (JObj kvs) = list_all (\<lambda>kv. valid_utf8 (fst kv) \<and> json_utf8 (snd kv)) kvs"
| "json_utf8 (JInt i) = False" \<comment> \<open>the decoder makes doubles of all numbers\<close>
| "json_utf8 _ = True"

fun frame_utf8 :: "json_frame \<Rightarrow> bool" where
  "frame_utf8 (FArr vs) = json_utf8 (JList vs)"
| "frame_utf8 (FKey kvs) = json_utf8 (JObj kvs)"
| "frame_utf8 (FVal kvs k) = (json_utf8 (JObj kvs) \<and> valid_utf8 k)"

fun state_utf8 :: "json_state \<Rightarrow> bool" where
  "state_utf8 (EndTop v) = json_utf8 v"
| "state_utf8 (InLiteral s v) = json_utf8 v"
| "state_utf8 _ = True"

definition scanner_utf8 :: "json_scanner \<Rightarrow> bool" where
  "scanner_utf8 cfg \<longleftrightarrow> state_utf8 (fst cfg) \<and> list_all frame_utf8 (snd cfg)"

lemma json_utf8_rev: "json_utf8 (JList vs) \<Longrightarrow> json_utf8 (JList (rev vs))" "json_utf8 (JObj kvs) \<Longrightarrow> json_utf8 (JObj (rev kvs))"
  by (auto simp: list_all_iff)

lemma deliver_utf8: "json_utf8 v \<Longrightarrow> list_all frame_utf8 fs \<Longrightarrow> scanner_utf8 (deliver v fs)"
  by (induction v fs rule: deliver.induct) (auto simp: scanner_utf8_def split: json.split)

lemma begin_utf8: "list_all frame_utf8 fs \<Longrightarrow> scanner_utf8 (begin_value c fs) \<and> scanner_utf8 (begin_string c fs)"
  by (simp add: begin_value_def begin_string_def pushParseState_def scanner_utf8_def)

lemma end_value_utf8: "scanner_utf8 cfg \<Longrightarrow> scanner_utf8 (end_value c cfg)"
  using json_utf8_rev
  by (auto simp: end_value_def scanner_utf8_def [of "(_, _)"] intro!: deliver_utf8
      split: prod.splits json_state.splits list.splits json_frame.splits)

lemma list_all_tl: "list_all P xs \<Longrightarrow> list_all P (tl xs)"
  by (cases xs) auto

lemma json_step_utf8:
  assumes "scanner_utf8 cfg"
  shows "scanner_utf8 (json_step cfg c)"
proof -
  obtain st fs where cfg: "cfg = (st, fs)" by fastforce
  have fs: "list_all frame_utf8 fs" "state_utf8 st" using assms by (simp_all add: cfg scanner_utf8_def)
  note d = deliver_utf8 [OF _ fs(1)] deliver_utf8 [OF _ list_all_tl [OF fs(1)]] begin_utf8 [OF fs(1)] end_value_utf8 [OF assms]
  show ?thesis
  proof (cases st)
    case (InNumber q acc)
    then show ?thesis using d(1) [of "JNum (ParseFloat (rev acc))"] end_value_utf8 fs
      by (auto simp: json_step_def cfg scanner_utf8_def [of "(_, _)"] split: option.split)
  next
    case (InString acc)
    then show ?thesis using d(1) [of "JStr (unquote (rev acc))"] fs unquote_valid
      by (simp add: json_step_def cfg scanner_utf8_def [of "(_, _)"])
  next
    case (InLiteral s v)
    then show ?thesis using d(1) [of v] fs by (simp add: json_step_def cfg scanner_utf8_def [of "(_, _)"])
  qed (use d fs assms in \<open>simp_all add: json_step_def cfg scanner_utf8_def [of "(_, _)"]\<close>)
qed

lemma scan_value_utf8:
  assumes "scan_value s = Some v"
  shows "json_utf8 v"
proof -
  have "scanner_utf8 (foldl json_step cfg s)" if "scanner_utf8 cfg" for cfg
    using that by (induction s arbitrary: cfg) (simp_all add: json_step_utf8)
  then have "scanner_utf8 (json_step (foldl json_step (BeginValue, []) s) (CHR '' ''))"
    by (intro json_step_utf8) (simp add: scanner_utf8_def)
  then show ?thesis using assms by (auto simp: scan_value_def scanner_utf8_def split: prod.splits json_state.splits)
qed

lemma put_key_utf8:
  "valid_utf8 k \<Longrightarrow> json_utf8 v \<Longrightarrow> json_utf8 (JObj kvs) \<Longrightarrow> json_utf8 (JObj (put_key k v kvs))"
  by (induction k v kvs rule: put_key.induct) auto

lemma any_value_utf8: "json_utf8 v \<Longrightarrow> json_utf8 (any_value v)"
proof (induction v rule: any_value.induct)
  case (2 kvs)
  define ps where "ps = map (\<lambda>(k, v). (k, any_value v)) kvs"
  have "list_all (\<lambda>kv. valid_utf8 (fst kv) \<and> json_utf8 (snd kv)) ps"
    using 2 by (force simp: ps_def list_all_iff)
  then have "json_utf8 (JObj (fold (\<lambda>(k, v). put_key k v) ps acc))" if "json_utf8 (JObj acc)" for acc
    using that by (induction ps arbitrary: acc) (auto simp: put_key_utf8 simp del: json_utf8.simps)
  from this [of "[]"] show ?case by (simp add: ps_def)
qed (auto simp: list_all_iff)

text \<open>
  The dynamic types of decoded values: nil, booleans, finite doubles, strings of valid UTF-8, and
  lists and maps (with one entry for each key) of such values.
\<close>

fun json_typed :: "json \<Rightarrow> bool" where
  "json_typed (JNum x) = marshals (JNum x)"
| "json_typed (JInt i) = False"
| "json_typed (JStr s) = valid_utf8 s"
| "json_typed (JList xs) = list_all json_typed xs"
| "json_typed (JObj kvs) = (distinct (map fst kvs) \<and> list_all (\<lambda>kv. valid_utf8 (fst kv) \<and> json_typed (snd kv)) kvs)"
| "json_typed _ = True"

lemma put_key_keys: "set (map fst (put_key k v kvs)) = insert k (set (map fst kvs))"
  by (induction k v kvs rule: put_key.induct) auto

lemma put_key_typed:
  "valid_utf8 k \<Longrightarrow> json_typed v \<Longrightarrow> json_typed (JObj kvs) \<Longrightarrow> json_typed (JObj (put_key k v kvs))"
proof (induction k v kvs rule: put_key.induct)
  case (2 k v k' v' kvs)
  then show ?case using put_key_keys [of k v kvs] by (auto simp del: set_map)
qed simp

lemma any_value_typed: "json_utf8 v \<Longrightarrow> marshals v \<Longrightarrow> json_typed (any_value v)"
proof (induction v rule: any_value.induct)
  case (2 kvs)
  define ps where "ps = map (\<lambda>(k, v). (k, any_value v)) kvs"
  have "list_all (\<lambda>kv. valid_utf8 (fst kv) \<and> json_typed (snd kv)) ps"
    using 2 by (force simp: ps_def list_all_iff)
  then have "json_typed (JObj (fold (\<lambda>(k, v). put_key k v) ps acc))" if "json_typed (JObj acc)" for acc
    using that by (induction ps arbitrary: acc) (auto simp: put_key_typed simp del: json_typed.simps)
  from this [of "[]"] show ?case by (simp add: ps_def)
qed (auto simp: list_all_iff)

definition event_typed :: "json_rpc_event \<Rightarrow> bool" where
  "event_typed e \<longleftrightarrow> json_typed (ev_Id e) \<and> valid_utf8 (ev_Version e) \<and> valid_utf8 (ev_Method e) \<and> list_all json_typed (ev_Params e)"

text \<open>Whatever bytes a client sends, what is decoded has these types.\<close>

lemma event_field_typed:
  assumes "event_field k v e = Some e'" "json_utf8 v" "event_typed e"
  shows "event_typed e'"
  using assms any_value_typed
  by (auto simp: event_field_def event_typed_def list_all_iff split: option.splits if_splits
      elim!: slice_value.elims string_value.elims)

lemma UnmarshalEvent_typed:
  assumes "UnmarshalEvent s = Inr e"
  shows "event_typed e"
proof -
  have "event_typed e2" if "all_fields event_field kvs e1 = Some e2" "json_utf8 (JObj kvs)" "event_typed e1" for kvs e1 e2
    using that by (induction event_field kvs e1 rule: all_fields.induct) (auto simp: bind_eq_Some_conv dest: event_field_typed)
  from this [of _ empty_event] show ?thesis using assms
    by (auto simp: UnmarshalEvent_def decode_struct_def empty_event_def event_typed_def split: option.splits json.splits
        dest: scan_value_utf8)
qed

end
