(* ===== verification/Number_Text.thy ===== *)
theory Number_Text
  imports Json_Text
begin

text \<open>
  Numbers as \<open>encoding/json\<close> writes them (used by \<open>Reply\<close> and \<open>Send\<close> in
  \<open>src/gostratum/stratum_context.go\<close>): integers in decimal, doubles as the shortest decimal that
  denotes them, with an exponent when they are very small or very large. What is written is a
  number for the decoder, and \<open>ParseFloat\<close> returns the double that was written; this rests on
  seventeen digits being enough for any double, which is proved from the definition of rounding.
\<close>

subsection \<open>The text of a number\<close>

text \<open>The exponent \<open>e\<close> with \<open>10 ^ (e - 1) \<le> r < 10 ^ e\<close>.\<close>

definition dec_exp :: "rat \<Rightarrow> int" where
  "dec_exp r =
     (let (n, d) = quotient_of r;
          k = int (length (dec_str (nat n))) - int (length (dec_str (nat d)))
      in if ten_pow k \<le> r then k + 1 else k)"

text \<open>
  The decimal with \<open>n\<close> digits that is nearest to a positive \<open>r\<close>, or else its neighbour on the other
  side of \<open>r\<close>, if it denotes the same double as \<open>r\<close>.
\<close>

definition digits_try :: "rat \<Rightarrow> nat \<Rightarrow> nat option" where
  "digits_try r n =
     (let s = ten_pow (dec_exp r - int n);
          f = \<lfloor>r / s\<rfloor>;
          near = round_half_even (r / s);
          other = (if near = f then f + 1 else f)
      in if f64_round False (of_int near * s) = Fin r then Some (nat near)
         else if f64_round False (of_int other * s) = Fin r then Some (nat other)
         else None)"

definition nearest17 :: "rat \<Rightarrow> nat" where
  "nearest17 r = nat (round_half_even (r / ten_pow (dec_exp r - 17)))"

text \<open>
  The shortest decimal that denotes the double \<open>r > 0\<close>: its digits without trailing zeros, and the
  position of the decimal point. Seventeen digits are always enough.
\<close>

definition shortest :: "rat \<Rightarrow> string \<times> int" where
  "shortest r =
     (let (m, n) = (case find (\<lambda>n. digits_try r n \<noteq> None) [1..<18] of
                      Some n \<Rightarrow> (the (digits_try r n), n)
                    | None \<Rightarrow> (nearest17 r, 17));
          ds = dec_str m
      in (rev (dropWhile (\<lambda>c. c = CHR ''0'') (rev ds)), int (length ds) + dec_exp r - int n))"

text \<open>The formats \<open>f\<close> and \<open>e\<close>; the encoder drops the zero of a one-digit exponent.\<close>

definition fmt_f :: "string \<Rightarrow> int \<Rightarrow> string" where
  "fmt_f ds dp =
     (if dp \<le> 0 then ''0.'' @ replicate (nat (- dp)) (CHR ''0'') @ ds
      else if length ds \<le> nat dp then ds @ replicate (nat dp - length ds) (CHR ''0'')
      else take (nat dp) ds @ ''.'' @ drop (nat dp) ds)"

definition fmt_e :: "string \<Rightarrow> int \<Rightarrow> string" where
  "fmt_e ds dp =
     take 1 ds @ (if length ds = 1 then [] else ''.'' @ drop 1 ds) @ ''e'' @
     (if dp - 1 < 0 then ''-'' @ dec_str (nat (1 - dp)) else ''+'' @ dec_str (nat (dp - 1)))"

definition pos_str :: "rat \<Rightarrow> string" where
  "pos_str r =
     (let (ds, dp) = shortest r
      in if f64_lt (Fin r) (f64_round False (1 / 10 ^ 6)) \<or> 10 ^ 21 \<le> r then fmt_e ds dp else fmt_f ds dp)"

fun f64_str :: "f64 \<Rightarrow> string" where
  "f64_str (Fin r) = (if r = 0 then ''0'' else if r < 0 then ''-'' @ pos_str (- r) else pos_str r)"
| "f64_str FNegZero = ''-0''"
| "f64_str _ = []" \<comment> \<open>the encoder fails\<close>

text \<open>The texts that the scanner takes for a number.\<close>

definition num_start :: "char \<Rightarrow> num_state option" where
  "num_start c =
     (if c = CHR ''-'' then Some NumNeg else if c = CHR ''0'' then Some Num0
      else if json_digit c then Some Num1 else None)"

fun num_run :: "num_state \<Rightarrow> string \<Rightarrow> num_state option" where
  "num_run q [] = Some q"
| "num_run q (c # s) = Option.bind (num_next q c) (\<lambda>q'. num_run q' s)"

definition number_text :: "string \<Rightarrow> bool" where
  "number_text t \<longleftrightarrow>
     (case t of
        [] \<Rightarrow> False
      | c # s \<Rightarrow> (case Option.bind (num_start c) (\<lambda>q. num_run q s) of None \<Rightarrow> False | Some q \<Rightarrow> num_final q))"

text \<open>A value of Go's \<open>float64\<close>: a finite number that is its own rounding.\<close>

definition f64_value :: "f64 \<Rightarrow> bool" where
  "f64_value x \<longleftrightarrow> f64_round (f64_neg x) (f64_rat x) = x"

subsection \<open>Integers\<close>

lemma hex_char_digit: "d < 10 \<Longrightarrow> json_digit (hex_char d) \<and> byte_of (hex_char d) = 48 + d"
  by (simp add: json_digit_def hex_char_def)

lemma dec_str_digits: "list_all json_digit (dec_str n)"
  by (induction n rule: dec_str.induct) (subst dec_str.simps, auto simp: hex_char_digit)

lemma dec_val_append: "dec_val (s @ [c]) = 10 * dec_val s + (byte_of c - 48)"
  by (simp add: dec_val_def)

lemma dec_val_str: "dec_val (dec_str n) = n"
proof (induction n rule: dec_str.induct)
  case (1 n)
  show ?case
  proof (cases "n < 10")
    case True
    then show ?thesis by (subst dec_str.simps) (simp add: dec_val_def hex_char_digit)
  next
    case False
    then show ?thesis using 1 by (subst dec_str.simps) (simp add: dec_val_append hex_char_digit)
  qed
qed

lemma dec_str_pos: "0 < n \<Longrightarrow> dec_str n \<noteq> [] \<and> hd (dec_str n) \<noteq> CHR ''0''"
proof (induction n rule: dec_str.induct)
  case (1 n)
  have "hex_char n \<noteq> CHR ''0''" if "n < 10"
  proof
    assume "hex_char n = CHR ''0''"
    then have "byte_of (hex_char n) = 48" by simp
    then show False using hex_char_digit [OF that] 1(2) by simp
  qed
  then show ?case using 1 by (cases "n < 10") (subst (1 2) dec_str.simps, simp add: hd_append)+
qed

lemma num_run_digits: "list_all json_digit s \<Longrightarrow> num_run Num1 s = Some Num1"
  by (induction s) auto

lemma digits_start:
  assumes "list_all json_digit s" "s \<noteq> []" "hd s \<noteq> CHR ''0''"
  shows "number_text s \<and> num_run NumNeg s = Some Num1"
proof -
  obtain c t where s: "s = c # t" using assms(2) by (cases s) auto
  moreover have "c \<noteq> CHR ''-''" using assms(1) by (auto simp: s json_digit_def)
  ultimately show ?thesis using assms num_run_digits [of t]
    by (simp add: number_text_def num_start_def num_final_def)
qed

lemma takeWhile_digits:
  assumes "list_all json_digit s"
  shows "takeWhile (\<lambda>c. \<not> exp_char c) s = s" "takeWhile (\<lambda>c. c \<noteq> CHR ''.'') s = s"
  by (rule takeWhile_eq_all_conv [THEN iffD2];
      use assms in \<open>auto simp: list_all_iff json_digit_def exp_char_def\<close>)+

lemma ParseFloat_digits:
  assumes "list_all json_digit s"
  shows "ParseFloat s = f64_round False (of_nat (dec_val s))"
    "ParseFloat (CHR ''-'' # s) = f64_round True (- of_nat (dec_val s))"
proof -
  have "s = [] \<or> hd s \<noteq> CHR ''-''" using assms by (cases s) (auto simp: json_digit_def)
  then show "ParseFloat s = f64_round False (of_nat (dec_val s))"
    by (auto simp: ParseFloat_def Let_def takeWhile_digits [OF assms] signed_val_def ten_pow_def)
  show "ParseFloat (CHR ''-'' # s) = f64_round True (- of_nat (dec_val s))"
    by (simp add: ParseFloat_def Let_def takeWhile_digits [OF assms] signed_val_def ten_pow_def)
qed

lemma int_text: "number_text (int_str i) \<and> ParseFloat (int_str i) = f64_of_int i"
proof (cases "i = 0")
  case True
  have "dec_str 0 = ''0''" by (subst dec_str.simps) (simp add: hex_char_def char_of_eq_iff take_bit_eq_mod)
  then show ?thesis
    by (simp add: True int_str_def number_text_def num_start_def num_final_def f64_of_int_def ParseFloat_digits json_digit_def
      dec_val_def)
next
  case False
  define n where "n = nat \<bar>i\<bar>"
  note n = digits_start [OF dec_str_digits, of n] dec_str_pos [of n] ParseFloat_digits [OF dec_str_digits, of n]
  have "rat_of_nat n = \<bar>of_int i\<bar>" by (simp add: n_def)
  moreover have "f64_round b (of_int i) = f64_round False (of_int i)" for b using False by (simp add: f64_round_def)
  ultimately show ?thesis using n False
    by (auto simp: int_str_def n_def f64_of_int_def dec_val_str number_text_def num_start_def num_final_def)
qed

lemma f64_of_int_finite:
  assumes "- (2 ^ 63) \<le> i" "i < 2 ^ 64"
  shows "marshals (JNum (f64_of_int i))"
proof (cases "i = 0")
  case False
  define r :: rat where "r = of_int i"
  define u where "u = pow2 (max (ilog2 \<bar>r\<bar>) (- 1022) - 52)"
  define v where "v = of_int (round_half_even (r / u)) * u"
  have "\<bar>i\<bar> \<le> 2 ^ 64" using assms by (simp add: abs_le_iff)
  then have "\<bar>rat_of_int i\<bar> \<le> of_int (2 ^ 64)" by (simp only: of_int_abs [symmetric] of_int_le_iff)
  then have r: "r \<noteq> 0" "\<bar>r\<bar> \<le> pow2 64" using False by (simp_all add: r_def pow2_def)
  have "pow2 (ilog2 \<bar>r\<bar>) \<le> \<bar>r\<bar>" using r by (intro ilog2_bounds) simp
  also have "\<dots> < pow2 65" using r(2) by (simp add: pow2_def)
  finally have "ilog2 \<bar>r\<bar> < 65" by (rule pow2_less_cancel)
  then have u: "0 < u" "u \<le> pow2 64" by (auto simp: u_def intro!: pow2_mono)
  have "v - r = (of_int (round_half_even (r / u)) - r / u) * u" using u by (simp add: v_def algebra_simps)
  then have "\<bar>v - r\<bar> \<le> 1 / 2 * u"
    using round_half_even_error [of "r / u"] u by (simp only: abs_mult) (intro mult_mono, auto)
  then have "\<bar>v\<bar> \<le> pow2 64 + pow2 64" using r u by linarith
  also have "\<dots> < pow2 1024" by (simp add: pow2_def)
  finally have "\<not> pow2 1024 \<le> \<bar>v\<bar>" by simp
  then have "f64_round False r = (if v = 0 then f64_zero (r < 0) else Fin v)"
    using r by (simp add: f64_round_def Let_def u_def v_def)
  then show ?thesis by (simp add: f64_of_int_def r_def f64_zero_def)
qed (simp add: f64_of_int_def f64_round_def f64_zero_def)

lemma f64_value_finite: "f64_value x \<Longrightarrow> marshals (JNum x)"
  by (cases x) (auto simp: f64_value_def f64_round_def f64_zero_def split: if_splits)

subsection \<open>Decimal digits of a double\<close>

lemma ten_pow_powi: "ten_pow e = 10 powi e"
  by (simp add: ten_pow_def power_int_def power_inverse field_simps)

lemma ten_pow_add: "ten_pow (a + b) = ten_pow a * ten_pow b"
  by (simp add: ten_pow_powi power_int_add)

lemma ten_pow_pos [simp]: "0 < ten_pow e" "ten_pow e \<noteq> 0"
  by (simp_all add: ten_pow_def)

lemma ten_pow_nat: "ten_pow (int n) = 10 ^ n"
  by (simp add: ten_pow_def)

lemma dec_str_length: "0 < n \<Longrightarrow> 10 ^ (length (dec_str n) - 1) \<le> n \<and> n < 10 ^ length (dec_str n)"
proof (induction n rule: dec_str.induct)
  case (1 n)
  show ?case
  proof (cases "n < 10")
    case True
    then show ?thesis using 1(2) by (subst (1 2) dec_str.simps) simp
  next
    case False
    define l where "l = length (dec_str (n div 10))"
    have "0 < l" using dec_str_pos [of "n div 10"] False by (simp add: l_def)
    then obtain k where k: "l = Suc k" by (cases l) auto
    have "10 ^ k \<le> n div 10" "n div 10 < 10 ^ Suc k" using 1 False by (simp_all add: l_def [symmetric] k)
    moreover have "length (dec_str n) = Suc (Suc k)" using False by (subst dec_str.simps) (simp add: l_def [symmetric] k)
    moreover have "10 * (n div 10) \<le> n" "n < 10 * (n div 10) + 10" by simp_all
    ultimately show ?thesis by (simp only: diff_Suc_1 power_Suc) linarith
  qed
qed

lemma dec_exp_bounds:
  assumes "0 < r"
  shows "ten_pow (dec_exp r - 1) \<le> r" "r < ten_pow (dec_exp r)"
proof -
  obtain n d where q: "quotient_of r = (n, d)" by (cases "quotient_of r")
  have d: "0 < d" using q by (rule quotient_of_denom_pos)
  have r: "r = of_int n / of_int d" using q by (rule quotient_of_div)
  have n: "0 < n" using assms d unfolding r by (simp add: zero_less_divide_iff)
  define a b where "a = int (length (dec_str (nat n)))" and "b = int (length (dec_str (nat d)))"
  have k: "dec_exp r = (if ten_pow (a - b) \<le> r then a - b + 1 else a - b)"
    by (simp add: dec_exp_def q a_def b_def Let_def)
  have bounds: "ten_pow (int (length (dec_str (nat m))) - 1) \<le> of_int m \<and> of_int m < ten_pow (int (length (dec_str (nat m))))"
    if "0 < m" for m :: int
  proof -
    have "dec_str (nat m) \<noteq> []" using dec_str_pos [of "nat m"] that by simp
    then have l: "int (length (dec_str (nat m))) - 1 = int (length (dec_str (nat m)) - 1)" by (cases "dec_str (nat m)") auto
    have "10 ^ (length (dec_str (nat m)) - 1) \<le> nat m" "nat m < 10 ^ length (dec_str (nat m))"
      using dec_str_length [of "nat m"] that by simp_all
    then have "(10 :: rat) ^ (length (dec_str (nat m)) - 1) \<le> of_nat (nat m)" "of_nat (nat m) < (10 :: rat) ^ length (dec_str (nat m))"
      by (metis of_nat_le_iff of_nat_numeral of_nat_power, metis of_nat_less_iff of_nat_numeral of_nat_power)
    then show ?thesis using that unfolding l by (simp add: ten_pow_nat)
  qed
  have nb: "ten_pow (a - 1) \<le> of_int n" "of_int n < ten_pow a" using bounds [OF n] by (simp_all add: a_def)
  have db: "ten_pow (b - 1) \<le> of_int d" "of_int d < ten_pow b" using bounds [OF d] by (simp_all add: b_def)
  have "ten_pow (a - b - 1) * of_int d \<le> ten_pow (a - b - 1) * ten_pow b"
    using db(2) by (intro mult_left_mono) (auto simp: less_imp_le)
  also have "\<dots> = ten_pow (a - 1)" by (simp add: ten_pow_add [symmetric])
  also note nb(1)
  finally have 1: "ten_pow (a - b - 1) \<le> r" using d by (simp add: r pos_le_divide_eq)
  note nb(2)
  also have "ten_pow a = ten_pow (a - b + 1) * ten_pow (b - 1)" by (simp add: ten_pow_add [symmetric])
  also have "\<dots> \<le> ten_pow (a - b + 1) * of_int d"
    using db(1) by (intro mult_left_mono) (auto simp: less_imp_le)
  finally have 2: "r < ten_pow (a - b + 1)" using d by (simp add: r pos_divide_less_eq)
  show "ten_pow (dec_exp r - 1) \<le> r" using 1 by (simp add: k)
  show "r < ten_pow (dec_exp r)" using 2 by (auto simp: k)
qed

text \<open>Near enough to a double, everything is rounded to it.\<close>

lemma round_half_even_near: "\<bar>x - of_int m\<bar> < 1 / 2 \<Longrightarrow> round_half_even x = m"
proof -
  assume a: "\<bar>x - of_int m\<bar> < 1 / 2"
  have "\<bar>rat_of_int (round_half_even x) - of_int m\<bar> < 1"
    using a round_half_even_error [of x] by linarith
  then have "\<bar>rat_of_int (round_half_even x - m)\<bar> < of_int 1" by simp
  then have "\<bar>round_half_even x - m\<bar> < 1" by (simp only: of_int_abs [symmetric] of_int_less_iff)
  then show ?thesis by simp
qed


definition f64_unit :: "rat \<Rightarrow> rat" where
  "f64_unit r = pow2 (max (ilog2 \<bar>r\<bar>) (- 1022) - 52)"

lemma f64_round_exact:
  assumes "0 < r" "f64_round False r = Fin r"
  obtains m where "r = of_int m * f64_unit r" "r < pow2 1024"
proof -
  have "of_int (round_half_even (r / f64_unit r)) * f64_unit r = r" "r < pow2 1024"
    using assms by (auto simp: f64_round_def f64_zero_def f64_unit_def Let_def split: if_splits)
  then show ?thesis using that by metis
qed

text \<open>
  \<open>r\<close> is a double. What lies closer to it than half of its unit is rounded to it, except below a
  power of two, where the unit is halved.
\<close>

lemma f64_round_near:
  assumes r: "0 < r" "f64_round False r = Fin r"
    and D: "0 < D" "\<bar>D - r\<bar> < f64_unit r / 2" "r = pow2 (ilog2 r) \<Longrightarrow> \<bar>D - r\<bar> < f64_unit r / 4"
  shows "f64_round False D = Fin r"
proof -
  define k u where "k = ilog2 r" and "u = f64_unit r"
  have u: "0 < u" "u = pow2 (max k (- 1022) - 52)" using r by (simp_all add: u_def f64_unit_def k_def)
  obtain m where m: "r = of_int m * u" and big: "r < pow2 1024" using f64_round_exact [OF r] by (auto simp: u_def)
  have d: "D - r < u / 2" "r - D < u / 2" using D(2) unfolding u_def by linarith+
  have k: "pow2 k \<le> r" "r < pow2 (k + 1)" using ilog2_bounds [OF r(1)] by (simp_all add: k_def)
  have rounded: "f64_round False D = Fin r" if "f64_unit D * of_int j = r" "\<bar>D / f64_unit D - of_int j\<bar> < 1 / 2" for j
  proof -
    have "j \<noteq> 0" using that(1) r(1) by auto
    then show ?thesis using that D(1) r(1) big round_half_even_near [OF that(2)]
      by (simp add: f64_round_def f64_unit_def Let_def mult.commute)
  qed
  have "u \<le> r"
  proof -
    have "0 < m" using r(1) u(1) by (simp add: m zero_less_mult_iff)
    then have "1 \<le> rat_of_int m" by simp
    then show ?thesis using u(1) mult_right_mono [of 1 "rat_of_int m" u] by (simp add: m)
  qed
  have mult: "\<exists>i. pow2 j = of_int i * u" if "max k (- 1022) - 52 \<le> j" for j
    using that by (intro exI [of _ "2 ^ nat (j - (max k (- 1022) - 52))"])
      (simp add: u pow2_nat [symmetric] pow2_add [symmetric])
  have upper: "D < pow2 (k + 1)"
  proof -
    have "pow2 (max k (- 1022) - 52) < pow2 (k + 1)" using \<open>u \<le> r\<close> k(2) u(2) by simp
    then have "max k (- 1022) - 52 \<le> k + 1" by (auto dest: pow2_less_cancel)
    then obtain i where i: "pow2 (k + 1) = of_int i * u" using mult by blast
    have "m < i" using k(2) u(1) by (simp add: i m mult_less_cancel_right)
    then have "rat_of_int (m + 1) \<le> of_int i" by (simp only: of_int_le_iff)
    then have "rat_of_int m + 1 \<le> of_int i" by simp
    then have "r + u \<le> pow2 (k + 1)"
      using u(1) mult_right_mono [of "rat_of_int m + 1" "of_int i" u] unfolding i m by (simp add: algebra_simps)
    then show ?thesis using d(1) u(1) by linarith
  qed
  show ?thesis
  proof (cases "f64_unit D = u")
    case True
    have "D / u - of_int m = (D - r) / u" using u(1) by (simp add: m diff_divide_distrib)
    then have "\<bar>D / u - of_int m\<bar> = \<bar>D - r\<bar> / u" using u(1) by (simp only: abs_divide)
    moreover have "\<bar>D - r\<bar> / u < 1 / 2" using D(2) u(1) by (simp add: u_def [symmetric] pos_divide_less_eq)
    moreover have "u * of_int m = r" by (simp add: m)
    ultimately show ?thesis using rounded [of m] True by simp
  next
    case False
    have iD: "pow2 (ilog2 D) \<le> D" "D < pow2 (ilog2 D + 1)" using ilog2_bounds [OF D(1)] by simp_all
    have le: "ilog2 D \<le> k" using iD(1) upper pow2_less_cancel [of "ilog2 D" "k + 1"] by simp
    have "max (ilog2 D) (- 1022) \<noteq> max k (- 1022)" using False D(1) by (auto simp: f64_unit_def u(2))
    then have lt: "ilog2 D < k" "- 1022 < k" using le by linarith+
    then obtain i where i: "pow2 k = of_int i * u" using mult [of k] by auto
    have "D < pow2 k" using iD(2) pow2_mono [of "ilog2 D + 1" k] lt by simp
    then have "r - pow2 k < u / 2" using d(2) k(1) by linarith
    then have "of_int (m - i) * u < of_int 1 * u" using u(1) by (simp add: m i algebra_simps)
    then have "m - i < 1" using u(1) by (simp only: mult_less_cancel_right of_int_less_iff)
    then have rk: "r = pow2 k" using k(1) u(1) by (simp add: m i mult_le_cancel_right)
    then have near: "\<bar>D - r\<bar> < u / 4" using D(3) by (simp add: k_def u_def)
    have uk: "u = pow2 (k - 52)" using lt by (simp add: u(2))
    have "u \<le> pow2 k" unfolding uk by (rule pow2_mono) simp
    then have "pow2 k / 2 \<le> D" using near rk u(1) by linarith
    then have "pow2 (k - 1) \<le> D" using pow2_add [of "k - 1" 1] by simp
    then have "ilog2 D = k - 1" using \<open>D < pow2 k\<close> by (intro ilog2_unique) simp_all
    moreover have "max (k - 1) (- 1022) = k - 1" using lt by simp
    ultimately have uD: "f64_unit D = u / 2" using D(1) pow2_add [of "k - 53" 1] by (simp add: f64_unit_def uk)
    have "D / (u / 2) - of_int (2 * m) = (D - r) / (u / 2)" using u(1) by (simp add: m diff_divide_distrib)
    then have "\<bar>D / (u / 2) - of_int (2 * m)\<bar> = \<bar>D - r\<bar> / (u / 2)" using u(1) by (simp only: abs_divide)
    moreover have "\<bar>D - r\<bar> / (u / 2) < 1 / 2" using near u(1) by (simp add: pos_divide_less_eq)
    moreover have "u / 2 * of_int (2 * m) = r" by (simp add: m)
    ultimately show ?thesis using rounded [of "2 * m"] uD by simp
  qed
qed


text \<open>Seventeen digits identify a double.\<close>

lemma digits_17:
  assumes r: "0 < r" "f64_round False r = Fin r"
  shows "digits_try r 17 \<noteq> None"
proof -
  define s where "s = ten_pow (dec_exp r - 17)"
  define near where "near = of_int (round_half_even (r / s)) * s"
  have e: "ten_pow (dec_exp r - 1) \<le> r" "r < ten_pow (dec_exp r)" using dec_exp_bounds [OF r(1)] by simp_all
  have s: "0 < s" "s * 10 ^ 16 = ten_pow (dec_exp r - 1)" "s * 10 ^ 17 = ten_pow (dec_exp r)"
    using ten_pow_add [of "dec_exp r - 17" 16] ten_pow_add [of "dec_exp r - 17" 17] by (simp_all add: s_def ten_pow_def [of 16] ten_pow_def [of 17])
  have half: "\<bar>near - r\<bar> \<le> s / 2"
  proof -
    have "near - r = (of_int (round_half_even (r / s)) - r / s) * s" using s(1) by (simp add: near_def left_diff_distrib)
    then have "\<bar>near - r\<bar> = \<bar>of_int (round_half_even (r / s)) - r / s\<bar> * s" using s(1) by (simp add: abs_mult)
    also have "\<dots> \<le> 1 / 2 * s" using round_half_even_error s(1) by (intro mult_right_mono) auto
    finally show ?thesis by simp
  qed
  have r16: "10000000000000000 * s \<le> r" using e(1) s by simp
  have pos: "0 < near"
    using half s(1) r16 by linarith
  define u where "u = f64_unit r"
  have u: "0 < u" "pow2 (ilog2 r - 52) \<le> u" using r(1) by (auto simp: u_def f64_unit_def intro!: pow2_mono)
  have b: "r < pow2 (ilog2 r + 1)" using ilog2_bounds [OF r(1)] by simp
  have "pow2 (ilog2 r) = pow2 52 * pow2 (ilog2 r - 52)" "pow2 (ilog2 r + 1) = pow2 53 * pow2 (ilog2 r - 52)"
    by (simp_all add: pow2_add [symmetric] algebra_simps)
  then have p: "pow2 (ilog2 r) \<le> 2 ^ 52 * u" "pow2 (ilog2 r + 1) \<le> 2 ^ 53 * u"
    using u(2) by (simp_all add: pow2_def [of 52] pow2_def [of 53])
  have "10000000000000000 * s < 9007199254740992 * u" using r16 b p(2) by simp
  then have "\<bar>near - r\<bar> < u / 2" using half u(1) by linarith
  moreover have "\<bar>near - r\<bar> < u / 4" if "r = pow2 (ilog2 r)"
  proof -
    have "10000000000000000 * s \<le> 4503599627370496 * u" using r16 p(1) that by simp
    then show ?thesis using half u(1) by linarith
  qed
  ultimately have "f64_round False near = Fin r" using f64_round_near [OF r pos] by (simp add: u_def)
  then show ?thesis by (simp add: digits_try_def near_def s_def Let_def)
qed


lemma digits_try_sound:
  assumes "0 < r" "digits_try r n = Some m"
  shows "f64_round False (of_nat m * ten_pow (dec_exp r - int n)) = Fin r"
proof -
  define s where "s = ten_pow (dec_exp r - int n)"
  have "0 \<le> r / s" using assms(1) by (simp add: s_def less_imp_le)
  then have "0 \<le> \<lfloor>r / s\<rfloor>" "0 \<le> round_half_even (r / s)"
    using round_half_even_mono [of 0 "r / s"] round_half_even_of_int [of 0] by simp_all
  then show ?thesis using assms(2) by (auto simp: digits_try_def s_def [symmetric] Let_def split: if_splits)
qed

lemma strip_zeros: "\<exists>z. t = rev (dropWhile (\<lambda>c. c = CHR ''0'') (rev t)) @ replicate z (CHR ''0'')"
proof -
  define p where "p = takeWhile (\<lambda>c. c = CHR ''0'') (rev t)"
  have "p = replicate (length p) (CHR ''0'')"
    by (rule replicate_length_same [symmetric]) (auto simp: p_def dest: set_takeWhileD)
  moreover have "rev t = p @ dropWhile (\<lambda>c. c = CHR ''0'') (rev t)" by (simp add: p_def)
  ultimately show ?thesis by (metis rev_append rev_replicate rev_swap)
qed

lemma dec_val_zeros: "dec_val (s @ replicate z (CHR ''0'')) = dec_val s * 10 ^ z"
  by (induction z) (simp_all add: dec_val_append replicate_append_same [symmetric] flip: append_assoc)

lemma dec_val_Nil [simp]: "dec_val [] = 0"
  by (simp add: dec_val_def)

lemma shortest_value:
  assumes r: "0 < r" "f64_round False r = Fin r" and "shortest r = (ds, dp)"
  shows "ds \<noteq> []" "hd ds \<noteq> CHR ''0''" "list_all json_digit ds"
    "f64_round False (of_nat (dec_val ds) * ten_pow (dp - int (length ds))) = Fin r"
proof -
  obtain n where n: "find (\<lambda>n. digits_try r n \<noteq> None) [1..<18] = Some n"
    using digits_17 [OF r] by (cases "find (\<lambda>n. digits_try r n \<noteq> None) [1..<18]") (auto simp: find_None_iff)
  then obtain m where m: "digits_try r n = Some m" by (auto simp: find_Some_iff)
  note val = digits_try_sound [OF r(1) m]
  have "0 < m"
  proof (rule ccontr)
    assume "\<not> 0 < m"
    then show False using val r(1) by (simp add: f64_round_def f64_zero_def)
  qed
  define t where "t = dec_str m"
  have t: "t \<noteq> []" "hd t \<noteq> CHR ''0''" "list_all json_digit t" "dec_val t = m"
    using dec_str_pos [OF \<open>0 < m\<close>] dec_str_digits dec_val_str by (simp_all add: t_def)
  have ds: "ds = rev (dropWhile (\<lambda>c. c = CHR ''0'') (rev t))" "dp = int (length t) + dec_exp r - int n"
    using assms(3) m unfolding shortest_def n by (simp_all add: t_def Let_def)
  obtain z where z: "t = ds @ replicate z (CHR ''0'')" using strip_zeros [of t] ds(1) by blast
  show "ds \<noteq> []"
  proof
    assume "ds = []"
    then show False using t(1,2) z by (cases z) auto
  qed
  then show "hd ds \<noteq> CHR ''0''" using t(2) by (simp add: z)
  show "list_all json_digit ds" using t(3) by (simp add: z)
  have "m = dec_val ds * 10 ^ z" using t(4) by (simp add: z dec_val_zeros)
  moreover have "dp - int (length ds) = int z + (dec_exp r - int n)" by (simp add: ds(2)) (simp add: z)
  ultimately show "f64_round False (of_nat (dec_val ds) * ten_pow (dp - int (length ds))) = Fin r"
    using val by (simp add: ten_pow_add ten_pow_nat mult.assoc)
qed

subsection \<open>Reading a double back\<close>

text \<open>The syntax and the value of a decimal with fraction and exponent.\<close>

definition decimal :: "string \<Rightarrow> string \<Rightarrow> string \<Rightarrow> string" where
  "decimal ip fp ext = ip @ (if fp = [] then [] else CHR ''.'' # fp) @ ext"

definition int_part :: "string \<Rightarrow> bool" where
  "int_part ip \<longleftrightarrow> ip = ''0'' \<or> ip \<noteq> [] \<and> hd ip \<noteq> CHR ''0'' \<and> list_all json_digit ip"

definition exp_part :: "string \<Rightarrow> int \<Rightarrow> bool" where
  "exp_part ext x \<longleftrightarrow> ext = [] \<and> x = 0 \<or>
     (\<exists>c ds. ext = CHR ''e'' # c # ds \<and> (c = CHR ''+'' \<or> c = CHR ''-'') \<and> ds \<noteq> [] \<and> list_all json_digit ds \<and>
        x = signed_val (c # ds))"

lemma num_run_append: "num_run q (s @ t) = Option.bind (num_run q s) (\<lambda>q'. num_run q' t)"
  by (induction s arbitrary: q) (auto split: bind_split)

lemma num_run_loop: "list_all json_digit s \<Longrightarrow> num_run NumDot0 s = Some NumDot0 \<and> num_run NumE0 s = Some NumE0"
  by (induction s) auto

lemma num_run_exp:
  assumes "exp_part ext x" "q \<in> {Num0, Num1, NumDot0}"
  shows "\<exists>q'. num_run q ext = Some q' \<and> num_final q'"
proof (cases "ext = []")
  case True
  then show ?thesis using assms(2) by (auto simp: num_final_def)
next
  case False
  then obtain c d ds where e: "ext = CHR ''e'' # c # d # ds" "c = CHR ''+'' \<or> c = CHR ''-''" "list_all json_digit (d # ds)"
    using assms(1) unfolding exp_part_def by (metis neq_Nil_conv)
  have "num_next q (CHR ''e'') = Some NumE" using assms(2) by (auto simp: exp_char_def json_digit_def)
  moreover have "num_next NumE c = Some NumESign" using e(2) by auto
  ultimately show ?thesis using e num_run_loop [of ds] by (simp add: num_final_def)
qed

lemma num_run_rest:
  assumes "list_all json_digit fp" "exp_part ext x" "q \<in> {Num0, Num1}"
  shows "\<exists>q'. num_run q ((if fp = [] then [] else CHR ''.'' # fp) @ ext) = Some q' \<and> num_final q'"
proof (cases fp)
  case Nil
  then show ?thesis using num_run_exp [OF assms(2), of q] assms(3) by auto
next
  case (Cons c cs)
  have "num_next q (CHR ''.'') = Some NumDot" using assms(3) by (auto simp: exp_char_def json_digit_def)
  then show ?thesis using num_run_exp [OF assms(2), of NumDot0] num_run_loop [of cs] assms(1)
    by (simp add: Cons num_run_append)
qed

lemma decimal_number:
  assumes "int_part ip" "list_all json_digit fp" "exp_part ext x"
  shows "number_text (decimal ip fp ext) \<and> number_text (CHR ''-'' # decimal ip fp ext)"
proof -
  obtain c cs q where ip: "ip = c # cs" "c \<noteq> CHR ''-''" "num_start c = Some q" "num_next NumNeg c = Some q"
    "num_run q cs = Some q" "q \<in> {Num0, Num1}"
  proof (cases "ip = ''0''")
    case True
    then show ?thesis by (intro that [of "CHR ''0''" "[]" Num0]) (simp_all add: num_start_def)
  next
    case False
    then obtain c cs where c: "ip = c # cs" "c \<noteq> CHR ''0''" "list_all json_digit (c # cs)"
      using assms(1) by (cases ip) (auto simp: int_part_def)
    moreover from this have "c \<noteq> CHR ''-''" by (auto simp: json_digit_def)
    ultimately show ?thesis using num_run_digits [of cs] by (intro that [of c cs Num1]) (auto simp: num_start_def)
  qed
  obtain q' where q': "num_run q ((if fp = [] then [] else CHR ''.'' # fp) @ ext) = Some q'" "num_final q'"
    using num_run_rest [OF assms(2,3) ip(6)] by blast
  have "num_run q (cs @ (if fp = [] then [] else CHR ''.'' # fp) @ ext) = Some q'"
    using q'(1) ip(5) by (subst num_run_append) simp
  then show ?thesis using ip q'(2) by (simp add: number_text_def decimal_def num_start_def [of "CHR ''-''"] )
qed


lemma takeWhile_stop: "\<forall>c \<in> set s. P c \<Longrightarrow> \<not> P d \<Longrightarrow> takeWhile P (s @ d # t) = s"
  by (induction s) auto

lemma digit_chars:
  assumes "list_all json_digit s"
  shows "\<forall>c \<in> set s. \<not> exp_char c" "\<forall>c \<in> set s. c \<noteq> CHR ''.''" "\<forall>c \<in> set s. c \<noteq> CHR ''-''"
  using assms by (auto simp: list_all_iff json_digit_def exp_char_def)

lemma decimal_value:
  assumes ip: "int_part ip" and fp: "list_all json_digit fp" and ext: "exp_part ext x"
  defines "v \<equiv> of_nat (dec_val (ip @ fp)) * ten_pow (x - int (length fp))"
  shows "ParseFloat (decimal ip fp ext) = f64_round False v"
    "ParseFloat (CHR ''-'' # decimal ip fp ext) = f64_round True (- v)"
proof -
  define mant where "mant = ip @ (if fp = [] then [] else CHR ''.'' # fp)"
  define t where "t = mant @ ext"
  have t: "decimal ip fp ext = t" by (simp add: decimal_def t_def mant_def)
  have ipd: "list_all json_digit ip" "ip \<noteq> []" using ip by (auto simp: int_part_def json_digit_def)
  have m: "\<forall>c \<in> set mant. \<not> exp_char c" 
  proof -
    have "\<not> exp_char (CHR ''.'')" by (simp add: exp_char_def)
    then show ?thesis using digit_chars(1) [OF ipd(1)] digit_chars(1) [OF fp] by (simp add: mant_def ball_Un)
  qed
  have tw: "takeWhile (\<lambda>c. \<not> exp_char c) t = mant" "signed_val (drop (length mant + 1) t) = x"
  proof -
    have "takeWhile (\<lambda>c. \<not> exp_char c) mant = mant" using m by (simp only: takeWhile_eq_all_conv)
    moreover have "takeWhile (\<lambda>c. \<not> exp_char c) (mant @ CHR ''e'' # s) = mant" for s
      using m by (intro takeWhile_stop) (simp_all add: exp_char_def [of "CHR ''e''"])
    ultimately show "takeWhile (\<lambda>c. \<not> exp_char c) t = mant" using ext by (auto simp: t_def exp_part_def)
    show "signed_val (drop (length mant + 1) t) = x"
      using ext by (auto simp: t_def exp_part_def signed_val_def [of "[]"])
  qed
  have tm: "takeWhile (\<lambda>c. c \<noteq> CHR ''.'') mant = ip" "drop (length ip + 1) mant = fp"
  proof -
    note d = digit_chars(2) [OF ipd(1)]
    have "takeWhile (\<lambda>c. c \<noteq> CHR ''.'') ip = ip" using d by (simp only: takeWhile_eq_all_conv)
    moreover have "takeWhile (\<lambda>c. c \<noteq> CHR ''.'') (ip @ CHR ''.'' # fp) = ip" using d by (intro takeWhile_stop) simp_all
    ultimately show "takeWhile (\<lambda>c. c \<noteq> CHR ''.'') mant = ip" by (simp add: mant_def)
    show "drop (length ip + 1) mant = fp" by (simp add: mant_def)
  qed
  have hd: "t \<noteq> []" "hd t \<noteq> CHR ''-''" using ipd digit_chars(3) [OF ipd(1)] by (cases ip; simp add: t_def mant_def)+
  show "ParseFloat (decimal ip fp ext) = f64_round False v"
    using hd by (simp add: t ParseFloat_def tw [simplified] tm [simplified] Let_def v_def)
  show "ParseFloat (CHR ''-'' # decimal ip fp ext) = f64_round True (- v)"
    by (simp add: t ParseFloat_def tw [simplified] tm [simplified] Let_def v_def)
qed

lemma dec_val_zero_prefix: "dec_val (replicate k (CHR ''0'') @ s) = dec_val s"
proof (induction k)
  case (Suc k)
  have "dec_val (CHR ''0'' # t) = dec_val t" for t by (simp add: dec_val_def)
  then show ?case using Suc by simp
qed simp

lemma fmt_f_decimal:
  assumes "ds \<noteq> []" "hd ds \<noteq> CHR ''0''" "list_all json_digit ds"
  obtains ip fp where "fmt_f ds dp = decimal ip fp []" "int_part ip" "list_all json_digit fp"
    "of_nat (dec_val (ip @ fp)) * ten_pow (- int (length fp)) = of_nat (dec_val ds) * ten_pow (dp - int (length ds))"
proof -
  have z: "list_all json_digit (replicate k (CHR ''0''))" for k by (simp add: list_all_iff json_digit_def)
  consider "dp \<le> 0" | "0 < dp" "length ds \<le> nat dp" | "0 < dp" "nat dp < length ds" by linarith
  then show ?thesis
  proof cases
    case 1
    define zs where "zs = replicate (nat (- dp)) (CHR ''0'')"
    have "dec_val (''0'' @ zs @ ds) = dec_val ds"
      using dec_val_zero_prefix [of "Suc (nat (- dp))" ds] by (simp add: zs_def)
    then show ?thesis using 1 assms z
      by (intro that [of "''0''" "zs @ ds"]) (simp_all add: fmt_f_def decimal_def int_part_def zs_def [symmetric], auto simp: zs_def)
  next
    case 2
    have "int (nat dp - length ds) = dp - int (length ds)" using 2 by simp
    then have "ten_pow (dp - int (length ds)) = 10 ^ (nat dp - length ds)" by (metis ten_pow_nat)
    then show ?thesis using 2 assms z
      by (intro that [of "ds @ replicate (nat dp - length ds) (CHR ''0'')" "[]"])
        (auto simp: fmt_f_def decimal_def int_part_def dec_val_zeros ten_pow_def)
  next
    case 3
    have d: "list_all json_digit (take (nat dp) ds)" "list_all json_digit (drop (nat dp) ds)"
      using assms(3) by (auto simp: list_all_iff dest: in_set_takeD in_set_dropD)
    have "take (nat dp) ds \<noteq> []" "hd (take (nat dp) ds) = hd ds" using 3 assms(1) by auto
    then show ?thesis using 3 assms d
      by (intro that [of "take (nat dp) ds" "drop (nat dp) ds"]) (auto simp: fmt_f_def decimal_def int_part_def)
  qed
qed

lemma fmt_e_decimal:
  assumes "ds \<noteq> []" "hd ds \<noteq> CHR ''0''" "list_all json_digit ds"
  obtains ip fp ext where "fmt_e ds dp = decimal ip fp ext" "int_part ip" "list_all json_digit fp" "exp_part ext (dp - 1)"
    "of_nat (dec_val (ip @ fp)) * ten_pow (dp - 1 - int (length fp)) = of_nat (dec_val ds) * ten_pow (dp - int (length ds))"
proof -
  obtain c cs where ds: "ds = c # cs" using assms(1) by (cases ds) auto
  define ext where "ext = ''e'' @ (if dp - 1 < 0 then ''-'' @ dec_str (nat (1 - dp)) else ''+'' @ dec_str (nat (dp - 1)))"
  have ne: "dec_str n \<noteq> []" for n by (subst dec_str.simps) simp
  have "exp_part ext (dp - 1)"
    using ne dec_str_digits dec_val_str by (auto simp: exp_part_def ext_def signed_val_def)
  then show ?thesis using assms
    by (intro that [of "[c]" cs ext]) (simp_all add: fmt_e_def decimal_def ds ext_def int_part_def algebra_simps)
qed


lemma pos_str_decimal:
  assumes r: "0 < r" "f64_round False r = Fin r"
  obtains ip fp ext x where "pos_str r = decimal ip fp ext" "int_part ip" "list_all json_digit fp" "exp_part ext x"
    "f64_round False (of_nat (dec_val (ip @ fp)) * ten_pow (x - int (length fp))) = Fin r"
proof -
  obtain ds dp where s: "shortest r = (ds, dp)" by (cases "shortest r")
  note v = shortest_value [OF r s]
  show ?thesis
  proof (cases "f64_lt (Fin r) (f64_round False (1 / 10 ^ 6)) \<or> 10 ^ 21 \<le> r")
    case True
    then have p: "pos_str r = fmt_e ds dp" unfolding pos_str_def s by simp
    obtain ip fp ext where f: "fmt_e ds dp = decimal ip fp ext" "int_part ip" "list_all json_digit fp" "exp_part ext (dp - 1)"
      "of_nat (dec_val (ip @ fp)) * ten_pow (dp - 1 - int (length fp)) = of_nat (dec_val ds) * ten_pow (dp - int (length ds))"
      by (rule fmt_e_decimal [OF v(1-3), of dp])
    show ?thesis using that [of ip fp ext "dp - 1"] f v(4) p by simp
  next
    case False
    then have p: "pos_str r = fmt_f ds dp" unfolding pos_str_def s by simp
    obtain ip fp where f: "fmt_f ds dp = decimal ip fp []" "int_part ip" "list_all json_digit fp"
      "of_nat (dec_val (ip @ fp)) * ten_pow (- int (length fp)) = of_nat (dec_val ds) * ten_pow (dp - int (length ds))"
      by (rule fmt_f_decimal [OF v(1-3), of dp])
    moreover have "exp_part [] 0" by (simp add: exp_part_def)
    ultimately show ?thesis using that [of ip fp "[]" 0] v(4) p by simp
  qed
qed

lemma round_half_even_minus: "round_half_even (- x) = - round_half_even x"
proof (cases "x = of_int \<lfloor>x\<rfloor>")
  case True
  then show ?thesis using round_half_even_of_int [of "- \<lfloor>x\<rfloor>"] round_half_even_of_int [of "\<lfloor>x\<rfloor>"] by simp
next
  case False
  then have "\<lfloor>- x\<rfloor> = - \<lfloor>x\<rfloor> - 1" by (simp add: floor_minus ceiling_altdef)
  then show ?thesis by (auto simp: round_half_even_def Let_def)
qed

lemma f64_round_minus:
  assumes "f64_round b v = Fin w" "v \<noteq> 0" "w \<noteq> 0"
  shows "f64_round b' (- v) = Fin (- w)"
  using assms by (auto simp: f64_round_def f64_zero_def Let_def round_half_even_minus split: if_splits)

lemma f64_str_text:
  assumes "f64_value x"
  shows "number_text (f64_str x) \<and> ParseFloat (f64_str x) = x"
proof (cases x)
  case (Fin r)
  consider "r = 0" | "0 < r" | "r < 0" by linarith
  then show ?thesis
  proof cases
    case 1
    then show ?thesis
      by (simp add: Fin number_text_def num_start_def num_final_def ParseFloat_digits json_digit_def dec_val_def
          f64_round_def f64_zero_def)
  next
    case 2
    then have r: "f64_round False r = Fin r" using assms by (simp add: f64_value_def Fin)
    obtain ip fp ext x where d: "pos_str r = decimal ip fp ext" "int_part ip" "list_all json_digit fp" "exp_part ext x"
      "f64_round False (of_nat (dec_val (ip @ fp)) * ten_pow (x - int (length fp))) = Fin r"
      by (rule pos_str_decimal [OF 2 r])
    then show ?thesis using 2 decimal_number [OF d(2-4)] decimal_value(1) [OF d(2-4)] by (simp add: Fin)
  next
    case 3
    then have "f64_round True r = Fin r" using assms by (simp add: f64_value_def Fin)
    then have r: "f64_round False (- r) = Fin (- r)" using 3 f64_round_minus by simp
    have "0 < - r" using 3 by simp
    from this r obtain ip fp ext x where d: "pos_str (- r) = decimal ip fp ext" "int_part ip" "list_all json_digit fp"
      "exp_part ext x" "f64_round False (of_nat (dec_val (ip @ fp)) * ten_pow (x - int (length fp))) = Fin (- r)"
      by (rule pos_str_decimal)
    have "of_nat (dec_val (ip @ fp)) * ten_pow (x - int (length fp)) \<noteq> 0"
    proof
      assume "of_nat (dec_val (ip @ fp)) * ten_pow (x - int (length fp)) = 0"
      then show False using d(5) 3 by (simp only: f64_round_def f64_zero_def) simp
    qed
    then have "f64_round True (- (of_nat (dec_val (ip @ fp)) * ten_pow (x - int (length fp)))) = Fin r"
      using f64_round_minus [OF d(5)] 3 by simp
    then show ?thesis using 3 d(1) decimal_number [OF d(2-4)] decimal_value(2) [OF d(2-4)] by (simp add: Fin)
  qed
qed (use assms in \<open>simp_all add: f64_value_def f64_round_def f64_zero_def number_text_def num_start_def num_final_def
    ParseFloat_digits json_digit_def dec_val_def split: if_splits\<close>)

end
