(* ===== verification/Stratum_Listener.thy ===== *)
theory Stratum_Listener
  imports Default_Client Json_Text
begin

text \<open>
  The server side of the stratum connections (\<open>src/gostratum/stratum_client.go\<close>,
  \<open>stratum_listener.go\<close>): reading lines from a socket, the loop that serves one client, the
  creation of a client and the listener for disconnections. The socket is an input: what each
  read returns. The accept loop is in the theory of the start of the bridge.
\<close>

subsection \<open>Reading\<close>

definition io_EOF :: go_error where "io_EOF = ErrMsg ''EOF''"
definition ErrDeadlineExceeded :: go_error where "ErrDeadlineExceeded = ErrMsg ''i/o timeout''"

text \<open>One call of the connection: whether the deadline could be set, and what \<open>Read\<close> returned.\<close>

record conn_read =
  rd_deadline :: "go_error option"
  rd_data :: string
  rd_err :: "go_error option"

definition dropCR :: "string \<Rightarrow> string" where
  "dropCR l = (if l \<noteq> [] \<and> last l = CHR 0x0D then butlast l else l)"

text \<open>\<open>bufio.Scanner\<close> with \<open>ScanLines\<close>: a last line without a newline counts when it is not empty.\<close>

definition scan_lines :: "string \<Rightarrow> string list" where
  "scan_lines s =
     (let ps = split_char (CHR 0x0A) s
      in map dropCR (if last ps = [] then butlast ps else ps))"

text \<open>The callback is called for one line after the other until it reports an error (or panics).\<close>

fun each_line ::
  "('s \<Rightarrow> string \<Rightarrow> go_error option outcome \<times> 's) \<Rightarrow> string list \<Rightarrow> 's \<Rightarrow> go_error option outcome \<times> 's" where
  "each_line cb [] s = (Ret None, s)"
| "each_line cb (l # ls) s =
     (case cb s l of
        (Ret None, s') \<Rightarrow> each_line cb ls s'
      | (r, s') \<Rightarrow> (r, s'))"

definition readFromConnection ::
  "conn_read \<Rightarrow> ('s \<Rightarrow> string \<Rightarrow> go_error option outcome \<times> 's) \<Rightarrow> 's \<Rightarrow> go_error option outcome \<times> 's" where
  "readFromConnection rd cb s =
     (case rd_deadline rd of
        Some err \<Rightarrow> (Ret (Some err), s)
      | None \<Rightarrow>
          (let n = length (rd_data rd)
           in case rd_err rd of
                Some err \<Rightarrow>
                  if \<not> (err = io_EOF \<and> 0 < n)
                  then (Ret (Some (Wrap ''error reading from connection'' err)), s)
                  else each_line cb (scan_lines (filter (\<lambda>c. c \<noteq> CHR 0x00) (rd_data rd))) s
              | None \<Rightarrow> each_line cb (scan_lines (filter (\<lambda>c. c \<noteq> CHR 0x00) (rd_data rd))) s))"

subsection \<open>Serving a client\<close>

text \<open>
  One line of a client: parse and dispatch. \<open>cancelled\<close> is what \<open>parentContext.Err()\<close> returns
  after the read of an iteration.
\<close>

definition client_line ::
  "(string \<Rightarrow> event_handler option) \<Rightarrow>
   stratum_context \<Rightarrow> string \<Rightarrow> go_error option outcome \<times> stratum_context" where
  "client_line handlers ctx line =
     (case UnmarshalEvent line of
        Inl err \<Rightarrow> (Ret (Some err), ctx)
      | Inr event \<Rightarrow> HandleEvent handlers ctx event)"

text \<open>
  The loop over the reads; \<open>None\<close> as first component means that it is still waiting for the next
  read. A panic is recovered and ends the loop like an error; the deferred \<open>Disconnect\<close> runs in
  every case in which the function returns.
\<close>

fun spawnClientListener ::
  "(string \<Rightarrow> event_handler option) \<Rightarrow>
   (conn_read \<times> go_error option) list \<Rightarrow> stratum_context \<Rightarrow> go_error option option \<times> stratum_context" where
  "spawnClientListener handlers [] ctx = (None, ctx)"
| "spawnClientListener handlers ((rd, cancelled) # rds) ctx =
     (case readFromConnection rd (client_line handlers) ctx of
        (Panic m, ctx') \<Rightarrow> (Some None, Disconnect ctx')
      | (Hang, ctx') \<Rightarrow> (None, ctx')
      | (Ret (Some err), ctx') \<Rightarrow>
          if error_is err ErrDeadlineExceeded then spawnClientListener handlers rds ctx'
          else if cancelled \<noteq> None then (Some cancelled, Disconnect ctx')
          else (Some (Some err), Disconnect ctx')
      | (Ret None, ctx') \<Rightarrow>
          if cancelled \<noteq> None then (Some cancelled, Disconnect ctx')
          else spawnClientListener handlers rds ctx')"

subsection \<open>The listener\<close>

text \<open>
  \<open>newClient\<close> up to the start of the serving goroutine: the context with the address without its
  port, after the client listener's \<open>OnConnect\<close> (state \<open>'l\<close>).
\<close>

definition newClient ::
  "('l \<Rightarrow> stratum_context \<Rightarrow> 'l \<times> stratum_context) \<Rightarrow> string \<Rightarrow> (nat \<Rightarrow> attempt) \<Rightarrow> mining_state \<Rightarrow> 'l \<Rightarrow>
   'l \<times> stratum_context" where
  "newClient onConnect remote connection state l =
     (let addr = hd (split_char (CHR '':'') remote)
      in onConnect l ((open_context connection)\<lparr>RemoteAddr := addr, State := state\<rparr>))"

text \<open>One client received by \<open>disconnectListener\<close>.\<close>

definition disconnectListener ::
  "('l \<Rightarrow> stratum_context \<Rightarrow> 'l) \<Rightarrow> int \<times> 'l \<Rightarrow> stratum_context \<Rightarrow> int \<times> 'l" where
  "disconnectListener onDisconnect st client =
     (wrap64 (fst st + 1), onDisconnect (snd st) client)"

text \<open>Lines as a client sends them, and a callback that records what it is given.\<close>

definition plain_line :: "string \<Rightarrow> bool" where
  "plain_line l \<longleftrightarrow> CHR 0x0A \<notin> set l \<and> CHR 0x0D \<notin> set l \<and> CHR 0x00 \<notin> set l"

definition send_lines :: "string list \<Rightarrow> string" where
  "send_lines ls = concat (map (\<lambda>l. l @ [CHR 0x0A]) ls)"

definition record_line :: "string list \<Rightarrow> string \<Rightarrow> go_error option outcome \<times> string list" where
  "record_line seen l = (Ret None, seen @ [l])"

definition read_of :: "string \<Rightarrow> conn_read" where
  "read_of s = \<lparr>rd_deadline = None, rd_data = s, rd_err = None\<rparr>"

subsection \<open>Laws\<close>

lemma split_char_append: "sep \<notin> set a \<Longrightarrow> split_char sep (a @ sep # b) = a # split_char sep b"
  by (induction a) auto

lemma split_char_plain: "sep \<notin> set a \<Longrightarrow> split_char sep a = [a]"
  by (induction a) auto

lemma split_send_lines:
  "list_all plain_line ls \<Longrightarrow> plain_line t \<Longrightarrow> split_char (CHR 0x0A) (send_lines ls @ t) = ls @ [t]"
  by (induction ls) (auto simp: send_lines_def plain_line_def split_char_append split_char_plain)

lemma dropCR_plain: "plain_line l \<Longrightarrow> dropCR l = l"
  unfolding dropCR_def plain_line_def by (metis last_in_set)

lemma scan_send_lines:
  assumes "list_all plain_line ls" "plain_line t"
  shows "scan_lines (send_lines ls @ t) = ls @ (if t = [] then [] else [t])"
proof -
  have "map dropCR ls = ls" using assms(1) by (induction ls) (auto simp: dropCR_plain)
  then show ?thesis using assms by (simp add: scan_lines_def Let_def split_send_lines dropCR_plain)
qed

lemma filter_NUL:
  "list_all plain_line ls \<Longrightarrow> plain_line t \<Longrightarrow> filter (\<lambda>c. c \<noteq> CHR 0x00) (send_lines ls @ t) = send_lines ls @ t"
  by (rule filter_True) (auto simp: send_lines_def list_all_iff plain_line_def)

lemma each_record_line: "each_line record_line ls seen = (Ret None, seen @ ls)"
  by (induction ls arbitrary: seen) (auto simp: record_line_def)

text \<open>
  C25: a read that delivers complete lines gives the callback exactly those lines, in order; text
  after the last newline is given to it at once, as a line of its own. So a line that arrives in
  two reads is handled as two lines.
\<close>

theorem read_delivers_lines:
  assumes "list_all plain_line ls" "plain_line t"
  shows "readFromConnection (read_of (send_lines ls @ t)) record_line seen =
    (Ret None, seen @ ls @ (if t = [] then [] else [t]))"
  using assms
  by (simp add: readFromConnection_def read_of_def Let_def filter_NUL scan_send_lines each_record_line
      del: filter_append)

theorem read_delivers_lines_witness:
  "snd (readFromConnection (read_of (send_lines [''ab'', ''c''] @ ''d'')) record_line []) = [''ab'', ''c'', ''d'']"
  using read_delivers_lines [of "[''ab'', ''c'']" "''d''" "[]"] by (simp add: plain_line_def)

text \<open>
  C26: whenever the loop that serves a client returns, because of an error, a cancelled server or
  a panic in a handler, the client is disconnected; it returns nil only after a recovered panic.
\<close>

theorem served_client_disconnects:
  assumes "spawnClientListener handlers rds ctx = (Some r, ctx')"
  shows "disconnecting ctx' \<and>
    (r = None \<longrightarrow> (\<exists>rd cancelled ctx1 ctx2 m. (rd, cancelled) \<in> set rds \<and>
       readFromConnection rd (client_line handlers) ctx1 = (Panic m, ctx2)))"
  using assms
proof (induction rds arbitrary: ctx)
  case (Cons x rds)
  obtain rd cancelled where x: "x = (rd, cancelled)" by (cases x)
  obtain o1 ctx1 where rd: "readFromConnection rd (client_line handlers) ctx = (o1, ctx1)"
    by fastforce
  have d: "disconnecting (Disconnect c)" for c by (simp add: Disconnect_def)
  show ?case
  proof (cases o1)
    case (Panic m)
    then show ?thesis using Cons.prems rd x d by (auto intro!: exI)
  next
    case Hang
    then show ?thesis using Cons.prems rd x by simp
  next
    case (Ret e)
    then show ?thesis using Cons.prems Cons.IH [of ctx1] rd x d
      by (cases e) (auto split: if_splits)
  qed
qed simp

definition panic_handlers :: "string \<Rightarrow> event_handler option" where
  "panic_handlers = [''boom'' \<mapsto> (\<lambda>ctx e. (Panic ''index out of range'', ctx))]"

definition boom_line :: string where
  "boom_line = ''{'' @ [CHR 0x22] @ ''method'' @ [CHR 0x22] @ '':'' @ [CHR 0x22] @ ''boom'' @ [CHR 0x22] @ ''}''"

lemma boom_event: "UnmarshalEvent boom_line = Inr (empty_event\<lparr>ev_Method := ''boom''\<rparr>)"
  by code_simp

theorem served_client_disconnects_witness:
  "let res = spawnClientListener panic_handlers [(read_of boom_line, None)] (open_context (\<lambda>n. WriteOk))
   in fst res = Some None \<and> disconnecting (snd res)"
proof -
  let ?ctx = "open_context (\<lambda>n. WriteOk)"
  obtain o1 ctx' where run: "spawnClientListener panic_handlers [(read_of boom_line, None)] ?ctx = (o1, ctx')"
    by fastforce
  have "scan_lines (filter (\<lambda>c. c \<noteq> CHR 0x00) boom_line) = [boom_line]"
    by (simp add: boom_line_def scan_lines_def dropCR_def)
  then have "o1 = Some None"
    using run by (auto simp: readFromConnection_def read_of_def Let_def client_line_def HandleEvent_def
        boom_event panic_handlers_def empty_event_def)
  then show ?thesis using served_client_disconnects [OF run [unfolded \<open>o1 = Some None\<close>]] run
    by (simp only: Let_def fst_conv snd_conv)
qed

end
