(* ===== verification/Wire_Format.thy ===== *)
theory Wire_Format
  imports Number_Text Stratum_Listener "HOL-Library.List_Lexorder" "HOL-Library.Char_ord"
begin

text \<open>
  What a connection writes (\<open>Reply\<close> and \<open>Send\<close> in \<open>src/gostratum/stratum_context.go\<close>): the text
  that \<open>json.Marshal\<close> makes of a message, and the newline after it. The client's side of the
  protocol, splitting into lines and decoding, reads back what was sent; this is proved for
  arbitrary strings, for all values nested less deeply than the decoder's limit, and for any
  number of messages written after another.
\<close>

subsection \<open>Strings\<close>

definition json_escape :: "char \<Rightarrow> string" where
  "json_escape c =
     (if c = CHR 0x22 \<or> c = CHR 0x5C then [CHR 0x5C, c]
      else if c = CHR 0x08 then [CHR 0x5C, CHR ''b'']
      else if c = CHR 0x0C then [CHR 0x5C, CHR ''f'']
      else if c = CHR 0x0A then [CHR 0x5C, CHR ''n'']
      else if c = CHR 0x0D then [CHR 0x5C, CHR ''r'']
      else if c = CHR 0x09 then [CHR 0x5C, CHR ''t'']
      else if byte_of c < 32 \<or> c = CHR ''<'' \<or> c = CHR ''>'' \<or> c = CHR ''&''
      then [CHR 0x5C, CHR ''u'', CHR ''0'', CHR ''0'', hex_char (byte_of c div 16), hex_char (byte_of c mod 16)]
      else [c])"

text \<open>
  One rune of a string: bytes that are no rune are written as the replacement character, and the
  two line separators U+2028 and U+2029 are escaped.
\<close>

fun enc_item :: "bool \<times> nat \<times> string \<Rightarrow> string" where
  "enc_item (ok, v, bs) =
     (if \<not> ok then CHR 0x5C # ''ufffd''
      else if v < 128 then json_escape (char_of v)
      else if v = 8232 then CHR 0x5C # ''u2028''
      else if v = 8233 then CHR 0x5C # ''u2029''
      else bs)"

definition enc_chars :: "string \<Rightarrow> string" where
  "enc_chars s = concat (map enc_item (runes s))"

definition enc_string :: "string \<Rightarrow> string" where
  "enc_string s = CHR 0x22 # enc_chars s @ [CHR 0x22]"

subsection \<open>Values and messages\<close>

fun commas :: "string list \<Rightarrow> string" where
  "commas [] = []"
| "commas [t] = t"
| "commas (t # ts) = t @ '','' @ commas ts"

definition array_text :: "string list \<Rightarrow> string" where
  "array_text ts = ''['' @ commas ts @ '']''"

definition object_text :: "(string \<times> string) list \<Rightarrow> string" where
  "object_text kts = CHR 0x7B # commas (map (\<lambda>(k, t). enc_string k @ '':'' @ t) kts) @ [CHR 0x7D]"

text \<open>The keys of a map are sorted, those of a struct come in the order of its fields.\<close>

fun enc_json :: "json \<Rightarrow> string" where
  "enc_json JNull = ''null''"
| "enc_json (JBool b) = (if b then ''true'' else ''false'')"
| "enc_json (JNum x) = f64_str x"
| "enc_json (JInt i) = int_str i"
| "enc_json (JStr s) = enc_string s"
| "enc_json (JList xs) = array_text (map enc_json xs)"
| "enc_json (JObj kvs) = object_text (sort_key fst (map (\<lambda>(k, v). (k, enc_json v)) kvs))"

fun encode_msg :: "message \<Rightarrow> string" where
  "encode_msg (Event e) =
     object_text
       [(''id'', enc_json (ev_Id e)), (''jsonrpc'', enc_string (ev_Version e)),
        (''method'', enc_string (ev_Method e)), (''params'', enc_json (JList (ev_Params e)))]"
| "encode_msg (Response r) =
     object_text
       [(''id'', enc_json (rsp_Id r)), (''result'', enc_json (rsp_Result r)),
        (''error'', case rsp_Error r of None \<Rightarrow> ''null'' | Some es \<Rightarrow> enc_json (JList es))]"

text \<open>The bytes that go to the socket.\<close>

definition wire :: "message \<Rightarrow> string" where
  "wire m = encode_msg m @ [CHR 0x0A]"

subsection \<open>Strings read back\<close>

text \<open>The items that \<open>runes\<close> yields.\<close>

fun rune_item :: "bool \<times> nat \<times> string \<Rightarrow> bool" where
  "rune_item (ok, v, bs) \<longleftrightarrow> ok \<longrightarrow> v = rune_value bs \<and> rune_width bs = Some (length bs)"

lemma rune_value_take: "rune_width s = Some n \<Longrightarrow> rune_value (take n s) = rune_value s"
  using rune_width_cong [of s n "[]"] by (simp add: rune_value_def)

lemma runes_items: "list_all rune_item (runes s)"
proof (induction s rule: runes.induct)
  case (2 c cs)
  then show ?case
    using rune_width_cong [of "c # cs" _ "[]"] rune_width_pos [of "c # cs"]
    by (cases "rune_width (c # cs)") (auto simp: rune_value_take min_def)
qed simp

lemma high_item:
  assumes "rune_width bs = Some (length bs)" "128 \<le> rune_value bs" "c \<in> set bs"
  shows "128 \<le> byte_of c"
proof -
  obtain d ds where bs: "bs = d # ds" using assms(1) by (cases bs) (auto simp: rune_width.simps)
  obtain i where i: "i < length bs" "c = bs ! i" using assms(3) by (auto simp: in_set_conv_nth)
  show ?thesis
  proof (cases i)
    case 0
    have "128 \<le> byte_of d"
    proof (rule ccontr)
      assume "\<not> 128 \<le> byte_of d"
      moreover from this have "rune_need d = 1" by (simp add: rune_need_def)
      ultimately show False using assms(1,2) by (simp add: bs rune_width.simps rune_value_def)
    qed
    then show ?thesis using i 0 by (simp add: bs)
  next
    case (Suc j)
    then show ?thesis using rune_tail_high [OF assms(1), of i] i by simp
  qed
qed

lemma second_okD:
  assumes "second_ok c d"
  shows "\<exists>y. byte_of d = 128 + y \<and> y < 64 \<and> (byte_of c = 224 \<longrightarrow> 32 \<le> y) \<and> (byte_of c = 240 \<longrightarrow> 16 \<le> y)"
  using assms
  by (intro exI [of _ "byte_of d - 128"]) (auto simp: second_ok_def cont_def cont_in_def Let_def split: if_splits)

lemma contD: "cont d \<Longrightarrow> \<exists>y. byte_of d = 128 + y \<and> y < 64"
  by (intro exI [of _ "byte_of d - 128"]) (auto simp: cont_def cont_in_def)

lemma digits64: "(x * 64 + y) div 64 = x" "(x * 64 + y) mod 64 = y" if "y < (64 :: nat)"
  using that by simp_all

lemma utf8_encode3:
  assumes "x < 16" "y < 64" "z < 64" "x = 0 \<longrightarrow> 32 \<le> y"
  shows "utf8_encode (x * 4096 + y * 64 + z) = map char_of [224 + x, 128 + y, 128 + z]"
proof -
  define r where "r = (x * 64 + y) * 64 + z"
  have r: "r = x * 4096 + y * 64 + z" by (simp add: r_def algebra_simps)
  have "2048 \<le> r" "r < 65536" using assms unfolding r by (cases "x = 0"; simp)+
  moreover have "r mod 64 = z" "r div 64 = x * 64 + y"
    unfolding r_def by (rule digits64 [OF assms(3)])+
  moreover from this have "r div 64 mod 64 = y" "r div 64 div 64 = x"
    by (simp_all only: digits64 [OF assms(2)])
  ultimately show ?thesis unfolding r [symmetric]
    by (simp add: utf8_encode_def div_mult2_eq [of r 64 64, simplified])
qed

lemma utf8_encode4:
  assumes "x < 5" "y < 64" "z < 64" "w < 64" "x = 0 \<longrightarrow> 16 \<le> y"
  shows "utf8_encode (x * 262144 + y * 4096 + z * 64 + w) = map char_of [240 + x, 128 + y, 128 + z, 128 + w]"
proof -
  define r where "r = ((x * 64 + y) * 64 + z) * 64 + w"
  have r: "r = x * 262144 + y * 4096 + z * 64 + w" by (simp add: r_def algebra_simps)
  have "65536 \<le> r" using assms unfolding r by (cases "x = 0") simp_all
  moreover have "r mod 64 = w" "r div 64 = (x * 64 + y) * 64 + z"
    unfolding r_def by (rule digits64 [OF assms(4)])+
  moreover from this have "r div 64 mod 64 = z" "r div 64 div 64 = x * 64 + y"
    by (simp_all only: digits64 [OF assms(3)])
  moreover from this have "r div 64 div 64 mod 64 = y" "r div 64 div 64 div 64 = x"
    by (simp_all only: digits64 [OF assms(2)])
  moreover have "r div 4096 = r div 64 div 64" "r div 262144 = r div 64 div 64 div 64"
    by (simp_all add: div_mult2_eq [symmetric])
  ultimately show ?thesis unfolding r [symmetric] by (simp add: utf8_encode_def)
qed

lemma utf8_encode_value:
  assumes "rune_width bs = Some (length bs)"
  shows "utf8_encode (rune_value bs) = bs"
proof -
  obtain c cs where bs: "bs = c # cs" using assms(1) by (cases bs) (auto simp: rune_width.simps)
  have n: "length bs = rune_need c" "rune_need c \<noteq> 0"
    and ok: "rune_need c \<noteq> 1 \<Longrightarrow> second_ok c (cs ! 0) \<and> list_all cont (take (length bs - 2) (drop 1 cs))"
    using assms(1) by (auto simp: bs rune_width.simps Let_def split: if_splits)
  note need = rune_need_def [of c, unfolded Let_def]
  have "rune_need c \<in> {1, 2, 3, 4}" using n(2) by (auto simp: need split: if_splits)
  then consider "rune_need c = 1" | "rune_need c = 2" | "rune_need c = 3" | "rune_need c = 4" by auto
  then have "utf8_encode (rune_value bs) = map char_of (map byte_of bs)"
  proof cases
    case 1
    then have "byte_of c < 128" by (auto simp: need split: if_splits)
    moreover have "cs = []" using n 1 by (simp add: bs)
    ultimately show ?thesis using 1 assms by (simp add: utf8_encode_def bs rune_value_def)
  next
    case 2
    then obtain d where cs: "cs = [d]" using n by (auto simp: bs length_Suc_conv numeral_2_eq_2)
    obtain x where x: "byte_of c = 192 + x" "2 \<le> x" "x < 32"
      using 2 by (intro that [of "byte_of c - 192"]) (auto simp: need split: if_splits)
    obtain y where "byte_of d = 128 + y" "y < 64" using second_okD [of c d] ok 2 cs by auto
    then show ?thesis using 2 x assms by (simp add: utf8_encode_def bs cs rune_value_def)
  next
    case 3
    then obtain d e where cs: "cs = [d, e]" using n by (auto simp: bs length_Suc_conv numeral_3_eq_3)
    obtain x where x: "byte_of c = 224 + x" "x < 16"
      using 3 by (intro that [of "byte_of c - 224"]) (auto simp: need split: if_splits)
    obtain y z where "byte_of d = 128 + y" "y < 64" "x = 0 \<longrightarrow> 32 \<le> y" "byte_of e = 128 + z" "z < 64"
      using second_okD [of c d] contD [of e] ok 3 x bs cs by auto
    then show ?thesis using 3 x assms utf8_encode3 [of x y z] by (simp add: bs cs rune_value_def)
  next
    case 4
    then obtain d e f where cs: "cs = [d, e, f]"
      using n by (auto simp: bs length_Suc_conv eval_nat_numeral)
    obtain x where x: "byte_of c = 240 + x" "x < 5"
      using 4 by (intro that [of "byte_of c - 240"]) (auto simp: need split: if_splits)
    obtain y z w where "byte_of d = 128 + y" "y < 64" "x = 0 \<longrightarrow> 16 \<le> y" "byte_of e = 128 + z" "z < 64"
      "byte_of f = 128 + w" "w < 64"
      using second_okD [of c d] contD [of e] contD [of f] ok 4 x bs cs by auto
    then show ?thesis using 4 x assms utf8_encode4 [of x y z w] by (simp add: bs cs rune_value_def)
  qed
  then show ?thesis by (simp add: comp_def)
qed

text \<open>What a string is read back as: bytes that are no rune have become the replacement character.\<close>

fun item_text :: "bool \<times> nat \<times> string \<Rightarrow> string" where
  "item_text (ok, v, bs) = (if ok then bs else replacement)"

definition fixed_utf8 :: "string \<Rightarrow> string" where
  "fixed_utf8 s = concat (map item_text (runes s))"

lemma fixed_utf8_valid: "valid_utf8 s \<Longrightarrow> fixed_utf8 s = s"
proof (induction s rule: runes.induct)
  case (2 c cs)
  then show ?case by (cases "rune_width (c # cs)") (auto simp: fixed_utf8_def valid_utf8_def)
qed (simp add: fixed_utf8_def)

lemma high_string:
  assumes "\<forall>c \<in> set bs. 128 \<le> byte_of c"
  shows "foldl json_step (InString acc, fs) bs = (InString (rev bs @ acc), fs)"
  using assms by (induction bs arbitrary: acc) (auto simp: json_step_def)

lemma hex_val_low: "hex_val (CHR ''0'') = Some 0"
  by (simp add: hex_val_def)

lemma scan_escape: "foldl json_step (InString acc, fs) (json_escape c) = (InString (rev (json_escape c) @ acc), fs)"
proof -
  have "byte_of c div 16 < 16" by (simp add: div_less_iff_less_mult)
  then show ?thesis
    by (simp add: json_escape_def json_step_def string_escape_def hex_val_low)
qed

lemma scan_item:
  assumes "rune_item it"
  shows "foldl json_step (InString acc, fs) (enc_item it) = (InString (rev (enc_item it) @ acc), fs)"
proof -
  obtain ok v bs where it: "it = (ok, v, bs)" by (cases it)
  show ?thesis using assms high_item [of bs]
    by (auto simp: it scan_escape high_string json_step_def string_escape_def hex_val_def)
qed

lemma unquote_escape1:
  "string_escape e \<Longrightarrow> unquote (CHR 0x5C # e # t) = escaped e # unquote t"
  by (auto simp: unquote.simps(2) string_escape_def)

lemma unquote_u:
  assumes "hex_val a = Some x" "hex_val b = Some y" "hex_val c = Some z" "hex_val d = Some w"
    "rr = 4096 * x + 256 * y + 16 * z + w" "\<not> surrogate rr"
  shows "unquote (CHR 0x5C # CHR ''u'' # a # b # c # d # t) = utf8_encode rr @ unquote t"
  using assms by (simp add: unquote.simps(2) getu4_def)

lemma unquote_rune:
  assumes "rune_width bs = Some (length bs)" "bs \<noteq> []" "hd bs \<noteq> CHR 0x5C"
  shows "unquote (bs @ t) = bs @ unquote t"
proof -
  obtain c cs where bs: "bs = c # cs" using assms(2) by (cases bs) auto
  have "rune_width (bs @ t) = Some (length bs)" using rune_width_cong [OF assms(1), of t] by simp
  then show ?thesis using assms(3) by (simp add: bs unquote.simps(2))
qed

lemma ascii_char: "v < (128 :: nat) \<Longrightarrow> rune_width [char_of v] = Some 1"
  by (simp add: rune_width.simps rune_need_def)

lemma unquote_escape: 
  assumes "v < (128 :: nat)"
  shows "unquote (json_escape (char_of v) @ t) = char_of v # unquote t"
proof -
  define c where "c = char_of v"
  have v: "byte_of c = v" "v div 16 < 16" using assms by (simp_all add: c_def)
  have u: "unquote (CHR 0x5C # CHR ''u'' # CHR ''0'' # CHR ''0'' # hex_char (byte_of c div 16) # hex_char (byte_of c mod 16) # t)
     = c # unquote t"
    using unquote_u [of "CHR ''0''" 0 "CHR ''0''" 0 "hex_char (v div 16)" "v div 16" "hex_char (v mod 16)" "v mod 16" v] v assms
    by (simp add: hex_val_low surrogate_def utf8_encode_def c_def)
  have p: "unquote (c # t) = c # unquote t" if "c \<noteq> CHR 0x5C"
    using unquote_rune [of "[c]" t] ascii_char [OF assms] that by (simp add: c_def)
  show ?thesis unfolding c_def [symmetric]
    using u p by (auto simp: json_escape_def unquote_escape1 string_escape_def escaped_def)
qed

lemma unquote_item:
  assumes "rune_item it"
  shows "unquote (enc_item it @ t) = item_text it @ unquote t"
proof -
  obtain ok v bs where it: "it = (ok, v, bs)" by (cases it)
  show ?thesis
  proof (cases "ok \<and> 128 \<le> v \<and> v \<noteq> 8232 \<and> v \<noteq> 8233")
    case True
    then have b: "rune_width bs = Some (length bs)" "v = rune_value bs" "bs \<noteq> []"
      using assms rune_width_pos [of bs] by (auto simp: it)
    then have "hd bs \<noteq> CHR 0x5C" using high_item [of bs "hd bs"] True by auto
    then show ?thesis using unquote_rune [OF b(1,3), of t] True by (simp add: it)
  next
    case False
    have "ok \<Longrightarrow> utf8_encode v = bs" using assms utf8_encode_value [of bs] by (simp add: it)
    moreover have "v < 128 \<Longrightarrow> utf8_encode v = [char_of v]" by (simp add: utf8_encode_def)
    moreover have "utf8_encode 65533 = replacement" by (simp add: utf8_encode_def replacement_def)
    ultimately show ?thesis
      using False unquote_escape [of v t] unquote_u [of _ 15 _ 15 _ 15 _ 13 65533 t] unquote_u [of _ 2 _ 0 _ 2 _ 8 8232 t]
       unquote_u [of _ 2 _ 0 _ 2 _ 9 8233 t]
      by (auto simp: it hex_val_def surrogate_def)
  qed
qed

lemma scan_chars:
  "list_all rune_item its \<Longrightarrow>
   foldl json_step (InString acc, fs) (concat (map enc_item its)) = (InString (rev (concat (map enc_item its)) @ acc), fs)"
  by (induction its arbitrary: acc) (simp_all add: scan_item del: enc_item.simps)

lemma unquote_chars:
  "list_all rune_item its \<Longrightarrow> unquote (concat (map enc_item its)) = concat (map item_text its)"
  by (induction its) (simp_all add: unquote_item del: enc_item.simps item_text.simps)

text \<open>A string that was written is scanned as one value, its valid part unchanged.\<close>

lemma scan_string:
  "foldl json_step (InString [], fs) (enc_chars s @ [CHR 0x22]) = deliver (JStr (fixed_utf8 s)) fs"
  using scan_chars [OF runes_items, of "[]" fs s] unquote_chars [OF runes_items, of s]
  by (simp add: enc_chars_def fixed_utf8_def json_step_def)

subsection \<open>Values read back\<close>

text \<open>What follows a value: the end of it is not part of a number.\<close>

definition delimiter :: "char \<Rightarrow> bool" where
  "delimiter c \<longleftrightarrow> c \<in> {CHR '','', CHR '']'', CHR 0x7D, CHR '' ''}"

text \<open>A text that the scanner takes for a value, wherever a value may stand and \<open>d\<close> levels are free.\<close>

definition reads_as :: "nat \<Rightarrow> string \<Rightarrow> json \<Rightarrow> bool" where
  "reads_as d t v \<longleftrightarrow>
     t \<noteq> [] \<and> \<not> json_space (hd t) \<and> hd t \<noteq> CHR '']'' \<and>
     (\<forall>fs c. delimiter c \<longrightarrow> length fs + d \<le> maxNestingDepth \<longrightarrow>
        foldl json_step (BeginValue, fs) (t @ [c]) = end_value c (deliver v fs))"

lemma step_after_value: "json_step (deliver v fs) c = end_value c (deliver v fs)"
  by (induction v fs rule: deliver.induct) (auto simp: json_step_def end_value_def split: json.split)

lemma num_next_delimiter: "delimiter c \<Longrightarrow> num_next q c = None"
  by (cases q) (auto simp: delimiter_def json_digit_def exp_char_def)

lemma scan_num_run:
  "num_run q s = Some q' \<Longrightarrow> foldl json_step (InNumber q acc, fs) s = (InNumber q' (rev s @ acc), fs)"
proof (induction s arbitrary: q acc)
  case (Cons c s)
  then obtain q1 where q1: "num_next q c = Some q1" "num_run q1 s = Some q'" by (auto simp: bind_eq_Some_conv)
  have "json_step (InNumber q acc, fs) c = (InNumber q1 (c # acc), fs)" by (simp add: json_step_def q1)
  then show ?case using Cons.IH [OF q1(2)] by simp
qed simp

lemma digit_start:
  "json_digit c \<Longrightarrow> \<not> json_space c \<and> c \<noteq> CHR '']'' \<and> c \<noteq> CHR 0x7B \<and> c \<noteq> CHR ''['' \<and> c \<noteq> CHR 0x22"
  by (auto simp: json_digit_def json_space_def)

lemma num_start_step:
  assumes "num_start c = Some q"
  shows "\<not> json_space c \<and> c \<noteq> CHR '']'' \<and> json_step (BeginValue, fs) c = (InNumber q [c], fs)"
proof -
  consider "c = CHR ''-''" "q = NumNeg" | "c = CHR ''0''" "q = Num0"
    | "c \<noteq> CHR ''-''" "c \<noteq> CHR ''0''" "json_digit c" "q = Num1"
    using assms unfolding num_start_def by (metis option.distinct(1) option.inject)
  then show ?thesis
  proof cases
    case 3
    then show ?thesis using digit_start [of c] by (simp add: json_step_def begin_value_def)
  qed (simp_all add: json_step_def begin_value_def json_space_def)
qed

lemma reads_number:
  assumes "number_text t"
  shows "reads_as d t (JNum (ParseFloat t))"
proof -
  obtain c s q0 q where t: "t = c # s" and q0: "num_start c = Some q0" and q: "num_run q0 s = Some q" "num_final q"
    using assms by (auto simp: number_text_def bind_eq_Some_conv split: list.splits option.splits)
  note c = num_start_step [OF q0]
  have "foldl json_step (BeginValue, fs) (t @ [x]) = end_value x (deliver (JNum (ParseFloat t)) fs)" if "delimiter x" for fs x
  proof -
    have "foldl json_step (BeginValue, fs) t = (InNumber q (rev t), fs)"
      using scan_num_run [OF q(1), of "[c]" fs] c by (simp add: t)
    then show ?thesis using that q(2) by (simp add: json_step_def [of "(_, _)" x] num_next_delimiter)
  qed
  then show ?thesis using c by (simp add: reads_as_def t)
qed

lemma reads_literal:
  "reads_as d ''null'' JNull" "reads_as d ''true'' (JBool True)" "reads_as d ''false'' (JBool False)"
  by (simp_all add: reads_as_def json_space_def json_step_def [of "(BeginValue, _)"] json_step_def [of "(InLiteral _ _, _)"]
     begin_value_def json_digit_def step_after_value)

lemma reads_string: "reads_as d (enc_string s) (JStr (fixed_utf8 s))"
proof -
  have "foldl json_step (BeginValue, fs) (enc_string s @ [c]) = end_value c (deliver (JStr (fixed_utf8 s)) fs)" for fs c
  proof -
    have "foldl json_step (BeginValue, fs) (enc_string s) = foldl json_step (InString [], fs) (enc_chars s @ [CHR 0x22])"
      by (simp add: enc_string_def json_step_def [of "(BeginValue, _)"] begin_value_def json_space_def)
    then show ?thesis by (simp add: scan_string step_after_value del: foldl_append) (simp add: scan_string step_after_value)
  qed
  then show ?thesis by (simp add: reads_as_def) (simp add: enc_string_def json_space_def)
qed

lemma reads_more: "reads_as d t v \<Longrightarrow> d \<le> d' \<Longrightarrow> reads_as d' t v"
  by (auto simp: reads_as_def)

lemma reads_step:
  assumes "reads_as d t v" "delimiter c" "length fs + d \<le> maxNestingDepth"
  shows "foldl json_step (BeginValue, fs) (t @ c # s) = foldl json_step (end_value c (deliver v fs)) s"
proof -
  have "foldl json_step (BeginValue, fs) (t @ [c]) = end_value c (deliver v fs)"
    using assms by (simp add: reads_as_def)
  then show ?thesis by (metis append.assoc append_Cons append_Nil foldl_append)
qed

lemma scan_elements:
  assumes "ts \<noteq> []" "list_all2 (reads_as d) ts vs" "Suc (length fs) + d \<le> maxNestingDepth"
  shows "foldl json_step (BeginValue, FArr acc # fs) (commas ts @ [CHR '']'']) = deliver (JList (rev acc @ vs)) fs"
  using assms
proof (induction ts arbitrary: vs acc rule: commas.induct)
  case (2 t)
  then obtain v where v: "vs = [v]" "reads_as d t v" by (auto simp: list_all2_Cons1)
  then show ?case using reads_step [OF v(2), of "CHR '']''" "FArr acc # fs" "[]"] 2
    by (simp add: delimiter_def end_value_def json_space_def del: foldl_append)
next
  case (3 t u ts)
  then obtain v ws where v: "vs = v # ws" "reads_as d t v" "list_all2 (reads_as d) (u # ts) ws"
    by (auto simp: list_all2_Cons1)
  have "foldl json_step (BeginValue, FArr acc # fs) (commas (t # u # ts) @ [CHR '']'']) =
    foldl json_step (BeginValue, FArr (v # acc) # fs) (commas (u # ts) @ [CHR '']''])"
    using reads_step [OF v(2), of "CHR '',''" "FArr acc # fs" "commas (u # ts) @ [CHR '']'']"] 3
    by (simp add: delimiter_def end_value_def json_space_def del: foldl_append)
  then show ?case using 3(1) [of ws "v # acc"] 3 v by simp
qed simp

lemma empty_or_value:
  assumes "reads_as d t v"
  shows "foldl json_step (BeginValueOrEmpty, fs) (t @ s) = foldl json_step (BeginValue, fs) (t @ s)"
proof -
  obtain c t' where "t = c # t'" "\<not> json_space c" "c \<noteq> CHR '']''"
    using assms by (cases t) (auto simp: reads_as_def)
  then show ?thesis by (simp add: json_step_def [of "(_, _)" c])
qed

lemma reads_array:
  assumes "list_all2 (reads_as d) ts vs" "Suc d \<le> d'"
  shows "reads_as d' (array_text ts) (JList vs)"
proof -
  have "foldl json_step (BeginValue, fs) (array_text ts @ [c]) = end_value c (deliver (JList vs) fs)"
    if "length fs + d' \<le> maxNestingDepth" for fs c
  proof -
    have "json_step (BeginValue, fs) (CHR ''['') = (BeginValueOrEmpty, FArr [] # fs)"
      using that assms(2) by (simp add: json_step_def begin_value_def json_space_def pushParseState_def)
    then have "foldl json_step (BeginValue, fs) (array_text ts) =
      foldl json_step (BeginValueOrEmpty, FArr [] # fs) (commas ts @ [CHR '']''])"
      by (simp add: array_text_def)
    also have "\<dots> = deliver (JList vs) fs"
    proof (cases ts)
      case Nil
      then show ?thesis using assms(1) by (simp add: json_step_def json_space_def)
    next
      case (Cons t us)
      then obtain v where "reads_as d t v" using assms(1) by (auto simp: list_all2_Cons1)
      moreover obtain r where "commas ts = t @ r" using Cons by (cases us) auto
      ultimately have "foldl json_step (BeginValueOrEmpty, FArr [] # fs) (commas ts @ [CHR '']'']) =
        foldl json_step (BeginValue, FArr [] # fs) (commas ts @ [CHR '']''])"
        using empty_or_value [of d t v "FArr [] # fs" "r @ [CHR '']'']"] by simp
      then show ?thesis using scan_elements [of ts d vs fs "[]"] Cons assms that by simp
    qed
    finally show ?thesis by (simp add: step_after_value)
  qed
  then show ?thesis by (simp add: reads_as_def) (simp add: array_text_def json_space_def)
qed

text \<open>A field of an object: its key and the text of its value.\<close>

abbreviation field_text :: "string \<times> string \<Rightarrow> string" where
  "field_text \<equiv> \<lambda>(k, t). enc_string k @ '':'' @ t"

definition reads_field :: "nat \<Rightarrow> string \<times> string \<Rightarrow> string \<times> json \<Rightarrow> bool" where
  "reads_field d = (\<lambda>(k, t) (k', v). k' = fixed_utf8 k \<and> reads_as d t v)"

lemma scan_field:
  assumes "reads_field d kt (k', v)" "delimiter c" "Suc (length fs) + d \<le> maxNestingDepth"
    and st: "st = BeginString \<or> st = BeginStringOrEmpty"
  shows "foldl json_step (st, FKey acc # fs) (field_text kt @ c # s) =
    foldl json_step (end_value c (EndValue, FKey ((k', v) # acc) # fs)) s"
proof -
  obtain k t where kt: "kt = (k, t)" "k' = fixed_utf8 k" "reads_as d t v"
    using assms(1) by (auto simp: reads_field_def split: prod.splits)
  have "json_step (st, FKey acc # fs) (CHR 0x22) = (InString [], FKey acc # fs)"
    using st by (auto simp: json_step_def begin_string_def json_space_def)
  then have "foldl json_step (st, FKey acc # fs) (enc_string k) = (ObjectKey, FVal acc k' # fs)"
    using scan_string [of "FKey acc # fs" k] by (simp add: enc_string_def kt(2))
  moreover have "json_step (ObjectKey, FVal acc k' # fs) (CHR '':'') = (BeginValue, FVal acc k' # fs)"
    by (simp add: json_step_def end_value_def json_space_def)
  ultimately show ?thesis
    using reads_step [OF kt(3) assms(2), of "FVal acc k' # fs" s] assms(3) by (simp add: kt(1))
qed

lemma scan_fields:
  assumes "kts \<noteq> []" "list_all2 (reads_field d) kts kvs" "Suc (length fs) + d \<le> maxNestingDepth"
    and "st = BeginString \<or> st = BeginStringOrEmpty"
  shows "foldl json_step (st, FKey acc # fs) (commas (map field_text kts) @ [CHR 0x7D]) = deliver (JObj (rev acc @ kvs)) fs"
  using assms
proof (induction kts arbitrary: kvs acc st rule: induct_list012)
  case (2 kt)
  then obtain k v where v: "kvs = [(k, v)]" "reads_field d kt (k, v)" by (auto simp: list_all2_Cons1)
  then show ?case using scan_field [OF v(2), of "CHR 0x7D" fs st acc "[]"] 2
    by (simp add: delimiter_def end_value_def json_space_def del: foldl_append)
next
  case (3 kt k2 kts)
  then obtain k v ws where v: "kvs = (k, v) # ws" "reads_field d kt (k, v)" "list_all2 (reads_field d) (k2 # kts) ws"
    by (auto simp: list_all2_Cons1)
  have "foldl json_step (st, FKey acc # fs) (commas (map field_text (kt # k2 # kts)) @ [CHR 0x7D]) =
    foldl json_step (BeginString, FKey ((k, v) # acc) # fs) (commas (map field_text (k2 # kts)) @ [CHR 0x7D])"
    using scan_field [OF v(2), of "CHR '',''" fs st acc "commas (map field_text (k2 # kts)) @ [CHR 0x7D]"] 3
    by (simp add: delimiter_def end_value_def json_space_def del: foldl_append)
  then show ?case using 3(2) [of ws BeginString "(k, v) # acc"] 3 v by simp
qed simp

lemma reads_object:
  assumes "list_all2 (reads_field d) kts kvs" "Suc d \<le> d'"
  shows "reads_as d' (object_text kts) (JObj kvs)"
proof -
  have "foldl json_step (BeginValue, fs) (object_text kts @ [c]) = end_value c (deliver (JObj kvs) fs)"
    if "length fs + d' \<le> maxNestingDepth" for fs c
  proof -
    have "json_step (BeginValue, fs) (CHR 0x7B) = (BeginStringOrEmpty, FKey [] # fs)"
      using that assms(2) by (simp add: json_step_def begin_value_def json_space_def pushParseState_def)
    then have "foldl json_step (BeginValue, fs) (object_text kts) =
      foldl json_step (BeginStringOrEmpty, FKey [] # fs) (commas (map field_text kts) @ [CHR 0x7D])"
      by (simp add: object_text_def)
    also have "\<dots> = deliver (JObj kvs) fs"
    proof (cases "kts = []")
      case True
      then show ?thesis using assms(1) by (simp add: json_step_def json_space_def)
    next
      case False
      then show ?thesis using scan_fields [of kts d kvs fs BeginStringOrEmpty "[]"] assms that by simp
    qed
    finally show ?thesis by (simp add: step_after_value)
  qed
  then show ?thesis by (simp add: reads_as_def) (simp add: object_text_def json_space_def)
qed

text \<open>Sorting the fields of a map does not depend on what has become of the values.\<close>

lemma insort_map_snd:
  "insort_key fst (k, f v) (map (\<lambda>(k, v). (k, f v)) kvs) = map (\<lambda>(k, v). (k, f v)) (insort_key fst (k, v) kvs)"
  by (induction kvs) auto

lemma sort_map_snd: "sort_key fst (map (\<lambda>(k, v). (k, f v)) kvs) = map (\<lambda>(k, v). (k, f v)) (sort_key fst kvs)"
  by (induction kvs) (auto simp: insort_map_snd)

text \<open>The value that is scanned when a value has been written, and how deep it is nested.\<close>

fun rescanned :: "json \<Rightarrow> json" where
  "rescanned (JInt i) = JNum (f64_of_int i)"
| "rescanned (JStr s) = JStr (fixed_utf8 s)"
| "rescanned (JList xs) = JList (map rescanned xs)"
| "rescanned (JObj kvs) = JObj (map (\<lambda>(k, v). (fixed_utf8 k, v)) (sort_key fst (map (\<lambda>(k, v). (k, rescanned v)) kvs)))"
| "rescanned v = v"

fun json_depth :: "json \<Rightarrow> nat" where
  "json_depth (JList xs) = Suc (foldr max (map json_depth xs) 0)"
| "json_depth (JObj kvs) = Suc (foldr max (map (\<lambda>(k, v). json_depth v) kvs) 0)"
| "json_depth v = 0"

fun writable :: "json \<Rightarrow> bool" where
  "writable (JNum x) = f64_value x"
| "writable (JInt i) = (- (2 ^ 63) \<le> i \<and> i < 2 ^ 64)"
| "writable (JList xs) = list_all writable xs"
| "writable (JObj kvs) = list_all (\<lambda>(k, v). writable v) kvs"
| "writable v = True"

lemma foldr_max_bound: "(x :: nat) \<in> set xs \<Longrightarrow> x \<le> foldr max xs a"
  by (induction xs) (auto simp: le_max_iff_disj)

lemma reads_int: "reads_as d (int_str i) (JNum (f64_of_int i))"
  using reads_number [of "int_str i"] int_text by simp

text \<open>The main lemma: every value is scanned as it was written.\<close>

lemma reads_json: "writable v \<Longrightarrow> json_depth v \<le> d \<Longrightarrow> reads_as d (enc_json v) (rescanned v)"
proof (induction v arbitrary: d rule: enc_json.induct)
  case (3 x)
  then show ?case using reads_number [of "f64_str x"] f64_str_text [of x] by simp
next
  case (6 xs)
  then obtain d' where d': "d = Suc d'" by (cases d) auto
  have "list_all2 (reads_as d') (map enc_json xs) (map rescanned xs)"
    using 6 foldr_max_bound [of _ "map json_depth xs" 0]
    by (force simp: d' list_all2_map1 list_all2_map2 list_all2_same list_all_iff intro: order_trans)
  then show ?case using reads_array d' by simp
next
  case (7 kvs)
  then obtain d' where d': "d = Suc d'" by (cases d) auto
  have "reads_as d' (enc_json v) (rescanned v)" if "(k, v) \<in> set kvs" for k v
  proof -
    have "json_depth v \<le> foldr max (map (\<lambda>(k, v). json_depth v) kvs) 0"
      using that by (intro foldr_max_bound) force
    then show ?thesis using 7 that by (auto simp: d' list_all_iff)
  qed
  then have "list_all2 (reads_field d') (sort_key fst (map (\<lambda>(k, v). (k, enc_json v)) kvs))
    (map (\<lambda>(k, v). (fixed_utf8 k, v)) (sort_key fst (map (\<lambda>(k, v). (k, rescanned v)) kvs)))"
    by (auto simp: sort_map_snd list_all2_map1 list_all2_map2 list_all2_same reads_field_def)
  then show ?case using reads_object d' by simp
qed (simp_all add: reads_literal reads_string reads_int)

subsection \<open>Lines\<close>

text \<open>The encoder writes no control characters, so a message is one line.\<close>

abbreviation no_controls :: "string \<Rightarrow> bool" where
  "no_controls t \<equiv> list_all (\<lambda>c. 32 \<le> byte_of c) t"

lemma no_controls_plain: "no_controls t \<Longrightarrow> plain_line t"
  by (auto simp: plain_line_def list_all_iff)

lemma hex_char_ge: "d < 16 \<Longrightarrow> 48 \<le> byte_of (hex_char d)"
  by (simp add: hex_char_def)

lemma no_controls_escape: "no_controls (json_escape c)"
proof -
  have "byte_of c div 16 < 16" by (simp add: div_less_iff_less_mult)
  then show ?thesis
    using hex_char_ge [of "byte_of c div 16"] hex_char_ge [of "byte_of c mod 16"] by (simp add: json_escape_def)
qed

lemma no_controls_item: "rune_item it \<Longrightarrow> no_controls (enc_item it)"
proof -
  assume r: "rune_item it"
  obtain ok v bs where it: "it = (ok, v, bs)" by (cases it)
  have "128 \<le> byte_of c" if "ok" "\<not> v < 128" "c \<in> set bs" for c
    using high_item [of bs c] that r by (simp add: it)
  then have "no_controls bs" if "ok" "\<not> v < 128" using that by (fastforce simp: list_all_iff)
  then show ?thesis using no_controls_escape by (simp add: it)
qed

lemma no_controls_string: "no_controls (enc_string s)"
proof -
  have "list_all rune_item its \<Longrightarrow> no_controls (concat (map enc_item its))" for its
    by (induction its) (simp_all add: no_controls_item del: enc_item.simps)
  from this [OF runes_items] show ?thesis by (simp add: enc_string_def enc_chars_def)
qed

lemma num_next_ge: "num_next q c = Some q' \<Longrightarrow> 32 \<le> byte_of c"
  by (cases q) (auto simp: json_digit_def exp_char_def split: if_splits)

lemma num_run_ge: "num_run q s = Some q' \<Longrightarrow> no_controls s"
  by (induction s arbitrary: q) (auto simp: bind_eq_Some_conv dest: num_next_ge)

lemma no_controls_number: "number_text t \<Longrightarrow> no_controls t"
  by (auto simp: number_text_def num_start_def json_digit_def bind_eq_Some_conv dest!: num_run_ge
      split: list.splits option.splits if_splits)

lemma no_controls_commas: "list_all no_controls ts \<Longrightarrow> no_controls (commas ts)"
  by (induction ts rule: commas.induct) auto

lemma no_controls_object:
  assumes "\<And>k t. (k, t) \<in> set kts \<Longrightarrow> no_controls t"
  shows "no_controls (object_text kts)"
proof -
  have "no_controls (case kt of (k, t) \<Rightarrow> enc_string k @ '':'' @ t)" if "kt \<in> set kts" for kt
    using assms that no_controls_string by (cases kt) simp
  then have "list_all no_controls (map (\<lambda>(k, t). enc_string k @ '':'' @ t) kts)"
    by (simp only: list_all_iff [of no_controls] set_map ball_simps) blast
  then show ?thesis by (simp add: object_text_def no_controls_commas)
qed

lemma no_controls_array: "list_all no_controls ts \<Longrightarrow> no_controls (array_text ts)"
  by (simp add: array_text_def no_controls_commas)

lemma no_controls_json: "writable v \<Longrightarrow> no_controls (enc_json v)"
proof (induction v rule: enc_json.induct)
  case (6 xs)
  then have "list_all no_controls (map enc_json xs)"
    by (simp add: list_all_iff [of no_controls] list_all_iff [of writable])
  then show ?case by (simp add: no_controls_array)
next
  case (7 kvs)
  have "no_controls (enc_json v)" if "(k, v) \<in> set kvs" for k v
    using 7 that by (auto simp: list_all_iff [of "\<lambda>(k, v). writable v"])
  then show ?case by (auto intro!: no_controls_object)
qed (simp_all add: no_controls_string no_controls_number int_text f64_str_text)

subsection \<open>Messages read back\<close>

text \<open>What the other side has for a message: integers are doubles there, and strings are valid.\<close>

definition received :: "json \<Rightarrow> json" where
  "received v = any_value (rescanned v)"

fun received_msg :: "message \<Rightarrow> message" where
  "received_msg (Event e) =
     Event \<lparr>ev_Id = received (ev_Id e), ev_Version = fixed_utf8 (ev_Version e), ev_Method = fixed_utf8 (ev_Method e),
       ev_Params = map received (ev_Params e)\<rparr>"
| "received_msg (Response r) =
     Response \<lparr>rsp_Id = received (rsp_Id r), rsp_Result = received (rsp_Result r),
       rsp_Error = map_option (map received) (rsp_Error r)\<rparr>"

text \<open>The values of a message are doubles, 64-bit integers and so on, nested within the decoder's limit.\<close>

definition sendable :: "json \<Rightarrow> bool" where
  "sendable v \<longleftrightarrow> writable v \<and> Suc (json_depth v) \<le> maxNestingDepth"

fun msg_sendable :: "message \<Rightarrow> bool" where
  "msg_sendable (Event e) \<longleftrightarrow> sendable (ev_Id e) \<and> sendable (JList (ev_Params e))"
| "msg_sendable (Response r) \<longleftrightarrow> sendable (rsp_Id r) \<and> sendable (rsp_Result r) \<and>
     (case rsp_Error r of None \<Rightarrow> True | Some es \<Rightarrow> sendable (JList es))"

text \<open>Decoding a line into the kind of message that was sent.\<close>

fun read_back :: "message \<Rightarrow> string \<Rightarrow> go_error + message" where
  "read_back (Event _) l = map_sum id Event (UnmarshalEvent l)"
| "read_back (Response _) l = map_sum id Response (UnmarshalResponse l)"

lemma rescanned_marshals: "writable v \<Longrightarrow> marshals (rescanned v)"
proof (induction v rule: rescanned.induct)
  case (4 kvs)
  have "marshals (rescanned v)" if "(k, v) \<in> set kvs" for k v
    using 4 that by (auto simp: list_all_iff)
  then show ?case by (auto simp: list_all_iff)
qed (auto simp: list_all_iff f64_of_int_finite f64_value_finite)

lemma ascii_valid: "list_all (\<lambda>c. byte_of c < 128) s \<Longrightarrow> valid_utf8 s"
  by (induction s) (auto intro: ascii_Cons)

lemma fixed_ascii: "list_all (\<lambda>c. byte_of c < 128) s \<Longrightarrow> fixed_utf8 s = s"
  by (intro fixed_utf8_valid ascii_valid)

lemma scan_value_reads:
  assumes "reads_as maxNestingDepth t v"
  shows "scan_value t = Some v"
proof -
  have "json_step (foldl json_step (BeginValue, []) t) (CHR '' '') = end_value (CHR '' '') (deliver v [])"
    using assms by (simp add: reads_as_def delimiter_def)
  then show ?thesis by (simp add: scan_value_def end_value_def json_space_def)
qed

lemma scan_struct:
  assumes "list_all2 (reads_field (maxNestingDepth - 1)) kts kvs"
  shows "scan_value (object_text kts) = Some (JObj kvs)"
  by (rule scan_value_reads, rule reads_object [OF assms]) (simp add: maxNestingDepth_def)

lemma sendable_reads: "sendable v \<Longrightarrow> reads_as (maxNestingDepth - 1) (enc_json v) (rescanned v)"
  unfolding sendable_def by (intro reads_json) auto

lemma slice_received:
  "sendable (JList xs) \<Longrightarrow> slice_value (rescanned (JList xs)) = Some (Some (map received xs))"
  using rescanned_marshals [of "JList xs"] by (simp add: sendable_def received_def comp_def)

lemma decode_event:
  assumes "msg_sendable (Event e)"
  shows "read_back (Event e) (encode_msg (Event e)) = Inr (received_msg (Event e))"
proof -
  have s: "sendable (ev_Id e)" "sendable (JList (ev_Params e))" using assms by simp_all
  have "scan_value (encode_msg (Event e)) = Some (JObj
    [(''id'', rescanned (ev_Id e)), (''jsonrpc'', JStr (fixed_utf8 (ev_Version e))),
     (''method'', JStr (fixed_utf8 (ev_Method e))), (''params'', rescanned (JList (ev_Params e)))])"
    unfolding encode_msg.simps using sendable_reads [OF s(1)] sendable_reads [OF s(2)]
    by (intro scan_struct) (simp add: reads_field_def reads_string fixed_ascii)
  moreover have "marshals (rescanned (ev_Id e))" using s rescanned_marshals by (simp add: sendable_def)
  ultimately show ?thesis using slice_received [OF s(2)]
    by (simp add: UnmarshalEvent_def decode_struct_def event_field_def find_field_def empty_event_def received_def
        del: rescanned.simps slice_value.simps encode_msg.simps)
qed

lemma decode_response:
  assumes "msg_sendable (Response r)"
  shows "read_back (Response r) (encode_msg (Response r)) = Inr (received_msg (Response r))"
proof -
  define es where "es = (case rsp_Error r of None \<Rightarrow> JNull | Some es \<Rightarrow> JList es)"
  have s: "sendable (rsp_Id r)" "sendable (rsp_Result r)" "sendable es"
    using assms by (auto simp: es_def sendable_def maxNestingDepth_def split: option.splits)
  have e: "(case rsp_Error r of None \<Rightarrow> ''null'' | Some es \<Rightarrow> enc_json (JList es)) = enc_json es"
    by (simp add: es_def split: option.split)
  have "scan_value (encode_msg (Response r)) = Some (JObj
    [(''id'', rescanned (rsp_Id r)), (''result'', rescanned (rsp_Result r)), (''error'', rescanned es)])"
    unfolding encode_msg.simps e using s [THEN sendable_reads]
    by (intro scan_struct) (simp add: reads_field_def fixed_ascii)
  moreover have "marshals (rescanned (rsp_Id r))" "marshals (rescanned (rsp_Result r))"
    using s rescanned_marshals by (simp_all add: sendable_def)
  moreover have "slice_value (rescanned es) = Some (map_option (map received) (rsp_Error r))"
    using slice_received s(3) by (cases "rsp_Error r") (simp_all add: es_def del: rescanned.simps(3))
  ultimately show ?thesis
    by (simp add: UnmarshalResponse_def decode_struct_def response_field_def find_field_def empty_response_def received_def
        del: slice_value.simps encode_msg.simps)
qed

lemma decode_msg: "msg_sendable m \<Longrightarrow> read_back m (encode_msg m) = Inr (received_msg m)"
  by (cases m) (simp_all only: decode_event decode_response)

lemma encode_plain:
  assumes "msg_sendable m"
  shows "plain_line (encode_msg m)"
proof (rule no_controls_plain)
  show "no_controls (encode_msg m)"
  proof (cases m)
    case (Event e)
    then show ?thesis using assms no_controls_json
      by (auto simp: sendable_def no_controls_string simp del: enc_json.simps intro!: no_controls_object)
  next
    case (Response r)
    then show ?thesis using assms no_controls_json
      by (auto simp: sendable_def no_controls_string simp del: enc_json.simps intro!: no_controls_object split: option.splits)
  qed
qed

text \<open>The bytes that a connection has written.\<close>

definition socket_bytes :: "stratum_context \<Rightarrow> string" where
  "socket_bytes sc = concat (map wire (sent sc))"


definition chat :: stratum_context where
  "chat =
     snd (ReplyLowDiffShare
       (snd (Send (open_context (\<lambda>n. WriteOk))
          \<lparr>ev_Id = JNull, ev_Version = ''2.0'', ev_Method = ''mining.set_difficulty'', ev_Params = [JNum (Fin (1 / 2))]\<rparr>))
       (JStr [CHR 0x22, CHR 0x0A]))"


end
