(* ===== verification/Bridge_Server.thy ===== *)
theory Bridge_Server
  imports Session_Laws Reward_Booking Wire_Format
begin

text \<open>
  How the bridge is put together (\<open>src/htnstratum/stratum_server.go\<close>, \<open>ListenAndServe\<close>): the defaults
  of the configuration, the handlers of the stratum server with the bridge's own \<open>mining.submit\<close> and
  \<open>mining.authorize\<close>, the recovery of pending rewards at the start, and the life of a connection as a
  sequence of reads, new work and disconnections in any order. The order of the start itself is in
  the theory \<open>Startup\<close>.
\<close>

subsection \<open>Configuration\<close>

definition minBlockWaitTime :: int where
  "minBlockWaitTime = 100000000"

definition defaultBridgeFeeAddress :: string where
  "defaultBridgeFeeAddress = ''hoosat:qq2g85qrj2k4xs80y32v69kjn7nr49khyrack9mpd3gy54vfp8ja53ws4yezz''"

definition defaultBridgeFeeRatePpm :: int where
  "defaultBridgeFeeRatePpm = 50"

record bridge_config =
  cfg_StratumPort :: string
  cfg_RPCServer :: string
  cfg_PromPort :: string
  cfg_PrintStats :: bool
  cfg_RollingStats :: bool
  cfg_UseLogFile :: bool
  cfg_HealthCheckPort :: string
  cfg_SoloMining :: bool
  cfg_BlockWaitTime :: int
  cfg_MinShareDiff :: f64
  cfg_VarDiff :: bool
  cfg_SharesPerMin :: "64 word"
  cfg_VarDiffStats :: bool
  cfg_ExtranonceSize :: nat
  cfg_MineWhenNotSynced :: bool
  cfg_Poll :: int
  cfg_Vote :: int
  cfg_BridgeFee :: bridge_fee_config
  cfg_GBTCacheTTL :: int
  cfg_WebPort :: string
  cfg_StratumAddr :: string
  cfg_RemoveDisconnectedFromStats :: bool
  cfg_EnableTLS :: bool
  cfg_TLSCertFile :: string
  cfg_TLSKeyFile :: string
  cfg_HTTPSPort :: string

definition bridge_fee_defaults :: "bridge_fee_config \<Rightarrow> bridge_fee_config" where
  "bridge_fee_defaults fee =
     (let fee1 = (if bf_Address fee = [] then fee\<lparr>bf_Address := defaultBridgeFeeAddress\<rparr> else fee)
      in if bf_RatePpm fee1 = 0 then fee1\<lparr>bf_RatePpm := defaultBridgeFeeRatePpm\<rparr> else fee1)"

definition start_api :: "go_error option \<Rightarrow> bridge_config \<Rightarrow> go_error + htn_api" where
  "start_api dial cfg =
     NewHoosatAPI dial (cfg_RPCServer cfg) (max (cfg_BlockWaitTime cfg) minBlockWaitTime)
       (bridge_fee_defaults (cfg_BridgeFee cfg)) (cfg_GBTCacheTTL cfg)"

definition min_diff :: "bridge_config \<Rightarrow> f64" where
  "min_diff cfg = (if f64_eq (cfg_MinShareDiff cfg) (Fin 0) then Fin 4 else cfg_MinShareDiff cfg)"

definition start_listener :: "int \<Rightarrow> bridge_config \<Rightarrow> client_listener" where
  "start_listener zero_time cfg = newClientListener zero_time (min_diff cfg) (min (cfg_ExtranonceSize cfg) 3)"

text \<open>The share handler is created first and told later what to do when a block is solved.\<close>

definition start_share_handler :: "bridge_config \<Rightarrow> mining_db \<Rightarrow> share_handler" where
  "start_share_handler cfg db = (newShareHandler (cfg_RollingStats cfg) True (Some db))\<lparr>sh_onBlockSolved := True\<rparr>"

definition vardiff_enabled :: "bridge_config \<Rightarrow> bool" where
  "vardiff_enabled cfg = (cfg_VarDiff cfg \<or> cfg_SoloMining cfg)"

subsection \<open>Pending rewards\<close>

text \<open>The hashes of the blocks whose reward was not booked when the bridge stopped.\<close>

definition pending_hashes :: "mining_db \<Rightarrow> (go_error + string list) \<times> mining_db" where
  "pending_hashes d =
     (case db_call d of
        (Some e, d1) \<Rightarrow> (Inl e, d1)
      | (None, d1) \<Rightarrow> (Inr (map r_BlockHash (filter (\<lambda>r. Status r = ''pending'') (rows d1))), d1))"

text \<open>Their goroutines, one after the other; \<open>apis h\<close> is what the node answers the goroutine of \<open>h\<close>.\<close>

fun book_all :: "go_unicode \<Rightarrow> (string \<Rightarrow> nat \<Rightarrow> node_api) \<Rightarrow> string list \<Rightarrow> mining_db option \<Rightarrow> unit outcome \<times> mining_db option" where
  "book_all uc apis [] db = (Ret (), db)"
| "book_all uc apis (h # hs) db =
     (case fetchAndUpdateReward uc (apis h) h db of
        (Ret (), db1) \<Rightarrow> book_all uc apis hs db1
      | (r, db1) \<Rightarrow> (r, db1))"

definition recover_pending ::
  "go_unicode \<Rightarrow> (string \<Rightarrow> nat \<Rightarrow> node_api) \<Rightarrow> bridge_config \<Rightarrow> mining_db \<Rightarrow> unit outcome \<times> mining_db option" where
  "recover_pending uc apis cfg d =
     (if cfg_WebPort cfg \<noteq> [] \<and> cfg_StratumAddr cfg \<noteq> []
      then (case pending_hashes d of
              (Inl e, d1) \<Rightarrow> (Ret (), Some d1)
            | (Inr hs, d1) \<Rightarrow> book_all uc apis hs (Some d1))
      else (Ret (), Some d))"

subsection \<open>Handlers\<close>

type_synonym 's message_handler = "json_rpc_event \<Rightarrow> ('s share_world_scheme, go_error option) handler"

definition on_ctx :: "event_handler \<Rightarrow> 's message_handler" where
  "on_ctx h event w = (case h (sw_ctx w) event of (r, c) \<Rightarrow> (r, w\<lparr>sw_ctx := c\<rparr>))"

text \<open>An error of a submission is printed and forgotten.\<close>

definition submit_handler :: "node_env \<Rightarrow> bool \<Rightarrow> 's message_handler" where
  "submit_handler env soloMining event = wbind (HandleSubmit env event soloMining) (\<lambda>err. wret None)"

definition authorize_handler :: "address_decoder \<Rightarrow> node_env \<Rightarrow> 's message_handler" where
  "authorize_handler decodes env event =
     wbind (on_ctx (HandleAuthorize decodes) event) (\<lambda>err.
       case err of
         Some e \<Rightarrow> wret (Some e)
       | None \<Rightarrow> wbind (getCreateStats env) (\<lambda>_. wret None))"

definition bridge_handlers :: "address_decoder \<Rightarrow> node_env \<Rightarrow> bool \<Rightarrow> string \<Rightarrow> 's message_handler option" where
  "bridge_handlers decodes env soloMining =
     ((\<lambda>m. map_option on_ctx (DefaultHandlers decodes m))
       (StratumMethodSubmit \<mapsto> submit_handler env soloMining))
       (StratumMethodAuthorize \<mapsto> authorize_handler decodes env)"

definition bridge_event :: "address_decoder \<Rightarrow> node_env \<Rightarrow> bool \<Rightarrow> 's message_handler" where
  "bridge_event decodes env soloMining event =
     (case bridge_handlers decodes env soloMining (ev_Method event) of
        None \<Rightarrow> wret None
      | Some h \<Rightarrow> h event)"

subsection \<open>The life of a connection\<close>

text \<open>
  A line of a miner is decoded and dispatched; what cannot be decoded is an error, which ends the
  connection.
\<close>

definition bridge_line :: "address_decoder \<Rightarrow> node_env \<Rightarrow> bool \<Rightarrow> string \<Rightarrow> ('s share_world_scheme, go_error option) handler" where
  "bridge_line decodes env soloMining line =
     (case UnmarshalEvent line of
        Inl err \<Rightarrow> wret (Some err)
      | Inr event \<Rightarrow> bridge_event decodes env soloMining event)"

text \<open>
  An iteration of \<open>spawnClientListener\<close> with the bridge's handlers: one read, whatever it returns.
  Panics are not recovered here, so that a theorem can exclude them.
\<close>

definition bridge_read :: "address_decoder \<Rightarrow> node_env \<Rightarrow> bool \<Rightarrow> conn_read \<Rightarrow> bool \<Rightarrow> ('s share_world_scheme, unit) handler" where
  "bridge_read decodes env soloMining rd cancelled =
     wbind (readFromConnection rd (\<lambda>w line. bridge_line decodes env soloMining line w)) (\<lambda>err.
       if (case err of Some e \<Rightarrow> \<not> error_is e ErrDeadlineExceeded | None \<Rightarrow> cancelled)
       then upd_ctx Disconnect else wret ())"

datatype session_event =
    Incoming address_decoder node_env bool conn_read bool
  | NewWork job_env
  | Broken
  | PendingClose

fun session_run :: "session_event \<Rightarrow> ('s api_world_scheme, unit) handler" where
  "session_run (Incoming decodes env solo rd cancelled) = bridge_read decodes env solo rd cancelled"
| "session_run (NewWork env) = serve_client env"
| "session_run Broken = upd_ctx Disconnect"
| "session_run PendingClose = upd_ctx run_pending"

fun session :: "session_event list \<Rightarrow> ('s api_world_scheme, unit) handler" where
  "session [] = wret ()"
| "session (e # es) = wbind (session_run e) (\<lambda>_. session es)"

text \<open>What the node and the metrics library are assumed to do; nothing is assumed of the bytes a miner sends.\<close>

fun session_event_ok :: "session_event \<Rightarrow> bool" where
  "session_event_ok (Incoming decodes env solo rd cancelled) \<longleftrightarrow>
     (\<forall>a p. decodes a p \<longrightarrow> valid_utf8 a) \<and> accepts_ok (env_accepts env) \<and>
     (\<forall>h. valid_utf8 (HashString (env_lib env) h))"
| "session_event_ok (NewWork env) = job_env_ok env"
| "session_event_ok Broken = True"
| "session_event_ok PendingClose = True"

lemma idle_ok_ctx:
  assumes "idle_ok w" "labels_utf8 c" "RemoteAddr c = RemoteAddr (sw_ctx w)" "State c = State (sw_ctx w)"
  shows "idle_ok (w\<lparr>sw_ctx := c\<rparr>)"
  using assms by (simp add: idle_ok_def labels_ok_def)

lemma default_message_ok:
  assumes "\<And>a p. decodes a p \<Longrightarrow> valid_utf8 a" "event_utf8 ev" "idle_ok w"
    "HandleEvent (DefaultHandlers decodes) (sw_ctx w) ev = (r, c)"
  shows "idle_ok (w\<lparr>sw_ctx := c\<rparr>) \<and> (\<forall>e. r \<noteq> Panic e)"
proof -
  have c: "c = snd (HandleEvent (DefaultHandlers decodes) (sw_ctx w) ev)" "r = fst (HandleEvent (DefaultHandlers decodes) (sw_ctx w) ev)"
    using assms(4) by simp_all
  have "labels_utf8 (sw_ctx w)" using assms(3) by (simp add: idle_ok_def labels_ok_def)
  then have "labels_utf8 c" unfolding c by (intro default_event_labels [OF assms(1) _ assms(2)])
  then show ?thesis using idle_ok_ctx [OF assms(3)] default_event_frame [of decodes "sw_ctx w" ev] unfolding c by simp
qed

lemma getCreateStats_idle:
  assumes "accepts_ok (env_accepts env)" "idle_ok w"
  shows "\<exists>key w'. getCreateStats env w = (Ret key, w') \<and> idle_ok w'"
proof -
  have "labels_ok (sw_ctx w)" using assms(2) by (simp add: idle_ok_def)
  then obtain key w' where g: "getCreateStats env w = (Ret key, w')" using getCreateStats_returns [OF assms(1)] by metis
  then have "same_ready w w'" using keeps_Ret [OF calm.stats] by metis
  then show ?thesis using g idle_ok_same assms(2) by blast
qed

lemma bridge_event_idle:
  assumes "session_event_ok (Incoming decodes env solo rd cancelled)" "event_utf8 ev" "idle_ok w"
  shows "idle_ok (snd (bridge_event decodes env solo ev w)) \<and> (\<forall>e. fst (bridge_event decodes env solo ev w) \<noteq> Panic e)"
proof -
  have ok: "\<And>a p. decodes a p \<Longrightarrow> valid_utf8 a" "accepts_ok (env_accepts env)" "\<And>h. valid_utf8 (HashString (env_lib env) h)" "event_utf8 ev"
    using assms(1,2) by auto
  obtain r c where h: "HandleEvent (DefaultHandlers decodes) (sw_ctx w) ev = (r, c)" by fastforce
  have def: "idle_ok (w\<lparr>sw_ctx := c\<rparr>)" "\<And>e. r \<noteq> Panic e"
    using default_message_ok [OF _ ok(4) assms(3) h] ok(1) by blast+
  consider (submit) "ev_Method ev = StratumMethodSubmit" | (auth) "ev_Method ev = StratumMethodAuthorize"
    | (other) "ev_Method ev \<noteq> StratumMethodSubmit" "ev_Method ev \<noteq> StratumMethodAuthorize" by blast
  then show ?thesis
  proof cases
    case submit
    then have "bridge_event decodes env solo ev w = submit_handler env solo ev w"
      by (simp add: bridge_event_def bridge_handlers_def StratumMethodSubmit_def StratumMethodAuthorize_def)
    then show ?thesis using HandleSubmit_idle [OF ok(2,3) assms(3), of ev solo]
      by (cases "HandleSubmit env ev solo w"; cases "fst (HandleSubmit env ev solo w)")
        (simp_all add: submit_handler_def wbind_def wret_def)
  next
    case auth
    have run: "bridge_event decodes env solo ev w = authorize_handler decodes env ev w"
      using auth by (simp add: bridge_event_def bridge_handlers_def)
    have "HandleAuthorize decodes (sw_ctx w) ev = (r, c)"
      using h auth by (simp add: HandleEvent_def DefaultHandlers_def StratumMethodSubmit_def StratumMethodAuthorize_def)
    then have on: "on_ctx (HandleAuthorize decodes) ev w = (r, w\<lparr>sw_ctx := c\<rparr>)" by (simp add: on_ctx_def)
    obtain key w2 where g: "getCreateStats env (w\<lparr>sw_ctx := c\<rparr>) = (Ret key, w2)" "idle_ok w2"
      using getCreateStats_idle [OF ok(2) def(1)] by blast
    show ?thesis unfolding run authorize_handler_def using on g def
      by (cases r) (auto simp: wbind_def wret_def split: option.split)
  next
    case other
    then have "bridge_event decodes env solo ev w = (r, w\<lparr>sw_ctx := c\<rparr>)"
      using h by (auto simp: bridge_event_def bridge_handlers_def HandleEvent_def on_ctx_def wret_def split: option.splits)
    then show ?thesis using def by simp
  qed
qed

text \<open>Reading: an invariant of the callback, that excludes panics, is one of the read.\<close>

lemma each_line_inv:
  assumes "\<And>s l. P s \<Longrightarrow> P (snd (cb s l)) \<and> (\<forall>m. fst (cb s l) \<noteq> Panic m)" "P s"
  shows "P (snd (each_line cb ls s)) \<and> (\<forall>m. fst (each_line cb ls s) \<noteq> Panic m)"
  using assms(2)
proof (induction ls arbitrary: s)
  case (Cons l ls)
  obtain r s' where cb: "cb s l = (r, s')" by fastforce
  have "P s'" "r \<noteq> Panic m" for m using assms(1) [OF Cons.prems, of l] by (simp_all add: cb)
  then show ?case using Cons.IH [of s'] by (cases r) (auto simp: cb split: option.split)
qed simp

lemma read_inv:
  assumes "\<And>s l. P s \<Longrightarrow> P (snd (cb s l)) \<and> (\<forall>m. fst (cb s l) \<noteq> Panic m)" "P s"
  shows "P (snd (readFromConnection rd cb s)) \<and> (\<forall>m. fst (readFromConnection rd cb s) \<noteq> Panic m)"
  using each_line_inv [of P cb, OF assms] assms(2)
  by (simp add: readFromConnection_def Let_def split: option.split)

lemma event_utf8_decoded: "UnmarshalEvent l = Inr ev \<Longrightarrow> event_utf8 ev"
  using UnmarshalEvent_typed [of l ev] unfolding event_utf8_def event_typed_def
  by (auto elim!: list.pred_mono_strong split: json.split)

text \<open>
  C16: the type of what a miner can say. Whatever bytes arrive on a connection, each line either is
  no event, or decodes into one whose texts are well-formed UTF-8, whose numbers are finite and whose
  objects have one value for each key, at any depth; in particular a parameter that becomes a label
  is one that the metrics library takes.
\<close>

theorem decoded_events_typed:
  "list_all (\<lambda>l. case UnmarshalEvent l of Inl err \<Rightarrow> True | Inr ev \<Rightarrow> event_typed ev \<and> event_utf8 ev) (scan_lines bytes)"
  using event_utf8_decoded UnmarshalEvent_typed by (auto simp: list_all_iff split: sum.split)

lemma bridge_read_idle:
  assumes "session_event_ok (Incoming decodes env solo rd cancelled)" "idle_ok w"
  shows "idle_ok (snd (bridge_read decodes env solo rd cancelled w)) \<and>
    (\<forall>m. fst (bridge_read decodes env solo rd cancelled w) \<noteq> Panic m)"
proof -
  define r where "r = readFromConnection rd (\<lambda>w line. bridge_line decodes env solo line w) w"
  have "idle_ok (snd r) \<and> (\<forall>m. fst r \<noteq> Panic m)"
    unfolding r_def
  proof (rule read_inv [of idle_ok, OF _ assms(2)])
    fix w :: "'a share_world_scheme" and l
    assume "idle_ok w"
    then show "idle_ok (snd (bridge_line decodes env solo l w)) \<and> (\<forall>m. fst (bridge_line decodes env solo l w) \<noteq> Panic m)"
      using bridge_event_idle [OF assms(1) event_utf8_decoded, of l] by (auto simp: bridge_line_def wret_def split: sum.split)
  qed
  then show ?thesis using idle_ok_Disconnect
    by (cases r; cases "fst r") (auto simp: bridge_read_def r_def [symmetric] wbind_def wret_def upd_ctx_def wmodify_def)
qed

text \<open>
  A message changes the context of its client, and beyond that what a submission changes; \<open>handles\<close>
  says which nodes the submissions go to.
\<close>

locale message_frame = step_frame R
  for R :: "'s share_world_scheme \<Rightarrow> 's share_world_scheme \<Rightarrow> bool" and handles :: "node_env \<Rightarrow> bool" +
  assumes submission: "handles env \<Longrightarrow> keeps R (HandleSubmit env event solo)"
    and any_ctx: "R w (w\<lparr>sw_ctx := c\<rparr>)"
begin

lemma kept_on_ctx: "keeps R (on_ctx h ev)"
  by (simp add: keeps_def on_ctx_def any_ctx split: prod.split)

lemma kept_upd_ctx: "keeps R (upd_ctx f)"
  by (simp add: keeps_def upd_ctx_def wmodify_def any_ctx)

lemma kept_authorize: "keeps R (authorize_handler decodes env ev)"
  unfolding authorize_handler_def
  by (intro keeps_wbind kept_on_ctx) (simp add: keeps_wbind stats keeps_wret split: option.split)

lemma kept_message:
  assumes "handles env"
  shows "keeps R (bridge_event decodes env solo ev)"
proof -
  have "keeps R (submit_handler env solo ev)"
    unfolding submit_handler_def by (intro keeps_wbind submission assms keeps_wret)
  then show ?thesis
    using kept_on_ctx kept_authorize by (auto simp: bridge_event_def bridge_handlers_def keeps_wret split: option.splits if_splits)
qed

lemma kept_line: "handles env \<Longrightarrow> keeps R (bridge_line decodes env solo l)"
  by (simp add: bridge_line_def kept_message keeps_wret split: sum.split)

lemma kept_lines:
  assumes "handles env"
  shows "R w (snd (each_line (\<lambda>w l. bridge_line decodes env solo l w) ls w))"
proof (induction ls arbitrary: w)
  case (Cons l ls)
  obtain r w' where cb: "bridge_line decodes env solo l w = (r, w')" by fastforce
  have "R w w'" using keepsD [OF kept_line [OF assms], of w decodes solo l] by (simp add: cb)
  then show ?case using frame_trans [OF _ Cons.IH, of w w'] by (cases r) (auto simp: cb split: option.split)
qed (simp add: frame_refl)

lemma kept_read:
  assumes "handles env"
  shows "keeps R (bridge_read decodes env solo rd cancelled)"
proof -
  have "keeps R (readFromConnection rd (\<lambda>w l. bridge_line decodes env solo l w))"
    using kept_lines [OF assms] by (simp add: keeps_def readFromConnection_def Let_def frame_refl split: option.split)
  then show ?thesis unfolding bridge_read_def
    by (intro keeps_wbind) (auto intro: kept_upd_ctx keeps_wret)
qed

end

text \<open>Messages do not reach the node connection.\<close>

interpretation quiet_messages: message_frame same_api "\<lambda>env. True"
  by unfold_locales (simp_all add: same_api_def quiet.kept_HandleSubmit)

lemma idle_ok_run_pending: "idle_ok w \<Longrightarrow> idle_ok (w\<lparr>sw_ctx := run_pending (sw_ctx w)\<rparr>)"
  using labels_ok_Summary [of "run_pending (sw_ctx w)" "sw_ctx w"]
  by (simp add: idle_ok_def run_pending_def Disconnect_def Summary_def)

lemma session_run_ok:
  assumes "session_event_ok e" "session_ok w"
  shows "session_ok (snd (session_run e w)) \<and> (\<forall>m. fst (session_run e w) \<noteq> Panic m)"
proof (cases e)
  case (Incoming decodes env solo rd cancelled)
  have "idle_ok (snd (bridge_read decodes env solo rd cancelled w)) \<and> (\<forall>m. fst (bridge_read decodes env solo rd cancelled w) \<noteq> Panic m)"
    using assms Incoming by (intro bridge_read_idle) (simp_all add: session_ok_def)
  moreover have "aw_api (snd (bridge_read decodes env solo rd cancelled w)) = aw_api w"
    using keepsD [OF quiet_messages.kept_read [OF TrueI], of w] by (simp add: same_api_def)
  ultimately show ?thesis using assms(2) Incoming by (simp add: session_ok_def)
next
  case (NewWork env)
  then show ?thesis using serve_client_ok assms by simp
qed (use assms(2) in \<open>simp_all add: session_ok_def upd_ctx_def wmodify_def idle_ok_Disconnect idle_ok_run_pending\<close>)

lemma session_keeps_ok:
  "list_all session_event_ok es \<Longrightarrow> session_ok w \<Longrightarrow>
   session_ok (snd (session es w)) \<and> (\<forall>m. fst (session es w) \<noteq> Panic m)"
proof (induction es arbitrary: w)
  case (Cons e es)
  have r: "session_ok (snd (session_run e w)) \<and> (\<forall>m. fst (session_run e w) \<noteq> Panic m)"
    using Cons.prems by (intro session_run_ok) simp_all
  show ?case
  proof (cases "fst (session_run e w)")
    case (Ret x)
    then have "session (e # es) w = session es (snd (session_run e w))" by (cases "session_run e w") (simp add: wbind_def)
    then show ?thesis using Cons.IH [of "snd (session_run e w)"] Cons.prems(1) r by simp
  next
    case Hang
    then show ?thesis using r by (cases "session_run e w") (simp add: wbind_def)
  qed (use r in simp)
qed (simp add: wret_def)

subsection \<open>Properties\<close>

text \<open>
  A connection never makes the bridge panic. From a fresh connection, after any sequence of
  messages of the miner (authorisation, subscription, submissions, unknown methods, in any order
  and with any content), of new work, and of disconnections, the handlers have not panicked, the
  labels of the metrics are valid, and the difficulty has a target as soon as there is a job. The
  assumptions are about the node's templates, the metrics library and the address decoder,
  and that the configured difficulty is positive.
\<close>

theorem connection_never_panics:
  assumes "State (sw_ctx w) = MiningStateGenerator now" "labels_ok (sw_ctx w)" "vardiff_ok (sw_sh w)" "cache_ok (aw_api w)"
    "list_all session_event_ok es"
  shows "session_ok (snd (session es w)) \<and> (\<forall>m. fst (session es w) \<noteq> Panic m)"
proof (rule session_keeps_ok [OF assms(5)])
  show "session_ok w" using assms by (simp add: session_ok_def idle_ok_def MiningStateGenerator_def)
qed

lemma serve_client_delivers:
  assumes "job_env_ok env" "session_ok w" "WalletAddr (sw_ctx w) \<noteq> []"
    "GetBlockTemplate (je_gbt env) (je_poll env) (je_vote env) w = (Ret (Inr (Some b, fee)), w1)"
  shows "ready (snd (serve_client env w)) \<and> (\<forall>m. fst (serve_client env w) \<noteq> Panic m) \<and>
    GetJob (State (sw_ctx (snd (serve_client env w)))) (wrap64 (jobCounter (State (sw_ctx w)) + 1)) = Some (Some b)"
proof -
  have run: "serve_client env w = send_work env b fee w1" using assms(3,4) by (simp add: serve_client_def wbind_Ret)
  have e: "gbt_env_ok (je_gbt env)" "cache_ok (aw_api w)" using assms(1,2) by (simp_all add: job_env_ok_def session_ok_def)
  from asks_ok_GetBlockTemplate [OF e(1)] e(2) obtain r w2 where
    "GetBlockTemplate (je_gbt env) (je_poll env) (je_vote env) w = (Ret r, w2)" "\<forall>t fee. r = Inr (t, fee) \<longrightarrow> template_ok t"
    "sw_ctx w2 = sw_ctx w" "sw_sh w2 = sw_sh w" by (rule asks_okD)
  then have g: "template_ok (Some b)" "sw_ctx w1 = sw_ctx w" "sw_sh w1 = sw_sh w" using assms(4) by auto
  have "idle_ok w1" using assms(2) idle_ok_parts [OF g(2,3)] by (simp add: session_ok_def)
  moreover have "accepts_ok (env_accepts (je_node env))" "diff_positive (je_minShareDiff env)"
    "length (SerializeBlockHeader (je_blake3 env) b) = 32" "first_tx_present b"
    using assms(1) g(1) by (simp_all add: job_env_ok_def SerializeBlockHeader_def template_ok_def)
  ultimately show ?thesis
    using send_work_ready [of env b w1 fee] send_work_job [of env b fee w1] unfolding run g(2) by blast
qed


text \<open>A miner authorises itself, gets work, submits, and goes.\<close>

definition sample_job_env :: job_env where
  "sample_job_env =
     \<lparr>je_node = sample_env, je_gbt = sample_gbt_env\<lparr>ge_GetBlockTemplate := (\<lambda>p x. Inr (Some sample_block))\<rparr>,
      je_blake3 = (\<lambda>k m. replicate 32 0), je_minShareDiff = Fin 4, je_soloMining = False, je_poll = 0, je_vote = 0\<rparr>"

definition sample_session :: "session_event list" where
  "sample_session =
     [Incoming sample_decodes sample_env False (read_of (wire (Event (authorize_event ''qz7.rig1'')))) False,
      NewWork sample_job_env, Incoming sample_decodes sample_env False (read_of (wire (Event sample_submission))) False,
      Incoming sample_decodes sample_env False (read_of ''{broken'') False, Broken, PendingClose]"

lemma sample_job_env_ok: "job_env_ok sample_job_env"
  by (simp add: job_env_ok_def sample_job_env_def sample_env_def sample_gbt_env_def accepts_ok_def gbt_env_ok_def
      template_ok_def first_tx_present_def sample_block_def diff_positive_def)

lemma plain_ctx_labels: "list_all (\<lambda>c. byte_of c < 128) wallet \<Longrightarrow> labels_ok (plain_ctx wallet)"
  by (simp add: labels_ok_def labels_utf8_def plain_ctx_def ascii_utf8 maxWorkerNameLen_def)

lemma sample_handler_ok: "vardiff_ok (newShareHandler a b d)"
  by (simp add: vardiff_ok_def newShareHandler_def)

lemma sample_session_ok: "list_all session_event_ok sample_session"
proof -
  have "accepts_ok (env_accepts sample_env)" "valid_utf8 (HashString (env_lib sample_env) h)" for h
    by (simp_all add: accepts_ok_def sample_env_def zero_lib_def sample_lib_def)
  then show ?thesis by (simp add: sample_session_def sample_job_env_ok sample_decodes_utf8)
qed

theorem connection_never_panics_witness:
  "session_ok (snd (session sample_session sample_api_world)) \<and> (\<forall>m. fst (session sample_session sample_api_world) \<noteq> Panic m)"
proof (rule connection_never_panics)
  show "list_all session_event_ok sample_session" by (rule sample_session_ok)
  show "State (sw_ctx sample_api_world) = MiningStateGenerator 0" by (simp add: sample_api_world_def plain_ctx_def)
  show "labels_ok (sw_ctx sample_api_world)" by (simp add: sample_api_world_def plain_ctx_labels)
  show "vardiff_ok (sw_sh sample_api_world)" by (simp add: sample_api_world_def sample_handler_ok)
  show "cache_ok (aw_api sample_api_world)" by (simp add: sample_api_world_def sample_api_def cache_ok_def)
qed

lemma sample_template:
  "fst (GetBlockTemplate (je_gbt sample_job_env) 0 0 sample_api_world) = Ret (Inr (Some sample_block, False))"
  by (simp add: GetBlockTemplate_def select_payout_def cached_template_def node_template_def cache_lookup_def wbind_assoc
      upd_api_def wbind_def wmodify_def wret_def sample_gbt_env_def sample_job_env_def sample_api_world_def sample_api_def Let_def)


end
