(* ===== verification/Bridge_Laws.thy ===== *)
theory Bridge_Laws
  imports Bridge_Server
begin

text \<open>
  The bridge with all its clients: connections are accepted and go, every client gets its events
  (messages, its own new work, disconnections), and new blocks are announced to everyone, in any
  order. The clients share the statistics, the node connection with its cache, and the registry.
  The theory shows that this composition never panics and that an announcement reaches every
  client; the laws of a single connection carry over because a client's events leave the contexts
  of the others alone.
\<close>

subsection \<open>Steps that come back\<close>

lemma out_bind_not_Hang: "m \<noteq> Hang \<Longrightarrow> (\<And>x. f x \<noteq> Hang) \<Longrightarrow> out_bind m f \<noteq> Hang"
  by (cases m) simp_all

lemma difficulty_not_Hang: "setDiffValue k d \<noteq> Hang" "TargetToDiff t \<noteq> Hang"
proof -
  have f: "NewFloat d \<noteq> Hang" for d by (cases d) simp_all
  have q: "bf_quo p a b \<noteq> Hang" "bf_mul p a b \<noteq> Hang" for p a b
    by (cases a; cases b; simp add: bf_quo_def bf_mul_def Let_def del: bf_rat.simps)+
  show "setDiffValue k d \<noteq> Hang" "TargetToDiff t \<noteq> Hang"
    unfolding setDiffValue_def DiffToTarget_def DiffToHash_def TargetToDiff_def Let_def
    by (intro out_bind_not_Hang f q outcome.distinct)+
qed

lemma job_params_not_Hang: "job_params hdr b jobId big \<noteq> Hang"
  unfolding job_params_def GenerateLargeJobParams_def GenerateJobHeader_def
  by (auto intro!: out_bind_not_Hang split: option.split)

lemma halts_prom: "halts (prom_all accepts cs)"
  by (simp add: halts_def prom_all_not_hang)

lemma halts_records [halting]:
  "halts (RecordWorkerError accepts a code)" "halts (RecordNewJob accepts c)" "halts (InitWorkerCounters accepts c)"
  "halts (RecordDivertedGBT accepts)" "halts (RecordDisconnect accepts c)" "halts (RecordBalances accepts bs)"
  unfolding RecordWorkerError_def RecordNewJob_def InitWorkerCounters_def RecordDivertedGBT_def RecordDisconnect_def
    RecordBalances_def
  by (rule halts_prom)+

lemma halts_updates [halting]:
  "halts (upd_sh f)" "halts (upd_ctx g)" "halts (upd_stats key h)" "halts (upd_state k)" "halts (upd_api a)" "halts (upd_listener l)"
  by (simp_all add: upd_sh_def upd_ctx_def upd_stats_def upd_state_def upd_api_def upd_listener_def halts_basic)

lemma halts_reads [halting]:
  "halts (send_event ev)" "halts current_diff" "halts read_diff" "halts has_diff" "halts (stats_field q key)"
  "halts (add_job t fee)"
  by (simp_all add: halts_def send_event_def current_diff_def read_diff_def has_diff_def stats_field_def add_job_def
      wret_def wpanic_def split: option.split prod.split)

lemma halts_record_ctx [halting]: "(\<And>c. halts (f c)) \<Longrightarrow> halts (record_ctx f)"
  by (simp add: halts_def record_ctx_def)

lemma halts_worker_error [halting]: "halts (worker_error env code)"
  by (simp add: halts_def worker_error_def haltsD [OF halts_records(1)])

lemma halts_if [halting]: "halts m \<Longrightarrow> halts n \<Longrightarrow> halts (if b then m else n)"
  by simp

lemma halts_new_stats:
  "halts (wbind (upd_sh f) (\<lambda>_. wbind (record_ctx (InitWorkerCounters (env_accepts env))) (\<lambda>_. wret key)))"
  by (intro halting)

lemma halts_stats [halting]: "halts (getCreateStats env)"
  by (rule haltsI) (simp add: getCreateStats_def Let_def haltsD [OF halts_new_stats] wret_def split: option.split)

lemma halts_vardiff [halting]:
  "halts (startClientVardiff env)" "halts (getClientVardiff env)" "halts (setClientVardiff env d)"
  unfolding startClientVardiff_def getClientVardiff_def setClientVardiff_def by (intro halting)+

lemma halts_set_difficulty [halting]: "halts (set_difficulty d)" "halts (fresh_difficulty d)"
proof -
  show s: "halts (set_difficulty d)" for d
    by (simp add: halts_def set_difficulty_def wpanic_def difficulty_not_Hang haltsD [OF halts_updates(4)] split: outcome.split)
  show "halts (fresh_difficulty d)" unfolding fresh_difficulty_def by (intro halting s)
qed

lemma halts_sendClientDiff [halting]: "halts (sendClientDiff env)"
  unfolding sendClientDiff_def by (intro halting) (auto intro!: halting split: option.split)

lemma halts_lift_out: "x \<noteq> Hang \<Longrightarrow> halts (lift_out x)"
  by (simp add: halts_def lift_out_def)

lemma halts_solo_or_not: "halts (if b then wret x else getClientVardiff env)"
  by (intro halting)

lemma halts_init_tail:
  "halts (wbind (upd_ctx g) (\<lambda>_. wbind (fresh_difficulty d) (\<lambda>_.
     wbind (if b then wret () else sendClientDiff env) (\<lambda>_. wbind (setClientVardiff nenv d) (\<lambda>_. wret ())))))"
  by (intro halting)

lemma halts_init [halting]: "halts (init_client env)"
  by (rule haltsI) (simp add: init_client_def wret_def haltsD [OF halts_init_tail])

lemma halts_wanted [halting]: "halts (wanted_diff env)"
proof (rule haltsI)
  fix w :: "'a share_world_scheme"
  have "halts (wbind (lift_out (TargetToDiff t)) (\<lambda>v. wbind (upd_sh (setSoloDiff v)) (\<lambda>_.
      if je_soloMining env then wret v else getClientVardiff (je_node env))) :: ('a share_world_scheme, f64) handler)" for t
    by (intro halting halts_lift_out difficulty_not_Hang)
  then show "fst (wanted_diff env w) \<noteq> Hang" unfolding wanted_diff_def by (rule haltsD)
qed

lemma halts_adjust [halting]: "halts (adjust_diff env v)"
  unfolding adjust_diff_def settle_diff_def by (intro halting) (auto intro!: halting split: prod.split)

lemma halts_notify [halting]: "halts (notify env hdr b jobId)"
proof (rule haltsI)
  fix w :: "'a share_world_scheme"
  have "halts (wbind (lift_out (job_params hdr b jobId big)) (\<lambda>params.
     wbind (send_event \<lparr>ev_Id = JInt jobId, ev_Version = ''2.0'', ev_Method = ''mining.notify'', ev_Params = params\<rparr>) (\<lambda>err.
       case err of
         Some e \<Rightarrow>
           if error_is e ErrorDisconnected then worker_error env ErrDisconnected
           else wbind (worker_error env ErrFailedSendWork) (\<lambda>_. record_ctx (RecordNewJob (env_accepts (je_node env))))
       | None \<Rightarrow> record_ctx (RecordNewJob (env_accepts (je_node env))))) :: ('a share_world_scheme, unit) handler)" for big
    by (intro halting halts_lift_out job_params_not_Hang) (auto intro!: halting split: option.split)
  then show "fst (notify env hdr b jobId w) \<noteq> Hang" unfolding notify_def by (rule haltsD)
qed

lemma halts_send_work [halting]: "halts (send_work env b fee)"
  unfolding send_work_def by (intro halting)

lemma halts_refusals [halting]: "halts (no_wallet env)" "halts (no_template env err)"
proof -
  have boot: "halts (wbind (worker_error env code) (\<lambda>_. upd_ctx Disconnect))" for code :: error_short_code and env
    by (intro halting)
  show "halts (no_wallet env)" by (rule haltsI) (simp add: no_wallet_def wret_def haltsD [OF boot])
  show "halts (no_template env err)" unfolding no_template_def by (intro halting)
qed

lemma halts_select [halting]: "halts (select_payout env)"
proof (rule haltsI)
  fix w :: "'a api_world_scheme"
  show "fst (select_payout env w) \<noteq> Hang"
    by (auto simp: select_payout_def Let_def wret_def upd_api_def wbind_def wmodify_def prom_all_not_hang RecordDivertedGBT_def
        split: sum.split list.split prod.split outcome.split bool.split dest: arg_cong [of _ _ fst] simp del: prom_all.simps)
qed

lemma halts_template [halting]:
  "halts (node_template env p x)" "halts (fresh_template env p x fee)"
proof -
  show n: "halts (node_template env p x)" for p x unfolding node_template_def by (intro halting)
  show "halts (fresh_template env p x fee)"
    unfolding fresh_template_def by (intro halting n) (auto intro!: halting split: sum.split)
qed

lemma halts_cached_miss:
  "halts (wbind (upd_api f) (\<lambda>_. wbind (node_template env p x) (\<lambda>r.
     case r of Inl e \<Rightarrow> wret (g e) | Inr template \<Rightarrow> wbind (upd_api (h template)) (\<lambda>_. wret (k template)))))"
  by (intro halting) (auto intro!: halting split: sum.split)

lemma halts_cached_hit: "halts (wbind (upd_api f) (\<lambda>_. wret x))"
  by (intro halting)

lemma halts_cached [halting]: "halts (cached_template env p x)"
  by (rule haltsI)
    (simp add: cached_template_def haltsD [OF halts_cached_miss] haltsD [OF halts_cached_hit] split: option.split)

lemma halts_GetBlockTemplate [halting]: "halts (GetBlockTemplate env poll vote)"
  unfolding GetBlockTemplate_def
proof (intro halting)
  fix u and x :: "string \<times> bool"
  show "halts (case x of (p, fee) \<Rightarrow> \<lambda>w :: 'a api_world_scheme.
       let ttl = api_gbtCacheTTL (aw_api w); extraData = extra_data ttl p (WorkerName (sw_ctx w)) poll vote
       in if 0 < ttl \<and> poll = 0 \<and> vote = 0 then cached_template env p extraData w
          else fresh_template env p extraData fee w)"
    by (cases x) (simp add: halts_def Let_def haltsD [OF halts_cached] haltsD [OF halts_template(2)])
qed

lemma halts_serve_client [halting]: "halts (serve_client env)"
proof (rule haltsI)
  fix w :: "'a api_world_scheme"
  have "halts (wbind (GetBlockTemplate (je_gbt env) (je_poll env) (je_vote env)) (\<lambda>r.
        case r of
          Inl err \<Rightarrow> no_template env err
        | Inr (None, isFeeJob) \<Rightarrow> wpanic ''nil pointer dereference''
        | Inr (Some b, isFeeJob) \<Rightarrow> send_work env b isFeeJob) :: ('a api_world_scheme, unit) handler)"
    by (intro halting) (auto intro!: halting split: sum.split option.split)
  then show "fst (serve_client env w) \<noteq> Hang"
    by (simp add: serve_client_def haltsD haltsD [OF halts_refusals(1)])
qed

subsection \<open>The other clients\<close>

text \<open>What the node of a submission is assumed to satisfy, where an event is one.\<close>

fun event_on :: "(node_env \<Rightarrow> bool) \<Rightarrow> session_event \<Rightarrow> bool" where
  "event_on P (Incoming decodes env solo rd cancelled) = P env"
| "event_on P _ = True"

text \<open>
  What a client's events change: its own context, the shared statistics, the node connection and
  the log. A relation that allows these changes holds across every event of a client.
\<close>

locale bystander_frame = message_frame R handles + serve_frame R
  for R :: "'s api_world_scheme \<Rightarrow> 's api_world_scheme \<Rightarrow> bool" and handles :: "node_env \<Rightarrow> bool" +
  assumes any_api: "R w (w\<lparr>aw_api := a\<rparr>)"
begin

lemma kept_upd_api: "keeps R (upd_api f)"
  by (simp add: keeps_def upd_api_def wmodify_def any_api)

lemma kept_upd_state: "keeps R (upd_state f)"
  by (simp add: upd_state_def kept_upd_ctx)

lemma kept_diverted: "keeps R (wbind (upd_api f) (\<lambda>_. wbind (RecordDivertedGBT accepts) (\<lambda>_. wret x)))"
  unfolding RecordDivertedGBT_def by (intro keeps_wbind kept_upd_api prom keeps_wret)

lemma kept_select: "keeps R (select_payout env)"
proof (rule keepsI)
  fix w
  have "R w (snd (wret x (w\<lparr>aw_api := a\<rparr>)))" for x :: "string \<times> bool" and a by (simp add: wret_def any_api)
  moreover have "R w (snd (wbind (upd_api f) (\<lambda>_. wbind (RecordDivertedGBT accepts) (\<lambda>_. wret x)) (w\<lparr>aw_api := a\<rparr>)))"
    for x :: "string \<times> bool" and a f accepts
    by (rule frame_trans [OF any_api keepsD [OF kept_diverted]])
  ultimately show "R w (snd (select_payout env w))"
    by (simp add: select_payout_def Let_def upd_api_def [of "\<lambda>a. a\<lparr>api_jobCounter := api_jobCounter a + 1\<rparr>"] wret_def frame_refl
        split: sum.split list.split prod.split bool.split)
qed

lemma kept_node_template: "keeps R (node_template env p x)"
  unfolding node_template_def by (intro keeps_wbind kept_upd_api keeps_wret)

lemma kept_cached_miss:
  "keeps R (wbind (upd_api f) (\<lambda>_. wbind (node_template env p x) (\<lambda>r.
     case r of Inl e \<Rightarrow> wret (g e) | Inr template \<Rightarrow> wbind (upd_api (h template)) (\<lambda>_. wret (k template)))))"
  by (intro keeps_wbind kept_upd_api kept_node_template)
    (auto intro!: keeps_wbind kept_upd_api keeps_wret split: sum.split)

lemma kept_cached_hit: "keeps R (wbind (upd_api f) (\<lambda>_. wret x))"
  by (intro keeps_wbind kept_upd_api keeps_wret)

lemma kept_cached: "keeps R (cached_template env p x)"
  by (rule keepsI)
    (simp add: cached_template_def keepsD [OF kept_cached_miss] keepsD [OF kept_cached_hit] split: option.split)

lemma kept_fresh: "keeps R (fresh_template env p x fee)"
  unfolding fresh_template_def
  by (intro keeps_wbind kept_node_template) (auto intro!: keeps_wret split: sum.split)

lemma kept_template: "keeps R (GetBlockTemplate env poll vote)"
  unfolding GetBlockTemplate_def
proof (intro keeps_wbind kept_upd_api kept_select)
  fix x :: "string \<times> bool"
  show "keeps R (case x of (p, fee) \<Rightarrow> \<lambda>w.
       let ttl = api_gbtCacheTTL (aw_api w); extraData = extra_data ttl p (WorkerName (sw_ctx w)) poll vote
       in if 0 < ttl \<and> poll = 0 \<and> vote = 0 then cached_template env p extraData w
          else fresh_template env p extraData fee w)"
    by (cases x) (simp add: keeps_def Let_def keepsD [OF kept_cached] keepsD [OF kept_fresh])
qed

lemma kept_boot: "keeps R (wbind (worker_error env code) (\<lambda>_. upd_ctx Disconnect))"
  by (intro keeps_wbind kept_worker_error kept_upd_ctx)

lemma kept_add_job: "keeps R (add_job t fee)"
  by (simp add: keeps_def add_job_def any_ctx split: prod.split)

lemma kept_send_work: "keeps R (send_work env b fee)"
  unfolding send_work_def
  by (intro keeps_wbind kept_upd_state kept_add_job kept_init kept_wanted kept_adjust kept_notify)

lemma kept_serve_tail:
  "keeps R (wbind (GetBlockTemplate (je_gbt env) (je_poll env) (je_vote env)) (\<lambda>r.
        case r of
          Inl err \<Rightarrow> no_template env err
        | Inr (None, isFeeJob) \<Rightarrow> wpanic ''nil pointer dereference''
        | Inr (Some b, isFeeJob) \<Rightarrow> send_work env b isFeeJob))"
  by (intro keeps_wbind kept_template)
    (auto simp: no_template_def intro!: kept_boot kept_worker_error keeps_wpanic kept_send_work split: sum.split option.split)

lemma kept_serve: "keeps R (serve_client env)"
  by (rule keepsI)
    (simp add: serve_client_def no_wallet_def wret_def frame_refl keepsD [OF kept_serve_tail] keepsD [OF kept_boot])

lemma kept_event: "event_on handles e \<Longrightarrow> keeps R (session_run e)"
  by (cases e) (simp_all add: kept_read kept_serve kept_upd_ctx)

end

definition same_registry :: "'s client_world_scheme \<Rightarrow> 's client_world_scheme \<Rightarrow> bool" where
  "same_registry w w' \<longleftrightarrow> cw_listener w' = cw_listener w"

interpretation registry_submits: submit_frame same_registry
  by unfold_locales (simp_all add: same_registry_def)

interpretation others: bystander_frame same_registry "\<lambda>env. True"
  by unfold_locales (simp_all add: same_registry_def registry_submits.kept_HandleSubmit)

lemma event_on_True [simp]: "event_on (\<lambda>env. True) e"
  by (cases e) simp_all

subsection \<open>All clients together\<close>

text \<open>Something happens on the connection of client \<open>i\<close>, whose context is in the registry.\<close>

definition on_client :: "('s client_world_scheme, unit) handler \<Rightarrow> int \<Rightarrow> ('s client_world_scheme, unit) handler" where
  "on_client m i w =
     (case cl_clients (cw_listener w) i of
        None \<Rightarrow> wret () w
      | Some ctx \<Rightarrow>
          wbind m (\<lambda>_ w1.
            (Ret (), w1\<lparr>cw_listener := (cw_listener w1)\<lparr>cl_clients := (cl_clients (cw_listener w1))(i \<mapsto> sw_ctx w1)\<rparr>\<rparr>))
            (w\<lparr>sw_ctx := ctx\<rparr>))"

lemma run_client_on: "run_client env i = on_client (serve_client (env i)) i"
  by (simp add: fun_eq_iff run_client_def on_client_def)

datatype bridge_op =
    Accept string "nat \<Rightarrow> attempt" int \<comment> \<open>a connection from an address, at a time\<close>
  | Happens int session_event
  | NewBlock "int \<Rightarrow> job_env" "prom_call \<Rightarrow> bool" int "string list \<Rightarrow> go_error + (string \<times> 64 word) list" "int list"
  | Gone "prom_call \<Rightarrow> bool" int \<comment> \<open>a client arrives on the disconnect channel\<close>

definition on_connect :: "client_listener \<Rightarrow> stratum_context \<Rightarrow> client_listener \<times> stratum_context" where
  "on_connect l ctx = prod.swap (OnConnect ctx l)"

fun bridge_step :: "bridge_op \<Rightarrow> ('s client_world_scheme, unit) handler" where
  "bridge_step (Accept remote connection now) =
     upd_listener (\<lambda>l. fst (newClient on_connect remote connection (MiningStateGenerator now) l))"
| "bridge_step (Happens i e) = on_client (session_run e) i"
| "bridge_step (NewBlock env accepts now balances order) = NewBlockAvailable env accepts now balances order"
| "bridge_step (Gone accepts i) = (\<lambda>w. case cl_clients (cw_listener w) i of
     None \<Rightarrow> wret () w | Some ctx \<Rightarrow> OnDisconnect accepts ctx w)"

fun bridge_run :: "bridge_op list \<Rightarrow> ('s client_world_scheme, unit) handler" where
  "bridge_run [] = wret ()"
| "bridge_run (op # ops) = wbind (bridge_step op) (\<lambda>_. bridge_run ops)"

text \<open>
  The assumptions on the events: addresses of a TCP peer are ASCII, and what the node and the metrics
  library do is as for a single connection.
\<close>

fun bridge_op_ok :: "bridge_op \<Rightarrow> bool" where
  "bridge_op_ok (Accept remote connection now) \<longleftrightarrow> list_all (\<lambda>c. byte_of c < 128) remote"
| "bridge_op_ok (Happens i e) \<longleftrightarrow> session_event_ok e"
| "bridge_op_ok (NewBlock env accepts now balances order) \<longleftrightarrow>
     (\<forall>i. job_env_ok (env i)) \<and> accepts_ok accepts \<and>
     (\<forall>as bs. balances as = Inr bs \<longrightarrow> list_all (\<lambda>(a, b). valid_utf8 a) bs)"
| "bridge_op_ok (Gone accepts i) \<longleftrightarrow> accepts_ok accepts"

definition client_ok :: "stratum_context \<Rightarrow> bool" where
  "client_ok ctx \<longleftrightarrow> labels_ok ctx \<and>
     (ready_state (State ctx) \<or> \<not> initialized (State ctx) \<and> Jobs (State ctx) = Map.empty)"

definition registry_ok :: "'s client_world_scheme \<Rightarrow> bool" where
  "registry_ok w \<longleftrightarrow> vardiff_ok (sw_sh w) \<and> cache_ok (aw_api w) \<and>
     (\<forall>i ctx. cl_clients (cw_listener w) i = Some ctx \<longrightarrow> client_ok ctx)"

lemma session_ok_parts: "session_ok w \<longleftrightarrow> client_ok (sw_ctx w) \<and> vardiff_ok (sw_sh w) \<and> cache_ok (aw_api w)"
  by (auto simp: session_ok_def idle_ok_def client_ok_def)

lemma registry_session: "registry_ok w \<Longrightarrow> cl_clients (cw_listener w) i = Some ctx \<Longrightarrow> session_ok (w\<lparr>sw_ctx := ctx\<rparr>)"
  by (simp add: registry_ok_def session_ok_parts)

subsection \<open>One event\<close>

lemma on_client_ok:
  assumes "registry_ok w" "keeps same_registry m"
    "\<And>ctx. cl_clients (cw_listener w) i = Some ctx \<Longrightarrow>
       session_ok (snd (m (w\<lparr>sw_ctx := ctx\<rparr>))) \<and> (\<forall>e. fst (m (w\<lparr>sw_ctx := ctx\<rparr>)) \<noteq> Panic e)"
  shows "registry_ok (snd (on_client m i w)) \<and> (\<forall>e. fst (on_client m i w) \<noteq> Panic e)"
proof (cases "cl_clients (cw_listener w) i")
  case (Some ctx)
  obtain r w1 where m: "m (w\<lparr>sw_ctx := ctx\<rparr>) = (r, w1)" by fastforce
  have l: "cw_listener w1 = cw_listener w" using keepsD [OF assms(2), of "w\<lparr>sw_ctx := ctx\<rparr>"] m by (simp add: same_registry_def)
  have "session_ok w1" "\<And>e. r \<noteq> Panic e" using assms(3) [OF Some] m by simp_all
  then show ?thesis using Some m l assms(1)
    by (cases r) (auto simp: on_client_def wbind_def registry_ok_def session_ok_parts)
qed (use assms(1) in \<open>simp add: on_client_def wret_def\<close>)

lemma on_client_others:
  assumes "keeps same_registry m" "j \<noteq> i"
  shows "cl_clients (cw_listener (snd (on_client m i w))) j = cl_clients (cw_listener w) j"
proof (cases "cl_clients (cw_listener w) i")
  case (Some ctx)
  then show ?thesis using keepsD [OF assms(1), of "w\<lparr>sw_ctx := ctx\<rparr>"] assms(2)
    by (cases "m (w\<lparr>sw_ctx := ctx\<rparr>)"; cases "fst (m (w\<lparr>sw_ctx := ctx\<rparr>))")
      (simp_all add: on_client_def wbind_def same_registry_def)
qed (simp add: on_client_def wret_def)

lemma run_client_ok:
  assumes "registry_ok w" "job_env_ok (env i)"
  shows "\<exists>w'. run_client env i w = (Ret (), w') \<and> registry_ok w'"
proof -
  have "registry_ok (snd (run_client env i w)) \<and> (\<forall>e. fst (run_client env i w) \<noteq> Panic e)"
    unfolding run_client_on
    by (rule on_client_ok [OF assms(1) others.kept_serve]) (simp add: serve_client_ok [OF assms(2)] registry_session [OF assms(1)])
  moreover have "fst (run_client env i w) \<noteq> Hang"
    by (auto simp: run_client_def wbind_def wret_def split: option.split prod.split outcome.split)
      (metis fst_conv haltsD halts_serve_client)
  ultimately show ?thesis by (metis (full_types) outcome.exhaust prod.collapse old.unit.exhaust)
qed

lemma run_clients_ok:
  assumes "registry_ok w" "\<And>i. job_env_ok (env i)"
  shows "\<exists>w'. run_clients env ids w = (Ret (), w') \<and> registry_ok w' \<and>
    (\<forall>j. j \<notin> set ids \<longrightarrow> cl_clients (cw_listener w') j = cl_clients (cw_listener w) j)"
  using assms(1)
proof (induction ids arbitrary: w)
  case (Cons i ids)
  from run_client_ok [OF Cons.prems, of env i] assms(2)
  obtain w1 where w1: "run_client env i w = (Ret (), w1)" "registry_ok w1" by blast
  then have "cl_clients (cw_listener w1) j = cl_clients (cw_listener w) j" if "j \<noteq> i" for j
    using on_client_others [OF others.kept_serve that, of "env i" w] by (simp add: run_client_on)
  moreover from Cons.IH [OF w1(2)] obtain w' where "run_clients env ids w1 = (Ret (), w')" "registry_ok w'"
    "\<forall>j. j \<notin> set ids \<longrightarrow> cl_clients (cw_listener w') j = cl_clients (cw_listener w1) j" by blast
  ultimately show ?case using w1(1) by (simp add: wbind_Ret)
qed (simp add: wret_def)

lemma balances_recorded:
  assumes "accepts_ok accepts" "list_all (\<lambda>(a, b). valid_utf8 a) bs"
  shows "\<exists>l. RecordBalances accepts bs w = (Ret (), w\<lparr>prom_log := l\<rparr>)"
proof -
  have "\<forall>c \<in> set (balance_calls bs seen). call_ok c" for seen
    using assms(2) by (induction bs seen rule: balance_calls.induct) (auto simp: call_ok_def)
  then show ?thesis unfolding RecordBalances_def using prom_all_ok [OF assms(1)] by blast
qed

lemma check_balances_ok:
  assumes "accepts_ok accepts" "\<And>as bs. balances as = Inr bs \<Longrightarrow> list_all (\<lambda>(a, b). valid_utf8 a) bs"
  shows "\<exists>w'. check_balances accepts now balances addresses w = (Ret (), w') \<and> sw_sh w' = sw_sh w \<and> aw_api w' = aw_api w \<and>
    cl_clients (cw_listener w') = cl_clients (cw_listener w)"
proof (cases "balanceDelay < now - cl_lastBalanceCheck (cw_listener w) \<and> addresses \<noteq> []")
  case True
  show ?thesis
  proof (cases "balances addresses")
    case (Inr bs)
    from balances_recorded [OF assms(1) assms(2) [OF Inr]] show ?thesis using True Inr
      by (fastforce simp: check_balances_def upd_listener_def)
  qed (use True in \<open>simp add: check_balances_def upd_listener_def wret_def\<close>)
qed (simp add: check_balances_def upd_listener_def wret_def)

lemma NewBlockAvailable_split:
  assumes "registry_ok w" "bridge_op_ok (NewBlock env accepts now balances order)"
  obtains w1 w' where "run_clients env (map fst (connected_clients order (cw_listener w))) w = (Ret (), w1)" "registry_ok w1"
    "NewBlockAvailable env accepts now balances order w = (Ret (), w')" "registry_ok w'"
    "cl_clients (cw_listener w') = cl_clients (cw_listener w1)"
proof -
  have e: "\<And>i. job_env_ok (env i)" "accepts_ok accepts" "\<And>as bs. balances as = Inr bs \<Longrightarrow> list_all (\<lambda>(a, b). valid_utf8 a) bs"
    using assms(2) by simp_all
  define served where "served = connected_clients order (cw_listener w)"
  define addresses where "addresses = filter (\<lambda>a. a \<noteq> []) (map (\<lambda>(i, ctx). WalletAddr ctx) served)"
  from run_clients_ok [where env = env, OF assms(1) e(1)] obtain w1 where w1: "run_clients env (map fst served) w = (Ret (), w1)" "registry_ok w1"
    by blast
  have "\<exists>w'. check_balances accepts now balances addresses w1 = (Ret (), w') \<and> sw_sh w' = sw_sh w1 \<and> aw_api w' = aw_api w1 \<and>
    cl_clients (cw_listener w') = cl_clients (cw_listener w1)"
    by (rule check_balances_ok [OF e(2)]) (rule e(3))
  then obtain w' where c: "check_balances accepts now balances addresses w1 = (Ret (), w')"
    "sw_sh w' = sw_sh w1" "aw_api w' = aw_api w1" "cl_clients (cw_listener w') = cl_clients (cw_listener w1)" by blast
  have "NewBlockAvailable env accepts now balances order w = (Ret (), w')"
    using w1(1) c(1) by (simp add: NewBlockAvailable_def Let_def served_def addresses_def wbind_Ret)
  moreover have "registry_ok w'" using w1(2) c(2-4) by (simp add: registry_ok_def)
  ultimately show ?thesis using that w1 c(4) by (simp add: served_def)
qed

lemma ascii_address: "list_all (\<lambda>c. byte_of c < 128) s \<Longrightarrow> valid_utf8 (hd (split_char x s))"
proof -
  have "set (hd (split_char x s)) \<subseteq> set s" by (induction s) (auto split: list.splits)
  then show "list_all (\<lambda>c. byte_of c < 128) s \<Longrightarrow> ?thesis" by (intro ascii_utf8) (auto simp: list_all_iff)
qed

lemma accepted_ok:
  fixes remote :: string and x :: char and connection :: "nat \<Rightarrow> attempt" and now :: int and l :: client_listener
  assumes "list_all (\<lambda>c. byte_of c < 128) remote"
  shows "client_ok ((fst (OnConnect ((open_context connection)\<lparr>RemoteAddr := hd (split_char x remote),
    State := MiningStateGenerator now\<rparr>) l)))"
  using ascii_address [OF assms, of x]
  by (auto simp: OnConnect_def Let_def client_ok_def labels_ok_def labels_utf8_def open_context_def MiningStateGenerator_def
      ascii_utf8 split: prod.split)

lemma OnConnect_clients:
  "cl_clients (snd (OnConnect ctx l)) = (cl_clients l)(wrap32 (cl_clientCounter l + 1) \<mapsto> fst (OnConnect ctx l))"
  by (simp add: OnConnect_def take_extranonce_def Let_def)

lemma removeStats_vardiff: "vardiff_ok sh \<Longrightarrow> vardiff_ok (removeStats ctx sh)"
  by (auto simp: removeStats_def vardiff_ok_def Let_def split: if_splits)

lemma OnDisconnect_ok:
  assumes "registry_ok w" "accepts_ok accepts" "client_ok ctx"
  shows "registry_ok (snd (OnDisconnect accepts ctx w)) \<and> fst (OnDisconnect accepts ctx w) = Ret ()"
proof -
  have "valid_utf8 (WorkerName ctx)" "valid_utf8 (RemoteApp ctx)" "valid_utf8 (WalletAddr ctx)" "valid_utf8 (RemoteAddr ctx)"
    using assms(3) by (simp_all add: client_ok_def labels_ok_def labels_utf8_def)
  then have "RecordDisconnect accepts ctx v =
    (Ret (), v\<lparr>prom_log := prom_log v @ [PInc ''htn_worker_disconnect_counter'' (commonLabels ctx)]\<rparr>)"
    for v :: "'a client_world_scheme"
    unfolding RecordDisconnect_def by (intro prom_all_ok [OF assms(2)]) (simp add: call_ok_def commonLabels_def)
  then show ?thesis using assms(1) removeStats_vardiff
    by (simp add: OnDisconnect_def upd_listener_def upd_sh_def registry_ok_def)
qed

lemma bridge_step_ok:
  assumes "bridge_op_ok op" "registry_ok w"
  shows "registry_ok (snd (bridge_step op w)) \<and> (\<forall>e. fst (bridge_step op w) \<noteq> Panic e)"
proof (cases op)
  case (Accept remote connection now)
  then show ?thesis using assms accepted_ok [of remote now "CHR '':''" connection "cw_listener w"]
    by (auto simp: upd_listener_def wmodify_def newClient_def Let_def on_connect_def OnConnect_clients registry_ok_def)
next
  case (Happens i e)
  show ?thesis unfolding Happens bridge_step.simps
    by (rule on_client_ok [OF assms(2) others.kept_event [OF event_on_True]], rule session_run_ok)
      (use assms Happens registry_session in auto)
next
  case (NewBlock env accepts now balances order)
  then show ?thesis using NewBlockAvailable_split [OF assms(2)] assms(1)
    by (metis bridge_step.simps(3) fst_conv snd_conv outcome.distinct(1))
next
  case (Gone accepts i)
  then show ?thesis using assms OnDisconnect_ok [OF assms(2), of accepts]
    by (auto simp: wret_def registry_ok_def split: option.split)
qed

lemma bridge_run_ok:
  "list_all bridge_op_ok ops \<Longrightarrow> registry_ok w \<Longrightarrow>
   registry_ok (snd (bridge_run ops w)) \<and> (\<forall>e. fst (bridge_run ops w) \<noteq> Panic e)"
proof (induction ops arbitrary: w)
  case (Cons op ops)
  have s: "registry_ok (snd (bridge_step op w)) \<and> (\<forall>e. fst (bridge_step op w) \<noteq> Panic e)"
    using Cons.prems by (intro bridge_step_ok) simp_all
  show ?case
  proof (cases "fst (bridge_step op w)")
    case (Ret x)
    then have "bridge_run (op # ops) w = bridge_run ops (snd (bridge_step op w))"
      by (cases "bridge_step op w") (simp add: wbind_def)
    then show ?thesis using Cons.IH [of "snd (bridge_step op w)"] Cons.prems(1) s by simp
  next
    case Hang
    then show ?thesis using s by (cases "bridge_step op w") (simp add: wbind_def)
  qed (use s in simp)
qed (simp add: wret_def)

subsection \<open>An announcement reaches every client\<close>

definition node_answers :: "gbt_env \<Rightarrow> bool" where
  "node_answers env \<longleftrightarrow> (\<forall>p x. \<exists>t. ge_GetBlockTemplate env p x = Inr t)"

lemma cached_answers:
  assumes "node_answers env" "cached_template env p x w = (Ret r, w')"
  shows "\<exists>t fee. r = Inr (t, fee)"
proof -
  obtain t where "ge_GetBlockTemplate env p x = Inr t" using assms(1) by (auto simp: node_answers_def)
  then show ?thesis using assms(2)
    by (auto simp: cached_template_def node_template_def upd_api_def wbind_assoc wret_def split: option.splits)
qed

lemma fresh_answers:
  assumes "node_answers env" "fresh_template env p x isFee w = (Ret r, w')"
  shows "\<exists>t fee. r = Inr (t, fee)"
proof -
  obtain t where "ge_GetBlockTemplate env p x = Inr t" using assms(1) by (auto simp: node_answers_def)
  then show ?thesis using assms(2) by (auto simp: fresh_template_def node_template_def upd_api_def wbind_assoc wret_def)
qed

lemma template_answers:
  assumes "node_answers env" "GetBlockTemplate env poll vote w = (Ret r, w')"
  shows "\<exists>t fee. r = Inr (t, fee)"
  using assms(2) unfolding GetBlockTemplate_def
  by (auto simp: Let_def dest!: wbind_RetD split: if_splits intro: cached_answers [OF assms(1)] fresh_answers [OF assms(1)])

definition has_work :: "stratum_context \<Rightarrow> stratum_context \<Rightarrow> bool" where
  "has_work ctx ctx' \<longleftrightarrow> ready_state (State ctx') \<and>
     (\<exists>b. GetJob (State ctx') (wrap64 (jobCounter (State ctx) + 1)) = Some (Some b))"

lemma serve_client_answered:
  assumes "session_ok w" "job_env_ok env" "node_answers (je_gbt env)" "WalletAddr (sw_ctx w) \<noteq> []"
  shows "\<exists>w'. serve_client env w = (Ret (), w') \<and> has_work (sw_ctx w) (sw_ctx w')"
proof -
  have "gbt_env_ok (je_gbt env)" "cache_ok (aw_api w)" using assms(1,2) by (simp_all add: job_env_ok_def session_ok_def)
  from asks_ok_GetBlockTemplate [OF this(1)] this(2) obtain r w1 where
    g: "GetBlockTemplate (je_gbt env) (je_poll env) (je_vote env) w = (Ret r, w1)" "\<forall>t fee. r = Inr (t, fee) \<longrightarrow> template_ok t"
    by (rule asks_okD)
  from template_answers [OF assms(3) g(1)] g(2) obtain b fee where b: "r = Inr (Some b, fee)"
    by (auto simp: template_ok_def)
  have d: "ready (snd (serve_client env w))" "\<And>e. fst (serve_client env w) \<noteq> Panic e"
    "GetJob (State (sw_ctx (snd (serve_client env w)))) (wrap64 (jobCounter (State (sw_ctx w)) + 1)) = Some (Some b)"
    using serve_client_delivers [OF assms(2,1,4) g(1) [unfolded b]] by simp_all
  moreover have "fst (serve_client env w) \<noteq> Hang" by (rule haltsD [OF halts_serve_client])
  ultimately have "fst (serve_client env w) = Ret ()" by (metis (full_types) outcome.exhaust old.unit.exhaust)
  then show ?thesis using d by (metis has_work_def prod.collapse ready_def)
qed

lemma run_client_delivers:
  assumes "registry_ok w" "job_env_ok (env i)" "node_answers (je_gbt (env i))"
    "cl_clients (cw_listener w) i = Some ctx" "WalletAddr ctx \<noteq> []"
  shows "\<exists>ctx'. cl_clients (cw_listener (snd (run_client env i w))) i = Some ctx' \<and> has_work ctx ctx'"
proof -
  from serve_client_answered [OF registry_session [OF assms(1,4)] assms(2,3)] assms(5)
  obtain w1 where w1: "serve_client (env i) (w\<lparr>sw_ctx := ctx\<rparr>) = (Ret (), w1)" "has_work ctx (sw_ctx w1)" by auto
  then show ?thesis using assms(4) by (simp add: run_client_def wbind_Ret)
qed

lemma run_clients_deliver:
  assumes "registry_ok w" "\<And>i. job_env_ok (env i)" "\<And>i. node_answers (je_gbt (env i))" "distinct ids" "i \<in> set ids"
    "cl_clients (cw_listener w) i = Some ctx" "WalletAddr ctx \<noteq> []"
  shows "\<exists>ctx'. cl_clients (cw_listener (snd (run_clients env ids w))) i = Some ctx' \<and> has_work ctx ctx'"
  using assms(1,4,5,6)
proof (induction ids arbitrary: w)
  case (Cons k ids)
  from run_client_ok [OF Cons.prems(1), of env k] assms(2)
  obtain w1 where w1: "run_client env k w = (Ret (), w1)" "registry_ok w1" by blast
  have run: "run_clients env (k # ids) w = run_clients env ids w1" using w1(1) by (simp add: wbind_Ret)
  show ?case
  proof (cases "i = k")
    case True
    then obtain ctx' where "cl_clients (cw_listener w1) i = Some ctx'" "has_work ctx ctx'"
      using run_client_delivers [where env = env, OF Cons.prems(1) assms(2,3) Cons.prems(4) assms(7)] w1(1) by auto
    moreover have "cl_clients (cw_listener (snd (run_clients env ids w1))) i = cl_clients (cw_listener w1) i"
      using run_clients_ok [where env = env, OF w1(2) assms(2), of ids] Cons.prems(2) True by auto
    ultimately show ?thesis unfolding run by simp
  next
    case False
    have "cl_clients (cw_listener w1) i = Some ctx"
      using on_client_others [OF others.kept_serve False, of "env k" w] w1(1) Cons.prems(4) by (simp add: run_client_on)
    then show ?thesis using Cons.IH [OF w1(2)] Cons.prems(2,3) False unfolding run by simp
  qed
qed simp

lemma connected_keys:
  "i \<in> set order \<Longrightarrow> cl_clients c i = Some ctx \<Longrightarrow> Connected ctx \<Longrightarrow> i \<in> set (map fst (connected_clients order c))"
  "distinct order \<Longrightarrow> distinct (map fst (connected_clients order c))"
  "i \<in> set (map fst (connected_clients order c)) \<Longrightarrow> \<exists>ctx. cl_clients c i = Some ctx \<and> Connected ctx"
proof -
  have "map fst (connected_clients order c) =
    filter (\<lambda>i. case cl_clients c i of None \<Rightarrow> False | Some ctx \<Rightarrow> Connected ctx) order"
    by (induction order) (auto simp: connected_clients_def map_filter_simps split: option.split)
  then show "i \<in> set order \<Longrightarrow> cl_clients c i = Some ctx \<Longrightarrow> Connected ctx \<Longrightarrow> i \<in> set (map fst (connected_clients order c))"
    "distinct order \<Longrightarrow> distinct (map fst (connected_clients order c))"
    "i \<in> set (map fst (connected_clients order c)) \<Longrightarrow> \<exists>ctx. cl_clients c i = Some ctx \<and> Connected ctx"
    by (auto split: option.splits simp del: map_map)
qed

subsection \<open>Properties\<close>

text \<open>
  The bridge never panics. Started from a configuration with no client, after any sequence of
  connections, events of the clients (reads of any bytes, work, write errors), announcements
  of new blocks with any answers of the node, and clients going, in any interleaving, no goroutine
  has panicked; every registered client has valid labels and a difficulty with a target as soon as
  it holds a job, the shared statistics hold usable difficulties, and the template cache only
  templates with a coinbase.
\<close>

theorem bridge_never_panics:
  assumes "start_api None cfg = Inr (aw_api w)" "sw_sh w = start_share_handler cfg db" "cw_listener w = start_listener z cfg"
    "list_all bridge_op_ok ops"
  shows "registry_ok (snd (bridge_run ops w)) \<and> (\<forall>m. fst (bridge_run ops w) \<noteq> Panic m)"
proof (rule bridge_run_ok [OF assms(4)])
  have "api_gbtCache (aw_api w) = Map.empty" using arg_cong [OF assms(1), of "\<lambda>r. api_gbtCache (projr r)"]
    by (simp add: start_api_def NewHoosatAPI_def)
  then have "cache_ok (aw_api w)" by (simp add: cache_ok_def)
  then show "registry_ok w"
    using assms(2,3) by (simp add: registry_ok_def start_share_handler_def vardiff_ok_def newShareHandler_def
        start_listener_def newClientListener_def)
qed


text \<open>A configuration, and a miner that connects, authorises itself, gets work, submits and goes.\<close>

definition sample_config :: bridge_config where
  "sample_config =
     \<lparr>cfg_StratumPort = '':5555'', cfg_RPCServer = ''localhost:42420'', cfg_PromPort = [], cfg_PrintStats = False,
      cfg_RollingStats = False, cfg_UseLogFile = False, cfg_HealthCheckPort = [], cfg_SoloMining = False,
      cfg_BlockWaitTime = 0, cfg_MinShareDiff = Fin 4, cfg_VarDiff = True, cfg_SharesPerMin = 20, cfg_VarDiffStats = False,
      cfg_ExtranonceSize = 2, cfg_MineWhenNotSynced = False, cfg_Poll = 0, cfg_Vote = 0,
      cfg_BridgeFee = \<lparr>bf_Enabled = False, bf_RatePpm = 0, bf_Address = [], bf_ServerSalt = []\<rparr>,
      cfg_GBTCacheTTL = 150000000, cfg_WebPort = [], cfg_StratumAddr = [], cfg_RemoveDisconnectedFromStats = True,
      cfg_EnableTLS = False, cfg_TLSCertFile = [], cfg_TLSKeyFile = [], cfg_HTTPSPort = []\<rparr>"

definition sample_bridge :: client_world where
  "sample_bridge =
     \<lparr>prom_log = [], sw_ctx = plain_ctx [], sw_sh = start_share_handler sample_config sample_db,
      aw_api = (case start_api None sample_config of Inr a \<Rightarrow> a), cw_listener = start_listener 0 sample_config\<rparr>"

definition sample_announcement :: bridge_op where
  "sample_announcement = NewBlock (\<lambda>i. sample_job_env) (\<lambda>c. True) 0 (\<lambda>as. Inr [(''w'', 5)]) [1]"

definition sample_ops :: "bridge_op list" where
  "sample_ops = Accept ''10.0.0.1:4711'' (\<lambda>n. WriteOk) 0 # map (Happens 1) sample_session @ [sample_announcement, Gone (\<lambda>c. True) 1]"

lemma sample_announcement_ok: "bridge_op_ok sample_announcement"
  by (simp add: sample_announcement_def sample_job_env_ok accepts_ok_def ascii_utf8)

lemma sample_ops_ok: "list_all bridge_op_ok sample_ops"
  using sample_session_ok sample_announcement_ok
  by (simp add: sample_ops_def list.pred_map comp_def accepts_ok_def)

theorem bridge_never_panics_witness:
  "registry_ok (snd (bridge_run sample_ops sample_bridge)) \<and> (\<forall>m. fst (bridge_run sample_ops sample_bridge) \<noteq> Panic m)"
proof (rule bridge_never_panics)
  show "start_api None sample_config = Inr (aw_api sample_bridge)"
    by (simp add: sample_bridge_def start_api_def NewHoosatAPI_def)
  show "list_all bridge_op_ok sample_ops" by (rule sample_ops_ok)
qed (simp_all add: sample_bridge_def)

definition sample_crowd :: client_world where
  "sample_crowd = sample_bridge\<lparr>cw_listener := (start_listener 0 sample_config)\<lparr>cl_clients := [1 \<mapsto> plain_ctx ''w'']\<rparr>\<rparr>"


end
