(* ===== verification/Web_Ui.thy ===== *)
theory Web_Ui
  imports Share_Handler "HOL-Library.Char_ord" "HOL-Library.List_Lexorder"
begin

text \<open>
  The data behind the web interface (\<open>src/htnstratum/webui.go\<close>): the snapshot of the live workers of
  a wallet, the statistics page and the JSON endpoints over the database and the share handler. A
  response is a value; what the page shows of it is in \<open>Web_Page\<close> and \<open>Live_Page\<close>. The HTTP server and
  the markup are left out.
  The order in which a Go map is iterated is the parameter \<open>order\<close>, a list of the keys, and the
  orders of the database queries are parameters as in the theory of the database. The share handler
  may be nil: the comment of \<open>StartWebUI\<close> allows it, and the statistics page then panics.
\<close>

subsection \<open>Live workers\<close>

text \<open>\<open>time.Duration.Seconds\<close>.\<close>

definition seconds_of :: "int \<Rightarrow> f64" where
  "seconds_of d = f64_add (f64_of_int (go_div d 1000000000)) (f64_div (f64_of_int (go_rem d 1000000000)) (Fin 1000000000))"

text \<open>Worker statistics always have a start time; \<open>time.Since\<close> of the zero time is the longest duration.\<close>

definition GetAverageHashrateGHs :: "int \<Rightarrow> work_stats \<Rightarrow> f64" where
  "GetAverageHashrateGHs now st =
     f64_div (SharesDiff st) (seconds_of (case StartTime st of None \<Rightarrow> 2 ^ 63 - 1 | Some t \<Rightarrow> now - t))"

record worker_live_stat =
  wl_Name :: string
  wl_LiveGHs :: f64
  wl_OneHrGHs :: f64
  wl_TwentyFourHrGHs :: f64
  wl_BlocksFound :: int

definition live_stat :: "int \<Rightarrow> work_stats \<Rightarrow> worker_live_stat" where
  "live_stat now v =
     \<lparr>wl_Name = ws_WorkerName v, wl_LiveGHs = GetAverageHashrateGHs now v, wl_OneHrGHs = GetOneHourAverageHashrateGHs now v,
      wl_TwentyFourHrGHs = GetRollingAverageHashrateGHs now v, wl_BlocksFound = BlocksFound v\<rparr>"

text \<open>
  Go's sort is not stable; workers of one name then come in the order of some other iteration of
  the map.
\<close>

definition getLiveWorkerStats :: "string list \<Rightarrow> int \<Rightarrow> share_handler option \<Rightarrow> string \<Rightarrow> worker_live_stat list" where
  "getLiveWorkerStats order now sh addr =
     (case sh of
        None \<Rightarrow> []
      | Some sh \<Rightarrow> sort_key wl_Name
          (map (live_stat now) (filter (\<lambda>v. ws_WalletAddr v = addr) (List.map_filter (sh_stats sh) order))))"

record live_totals =
  lt_live :: f64
  lt_oneHr :: f64
  lt_day :: f64
  lt_blocks :: int

definition add_live :: "worker_live_stat \<Rightarrow> live_totals \<Rightarrow> live_totals" where
  "add_live w t =
     \<lparr>lt_live = f64_add (lt_live t) (wl_LiveGHs w), lt_oneHr = f64_add (lt_oneHr t) (wl_OneHrGHs w),
      lt_day = f64_add (lt_day t) (wl_TwentyFourHrGHs w), lt_blocks = wrap64 (lt_blocks t + wl_BlocksFound w)\<rparr>"

definition sum_live :: "worker_live_stat list \<Rightarrow> live_totals" where
  "sum_live ws = fold add_live ws \<lparr>lt_live = Fin 0, lt_oneHr = Fin 0, lt_day = Fin 0, lt_blocks = 0\<rparr>"

subsection \<open>Endpoints\<close>

datatype 'a response =
    Page 'a
  | BadRequest400
  | ServerError500
  | SeeOther string

text \<open>The share of blue blocks among the confirmed ones.\<close>

definition blue_percent :: "nat \<Rightarrow> nat \<Rightarrow> f64" where
  "blue_percent blue red =
     (if 0 < blue + red
      then f64_mul (f64_div (f64_of_int (int blue)) (f64_of_int (int (blue + red)))) (Fin 100)
      else Fin 0)"

definition fee_percent :: "int \<Rightarrow> f64" where
  "fee_percent feePPM = f64_div (f64_of_int feePPM) (Fin 100)"

definition net_hash :: "share_handler \<Rightarrow> f64 outcome" where
  "net_hash sh = out_bind (DiffToHash (sh_soloDiff sh)) (\<lambda>h. Ret (f64_mul (f64_mul h (Fin 5)) (Fin 1000)))"

definition atoms_or_zero :: "go_error + nat \<Rightarrow> nat" where
  "atoms_or_zero r = (case r of Inl e \<Rightarrow> 0 | Inr n \<Rightarrow> n)"

record stats_page =
  sp_Address :: string
  sp_Blocks :: "block_record list"
  sp_TotalBlocks :: nat
  sp_TotalAtoms :: nat
  sp_LiveWorkers :: "worker_live_stat list"
  sp_Counts :: "nat \<times> nat \<times> nat"
  sp_BluePercent :: f64
  sp_Totals :: live_totals
  sp_NetHash :: f64
  sp_FeePercent :: f64

text \<open>\<open>GET /stats\<close>; the live workers are listed twice, here at one time.\<close>

definition stats_endpoint ::
  "(block_record list \<Rightarrow> block_record list) \<Rightarrow> string list \<Rightarrow> int \<Rightarrow> int \<Rightarrow> share_handler option \<Rightarrow> string \<Rightarrow> mining_db \<Rightarrow>
   stats_page response outcome \<times> mining_db" where
  "stats_endpoint ord order now feePPM sh address d =
     (let addr = trimSpace address
      in if addr = [] then (Ret (SeeOther ''/''), d)
         else case GetBlocksByWalletPaged ord d addr 20 0 of
                (Inl e, d1) \<Rightarrow> (Ret ServerError500, d1)
              | (Inr blocks, d1) \<Rightarrow>
                  (case CountBlocksByWallet d1 addr of
                     (Inl e, d2) \<Rightarrow> (Ret ServerError500, d2)
                   | (Inr n, d2) \<Rightarrow>
                       (case GetTotalAtomsByWallet d2 addr of
                          (atoms, d3) \<Rightarrow>
                            (case GetBlockCountsByWallet d3 addr of
                               ((blue, red, pend), d4) \<Rightarrow>
                                 (let workers = getLiveWorkerStats order now sh addr
                                  in (out_bind (case sh of None \<Rightarrow> Panic ''nil pointer dereference'' | Some sh \<Rightarrow> net_hash sh) (\<lambda>nh. Ret (Page
                                       \<lparr>sp_Address = addr, sp_Blocks = blocks, sp_TotalBlocks = n,
                                        sp_TotalAtoms = atoms_or_zero atoms, sp_LiveWorkers = workers,
                                        sp_Counts = (blue, red, pend), sp_BluePercent = blue_percent blue red,
                                        sp_Totals = sum_live workers, sp_NetHash = nh,
                                        sp_FeePercent = fee_percent feePPM\<rparr>)), d4))))))"

definition page_limit :: "string \<Rightarrow> int" where
  "page_limit v =
     (if v = [] then 20
      else case ParseInt10 v of None \<Rightarrow> 20 | Some n \<Rightarrow> if 0 < n \<and> n \<le> 2000 then n else 20)"

definition page_offset :: "string \<Rightarrow> int" where
  "page_offset v =
     (if v = [] then 0
      else case ParseInt10 v of None \<Rightarrow> 0 | Some n \<Rightarrow> if 0 \<le> n then n else 0)"

text \<open>\<open>GET /api/blocks\<close>: the number of blocks and one page of them.\<close>

definition api_blocks ::
  "(block_record list \<Rightarrow> block_record list) \<Rightarrow> string \<Rightarrow> string \<Rightarrow> string \<Rightarrow> mining_db \<Rightarrow>
   (nat \<times> block_record list) response \<times> mining_db" where
  "api_blocks ord address limit offset d =
     (let addr = trimSpace address
      in if addr = [] then (BadRequest400, d)
         else case CountBlocksByWallet d addr of
                (Inl e, d1) \<Rightarrow> (ServerError500, d1)
              | (Inr n, d1) \<Rightarrow>
                  (case GetBlocksByWalletPaged ord d1 addr (page_limit limit) (page_offset offset) of
                     (Inl e, d2) \<Rightarrow> (ServerError500, d2)
                   | (Inr blocks, d2) \<Rightarrow> (Page (n, blocks), d2)))"

text \<open>\<open>GET /api/block_counts\<close>.\<close>

definition api_block_counts :: "string \<Rightarrow> mining_db \<Rightarrow> ((nat \<times> nat \<times> nat) \<times> f64) response \<times> mining_db" where
  "api_block_counts address d =
     (let addr = trimSpace address
      in if addr = [] then (BadRequest400, d)
         else case GetBlockCountsByWallet d addr of
                ((blue, red, pend), d1) \<Rightarrow> (Page ((blue, red, pend), blue_percent blue red), d1))"

text \<open>\<open>GET /api/worker_counts\<close>.\<close>

definition api_worker_counts ::
  "(worker_block_count list \<Rightarrow> worker_block_count list) \<Rightarrow> string \<Rightarrow> mining_db \<Rightarrow>
   worker_block_count list response \<times> mining_db" where
  "api_worker_counts srt address d =
     (let addr = trimSpace address
      in if addr = [] then (BadRequest400, d)
         else case GetWorkerBlockCountsByWallet srt d addr of
                (Inl e, d1) \<Rightarrow> (ServerError500, d1)
              | (Inr counts, d1) \<Rightarrow> (Page counts, d1))"

record api_stats_body =
  as_NetHash :: f64
  as_TotalAtoms :: nat
  as_LiveWorkers :: "worker_live_stat list"
  as_Counts :: "nat \<times> nat \<times> nat"
  as_BluePercent :: f64
  as_Totals :: live_totals

text \<open>\<open>GET /api/stats\<close>.\<close>

definition api_stats ::
  "string list \<Rightarrow> int \<Rightarrow> share_handler option \<Rightarrow> string \<Rightarrow> mining_db \<Rightarrow> api_stats_body response outcome \<times> mining_db" where
  "api_stats order now sh address d =
     (let addr = trimSpace address
      in if addr = [] then (Ret BadRequest400, d)
         else case GetTotalAtomsByWallet d addr of
                (atoms, d1) \<Rightarrow>
                  (case GetBlockCountsByWallet d1 addr of
                     ((blue, red, pend), d2) \<Rightarrow>
                       (let workers = getLiveWorkerStats order now sh addr
                        in (out_bind (case sh of None \<Rightarrow> Ret (Fin 0) | Some sh \<Rightarrow> net_hash sh) (\<lambda>nh. Ret (Page
                             \<lparr>as_NetHash = nh, as_TotalAtoms = atoms_or_zero atoms, as_LiveWorkers = workers,
                              as_Counts = (blue, red, pend), as_BluePercent = blue_percent blue red,
                              as_Totals = sum_live workers\<rparr>)), d2))))"

text \<open>HTTPS needs a readable certificate and a readable key.\<close>

definition tls_enabled :: "bool \<Rightarrow> bool \<Rightarrow> bool \<Rightarrow> bool" where
  "tls_enabled enableTLS certReadable keyReadable \<longleftrightarrow> enableTLS \<and> certReadable \<and> keyReadable"

text \<open>Where the plain listener sends a client when HTTPS is enabled; \<open>host\<close> is without its port.\<close>

definition redirect_target :: "string \<Rightarrow> string \<Rightarrow> string \<Rightarrow> string" where
  "redirect_target httpsPort host requestURI =
     (let port = (if httpsPort = [] then '':443'' else httpsPort)
      in ''https://'' @ host @ (if port \<noteq> '':443'' \<and> port \<noteq> ''443'' then port else []) @ requestURI)"

subsection \<open>Laws\<close>

lemma scan_rows_Inr: "scan_rows rs = Inr out \<Longrightarrow> out = rs"
  by (induction rs arbitrary: out) (auto split: option.splits sum.splits)

lemma page_limit_bounds: "0 < page_limit v \<and> page_limit v \<le> 2000"
  by (simp add: page_limit_def split: option.split)

lemma page_offset_nonneg: "0 \<le> page_offset v"
  by (simp add: page_offset_def split: option.split)

text \<open>
  Whatever limit and offset a request of the block list carries, well-formed or not, the
  answer holds at most two thousand blocks, all of them of the requested wallet and at the places
  of the ordered list that limit and offset name, together with the number of all its blocks.
\<close>

theorem api_blocks_page:
  assumes "order_by ord r_Timestamp" "api_blocks ord address limit offset d = (Page (n, blocks), d')"
  shows "length blocks \<le> 2000 \<and> (\<forall>r \<in> set blocks. r \<in> set (rows d) \<and> WalletAddress r = trimSpace address) \<and>
    n = length (wallet_rows d (trimSpace address)) \<and>
    blocks = take (nat (page_limit limit)) (drop (nat (page_offset offset)) (ord (wallet_rows d (trimSpace address)))) \<and>
    rows d' = rows d"
proof -
  let ?w = "trimSpace address"
  have "?w \<noteq> []" using assms(2) by (auto simp: api_blocks_def Let_def)
  then obtain d1 where c: "CountBlocksByWallet d ?w = (Inr n, d1)"
    and p: "GetBlocksByWalletPaged ord d1 ?w (page_limit limit) (page_offset offset) = (Inr blocks, d')"
    using assms(2) by (auto simp: api_blocks_def Let_def split: prod.splits sum.splits)
  have r1: "rows d1 = rows d" "n = length (wallet_rows d ?w)"
    using c by (auto simp: CountBlocksByWallet_def db_call_def wallet_rows_def split: prod.splits option.splits)
  then have wr: "wallet_rows d1 ?w = wallet_rows d ?w" by (simp add: wallet_rows_def)
  have b: "blocks = take (nat (page_limit limit)) (drop (nat (page_offset offset)) (ord (wallet_rows d ?w)))" "rows d' = rows d"
    using p page_limit_bounds [of limit] page_offset_nonneg [of offset] r1(1) wr
    by (auto simp: GetBlocksByWalletPaged_def db_call_def Let_def wallet_rows_def dest!: scan_rows_Inr
        split: prod.splits option.splits if_splits)
  have "set blocks \<subseteq> set (wallet_rows d ?w)"
    using order_by.set_ord [OF assms(1)] unfolding b(1) by (metis set_take_subset set_drop_subset order_trans)
  moreover have "nat (page_limit limit) \<le> 2000" using page_limit_bounds [of limit] by linarith
  then have "length blocks \<le> 2000" unfolding b(1) by (simp add: min.coboundedI2)
  ultimately show ?thesis using r1(2) b by (auto simp: wallet_rows_def)
qed

theorem api_blocks_page_witness:
  "\<exists>blocks d'. api_blocks newest_first ''w'' ''9999'' [] sample_db = (Page (length (wallet_rows sample_db ''w''), blocks), d') \<and>
     length blocks \<le> 2000"
proof -
  have t: "trimSpace ''w'' = ''w''"
    by (simp add: trimSpace_def item_bytes_def space_item_def rune_space_def rune_width.simps rune_need_def rune_value_def)
  have "\<forall>r \<in> set (wallet_rows sample_db ''w''). AcceptingBlockHash r \<noteq> None"
    by (simp add: sample_db_eq wallet_rows_def sample_row_def)
  then have nn: "\<forall>r \<in> set (take n (drop m (newest_first (wallet_rows sample_db ''w'')))). AcceptingBlockHash r \<noteq> None" for n m
    using order_by.set_ord [OF newest.order_by_axioms] by (metis in_set_takeD in_set_dropD)
  have "wallet_rows (sample_db\<lparr>calls := k\<rparr>) ''w'' = wallet_rows sample_db ''w''" "faults sample_db k = None" for k
    by (simp_all add: wallet_rows_def sample_db_eq)
  then obtain blocks d' where "api_blocks newest_first ''w'' ''9999'' [] sample_db = (Page (length (wallet_rows sample_db ''w''), blocks), d')"
    using scan_rows_ok [OF nn]
    by (auto simp: api_blocks_def t Let_def CountBlocksByWallet_def GetBlocksByWalletPaged_def db_call_def)
  then show ?thesis using api_blocks_page [OF newest.order_by_axioms] by blast
qed

end
