(* ===== verification/Startup.thy ===== *)
theory Startup
  imports Bridge_Laws Web_Ui
begin

text \<open>
  The start of the bridge: \<open>ListenAndServe\<close> of \<open>src/htnstratum/stratum_server.go\<close>, \<open>Start\<close> of
  \<open>htnapi.go\<close>, and \<open>Listen\<close> and \<open>tcpListener\<close> of \<open>src/gostratum/stratum_listener.go\<close>. What the bridge
  asks of its surroundings (the log file, the node, the database file, certificate files, the TCP
  port) is the record \<open>startup_env\<close>; the servers and goroutines it starts are the trace of actions.
  The context of \<open>Listen\<close> is never cancelled, so a bridge that serves does not stop.
\<close>

subsection \<open>The stratum port\<close>

definition Listen :: "go_error option \<Rightarrow> string \<Rightarrow> go_error option" where
  "Listen tcp port = map_option (Wrap (''failed listening to socket '' @ port)) tcp"

text \<open>What \<open>Accept\<close> returns: an error, with the flag that is read then, or a connection at a time.\<close>

datatype accept_result = AcceptError bool | Accepted string "nat \<Rightarrow> attempt" int

text \<open>The accept loop, for the results so far: whether it still listens.\<close>

fun tcpListener :: "accept_result list \<Rightarrow> ('s client_world_scheme, bool) handler" where
  "tcpListener [] = wret True"
| "tcpListener (AcceptError shuttingDown # rs) = (if shuttingDown then wret False else tcpListener rs)"
| "tcpListener (Accepted remote connection now # rs) =
     wbind (bridge_step (Accept remote connection now)) (\<lambda>_. tcpListener rs)"

subsection \<open>Starting\<close>

datatype startup_action =
    ServeMetrics string
  | DialNode string
  | OpenDatabase
  | ServeHealth string \<comment> \<open>with the rewards endpoint\<close>
  | ServeWeb string
  | ServeWebTLS string
  | RedirectWeb string
  | RecoverReward string
  | AwaitSync
  | ListenBlocks int
  | ReportNetwork
  | CleanCache int
  | AdjustDifficulty "64 word" bool
  | PrintStats
  | ListenTCP string

record startup_env =
  su_log :: "go_error option"
  su_dial :: "go_error option"
  su_file :: db_file
  su_engine :: "nat \<Rightarrow> go_error option"
  su_info :: "nat \<Rightarrow> go_error + bool"
  su_cert :: bool
  su_key :: bool
  su_tcp :: "go_error option"

datatype startup_result =
    Crashed string
  | Stopped go_error
  | Waiting \<comment> \<open>for a node that never synchronises\<close>
  | Serving htn_api share_handler client_listener

datatype log_sink = LogFile | LogConsole

definition configureZap :: "go_error option \<Rightarrow> bridge_config \<Rightarrow> log_sink list outcome" where
  "configureZap opened cfg =
     (if \<not> cfg_UseLogFile cfg then Ret [LogConsole]
      else case opened of
             Some err \<Rightarrow> Panic (error_string err)
           | None \<Rightarrow> Ret [LogFile, LogConsole])"

definition StartPromServer :: "string \<Rightarrow> startup_action list" where
  "StartPromServer port = [ServeMetrics port]"

definition web_enabled :: "bridge_config \<Rightarrow> bool" where
  "web_enabled cfg \<longleftrightarrow> cfg_WebPort cfg \<noteq> [] \<and> cfg_StratumAddr cfg \<noteq> []"

text \<open>The servers that \<open>StartWebUI\<close> starts: both for HTTPS, with the plain port redirecting, or the plain one.\<close>

definition StartWebUI :: "bool \<Rightarrow> bool \<Rightarrow> bridge_config \<Rightarrow> startup_action list" where
  "StartWebUI certReadable keyReadable cfg =
     (let httpsPort = (if cfg_HTTPSPort cfg = [] then '':443'' else cfg_HTTPSPort cfg)
      in if tls_enabled (cfg_EnableTLS cfg) certReadable keyReadable
         then [ServeWebTLS httpsPort, RedirectWeb (cfg_WebPort cfg)]
         else [ServeWeb (cfg_WebPort cfg)])"

text \<open>
  \<open>time.NewTicker\<close> panics unless its interval is positive. The interval of the cache's clean-up is
  twice the lifetime of its entries; a goroutine that panics ends the program, which is counted
  where the goroutine is launched.
\<close>

definition cleanup_panics :: "int \<Rightarrow> bool" where
  "cleanup_panics ttl \<longleftrightarrow> ttl \<noteq> 0 \<and> wrap64 (ttl * 2) \<le> 0"

text \<open>\<open>Start\<close>: its actions, and whether it returns.\<close>

definition Start :: "bridge_config \<Rightarrow> (nat \<Rightarrow> go_error + bool) \<Rightarrow> htn_api \<Rightarrow> startup_action list \<times> bool" where
  "Start cfg info api =
     (let threads = [ListenBlocks (api_blockWaitTime api), ReportNetwork, CleanCache (api_gbtCacheTTL api)]
      in if \<not> cfg_MineWhenNotSynced cfg
         then (case waitForSync info 0 of
                 None \<Rightarrow> ([AwaitSync], False)
               | Some n \<Rightarrow> (AwaitSync # threads, True))
         else (threads, True))"

definition recovered :: "bridge_config \<Rightarrow> mining_db \<Rightarrow> startup_action list \<times> mining_db" where
  "recovered cfg d =
     (if web_enabled cfg
      then (case pending_hashes d of
              (Inl err, d1) \<Rightarrow> ([], d1)
            | (Inr hs, d1) \<Rightarrow> (map RecoverReward hs, d1))
      else ([], d))"

text \<open>The servers beside the stratum port: health check and rewards, and the web interface.\<close>

definition servers :: "startup_env \<Rightarrow> bridge_config \<Rightarrow> startup_action list" where
  "servers env cfg =
     (if cfg_HealthCheckPort cfg \<noteq> [] then [ServeHealth (cfg_HealthCheckPort cfg)] else []) @
     (if web_enabled cfg then StartWebUI (su_cert env) (su_key env) cfg else [])"

text \<open>The threads that the configuration asks for, and the port.\<close>

definition last_actions :: "bridge_config \<Rightarrow> startup_action list" where
  "last_actions cfg =
     (if vardiff_enabled cfg then [AdjustDifficulty (cfg_SharesPerMin cfg) (cfg_VarDiffStats cfg)] else []) @
     (if cfg_PrintStats cfg then [PrintStats] else []) @ [ListenTCP (cfg_StratumPort cfg)]"

definition ListenAndServe :: "int \<Rightarrow> startup_env \<Rightarrow> bridge_config \<Rightarrow> startup_action list \<times> startup_result" where
  "ListenAndServe zero_time env cfg =
     (case configureZap (su_log env) cfg of
        Panic m \<Rightarrow> ([], Crashed m)
      | Hang \<Rightarrow> ([], Waiting)
      | Ret sinks \<Rightarrow>
     (let a1 = (if cfg_PromPort cfg \<noteq> [] then StartPromServer (cfg_PromPort cfg) else []) @ [DialNode (cfg_RPCServer cfg)]
      in case start_api (su_dial env) cfg of
        Inl err \<Rightarrow> (a1, Stopped err)
      | Inr api \<Rightarrow>
     (let a2 = a1 @ [OpenDatabase]
      in case InitDB (su_file env) (su_engine env) of
        Inl err \<Rightarrow> (a2, Stopped (Wrap ''failed to open mining database'' err))
      | Inr miningDB \<Rightarrow>
     (let (rewards, d1) = recovered cfg miningDB;
          shareHandler = start_share_handler cfg d1;
          clientHandler = start_listener zero_time cfg;
          (started, returned) = Start cfg (su_info env) api;
          a3 = a2 @ servers env cfg @ rewards @ started
      in if \<not> returned then (a3, Waiting)
         else if cleanup_panics (api_gbtCacheTTL api) then (a3, Crashed ''non-positive interval for NewTicker'')
         else
     (case Listen (su_tcp env) (cfg_StratumPort cfg) of
        Some err \<Rightarrow> (a3 @ last_actions cfg, Stopped err)
      | None \<Rightarrow> (a3 @ last_actions cfg, Serving api shareHandler clientHandler))))))"

subsection \<open>Laws\<close>

fun accepted :: "accept_result list \<Rightarrow> bridge_op list" where
  "accepted [] = []"
| "accepted (AcceptError down # rs) = accepted rs"
| "accepted (Accepted remote connection now # rs) = Accept remote connection now # accepted rs"

text \<open>Errors of \<open>Accept\<close> do not end the loop: it goes on, with the connections that came.\<close>

lemma tcpListener_survives:
  "list_all (\<lambda>r. r \<noteq> AcceptError True) rs \<Longrightarrow> tcpListener rs = wbind (bridge_run (accepted rs)) (\<lambda>_. wret True)"
  by (induction rs rule: accepted.induct) (simp_all add: wbind_assoc)

lemma start_api_parts: "start_api dial cfg = Inr api \<Longrightarrow> api_gbtCacheTTL api = cfg_GBTCacheTTL cfg \<and> api_gbtCache api = Map.empty"
  by (auto simp: start_api_def NewHoosatAPI_def split: option.splits)

lemma recovered_db: "recovered cfg d = (acts, d1) \<Longrightarrow> rows d1 = rows d \<and> next_id d1 = next_id d"
  by (auto simp: recovered_def pending_hashes_def db_call_def split: option.splits if_splits)

definition log_available :: "startup_env \<Rightarrow> bridge_config \<Rightarrow> bool" where
  "log_available env cfg \<longleftrightarrow> (if cfg_UseLogFile cfg then su_log env = None else True)"

lemma configureZap_Ret: "(\<exists>sinks. configureZap (su_log env) cfg = Ret sinks) \<longleftrightarrow> log_available env cfg"
  by (auto simp: configureZap_def log_available_def split: option.splits)

lemma configureZap_Hang: "configureZap opened cfg \<noteq> Hang"
  by (simp add: configureZap_def split: option.split)

lemma start_api_Inr: "(\<exists>api. start_api dial cfg = Inr api) \<longleftrightarrow> dial = None"
  by (auto simp: start_api_def NewHoosatAPI_def split: option.splits)

lemma Start_returns: "snd (Start cfg info api) \<longleftrightarrow> cfg_MineWhenNotSynced cfg \<or> (\<exists>n. info n = Inr True)"
  using waitForSync_first [of info 0] by (auto simp: Start_def Let_def split: option.split)

lemma Listen_None: "Listen tcp port = None \<longleftrightarrow> tcp = None"
  by (simp add: Listen_def)

text \<open>What a bridge that serves has gone through, and the state it starts with.\<close>

lemma ListenAndServe_Serving:
  assumes "ListenAndServe z env cfg = (acts, Serving api sh l)"
  obtains sinks d d1 rewards started where
    "configureZap (su_log env) cfg = Ret sinks" "start_api (su_dial env) cfg = Inr api"
    "InitDB (su_file env) (su_engine env) = Inr d" "recovered cfg d = (rewards, d1)"
    "Start cfg (su_info env) api = (started, True)" "\<not> cleanup_panics (api_gbtCacheTTL api)"
    "Listen (su_tcp env) (cfg_StratumPort cfg) = None"
    "sh = start_share_handler cfg d1" "l = start_listener z cfg"
    "acts = (if cfg_PromPort cfg \<noteq> [] then StartPromServer (cfg_PromPort cfg) else []) @ [DialNode (cfg_RPCServer cfg), OpenDatabase] @
       servers env cfg @ rewards @ started @ last_actions cfg"
proof -
  obtain sinks where c: "configureZap (su_log env) cfg = Ret sinks"
    using assms by (cases "configureZap (su_log env) cfg") (auto simp: ListenAndServe_def)
  obtain api1 where a: "start_api (su_dial env) cfg = Inr api1"
    using assms by (cases "start_api (su_dial env) cfg") (auto simp: ListenAndServe_def c Let_def)
  obtain d where d: "InitDB (su_file env) (su_engine env) = Inr d"
    using assms by (cases "InitDB (su_file env) (su_engine env)") (auto simp: ListenAndServe_def c a Let_def)
  obtain rewards d1 where r: "recovered cfg d = (rewards, d1)" by fastforce
  obtain started returned where st: "Start cfg (su_info env) api1 = (started, returned)" by fastforce
  have t: "returned" "\<not> cleanup_panics (api_gbtCacheTTL api1)" "Listen (su_tcp env) (cfg_StratumPort cfg) = None"
    using assms by (auto simp: ListenAndServe_def c a d r st Let_def split: if_splits option.splits)
  then have e: "api1 = api" "sh = start_share_handler cfg d1" "l = start_listener z cfg"
    "acts = (if cfg_PromPort cfg \<noteq> [] then StartPromServer (cfg_PromPort cfg) else []) @ [DialNode (cfg_RPCServer cfg), OpenDatabase] @
       servers env cfg @ rewards @ started @ last_actions cfg"
    using assms by (auto simp: ListenAndServe_def c a d r st Let_def)
  show ?thesis using that [OF c _ d r _ _ t(3) e(2-4)] a st t by (simp add: e(1))
qed

subsection \<open>Properties\<close>

text \<open>
  C10: exactly when the bridge comes to serve miners: the log file can be opened if there is to be one,
  the node can be dialled, the database opens, the node says at some time that it is synced (or the
  bridge is told not to wait), the cache's lifetime gives the clean-up a positive interval, and the
  port is free. A negative lifetime, which the configuration accepts, brings the bridge down.
\<close>

theorem bridge_serves_iff:
  "(\<exists>acts api sh l. ListenAndServe z env cfg = (acts, Serving api sh l)) \<longleftrightarrow>
     log_available env cfg \<and> su_dial env = None \<and> (\<exists>d. InitDB (su_file env) (su_engine env) = Inr d) \<and>
     (cfg_MineWhenNotSynced cfg \<or> (\<exists>n. su_info env n = Inr True)) \<and>
     (cfg_GBTCacheTTL cfg = 0 \<or> 0 < wrap64 (cfg_GBTCacheTTL cfg * 2)) \<and> su_tcp env = None"
    (is "?serves \<longleftrightarrow> ?able")
proof
  assume ?serves
  then obtain acts api sh l where "ListenAndServe z env cfg = (acts, Serving api sh l)" by blast
  then show ?able
  proof (rule ListenAndServe_Serving)
    fix sinks d d1 rewards started
    assume "configureZap (su_log env) cfg = Ret sinks" "start_api (su_dial env) cfg = Inr api"
      "InitDB (su_file env) (su_engine env) = Inr d" "Start cfg (su_info env) api = (started, True)"
      "\<not> cleanup_panics (api_gbtCacheTTL api)" "Listen (su_tcp env) (cfg_StratumPort cfg) = None"
    then show ?able using configureZap_Ret [of env cfg] start_api_Inr [of "su_dial env" cfg] start_api_parts
        Start_returns [of cfg "su_info env" api] by (auto simp: Listen_None cleanup_panics_def)
  qed
next
  assume able: ?able
  obtain sinks where c: "configureZap (su_log env) cfg = Ret sinks" using able configureZap_Ret by metis
  obtain api where a: "start_api (su_dial env) cfg = Inr api" using able start_api_Inr by metis
  obtain d where d: "InitDB (su_file env) (su_engine env) = Inr d" using able by blast
  obtain started where s: "Start cfg (su_info env) api = (started, True)"
    using able Start_returns [of cfg "su_info env" api] by (metis prod.collapse)
  have "\<not> cleanup_panics (api_gbtCacheTTL api)" using able start_api_parts [OF a] by (auto simp: cleanup_panics_def)
  moreover have "Listen (su_tcp env) (cfg_StratumPort cfg) = None" using able by (simp add: Listen_None)
  ultimately show ?serves by (simp add: ListenAndServe_def c a d s Let_def split: prod.split)
qed

definition opens_port :: "startup_action \<Rightarrow> bool" where
  "opens_port a \<longleftrightarrow> (\<exists>port. a = ListenTCP port)"

lemma only_last_opens:
  "recovered cfg d = (rewards, d1) \<Longrightarrow> list_all (\<lambda>a. \<not> opens_port a) rewards"
  "Start cfg info api = (started, returned) \<Longrightarrow> list_all (\<lambda>a. \<not> opens_port a) started"
  "list_all (\<lambda>a. \<not> opens_port a) (servers env cfg)"
  by (auto simp: recovered_def Start_def servers_def StartWebUI_def opens_port_def list_all_iff Let_def
      split: prod.splits sum.splits option.splits if_splits)


definition sample_startup :: startup_env where
  "sample_startup =
     \<lparr>su_log = Some (ErrMsg ''permission denied''), su_dial = None, su_file = new_file, su_engine = (\<lambda>n. None),
      su_info = (\<lambda>n. if n < 2 then Inr False else Inr True), su_cert = False, su_key = False, su_tcp = None\<rparr>"

lemma sample_started:
  "ListenAndServe 0 sample_startup sample_config =
     ([DialNode ''localhost:42420'', OpenDatabase, AwaitSync, ListenBlocks 100000000, ReportNetwork, CleanCache 150000000,
       AdjustDifficulty 20 False, ListenTCP '':5555''],
      Serving (aw_api sample_bridge) (start_share_handler sample_config ((fresh_db (\<lambda>n. None))\<lparr>calls := 6\<rparr>)) (start_listener 0 sample_config))"
proof -
  have "waitForSync (su_info sample_startup) 0 = Some 2"
    by (rule waitForSync_reaches) (auto simp: sample_startup_def)
  then show ?thesis
    by (simp add: ListenAndServe_def configureZap_def Start_def recovered_def web_enabled_def servers_def last_actions_def
        Let_def new_file_opens Listen_def cleanup_panics_def wrap64_def vardiff_enabled_def sample_bridge_def start_api_def
        NewHoosatAPI_def minBlockWaitTime_def sample_startup_def sample_config_def)
qed

definition sample_started_bridge :: client_world where
  "sample_started_bridge =
     sample_bridge\<lparr>sw_sh := start_share_handler sample_config ((fresh_db (\<lambda>n. None))\<lparr>calls := 6\<rparr>)\<rparr>"


end
