(* ===== verification/Go_Fmt.thy ===== *)
theory Go_Fmt
  imports Go_Float Go_Bytes Go_Strings
begin

text \<open>
  The verbs of Go's \<open>fmt\<close> that the bridge prints reports with (\<open>%.2f\<close>, \<open>%f\<close>, widths and precisions of
  strings and numbers) and \<open>time.Duration\<close>'s \<open>Round\<close> and \<open>String\<close>.
\<close>

subsection \<open>Padding\<close>

text \<open>Widths and precisions count runes.\<close>

definition rune_count :: "string \<Rightarrow> nat" where
  "rune_count s = length (runes s)"

definition pad_left :: "nat \<Rightarrow> string \<Rightarrow> string" where
  "pad_left w s = replicate (w - rune_count s) (CHR '' '') @ s"

definition pad_right :: "nat \<Rightarrow> string \<Rightarrow> string" where
  "pad_right w s = s @ replicate (w - rune_count s) (CHR '' '')"

definition truncate_runes :: "nat \<Rightarrow> string \<Rightarrow> string" where
  "truncate_runes n s = item_bytes (take n (runes s))"

fun str_join :: "string \<Rightarrow> string list \<Rightarrow> string" where
  "str_join sep [] = []"
| "str_join sep [s] = s"
| "str_join sep (s # ss) = s @ sep @ str_join sep ss"

subsection \<open>Numbers\<close>

text \<open>\<open>%.pf\<close>: the exact value rounded to \<open>p\<close> digits, ties to even.\<close>

definition fixed_digits :: "nat \<Rightarrow> rat \<Rightarrow> string" where
  "fixed_digits p r =
     (let s = dec_str (nat (round_half_even (r * 10 ^ p)));
          t = replicate (p + 1 - length s) (CHR ''0'') @ s
      in take (length t - p) t @ (if p = 0 then [] else CHR ''.'' # drop (length t - p) t))"

fun fmt_fixed :: "nat \<Rightarrow> f64 \<Rightarrow> string" where
  "fmt_fixed p FNaN = ''NaN''"
| "fmt_fixed p (FInf neg) = (if neg then ''-Inf'' else ''+Inf'')"
| "fmt_fixed p FNegZero = ''-'' @ fixed_digits p 0"
| "fmt_fixed p (Fin r) = (if r < 0 then ''-'' @ fixed_digits p (- r) else fixed_digits p r)"

subsection \<open>Durations\<close>

text \<open>\<open>Round\<close> to whole seconds, half away from zero; at the ends of the range it saturates.\<close>

definition Duration_Round_second :: "int \<Rightarrow> int" where
  "Duration_Round_second d =
     (let m = 1000000000; r = \<bar>go_rem d m\<bar>
      in if d < 0
         then (if 2 * r < m then d + r else max (d - m + r) (- (2 ^ 63)))
         else (if 2 * r < m then d - r else if 2 ^ 63 \<le> d + m - r then 2 ^ 63 - 1 else d + m - r))"

text \<open>A fraction of \<open>p\<close> digits without its trailing zeros, and without the point when it is zero.\<close>

definition frac_text :: "nat \<Rightarrow> nat \<Rightarrow> string" where
  "frac_text p n =
     (let s = dec_str n;
          ds = rev (dropWhile (\<lambda>c. c = CHR ''0'') (rev (replicate (p - length s) (CHR ''0'') @ s)))
      in if n = 0 then [] else CHR ''.'' # ds)"

definition Duration_String :: "int \<Rightarrow> string" where
  "Duration_String d =
     (let u = nat \<bar>d\<bar>;
          text =
            (if u = 0 then ''0s''
             else if u < 1000 then dec_str u @ ''ns''
             else if u < 1000000 then dec_str (u div 1000) @ frac_text 3 (u mod 1000) @ map char_of [194 :: nat, 181] @ ''s''
             else if u < 1000000000 then dec_str (u div 1000000) @ frac_text 6 (u mod 1000000) @ ''ms''
             else
               (let s = u div 1000000000;
                    secs = dec_str (s mod 60) @ frac_text 9 (u mod 1000000000) @ ''s''
                in if s < 60 then secs
                   else if s < 3600 then dec_str (s div 60) @ ''m'' @ secs
                   else dec_str (s div 3600) @ ''h'' @ dec_str (s div 60 mod 60) @ ''m'' @ secs))
      in (if d < 0 then ''-'' else []) @ text)"

end
