(* ===== verification/Stats_Report.thy ===== *)
theory Stats_Report
  imports Web_Ui Go_Fmt Htn_Api
begin

text \<open>
  The texts that the threads of the share handler print (\<open>src/htnstratum/share_handler.go\<close>):
  \<open>stringifyHashrate\<close>, one round of \<open>startStatsThread\<close> and what \<open>startVardiffThread\<close> prints about the
  round that \<open>vardiff_step\<close> models. The order in which a Go map is iterated is the parameter \<open>order\<close>;
  the clock is read once per round. Sleeping and the logger are left out.
\<close>

definition nl :: string where
  "nl = [CHR 0x0A]"

definition rule_text :: "nat \<Rightarrow> char \<Rightarrow> string" where
  "rule_text n c = replicate n c"

definition stringifyHashrate :: "f64 \<Rightarrow> string" where
  "stringifyHashrate ghs =
     (let (hr, unit) = hashrate_unit ghs
      in replace_first (fmt_fixed 2 hr) ''.'' '','' @ unit @ ''H/s'')"

subsection \<open>The statistics table\<close>

definition col14 :: "string \<Rightarrow> string" where
  "col14 s = pad_left 14 (truncate_runes 14 s)"

definition ratio_text :: "bool \<Rightarrow> int \<Rightarrow> work_stats \<Rightarrow> string" where
  "ratio_text rolling now v =
     (let (valid, stale, invalid) =
            (if rolling then GetRollingShares now v else (SharesFound v, StaleShares v, InvalidShares v))
      in int_str valid @ ''/'' @ int_str stale @ ''/'' @ int_str invalid)"

definition since :: "int \<Rightarrow> int option \<Rightarrow> int" where
  "since now t = (case t of None \<Rightarrow> 2 ^ 63 - 1 | Some t0 \<Rightarrow> now - t0)"

definition uptime_text :: "int \<Rightarrow> int option \<Rightarrow> string" where
  "uptime_text now t = pad_left 11 (Duration_String (Duration_Round_second (since now t)))"

definition stats_columns :: "string \<Rightarrow> string \<Rightarrow> string \<Rightarrow> string \<Rightarrow> int \<Rightarrow> string \<Rightarrow> string" where
  "stats_columns rate oneHour day ratio blocks uptime =
     col14 rate @ '' | '' @ col14 oneHour @ '' | '' @ col14 day @ '' | '' @ col14 ratio @ '' | '' @
     pad_left 12 (int_str blocks) @ '' | '' @ uptime"

definition worker_line :: "bool \<Rightarrow> int \<Rightarrow> work_stats \<Rightarrow> string" where
  "worker_line rolling now v =
     '' '' @ pad_right 15 (ws_WorkerName v) @ ''| '' @
     stats_columns (stringifyHashrate (GetAverageHashrateGHs now v)) (stringifyHashrate (GetOneHourAverageHashrateGHs now v))
       (stringifyHashrate (GetRollingAverageHashrateGHs now v)) (ratio_text rolling now v) (BlocksFound v)
       (uptime_text now (StartTime v))"

definition rate_total :: "(work_stats \<Rightarrow> f64) \<Rightarrow> work_stats list \<Rightarrow> f64" where
  "rate_total f vs = fold (\<lambda>v t. f64_add t (f v)) vs (Fin 0)"

definition stats_header :: string where
  "stats_header =
     nl @ rule_text 120 (CHR ''='') @ nl @
     ''  worker name   |       hashrate |    1h hashrate |   24h hashrate |    acc/stl/inv |       blocks |      uptime '' @ nl @
     rule_text 120 (CHR ''-'') @ nl"

definition worker_lines :: "string list \<Rightarrow> int \<Rightarrow> share_handler \<Rightarrow> string list" where
  "worker_lines order now sh = sort (map (worker_line (sh_rollingStats sh) now) (List.map_filter (sh_stats sh) order))"

text \<open>One round; \<open>start\<close> is when the thread was started. It panics where \<open>DiffToHash\<close> does.\<close>

definition stats_report :: "string list \<Rightarrow> int \<Rightarrow> int \<Rightarrow> share_handler \<Rightarrow> string outcome" where
  "stats_report order now start sh =
     (let vs = List.map_filter (sh_stats sh) order;
          totals =
            ''                | '' @
            stats_columns (stringifyHashrate (rate_total (GetAverageHashrateGHs now) vs))
              (stringifyHashrate (rate_total (GetOneHourAverageHashrateGHs now) vs))
              (stringifyHashrate (rate_total (GetRollingAverageHashrateGHs now) vs))
              (ratio_text (sh_rollingStats sh) now (sh_overall sh)) (BlocksFound (sh_overall sh)) (uptime_text now (Some start))
      in out_bind (DiffToHash (sh_soloDiff sh)) (\<lambda>h. Ret
           (stats_header @ str_join nl (worker_lines order now sh) @
            nl @ rule_text 120 (CHR ''-'') @ nl @ totals @
            nl @ rule_text 120 (CHR ''-'') @ nl @
            '' Est. Network Hashrate: '' @ stringifyHashrate (f64_mul h (Fin 5)) @ nl @
            '' Mining difficulty:     '' @ fmt_fixed 6 (sh_soloDiff sh) @
            nl @ rule_text 90 (CHR ''='') @ '' htn_bridge_'' @ version @ '' '' @ nl)))"

subsection \<open>The report on variable difficulty\<close>

definition vd_ratio :: "int \<Rightarrow> 64 word \<Rightarrow> int \<Rightarrow> work_stats \<Rightarrow> f64 \<times> f64 \<times> f64" where
  "vd_ratio now expected start v =
     (let duration = minutes_since now start;
          shareRate = f64_div (f64_of_int (VarDiffSharesFound v)) duration
      in (duration, shareRate, f64_div shareRate (f64_of_int (uint expected))))"

text \<open>The line of a worker that has been sent a difficulty.\<close>

definition vardiff_line :: "int \<Rightarrow> 64 word \<Rightarrow> work_stats \<Rightarrow> string option" where
  "vardiff_line now expected v =
     (case VarDiffStartTime v of
        None \<Rightarrow> None
      | Some start \<Rightarrow>
          (let (duration, shareRate, ratio) = vd_ratio now expected start v
           in Some ('' '' @ pad_right 14 (ws_WorkerName v) @ ''| '' @ pad_left 11 (fmt_fixed 2 (MinDiff v)) @ '' | '' @
                pad_left 8 (int_str (vd_windows ! nat (VarDiffWindow v))) @ '' | '' @ pad_left 10 (fmt_fixed 2 duration) @ '' | '' @
                pad_left 11 (int_str (VarDiffSharesFound v)) @ '' | '' @ pad_left 9 (fmt_fixed 2 shareRate))))"

text \<open>
  \<open>int(tolerance*100)\<close> of the seven tolerances: the products are exactly whole numbers after
  rounding to doubles.
\<close>

definition tolerance_percent :: "nat \<Rightarrow> string" where
  "tolerance_percent i = int_str (case f64_mul (vd_tolerances ! i) (Fin 100) of Fin r \<Rightarrow> \<lfloor>r\<rfloor> | _ \<Rightarrow> 0)"

text \<open>The first passed window whose tolerance is breached.\<close>

definition first_breach :: "f64 \<Rightarrow> int \<Rightarrow> nat option" where
  "first_breach ratio window =
     find (\<lambda>i. f64_le (vd_tolerances ! i) (f64_abs (f64_sub (Fin 1) ratio))) [1..<nat window]"

definition vardiff_error :: "int \<Rightarrow> 64 word \<Rightarrow> work_stats \<Rightarrow> string option" where
  "vardiff_error now expected v =
     (case VarDiffStartTime v of
        None \<Rightarrow> None
      | Some start \<Rightarrow>
          (let (duration, shareRate, ratio) = vd_ratio now expected start v;
               shares = f64_of_int (VarDiffSharesFound v);
               w = nat (VarDiffWindow v);
               window = vd_windows ! w;
               tolerance = vd_tolerances ! w;
               limit = f64_of_int (uint (word_of_int window * expected));
               rate = ws_WorkerName v @ '' share rate ('' @ fmt_fixed 6 shareRate @ '') exceeded ''
           in if window = 0
              then (if f64_le tolerance (f64_abs (f64_sub (Fin 1) ratio))
                    then Some (ws_WorkerName v @ '' final share rate ('' @ fmt_fixed 6 shareRate @ '') exceeded tolerance (+/- '' @
                           tolerance_percent w @ ''%)'')
                    else None)
              else case first_breach ratio (VarDiffWindow v) of
                     Some i \<Rightarrow> Some (rate @ ''tolerance (+/- '' @ tolerance_percent i @ ''%) for '' @ int_str (vd_windows ! i) @ ''m window'')
                   | None \<Rightarrow>
                       if f64_le (f64_mul limit (f64_add (Fin 1) tolerance)) shares
                       then Some (rate @ ''upper tolerance (+ '' @ tolerance_percent w @ ''%) for '' @ int_str window @ ''m window'')
                       else if f64_le (f64_of_int window) duration \<and> f64_le shares (f64_mul limit (f64_sub (Fin 1) tolerance))
                       then Some (rate @ ''lower tolerance (- '' @ tolerance_percent w @ ''%) for '' @ int_str window @ ''m window'')
                       else None))"

definition vardiff_report :: "string list \<Rightarrow> int \<Rightarrow> 64 word \<Rightarrow> share_handler \<Rightarrow> string" where
  "vardiff_report order now expected sh =
     (let vs = List.map_filter (sh_stats sh) order
      in nl @ ''=== vardiff '' @ rule_text 67 (CHR ''='') @ nl @ nl @
         ''  worker name  |    diff     |  window  |  elapsed   |    shares   |   rate    '' @ nl @
         rule_text 79 (CHR ''-'') @ nl @
         str_join nl (sort (List.map_filter (vardiff_line now expected) vs)) @
         nl @ nl @ rule_text 56 (CHR ''='') @ '' htn_bridge_'' @ version @ '' '' @ nl @
         str_join nl (List.map_filter (vardiff_error now expected) vs))"

end
