(* ===== verification/Command_Line.thy ===== *)
theory Command_Line
  imports Startup Stats_Report
begin

text \<open>
  The program \<open>cmd/htnbridge/main.go\<close>: it reads the configuration file, lets the flags of the command
  line override it, fills in two defaults, prints what it will do and starts the bridge. Reading
  the file and decoding YAML (\<open>gopkg.in/yaml.v2\<close>) are parameters; the package \<open>flag\<close> with its parsers
  of values is written out. An error of the command line ends the program with status 2, a
  request for help with 0.
\<close>

subsection \<open>Values of flags\<close>

definition ParseBool :: "string \<Rightarrow> bool option" where
  "ParseBool s =
     (if s \<in> {''1'', ''t'', ''T'', ''TRUE'', ''true'', ''True''} then Some True
      else if s \<in> {''0'', ''f'', ''F'', ''FALSE'', ''false'', ''False''} then Some False
      else None)"

definition lower_char :: "char \<Rightarrow> char" where
  "lower_char c = (if 65 \<le> byte_of c \<and> byte_of c \<le> 90 then char_of (byte_of c + 32) else c)"

text \<open>Underscores separate digits; a base prefix counts as a digit.\<close>

datatype underscore_state = AtStart | SawDigit | SawUnderscore | SawOther

fun underscore_scan :: "bool \<Rightarrow> underscore_state \<Rightarrow> string \<Rightarrow> bool" where
  "underscore_scan hex saw [] = (saw \<noteq> SawUnderscore)"
| "underscore_scan hex saw (c # cs) =
     (if json_digit c \<or> hex \<and> hex_val c \<noteq> None then underscore_scan hex SawDigit cs
      else if c = CHR ''_'' then (if saw = SawDigit then underscore_scan hex SawUnderscore cs else False)
      else if saw = SawUnderscore then False
      else underscore_scan hex SawOther cs)"

definition base_prefix :: "string \<Rightarrow> char option" where
  "base_prefix s = (case s of z # b # cs \<Rightarrow> if z = CHR ''0'' then Some (lower_char b) else None | _ \<Rightarrow> None)"

definition strip_sign :: "string \<Rightarrow> string" where
  "strip_sign s = (case s of c # cs \<Rightarrow> if c = CHR ''+'' \<or> c = CHR ''-'' then cs else s | [] \<Rightarrow> [])"

definition underscoreOK :: "string \<Rightarrow> bool" where
  "underscoreOK str =
     (let s = strip_sign str
      in if base_prefix s \<in> {Some (CHR ''b''), Some (CHR ''o''), Some (CHR ''x'')}
         then underscore_scan (base_prefix s = Some (CHR ''x'')) SawDigit (drop 2 s)
         else underscore_scan False AtStart s)"

text \<open>\<open>strconv.ParseUint(s, 0, 64)\<close>: the base follows from a prefix.\<close>

definition ParseUint0 :: "string \<Rightarrow> nat option" where
  "ParseUint0 str =
     (if str = [] then None
      else
        (let (base, s) =
           (if hd str \<noteq> CHR ''0'' then (10, str)
            else if 3 \<le> length str \<and> base_prefix str = Some (CHR ''b'') then (2, drop 2 str)
            else if 3 \<le> length str \<and> base_prefix str = Some (CHR ''o'') then (8, drop 2 str)
            else if 3 \<le> length str \<and> base_prefix str = Some (CHR ''x'') then (16, drop 2 str)
            else (8, drop 1 str))
         in case parse_digits base 0 (filter (\<lambda>c. c \<noteq> CHR ''_'') s) of
              None \<Rightarrow> None
            | Some n \<Rightarrow> if 2 ^ 64 \<le> n \<or> CHR ''_'' \<in> set s \<and> \<not> underscoreOK str then None else Some n))"

definition ParseInt0 :: "string \<Rightarrow> int option" where
  "ParseInt0 s =
     (if s = [] then None
      else case ParseUint0 (strip_sign s) of
             None \<Rightarrow> None
           | Some n \<Rightarrow>
               if hd s = CHR ''-'' then (if n \<le> 2 ^ 63 then Some (- int n) else None)
               else (if n < 2 ^ 63 then Some (int n) else None))"

text \<open>
  \<open>strconv.ParseFloat\<close>: infinities and NaN by name, decimal and hexadecimal numbers. A number too
  large for a double is a range error.
\<close>

definition float_name :: "string \<Rightarrow> f64 option" where
  "float_name s =
     (let t = map lower_char s; u = strip_sign t
      in if t = ''nan'' then Some FNaN
         else if u = ''inf'' \<or> u = ''infinity'' then Some (FInf (hd t = CHR ''-''))
         else None)"

text \<open>The digits before and after the point and the rest, underscores dropped.\<close>

definition mantissa :: "bool \<Rightarrow> string \<Rightarrow> string \<times> string \<times> string" where
  "mantissa hex s =
     (let dig = (\<lambda>c. json_digit c \<or> c = CHR ''_'' \<or> hex \<and> hex_val c \<noteq> None);
          strip = filter (\<lambda>c. c \<noteq> CHR ''_'');
          ip = takeWhile dig s; r1 = dropWhile dig s
      in if r1 \<noteq> [] \<and> hd r1 = CHR ''.'' then (strip ip, strip (takeWhile dig (tl r1)), dropWhile dig (tl r1))
         else (strip ip, [], r1))"

text \<open>An exponent: a sign and at least one digit, and nothing after it.\<close>

definition exponent :: "string \<Rightarrow> int option" where
  "exponent s =
     (let ds = strip_sign s
      in if ds = [] \<or> \<not> json_digit (hd ds) \<or> \<not> list_all (\<lambda>c. json_digit c \<or> c = CHR ''_'') ds then None
         else Some (let v = int (dec_val (filter (\<lambda>c. c \<noteq> CHR ''_'') ds)) in if hd s = CHR ''-'' then - v else v))"

definition digits_value :: "nat \<Rightarrow> string \<Rightarrow> nat" where
  "digits_value base s = (case parse_digits base 0 s of None \<Rightarrow> 0 | Some n \<Rightarrow> n)"

definition ParseFloat64 :: "string \<Rightarrow> f64 option" where
  "ParseFloat64 s =
     (case float_name s of
        Some x \<Rightarrow> Some x
      | None \<Rightarrow>
          (let neg = (s \<noteq> [] \<and> hd s = CHR ''-'');
               t = strip_sign s;
               hex = (base_prefix t = Some (CHR ''x''));
               (ip, fp, rest) = mantissa hex (if hex then drop 2 t else t);
               ex = (if rest = [] then (if hex then None else Some 0)
                     else if lower_char (hd rest) = (if hex then CHR ''p'' else CHR ''e'') then exponent (tl rest)
                     else None)
           in if ip @ fp = [] \<or> CHR ''_'' \<in> set s \<and> \<not> underscoreOK s then None
              else case ex of
                     None \<Rightarrow> None
                   | Some x \<Rightarrow>
                       (let v = (if hex then of_nat (digits_value 16 (ip @ fp)) * pow2 (x - 4 * int (length fp))
                                 else of_nat (digits_value 10 (ip @ fp)) * ten_pow (x - int (length fp)))
                        in case f64_round neg (if neg then - v else v) of
                             FInf b \<Rightarrow> None
                           | r \<Rightarrow> Some r)))"

text \<open>\<open>time.ParseDuration\<close>. Units are in nanoseconds; both signs of the micro second are accepted.\<close>

definition time_unit :: "string \<Rightarrow> nat option" where
  "time_unit u =
     (if u = ''ns'' then Some 1
      else if u \<in> {''us'', map char_of [194 :: nat, 181] @ ''s'', map char_of [206 :: nat, 188] @ ''s''} then Some 1000
      else if u = ''ms'' then Some 1000000
      else if u = ''s'' then Some 1000000000
      else if u = ''m'' then Some 60000000000
      else if u = ''h'' then Some 3600000000000
      else None)"

text \<open>Digits of a fraction, as long as they fit; the scale is a double.\<close>

fun fraction_digits :: "nat \<Rightarrow> nat \<Rightarrow> string \<Rightarrow> nat \<times> nat" where
  "fraction_digits x k [] = (x, k)"
| "fraction_digits x k (c # cs) =
     (if (2 ^ 63 - 1) div 10 < x then (x, k)
      else let y = x * 10 + (byte_of c - 48) in if 2 ^ 63 < y then (x, k) else fraction_digits y (Suc k) cs)"

definition scaled_fraction :: "nat \<Rightarrow> nat \<Rightarrow> nat \<Rightarrow> nat" where
  "scaled_fraction f k unit =
     (let scale = fold (\<lambda>_ s. f64_mul s (Fin 10)) [0..<k] (Fin 1)
      in case f64_mul (f64_of_int (int f)) (f64_div (f64_of_int (int unit)) scale) of
           Fin r \<Rightarrow> nat \<lfloor>r\<rfloor> | _ \<Rightarrow> 0)"

text \<open>One number with its unit, and the rest.\<close>

definition duration_part :: "string \<Rightarrow> (nat \<times> string) option" where
  "duration_part s =
     (let ip = takeWhile json_digit s; r1 = dropWhile json_digit s;
          dot = (r1 \<noteq> [] \<and> hd r1 = CHR ''.'');
          fp = (if dot then takeWhile json_digit (tl r1) else []);
          r2 = (if dot then dropWhile json_digit (tl r1) else r1);
          word = (\<lambda>c. c \<noteq> CHR ''.'' \<and> \<not> json_digit c);
          v = dec_val ip; (f, k) = fraction_digits 0 0 fp
      in if ip @ fp = [] \<or> 2 ^ 63 < v then None
         else case time_unit (takeWhile word r2) of
                None \<Rightarrow> None
              | Some unit \<Rightarrow>
                  (let n = v * unit + (if 0 < f then scaled_fraction f k unit else 0)
                   in if 2 ^ 63 div unit < v \<or> 2 ^ 63 < n then None else Some (n, dropWhile word r2)))"

lemma duration_part_shorter:
  assumes "duration_part s = Some (n, r)"
  shows "length r < length s"
proof -
  define ip r1 where "ip = takeWhile json_digit s" and "r1 = dropWhile json_digit s"
  have s: "length s = length ip + length r1" unfolding ip_def r1_def by (metis length_append takeWhile_dropWhile_id)
  define r2 where "r2 = (if r1 \<noteq> [] \<and> hd r1 = CHR ''.'' then dropWhile json_digit (tl r1) else r1)"
  have r2: "length r2 \<le> length r1"
    using length_dropWhile_le [of json_digit "tl r1"] by (simp add: r2_def) (metis diff_le_self le_trans)
  have "time_unit [] = None" by (simp add: time_unit_def)
  then have word: "takeWhile (\<lambda>c. c \<noteq> CHR ''.'' \<and> \<not> json_digit c) r2 \<noteq> []" "r = dropWhile (\<lambda>c. c \<noteq> CHR ''.'' \<and> \<not> json_digit c) r2"
    using assms unfolding duration_part_def Let_def r1_def [symmetric] ip_def [symmetric] r2_def [symmetric]
    by (auto split: prod.splits if_splits option.splits)
  then have "length r < length r2"
    by (metis length_append length_greater_0_conv less_add_same_cancel2 takeWhile_dropWhile_id)
  then show ?thesis using r2 s by simp
qed

function duration_sum :: "nat \<Rightarrow> string \<Rightarrow> nat option" where
  "duration_sum d s =
     (if s = [] then Some d
      else case duration_part s of
             None \<Rightarrow> None
           | Some (n, r) \<Rightarrow> if 2 ^ 63 < d + n then None else duration_sum (d + n) r)"
  by pat_completeness auto
termination by (relation "measure (\<lambda>(d, s). length s)") (auto dest: duration_part_shorter)

declare duration_sum.simps [simp del]

definition ParseDuration :: "string \<Rightarrow> int option" where
  "ParseDuration str =
     (let s = strip_sign str; neg = (str \<noteq> [] \<and> hd str = CHR ''-'')
      in if s = ''0'' then Some 0
         else if s = [] then None
         else case duration_sum 0 s of
                None \<Rightarrow> None
              | Some d \<Rightarrow> if neg then Some (- int d) else if 2 ^ 63 \<le> d then None else Some (int d))"

subsection \<open>Flags\<close>

datatype flag_field =
    StringFlag "string \<Rightarrow> bridge_config \<Rightarrow> bridge_config"
  | BoolFlag "bool \<Rightarrow> bridge_config \<Rightarrow> bridge_config"
  | UintFlag "nat \<Rightarrow> bridge_config \<Rightarrow> bridge_config"
  | Int64Flag "int \<Rightarrow> bridge_config \<Rightarrow> bridge_config"
  | Float64Flag "f64 \<Rightarrow> bridge_config \<Rightarrow> bridge_config"
  | DurationFlag "int \<Rightarrow> bridge_config \<Rightarrow> bridge_config"

definition flag_list :: "(string \<times> flag_field) list" where
  "flag_list =
     [(''stratum'', StringFlag (\<lambda>v cfg. cfg\<lparr>cfg_StratumPort := v\<rparr>)),
      (''stats'', BoolFlag (\<lambda>v cfg. cfg\<lparr>cfg_PrintStats := v\<rparr>)),
      (''hoosat_address'', StringFlag (\<lambda>v cfg. cfg\<lparr>cfg_RPCServer := v\<rparr>)),
      (''blockwait'', DurationFlag (\<lambda>v cfg. cfg\<lparr>cfg_BlockWaitTime := v\<rparr>)),
      (''mindiff'', Float64Flag (\<lambda>v cfg. cfg\<lparr>cfg_MinShareDiff := v\<rparr>)),
      (''vardiff'', BoolFlag (\<lambda>v cfg. cfg\<lparr>cfg_VarDiff := v\<rparr>)),
      (''sharespermin'', UintFlag (\<lambda>v cfg. cfg\<lparr>cfg_SharesPerMin := of_nat v\<rparr>)),
      (''vardiffstats'', BoolFlag (\<lambda>v cfg. cfg\<lparr>cfg_VarDiffStats := v\<rparr>)),
      (''solo'', BoolFlag (\<lambda>v cfg. cfg\<lparr>cfg_SoloMining := v\<rparr>)),
      (''extranonce'', UintFlag (\<lambda>v cfg. cfg\<lparr>cfg_ExtranonceSize := v\<rparr>)),
      (''prom'', StringFlag (\<lambda>v cfg. cfg\<lparr>cfg_PromPort := v\<rparr>)),
      (''log'', BoolFlag (\<lambda>v cfg. cfg\<lparr>cfg_UseLogFile := v\<rparr>)),
      (''hcp'', StringFlag (\<lambda>v cfg. cfg\<lparr>cfg_HealthCheckPort := v\<rparr>)),
      (''minewhennotsynced'', BoolFlag (\<lambda>v cfg. cfg\<lparr>cfg_MineWhenNotSynced := v\<rparr>)),
      (''poll'', Int64Flag (\<lambda>v cfg. cfg\<lparr>cfg_Poll := v\<rparr>)),
      (''vote'', Int64Flag (\<lambda>v cfg. cfg\<lparr>cfg_Vote := v\<rparr>)),
      (''webport'', StringFlag (\<lambda>v cfg. cfg\<lparr>cfg_WebPort := v\<rparr>)),
      (''stratum_addr'', StringFlag (\<lambda>v cfg. cfg\<lparr>cfg_StratumAddr := v\<rparr>)),
      (''tls'', BoolFlag (\<lambda>v cfg. cfg\<lparr>cfg_EnableTLS := v\<rparr>)),
      (''tls-cert'', StringFlag (\<lambda>v cfg. cfg\<lparr>cfg_TLSCertFile := v\<rparr>)),
      (''tls-key'', StringFlag (\<lambda>v cfg. cfg\<lparr>cfg_TLSKeyFile := v\<rparr>)),
      (''https-port'', StringFlag (\<lambda>v cfg. cfg\<lparr>cfg_HTTPSPort := v\<rparr>))]"

fun set_flag :: "flag_field \<Rightarrow> string \<Rightarrow> bridge_config \<Rightarrow> bridge_config option" where
  "set_flag (StringFlag f) v cfg = Some (f v cfg)"
| "set_flag (BoolFlag f) v cfg = map_option (\<lambda>b. f b cfg) (ParseBool v)"
| "set_flag (UintFlag f) v cfg = map_option (\<lambda>n. f n cfg) (ParseUint0 v)"
| "set_flag (Int64Flag f) v cfg = map_option (\<lambda>n. f n cfg) (ParseInt0 v)"
| "set_flag (Float64Flag f) v cfg = map_option (\<lambda>x. f x cfg) (ParseFloat64 v)"
| "set_flag (DurationFlag f) v cfg = map_option (\<lambda>d. f d cfg) (ParseDuration v)"

fun is_bool_flag :: "flag_field \<Rightarrow> bool" where
  "is_bool_flag (BoolFlag f) = True"
| "is_bool_flag _ = False"

text \<open>A flag's name, and its value when one follows in the same argument.\<close>

definition split_flag :: "string \<Rightarrow> string \<times> string option" where
  "split_flag body =
     (case body of
        [] \<Rightarrow> ([], None)
      | c # cs \<Rightarrow>
          (let rest = dropWhile (\<lambda>d. d \<noteq> CHR ''='') cs
           in (c # takeWhile (\<lambda>d. d \<noteq> CHR ''='') cs, if rest = [] then None else Some (tl rest))))"

text \<open>
  \<open>flag.Parse\<close>, which stops at the first argument that is no flag or at \<open>--\<close>. \<open>Inl\<close> is the status
  with which it ends the program.
\<close>

function parse_flags :: "string list \<Rightarrow> bridge_config \<Rightarrow> nat + bridge_config" where
  "parse_flags [] cfg = Inr cfg"
| "parse_flags (s # args) cfg =
     (if length s < 2 \<or> hd s \<noteq> CHR ''-'' \<or> s = ''--'' then Inr cfg
      else
        (let body = (if s ! 1 = CHR ''-'' then drop 2 s else drop 1 s); (name, value) = split_flag body
         in if hd body = CHR ''-'' \<or> hd body = CHR ''='' then Inl 2
            else case map_of flag_list name of
                   None \<Rightarrow> Inl (if name = ''help'' \<or> name = ''h'' then 0 else 2)
                 | Some field \<Rightarrow>
                     (case (if is_bool_flag field then Some (case value of None \<Rightarrow> ''true'' | Some v \<Rightarrow> v, args)
                            else case value of
                                   Some v \<Rightarrow> Some (v, args)
                                 | None \<Rightarrow> (case args of [] \<Rightarrow> None | v # rest \<Rightarrow> Some (v, rest))) of
                        None \<Rightarrow> Inl 2
                      | Some (v, rest) \<Rightarrow>
                          (case set_flag field v cfg of
                             None \<Rightarrow> Inl 2
                           | Some cfg1 \<Rightarrow> parse_flags rest cfg1))))"
  by pat_completeness auto
termination by (relation "measure (\<lambda>(args, cfg). length args)") (auto split: if_splits option.splits list.splits)

subsection \<open>The program\<close>

record main_env =
  me_config :: "go_error + string" \<comment> \<open>\<open>config.yaml\<close>\<close>
  me_yaml :: "string \<Rightarrow> go_error + bridge_config" \<comment> \<open>decoded into an empty configuration\<close>
  me_args :: "string list"
  me_startup :: startup_env

text \<open>The configuration that the bridge starts with, or the status of an early end.\<close>

definition configure :: "main_env \<Rightarrow> nat + bridge_config" where
  "configure env =
     (case me_config env of
        Inl err \<Rightarrow> Inl 1
      | Inr rawCfg \<Rightarrow>
     (case me_yaml env rawCfg of
        Inl err \<Rightarrow> Inl 1
      | Inr cfg \<Rightarrow>
     (case parse_flags (me_args env) (cfg\<lparr>cfg_RemoveDisconnectedFromStats := True\<rparr>) of
        Inl status \<Rightarrow> Inl status
      | Inr cfg1 \<Rightarrow>
          (let cfg2 = (if f64_eq (cfg_MinShareDiff cfg1) (Fin 0) then cfg1\<lparr>cfg_MinShareDiff := Fin 4\<rparr> else cfg1)
           in Inr (if cfg_BlockWaitTime cfg2 = 0 then cfg2\<lparr>cfg_BlockWaitTime := 100000000\<rparr> else cfg2)))))"

definition bool_text :: "bool \<Rightarrow> string" where
  "bool_text b = (if b then ''true'' else ''false'')"

definition setting :: "string \<Rightarrow> string \<Rightarrow> string" where
  "setting label v = label @ '':'' @ [CHR 0x09, CHR 0x09, CHR 0x09] @ v"

text \<open>What is printed before the start.\<close>

definition config_report :: "bridge_config \<Rightarrow> string list" where
  "config_report cfg =
     [replicate 34 (CHR ''-''), ''initializing bridge'',
      setting ''hoosat'' (cfg_RPCServer cfg), setting ''stratum'' (cfg_StratumPort cfg), setting ''prom'' (cfg_PromPort cfg),
      setting ''stats'' (bool_text (cfg_PrintStats cfg)), setting ''log'' (bool_text (cfg_UseLogFile cfg)),
      setting ''min diff'' (fmt_fixed 10 (cfg_MinShareDiff cfg)), setting ''var diff'' (bool_text (cfg_VarDiff cfg)),
      ''shares per min:'' @ [CHR 0x09, CHR 0x09] @ dec_str (unat (cfg_SharesPerMin cfg)),
      ''var diff stats:'' @ [CHR 0x09, CHR 0x09] @ bool_text (cfg_VarDiffStats cfg),
      ''solo mining:'' @ [CHR 0x09, CHR 0x09] @ bool_text (cfg_SoloMining cfg),
      setting ''block wait'' (Duration_String (cfg_BlockWaitTime cfg)),
      ''extranonce size:'' @ [CHR 0x09, CHR 0x09] @ dec_str (cfg_ExtranonceSize cfg),
      setting ''health check'' (cfg_HealthCheckPort cfg),
      ''Mine when not synced:'' @ [CHR 0x09] @ bool_text (cfg_MineWhenNotSynced cfg),
      setting ''Poll id'' (int_str (cfg_Poll cfg)), setting ''Vote id'' (int_str (cfg_Vote cfg)),
      setting ''Web UI port'' (cfg_WebPort cfg), setting ''Stratum Connection String'' (cfg_StratumAddr cfg),
      setting ''TLS enabled'' (bool_text (cfg_EnableTLS cfg))] @
     (if cfg_EnableTLS cfg
      then [setting ''TLS cert file'' (cfg_TLSCertFile cfg), setting ''TLS key file'' (cfg_TLSKeyFile cfg),
            setting ''HTTPS port'' (if cfg_HTTPSPort cfg = [] then '':443'' else cfg_HTTPSPort cfg)]
      else []) @
     [''Bridge fee enabled:'' @ [CHR 0x09, CHR 0x09] @ bool_text (bf_Enabled (cfg_BridgeFee cfg))] @
     (if bf_Enabled (cfg_BridgeFee cfg)
      then [''Bridge fee rate:'' @ [CHR 0x09, CHR 0x09] @ int_str (bf_RatePpm (cfg_BridgeFee cfg)) @ '' ppm ('' @
              fmt_fixed 4 (f64_div (f64_of_int (bf_RatePpm (cfg_BridgeFee cfg))) (Fin 100)) @ ''%)'',
            ''Bridge fee address:'' @ [CHR 0x09, CHR 0x09] @ bf_Address (cfg_BridgeFee cfg)] @
           (if bf_ServerSalt (cfg_BridgeFee cfg) = []
            then [''WARNING: Bridge fee ServerSalt not configured - feature will be disabled''] else [])
      else []) @
     [replicate 34 (CHR ''-'')]"

datatype main_result = Exit nat | Ran "string list" "startup_action list" startup_result

definition main :: "int \<Rightarrow> main_env \<Rightarrow> main_result" where
  "main zero_time env =
     (case configure env of
        Inl status \<Rightarrow> Exit status
      | Inr cfg \<Rightarrow>
          (case ListenAndServe zero_time (me_startup env) cfg of
             (acts, result) \<Rightarrow> Ran (config_report cfg) acts result))"

subsection \<open>Properties\<close>

text \<open>The settings that no flag changes.\<close>

definition same_settings :: "bridge_config \<Rightarrow> bridge_config \<Rightarrow> bool" where
  "same_settings cfg cfg1 \<longleftrightarrow>
     cfg_BridgeFee cfg1 = cfg_BridgeFee cfg \<and> cfg_GBTCacheTTL cfg1 = cfg_GBTCacheTTL cfg \<and>
     cfg_RollingStats cfg1 = cfg_RollingStats cfg \<and>
     cfg_RemoveDisconnectedFromStats cfg1 = cfg_RemoveDisconnectedFromStats cfg"

lemma set_flag_keeps:
  assumes "(name, field) \<in> set flag_list" "set_flag field v cfg = Some cfg1"
  shows "same_settings cfg cfg1"
  using assms unfolding flag_list_def by (auto simp: same_settings_def)

lemma parse_flags_step:
  assumes "parse_flags (s # args) cfg = Inr cfg1"
  shows "cfg1 = cfg \<or> (\<exists>name field v rest c. (name, field) \<in> set flag_list \<and> set_flag field v cfg = Some c \<and>
    length rest \<le> length args \<and> parse_flags rest c = Inr cfg1)"
proof -
  define body where "body = (if s ! 1 = CHR ''-'' then drop 2 s else drop 1 s)"
  obtain name opt where b: "split_flag body = (name, opt)" by fastforce
  show ?thesis
  proof (cases "length s < 2 \<or> hd s \<noteq> CHR ''-'' \<or> s = ''--''")
    case True
    then show ?thesis using assms by simp
  next
    case False
    from assms False have run: "(if hd body = CHR ''-'' \<or> hd body = CHR ''='' then Inl 2
            else case map_of flag_list name of
                   None \<Rightarrow> Inl (if name = ''help'' \<or> name = ''h'' then 0 else 2)
                 | Some field \<Rightarrow>
                     (case (if is_bool_flag field then Some (case opt of None \<Rightarrow> ''true'' | Some v \<Rightarrow> v, args)
                            else case opt of
                                   Some v \<Rightarrow> Some (v, args)
                                 | None \<Rightarrow> (case args of [] \<Rightarrow> None | v # rest \<Rightarrow> Some (v, rest))) of
                        None \<Rightarrow> Inl 2
                      | Some (v, rest) \<Rightarrow>
                          (case set_flag field v cfg of
                             None \<Rightarrow> Inl 2
                           | Some c \<Rightarrow> parse_flags rest c))) = Inr cfg1"
      unfolding parse_flags.simps(2) Let_def body_def [symmetric] b prod.case by (simp only: if_False)
    then obtain field v rest c where "map_of flag_list name = Some field" "set_flag field v cfg = Some c"
      "parse_flags rest c = Inr cfg1" "length rest \<le> length args"
      by (auto split: if_splits option.splits list.splits)
    then show ?thesis using map_of_SomeD by fast
  qed
qed

lemma same_settings_trans: "same_settings a b \<Longrightarrow> same_settings b c \<Longrightarrow> same_settings a c"
  by (simp add: same_settings_def)

lemma parse_flags_keeps: "parse_flags args cfg = Inr cfg1 \<Longrightarrow> same_settings cfg cfg1"
proof (induction args arbitrary: cfg rule: length_induct)
  case (1 args)
  show ?case
  proof (cases args)
    case (Cons s rest)
    then consider "cfg1 = cfg" | name field v rest1 c where "(name, field) \<in> set flag_list" "set_flag field v cfg = Some c"
        "length rest1 \<le> length rest" "parse_flags rest1 c = Inr cfg1"
      using parse_flags_step 1(2) by blast
    then show ?thesis
    proof cases
      case 2
      then have "same_settings c cfg1" using 1(1) [rule_format, of rest1 c] Cons by simp
      then show ?thesis using set_flag_keeps [OF 2(1,2)] same_settings_trans by blast
    qed (simp add: same_settings_def)
  qed (use 1 in \<open>simp add: same_settings_def\<close>)
qed

text \<open>
  C38: what the configuration file and the flags can change. The configuration that the bridge starts
  with has a difficulty other than zero and a waiting time other than zero, and the fee, the
  lifetime of the template cache and the rolling statistics are those of the file, whatever flags
  are given. The option to keep disconnected workers is always overwritten: no file and no flag can
  choose it.
\<close>

theorem configuration_sources:
  assumes "configure env = Inr cfg"
  shows "\<exists>rawCfg fileCfg. me_config env = Inr rawCfg \<and> me_yaml env rawCfg = Inr fileCfg \<and>
    cfg_BridgeFee cfg = cfg_BridgeFee fileCfg \<and> cfg_GBTCacheTTL cfg = cfg_GBTCacheTTL fileCfg \<and>
    cfg_RollingStats cfg = cfg_RollingStats fileCfg \<and> cfg_RemoveDisconnectedFromStats cfg \<and>
    \<not> f64_eq (cfg_MinShareDiff cfg) (Fin 0) \<and> cfg_BlockWaitTime cfg \<noteq> 0 \<and> min_diff cfg = cfg_MinShareDiff cfg"
proof -
  obtain rawCfg where t: "me_config env = Inr rawCfg" using assms by (auto simp: configure_def split: sum.splits)
  obtain fileCfg where f: "me_yaml env rawCfg = Inr fileCfg" using assms t by (auto simp: configure_def split: sum.splits)
  obtain c where c: "parse_flags (me_args env) (fileCfg\<lparr>cfg_RemoveDisconnectedFromStats := True\<rparr>) = Inr c"
    using assms t f by (auto simp: configure_def split: sum.splits)
  have cfg: "cfg = (let cfg2 = (if f64_eq (cfg_MinShareDiff c) (Fin 0) then c\<lparr>cfg_MinShareDiff := Fin 4\<rparr> else c)
           in if cfg_BlockWaitTime cfg2 = 0 then cfg2\<lparr>cfg_BlockWaitTime := 100000000\<rparr> else cfg2)"
    using assms t f c by (simp add: configure_def Let_def)
  have "same_settings (fileCfg\<lparr>cfg_RemoveDisconnectedFromStats := True\<rparr>) c" by (rule parse_flags_keeps [OF c])
  then show ?thesis using t f unfolding cfg Let_def by (simp add: same_settings_def min_diff_def)
qed

definition sample_main :: main_env where
  "sample_main =
     \<lparr>me_config = Inr ''stratum_port: :5555'',
      me_yaml = (\<lambda>s. Inr (sample_config\<lparr>cfg_RemoveDisconnectedFromStats := False, cfg_MinShareDiff := Fin 0\<rparr>)),
      me_args = [''-solo'', ''--vardiff=F'', ''-poll'', ''0x_1f'', ''-blockwait=1m2s'', ''rest''], me_startup = sample_startup\<rparr>"

lemma sample_values:
  "ParseBool ''F'' = Some False" "ParseBool ''true'' = Some True" "ParseInt0 ''0x_1f'' = Some 31"
  "ParseDuration ''1m2s'' = Some 62000000000"
proof -
  show "ParseBool ''F'' = Some False" "ParseBool ''true'' = Some True" by (simp_all add: ParseBool_def)
  show "ParseInt0 ''0x_1f'' = Some 31"
    by (simp add: ParseInt0_def ParseUint0_def strip_sign_def base_prefix_def lower_char_def underscoreOK_def digit_val_def
        json_digit_def hex_val_def of_char_char_of_nat)
  show "ParseDuration ''1m2s'' = Some 62000000000"
    by (simp add: ParseDuration_def strip_sign_def duration_sum.simps duration_part_def json_digit_def dec_val_def time_unit_def)
qed

lemma sample_configured:
  "configure sample_main = Inr (sample_config\<lparr>cfg_SoloMining := True, cfg_VarDiff := False, cfg_Poll := 31,
     cfg_BlockWaitTime := 62000000000\<rparr>)"
  by (simp add: configure_def sample_main_def flag_list_def split_flag_def sample_values sample_config_def)

theorem configuration_sources_witness:
  "\<exists>cfg. configure sample_main = Inr cfg \<and> cfg_RemoveDisconnectedFromStats cfg \<and> min_diff cfg = cfg_MinShareDiff cfg"
  using configuration_sources [OF sample_configured] sample_configured by blast

end
