(* ===== verification/Web_Page.thy ===== *)
theory Web_Page
  imports Stats_Report Number_Text
begin

text \<open>
  The statistics page in the browser (\<open>src/htnstratum/webui.go\<close>): the functions of the page template
  that run on the server, and the script of the page, which fetches pages of blocks, renders them
  again and refreshes them every half minute. Numbers of the
  script are doubles; offsets and counts are whole numbers far below \<open>2^53\<close> and modelled as \<open>int\<close>.
  Markup around the cells is left out: a row is the texts of its cells. Requests in flight are part
  of the page's state, since responses arrive in any order.
\<close>

subsection \<open>Functions of the template\<close>

definition fmtAtoms :: "nat \<Rightarrow> string" where
  "fmtAtoms atoms = fmt_fixed 8 (f64_div (f64_of_int (int atoms)) (Fin 100000000)) @ '' HTN''"

definition ellipsis :: string where
  "ellipsis = map char_of [226 :: nat, 128, 166]"

definition en_dash :: string where
  "en_dash = map char_of [226 :: nat, 128, 147]"

definition shortHash :: "string \<Rightarrow> string" where
  "shortHash h = (if 16 < length h then take 8 h @ ellipsis @ drop (length h - 8) h else h)"

text \<open>Days since 1970-01-01 as a date of the Gregorian calendar.\<close>

definition civil_from_days :: "int \<Rightarrow> int \<times> int \<times> int" where
  "civil_from_days z0 =
     (let z = z0 + 719468;
          era = z div 146097;
          doe = z mod 146097;
          yoe = (doe - doe div 1460 + doe div 36524 - doe div 146096) div 365;
          doy = doe - (365 * yoe + yoe div 4 - yoe div 100);
          mp = (5 * doy + 2) div 153;
          m = (if mp < 10 then mp + 3 else mp - 9)
      in (yoe + era * 400 + (if m \<le> 2 then 1 else 0), m, doy - (153 * mp + 2) div 5 + 1))"

definition dec_pad :: "nat \<Rightarrow> int \<Rightarrow> string" where
  "dec_pad w n = (let s = dec_str (nat n) in replicate (w - length s) (CHR ''0'') @ s)"

text \<open>Date and time of day of milliseconds since 1970, in UTC and to the second; years 0 to 9999.\<close>

definition utc_date :: "int \<Rightarrow> string" where
  "utc_date ms =
     (let (y, m, d) = civil_from_days (ms div 86400000) in dec_pad 4 y @ ''-'' @ dec_pad 2 m @ ''-'' @ dec_pad 2 d)"

definition utc_clock :: "int \<Rightarrow> string" where
  "utc_clock ms =
     (let s = ms mod 86400000 div 1000
      in dec_pad 2 (s div 3600) @ '':'' @ dec_pad 2 (s div 60 mod 60) @ '':'' @ dec_pad 2 (s mod 60))"

definition fmtTime :: "int \<Rightarrow> string" where
  "fmtTime ms = (if ms = 0 then en_dash else utc_date ms @ '' '' @ utc_clock ms @ '' UTC'')"

definition isStale :: "int \<Rightarrow> int \<Rightarrow> bool" where
  "isStale now timestampMs \<longleftrightarrow> 600000000000 < now - timestampMs * 1000000"

text \<open>The text of a status cell, decided by the template.\<close>

definition status_cell :: "string \<Rightarrow> string" where
  "status_cell st =
     (if st = ''blue'' then ''Blue'' else if st = ''red'' then ''Red''
      else if st = ''merge_duplicate'' then ''Merge Duplicate'' else ''Pending'')"

record block_row =
  row_ID :: int
  row_Time :: string
  row_Hash :: string \<comment> \<open>the tooltip and the text to copy\<close>
  row_Short :: string
  row_Worker :: string
  row_Status :: string
  row_Reward :: string

text \<open>A row as the server renders it.\<close>

definition template_row :: "block_record \<Rightarrow> block_row" where
  "template_row b =
     \<lparr>row_ID = ID b, row_Time = fmtTime (r_Timestamp b), row_Hash = r_BlockHash b, row_Short = shortHash (r_BlockHash b),
      row_Worker = r_WorkerName b, row_Status = status_cell (Status b), row_Reward = fmtAtoms (unat (RewardAtoms b))\<rparr>"

subsection \<open>Rendering in the browser\<close>

text \<open>\<open>Number.prototype.toFixed\<close>: of two nearest decimals the larger one.\<close>

definition js_digits :: "nat \<Rightarrow> rat \<Rightarrow> string" where
  "js_digits p r =
     (let s = dec_str (nat \<lfloor>r * 10 ^ p + 1 / 2\<rfloor>);
          t = replicate (p + 1 - length s) (CHR ''0'') @ s
      in take (length t - p) t @ (if p = 0 then [] else CHR ''.'' # drop (length t - p) t))"

fun toFixed :: "nat \<Rightarrow> f64 \<Rightarrow> string" where
  "toFixed p FNaN = ''NaN''"
| "toFixed p (FInf neg) = (if neg then ''-Infinity'' else ''Infinity'')"
| "toFixed p FNegZero = js_digits p 0"
| "toFixed p (Fin r) =
     (if 10 ^ 21 \<le> \<bar>r\<bar> then f64_str (Fin r) else if r < 0 then ''-'' @ js_digits p (- r) else js_digits p r)"

definition js_fmtAtoms :: "f64 \<Rightarrow> string" where
  "js_fmtAtoms atoms = toFixed 8 (f64_div atoms (Fin 100000000)) @ '' HTN''"

text \<open>\<open>escHtml\<close>: four replacements, one after the other; \<open>replace_all\<close> is \<open>replace\<close> with a global pattern.\<close>

definition replace_all :: "char \<Rightarrow> string \<Rightarrow> string \<Rightarrow> string" where
  "replace_all c t s = concat (map (\<lambda>d. if d = c then t else [d]) s)"

definition escHtml :: "string \<Rightarrow> string" where
  "escHtml s =
     replace_all (CHR 0x22) ''&quot;'' (replace_all (CHR ''>'') ''&gt;''
       (replace_all (CHR ''<'') ''&lt;'' (replace_all (CHR ''&'') ''&amp;'' s)))"

definition js_shortHash :: "string \<Rightarrow> string" where
  "js_shortHash h = (if 16 < length h then take 8 h @ ellipsis @ drop (length h - 8) h else h)"

definition toISOString :: "int \<Rightarrow> string" where
  "toISOString ms = utc_date ms @ ''T'' @ utc_clock ms @ ''.'' @ dec_pad 3 (ms mod 1000) @ ''Z''"

text \<open>\<open>replace(/\..+/,' UTC')\<close>: from the first point that something follows to the end of the line.\<close>

definition cut_fraction :: "string \<Rightarrow> string" where
  "cut_fraction s =
     (case str_index s ''.'' of
        None \<Rightarrow> s
      | Some i \<Rightarrow> if Suc i < length s then take i s @ '' UTC'' else s)"

definition js_time :: "int \<Rightarrow> string" where
  "js_time ts = (if ts \<noteq> 0 then cut_fraction (replace_first (toISOString ts) ''T'' '' '') else en_dash)"

definition js_status :: "string \<Rightarrow> string" where
  "js_status st =
     (if st = ''blue'' then ''Blue''
      else if st = ''red'' then ''Red''
      else if st = ''merge_duplicate'' then ''Merge Duplicate''
      else ''Pending'')"

text \<open>A row of \<open>renderTable\<close> as HTML, for a block as \<open>/api/blocks\<close> sends it: amounts have become doubles.\<close>

definition js_row :: "block_record \<Rightarrow> block_row" where
  "js_row b =
     \<lparr>row_ID = ID b, row_Time = js_time (r_Timestamp b), row_Hash = escHtml (r_BlockHash b),
      row_Short = escHtml (js_shortHash (r_BlockHash b)), row_Worker = escHtml (r_WorkerName b),
      row_Status = js_status (Status b), row_Reward = js_fmtAtoms (f64_of_int (uint (RewardAtoms b)))\<rparr>"

text \<open>The text that a browser shows for HTML text with the references \<open>escHtml\<close> writes.\<close>

fun html_text :: "string \<Rightarrow> string" where
  "html_text [] = []"
| "html_text (c # s) =
     (if c \<noteq> CHR ''&'' then c # html_text s
      else if hasPrefix s ''amp;'' then CHR ''&'' # html_text (drop 4 s)
      else if hasPrefix s ''lt;'' then CHR ''<'' # html_text (drop 3 s)
      else if hasPrefix s ''gt;'' then CHR ''>'' # html_text (drop 3 s)
      else if hasPrefix s ''quot;'' then CHR 0x22 # html_text (drop 5 s)
      else c # html_text s)"

definition shown_row :: "block_row \<Rightarrow> block_row" where
  "shown_row r =
     r\<lparr>row_Hash := html_text (row_Hash r), row_Short := html_text (row_Short r), row_Worker := html_text (row_Worker r)\<rparr>"

text \<open>\<open>_fmtHashrate\<close>, the script's counterpart of \<open>stringifyHashrate\<close>.\<close>

fun js_unit_loop :: "f64 \<Rightarrow> (rat \<times> string) list \<Rightarrow> f64 \<times> string" where
  "js_unit_loop ghs [] = (ghs, ''G'')"
| "js_unit_loop ghs ((d, u) # dus) =
     (let v = f64_div ghs (Fin d) in if f64_lt v (Fin 1000) then (v, u) else js_unit_loop ghs dus)"

definition js_hashrate_unit :: "f64 \<Rightarrow> f64 \<times> string" where
  "js_hashrate_unit ghs =
     (if f64_lt (f64_mul ghs (Fin 1000000)) (Fin 1) then (f64_mul ghs (Fin 1000000000), [])
      else if f64_lt (f64_mul ghs (Fin 1000)) (Fin 1) then (f64_mul ghs (Fin 1000000), ''K'')
      else if f64_lt ghs (Fin 1) then (f64_mul ghs (Fin 1000), ''M'')
      else if f64_lt ghs (Fin 1000) then (ghs, ''G'')
      else js_unit_loop ghs
        [(1000, ''T''), (1000000, ''P''), (1000000000, ''E''), (1000000000000, ''Z''), (1000000000000000, ''Y'')])"

definition js_fmtHashrate :: "f64 \<Rightarrow> string" where
  "js_fmtHashrate ghs =
     (let (hr, unit) = js_hashrate_unit ghs in replace_first (toFixed 2 hr) ''.'' '','' @ unit @ ''H/s'')"

subsection \<open>Turning pages\<close>

definition page_size :: int where
  "page_size = 20"

definition total_pages :: "int \<Rightarrow> int" where
  "total_pages tot = (let n = (tot + (page_size - 1)) div page_size in if n = 0 then 1 else n)"

datatype page_dir = First | Last | Step int

text \<open>The offset that \<open>changePage\<close> fetches, if any.\<close>

definition changePage :: "int \<Rightarrow> int \<Rightarrow> page_dir \<Rightarrow> int option" where
  "changePage offset0 tot dir =
     (let n = (case dir of
                 First \<Rightarrow> 0
               | Last \<Rightarrow> max 0 ((total_pages tot - 1) * page_size)
               | Step k \<Rightarrow> offset0 + k * page_size);
          n1 = (if n < 0 then 0 else n)
      in if (case dir of Step k \<Rightarrow> 0 < k \<and> tot \<le> n1 | _ \<Rightarrow> False) then None
         else if n1 = offset0 then None
         else Some n1)"

text \<open>A request in flight: for a page, or by the periodic refresh for the current offset.\<close>

datatype page_request = FetchPage int | RefreshPage int

record stats_view =
  view_offset :: int
  view_total :: int
  view_rows :: int \<comment> \<open>the offset of the rows that the table shows\<close>
  view_flight :: "page_request list"

definition open_view :: "int \<Rightarrow> stats_view" where
  "open_view tot = \<lparr>view_offset = 0, view_total = tot, view_rows = 0, view_flight = []\<rparr>"

datatype view_event =
    Click page_dir
  | RefreshTick
  | Answered nat int \<comment> \<open>a request, by its place among those in flight, and the total in its answer\<close>
  | Failed nat

definition drop_at :: "nat \<Rightarrow> 'a list \<Rightarrow> 'a list" where
  "drop_at i xs = take i xs @ drop (Suc i) xs"

definition send_request :: "page_request \<Rightarrow> stats_view \<Rightarrow> stats_view" where
  "send_request r v = v\<lparr>view_flight := view_flight v @ [r]\<rparr>"

fun view_step :: "view_event \<Rightarrow> stats_view \<Rightarrow> stats_view" where
  "view_step (Click dir) v =
     (case changePage (view_offset v) (view_total v) dir of
        None \<Rightarrow> v
      | Some n \<Rightarrow> send_request (FetchPage n) v)"
| "view_step RefreshTick v = send_request (RefreshPage (view_offset v)) v"
| "view_step (Answered i tot) v =
     (if i < length (view_flight v)
      then (let v1 = v\<lparr>view_flight := drop_at i (view_flight v), view_total := tot\<rparr>
            in case view_flight v ! i of
                 FetchPage n \<Rightarrow> v1\<lparr>view_offset := n, view_rows := n\<rparr>
               | RefreshPage n \<Rightarrow> v1\<lparr>view_rows := n\<rparr>)
      else v)"
| "view_step (Failed i) v = v\<lparr>view_flight := drop_at i (view_flight v)\<rparr>"

definition view_run :: "view_event list \<Rightarrow> stats_view \<Rightarrow> stats_view" where
  "view_run es v = fold view_step es v"

text \<open>What \<open>updatePagination\<close> shows.\<close>

record pagination =
  pn_visible :: bool
  pn_page :: int
  pn_pages :: int
  pn_first :: bool \<comment> \<open>whether \<open>First\<close> and \<open>Previous\<close> are enabled\<close>
  pn_next :: bool \<comment> \<open>whether \<open>Next\<close> and \<open>Last\<close> are enabled\<close>

definition updatePagination :: "int \<Rightarrow> int \<Rightarrow> pagination" where
  "updatePagination offset0 tot =
     \<lparr>pn_visible = (page_size < tot), pn_page = offset0 div page_size + 1, pn_pages = total_pages tot,
      pn_first = (0 < offset0), pn_next = (offset0 + page_size < tot)\<rparr>"

subsection \<open>Escaping\<close>

lemma replace_all_Nil [simp]: "replace_all c t [] = []"
  by (simp add: replace_all_def)

lemma replace_all_Cons [simp]: "replace_all c t (d # s) = (if d = c then t else [d]) @ replace_all c t s"
  by (simp add: replace_all_def)

lemma replace_all_append: "replace_all c t (r @ s) = replace_all c t r @ replace_all c t s"
  by (simp add: replace_all_def)

text \<open>The chain of replacements treats every character once.\<close>

definition esc_char :: "char \<Rightarrow> string" where
  "esc_char c =
     (if c = CHR ''&'' then ''&amp;'' else if c = CHR ''<'' then ''&lt;'' else if c = CHR ''>'' then ''&gt;''
      else if c = CHR 0x22 then ''&quot;'' else [c])"

lemma escHtml_chars: "escHtml s = concat (map esc_char s)"
proof (induction s)
  case (Cons c s)
  have "escHtml (c # s) = esc_char c @ escHtml s" by (simp add: escHtml_def esc_char_def replace_all_append)
  then show ?case using Cons by simp
qed (simp add: escHtml_def)

lemma html_text_esc: "html_text (esc_char c @ s) = c # html_text s"
  by (simp add: esc_char_def hasPrefix_def)

lemma html_text_escHtml: "html_text (escHtml s) = s"
  unfolding escHtml_chars by (induction s) (simp_all only: list.map concat.simps html_text_esc html_text.simps)

lemma escHtml_inert: "c \<in> set (escHtml s) \<Longrightarrow> c \<noteq> CHR ''<'' \<and> c \<noteq> CHR ''>'' \<and> c \<noteq> CHR 0x22"
  unfolding escHtml_chars by (auto simp: esc_char_def split: if_splits)

subsection \<open>Times\<close>

lemma dec_pad_digits: "list_all json_digit (dec_pad w n)"
  by (simp add: dec_pad_def Let_def dec_str_digits) (simp add: list_all_iff json_digit_def)

lemma utc_chars: "c \<in> set (utc_date ms) \<union> set (utc_clock ms) \<Longrightarrow> c \<noteq> CHR ''T'' \<and> c \<noteq> CHR ''.''"
proof -
  have d: "c \<in> set (dec_pad w n) \<Longrightarrow> c \<noteq> CHR ''T'' \<and> c \<noteq> CHR ''.''" for w n
    using dec_pad_digits [of w n] by (auto simp: list_all_iff json_digit_def)
  show "c \<in> set (utc_date ms) \<union> set (utc_clock ms) \<Longrightarrow> c \<noteq> CHR ''T'' \<and> c \<noteq> CHR ''.''"
    using d by (auto simp: utc_date_def utc_clock_def Let_def split: prod.splits)
qed

lemma str_index_char: "c \<notin> set a \<Longrightarrow> str_index (a @ c # b) [c] = Some (length a)"
  by (induction a) (auto simp: hasPrefix_def)

lemma js_time_eq: "js_time ms = fmtTime ms"
proof (cases "ms = 0")
  case False
  define d where "d = utc_date ms"
  define k where "k = utc_clock ms"
  define f where "f = dec_pad 3 (ms mod 1000) @ ''Z''"
  have c: "CHR ''T'' \<notin> set d" "CHR ''.'' \<notin> set (d @ CHR '' '' # k)" using utc_chars [of _ ms] by (auto simp: d_def k_def)
  have "toISOString ms = d @ CHR ''T'' # k @ CHR ''.'' # f" by (simp add: toISOString_def d_def k_def f_def)
  then have "replace_first (toISOString ms) ''T'' '' '' = (d @ CHR '' '' # k) @ CHR ''.'' # f"
    using str_index_char [OF c(1), of "k @ CHR ''.'' # f"] by (simp add: replace_first_def)
  then have "cut_fraction (replace_first (toISOString ms) ''T'' '' '') = (d @ CHR '' '' # k) @ '' UTC''"
    using str_index_char [OF c(2), of f] by (simp add: cut_fraction_def f_def del: append_assoc)
  then show ?thesis using False by (simp add: js_time_def fmtTime_def d_def k_def)
qed (simp add: js_time_def fmtTime_def)

subsection \<open>Amounts\<close>

lemma f64_round_between:
  assumes "0 < r" "- 1022 \<le> ilog2 r" "ilog2 r < 1023"
  shows "f64_round b r = Fin (bf_round 53 r)"
proof -
  have "bf_round 53 r = of_int (round_half_even (r / pow2 (ilog2 r - 52))) * pow2 (ilog2 r - 52)"
    using assms(1) by (simp add: bf_round_def Let_def)
  moreover have "0 < bf_round 53 r" using assms(1) by (intro bf_round_pos) simp_all
  moreover have "bf_round 53 r < pow2 1024"
  proof -
    have "bf_round 53 r \<le> pow2 (ilog2 r + 1)" using assms(1) by (intro bf_round_binade) simp_all
    also have "\<dots> \<le> pow2 1023" using assms(3) by (intro pow2_mono) simp
    also have "\<dots> < pow2 1024" by (simp add: pow2_def)
    finally show ?thesis .
  qed
  ultimately show ?thesis using assms by (simp add: f64_round_def f64_zero_def Let_def max_def)
qed

lemma bf_round_int:
  assumes "0 < n" "n < 2 ^ 53"
  shows "bf_round 53 (of_int n) = of_int n"
proof -
  define k where "k = ilog2 (of_int n)"
  have "rat_of_int n < of_int (2 ^ 53)" using assms(2) by (simp only: of_int_less_iff)
  then have "rat_of_int n < pow2 53" by (simp add: pow2_def)
  moreover have "pow2 k \<le> of_int n" using assms(1) ilog2_bounds by (simp add: k_def)
  ultimately have k: "k < 53" using pow2_less_cancel [of k 53] by linarith
  have "rat_of_int n / pow2 (k - 52) = of_int n * pow2 (52 - k)"
    using pow2_add [of "52 - k" "k - 52"] by (simp add: field_simps)
  also have "\<dots> = of_int (n * 2 ^ nat (52 - k))" using k by (simp add: pow2_def)
  finally have "rat_of_int n / pow2 (k - 52) = of_int (n * 2 ^ nat (52 - k))" .
  then have "of_int (round_half_even (rat_of_int n / pow2 (k - 52))) * pow2 (k - 52) = rat_of_int n"
    by (metis nonzero_eq_divide_eq pow2_nonzero round_half_even_of_int)
  then show ?thesis using assms(1) by (simp add: bf_round_def k_def Let_def)
qed

lemma ilog2_range:
  assumes "pow2 a \<le> r" "r < pow2 b"
  shows "a \<le> ilog2 r" "ilog2 r < b"
proof -
  have "0 < r" using assms(1) pow2_pos [of a] by linarith
  note i = ilog2_bounds [OF this]
  have "pow2 a < pow2 (ilog2 r + 1)" "pow2 (ilog2 r) < pow2 b" using assms i by linarith+
  then show "a \<le> ilog2 r" "ilog2 r < b" by (auto dest: pow2_less_cancel)
qed

lemma f64_of_int_small: "0 < n \<Longrightarrow> n < 2 ^ 53 \<Longrightarrow> f64_of_int n = Fin (of_int n)"
proof -
  assume n: "0 < n" "n < 2 ^ 53"
  have "rat_of_int n < of_int (2 ^ 53)" using n(2) by (simp only: of_int_less_iff)
  then have "pow2 0 \<le> rat_of_int n" "rat_of_int n < pow2 53" using n(1) by (simp_all add: pow2_def)
  from ilog2_range [OF this] show ?thesis
    using n f64_round_between [of "of_int n" False] by (simp add: f64_of_int_def bf_round_int)
qed

text \<open>A number of atoms divided by \<open>10^8\<close>: the double is near enough to be printed exactly.\<close>

lemma atoms_near:
  assumes "0 < n" "n \<le> 3000000000000000"
  shows "\<exists>v. f64_div (f64_of_int n) (Fin 100000000) = Fin v \<and> 0 < v \<and> \<bar>v * 10 ^ 8 - of_int n\<bar> < 1 / 2"
proof -
  define r :: rat where "r = of_int n / 100000000"
  have n: "1 \<le> rat_of_int n" "rat_of_int n \<le> of_int 3000000000000000"
    using assms by (simp, simp only: of_int_le_iff)
  have r: "0 < r" "pow2 (- 27) \<le> r" "r < pow2 25" using n by (simp_all add: r_def pow2_def)
  have e: "\<bar>bf_round 53 r - r\<bar> \<le> pow2 (- 28)"
  proof -
    have "\<bar>bf_round 53 r - r\<bar> \<le> r * pow2 (- 53)" using bf_round_error [OF r(1), of 53] by simp
    also have "\<dots> \<le> pow2 25 * pow2 (- 53)" using r(3) by (intro mult_right_mono) simp_all
    also have "\<dots> = pow2 (- 28)" by (simp add: pow2_add [symmetric])
    finally show ?thesis .
  qed
  have "f64_div (f64_of_int n) (Fin 100000000) = f64_round False r"
    using f64_of_int_small [of n] assms by (simp add: r_def)
  also have "\<dots> = Fin (bf_round 53 r)"
    using ilog2_range [OF r(2,3)] r(1) by (intro f64_round_between) simp_all
  finally have "f64_div (f64_of_int n) (Fin 100000000) = Fin (bf_round 53 r)" .
  moreover have "0 < bf_round 53 r" using r(1) by (intro bf_round_pos) simp_all
  moreover have "\<bar>bf_round 53 r * 10 ^ 8 - of_int n\<bar> < 1 / 2"
  proof -
    have "bf_round 53 r * 10 ^ 8 - of_int n = (bf_round 53 r - r) * 100000000" by (simp add: r_def algebra_simps)
    then have "\<bar>bf_round 53 r * 10 ^ 8 - of_int n\<bar> = \<bar>bf_round 53 r - r\<bar> * 100000000" by (simp only: abs_mult)
    also have "\<dots> \<le> pow2 (- 28) * 100000000" using e by (intro mult_right_mono) simp_all
    also have "\<dots> < 1 / 2" by (simp add: pow2_def)
    finally show ?thesis .
  qed
  ultimately show ?thesis by blast
qed

text \<open>The exact amount: whole coins, a point, and eight digits.\<close>

definition amount_text :: "nat \<Rightarrow> string" where
  "amount_text atoms =
     (let s = dec_str atoms; t = replicate (9 - length s) (CHR ''0'') @ s
      in take (length t - 8) t @ ''.'' @ drop (length t - 8) t @ '' HTN'')"

lemma amounts_exact:
  assumes "n \<le> 3000000000000000"
  shows "fmtAtoms n = amount_text n \<and> js_fmtAtoms (f64_of_int (int n)) = amount_text n"
proof -
  consider "n = 0" | v where "f64_div (f64_of_int (int n)) (Fin 100000000) = Fin v" "0 < v" "\<bar>v * 10 ^ 8 - of_nat n\<bar> < 1 / 2"
    using atoms_near [of "int n"] assms by (cases "n = 0") auto
  then show ?thesis
  proof cases
    case 1
    have d: "f64_div (f64_of_int 0) (Fin 100000000) = Fin 0" by (simp add: f64_of_int_def f64_round_def f64_zero_def)
    have r: "round_half_even 0 = 0" using round_half_even_of_int [of 0] by simp
    show ?thesis
      by (simp_all add: 1 fmtAtoms_def js_fmtAtoms_def d fixed_digits_def js_digits_def amount_text_def Let_def r)
  next
    case 2
    have a: "round_half_even (v * 10 ^ 8) = int n" using 2(3) round_half_even_near [of "v * 10 ^ 8" "int n"] by simp
    have b: "\<lfloor>v * 10 ^ 8 + 1 / 2\<rfloor> = int n" 
      by (rule floor_unique; use 2(3) [unfolded abs_less_iff] in simp)
    have "v < 10 ^ 21"
    proof -
      have "rat_of_nat n \<le> of_nat 3000000000000000" using assms by (simp only: of_nat_le_iff)
      then show ?thesis using 2(3) [unfolded abs_less_iff] by simp
    qed
    then show ?thesis
      using 2(2) a b by (simp_all add: fmtAtoms_def js_fmtAtoms_def 2(1) fixed_digits_def js_digits_def amount_text_def Let_def)
  qed
qed

subsection \<open>Properties\<close>


definition odd_block :: block_record where
  "odd_block = \<lparr>ID = 7, r_Timestamp = 1759322062398, r_BlockHash = ''f2fc18865187ef63d912'', WalletAddress = ''w'',
     r_WorkerName = ''<b>'' @ [CHR 0x22] @ ''rig&1'', RewardAtoms = 1551343503, Status = ''blue'', AcceptingBlockHash = None\<rparr>"


text \<open>Offsets are those of pages, and none is beyond the largest total that the server has reported.\<close>

definition page_ok :: "int \<Rightarrow> int \<Rightarrow> bool" where
  "page_ok m n \<longleftrightarrow> 0 \<le> n \<and> page_size dvd n \<and> (n = 0 \<or> n < m)"

fun request_offset :: "page_request \<Rightarrow> int" where
  "request_offset (FetchPage n) = n"
| "request_offset (RefreshPage n) = n"

definition view_ok :: "int \<Rightarrow> stats_view \<Rightarrow> bool" where
  "view_ok m v \<longleftrightarrow> page_ok m (view_offset v) \<and> page_ok m (view_rows v) \<and> view_total v \<le> m \<and>
     (\<forall>r \<in> set (view_flight v). page_ok m (request_offset r))"

fun event_ok :: "int \<Rightarrow> view_event \<Rightarrow> bool" where
  "event_ok m (Click (Step k)) \<longleftrightarrow> k = 1 \<or> k = - 1"
| "event_ok m (Answered i tot) \<longleftrightarrow> 0 \<le> tot \<and> tot \<le> m"
| "event_ok m _ \<longleftrightarrow> True"

lemma last_page: "0 < tot \<Longrightarrow> 0 \<le> (total_pages tot - 1) * page_size \<and> (total_pages tot - 1) * page_size < tot"
  unfolding total_pages_def page_size_def Let_def by (auto simp: algebra_simps)

lemma changePage_ok:
  assumes "page_ok m off" "tot \<le> m" "changePage off tot dir = Some n" "\<And>k. dir = Step k \<Longrightarrow> k = 1 \<or> k = - 1"
  shows "page_ok m n"
proof (cases dir)
  case First
  then show ?thesis using assms(3) by (auto simp: changePage_def page_ok_def split: if_splits)
next
  case Last
  have n: "n = max 0 ((total_pages tot - 1) * page_size)" using assms(3) Last by (auto simp: changePage_def Let_def split: if_splits)
  show ?thesis
  proof (cases "0 < tot")
    case True
    then show ?thesis using last_page [OF True] assms(2) by (auto simp: n page_ok_def max_def)
  next
    case False
    then have "total_pages tot \<le> 1" by (simp add: total_pages_def page_size_def Let_def) presburger
    then show ?thesis by (simp add: n page_ok_def page_size_def)
  qed
next
  case (Step k)
  have "page_size dvd off" using assms(1) by (simp add: page_ok_def)
  moreover have "k = 1 \<or> k = - 1" using assms(4) Step by blast
  ultimately show ?thesis using assms Step
    by (auto simp: changePage_def page_ok_def page_size_def Let_def split: if_splits)
qed

lemma drop_at_set: "set (drop_at i xs) \<subseteq> set xs"
  by (auto simp: drop_at_def dest: in_set_takeD in_set_dropD)

lemma view_step_ok:
  assumes "view_ok m v" "event_ok m e"
  shows "view_ok m (view_step e v)"
proof (cases e)
  case (Click dir)
  have "page_ok m n" if "changePage (view_offset v) (view_total v) dir = Some n" for n
    using changePage_ok [OF _ _ that, of m] assms Click by (cases dir) (auto simp: view_ok_def)
  then show ?thesis using assms(1) Click by (auto simp: view_ok_def send_request_def split: option.split)
next
  case RefreshTick
  then show ?thesis using assms(1) by (auto simp: view_ok_def send_request_def)
next
  case (Answered i tot)
  have "page_ok m (request_offset (view_flight v ! i))" if "i < length (view_flight v)"
    using assms(1) that by (simp add: view_ok_def)
  then show ?thesis using assms Answered drop_at_set [of i "view_flight v"]
    by (cases "view_flight v ! i") (auto simp: view_ok_def Let_def)
next
  case (Failed i)
  then show ?thesis using assms(1) drop_at_set [of i "view_flight v"] by (auto simp: view_ok_def)
qed

text \<open>
  C36: whatever the visitor clicks, however the refreshes, answers and failures interleave and in
  whatever order answers arrive, the page only ever requests and shows whole pages, none before the
  first and none beyond the largest number of blocks that the server has reported.
\<close>

theorem pages_in_range:
  assumes "0 \<le> t" "t \<le> m" "list_all (event_ok m) es"
  shows "view_ok m (view_run es (open_view t))"
proof -
  have "view_ok m (view_run es v)" if "view_ok m v" "list_all (event_ok m) es" for es v
    using that by (induction es arbitrary: v) (auto simp: view_run_def view_step_ok)
  moreover have "view_ok m (open_view t)" using assms(2) by (simp add: view_ok_def open_view_def page_ok_def)
  ultimately show ?thesis using assms(3) by blast
qed

theorem pages_in_range_witness:
  "view_ok 45 (view_run [Click Last, RefreshTick, Answered 0 45, Click (Step (- 1)), Answered 0 44, Answered 0 45, Failed 3]
     (open_view 44))"
  by (rule pages_in_range) simp_all

text \<open>An enabled button has an effect, and the label counts the pages right.\<close>

lemma next_page:
  assumes "pn_next (updatePagination off tot)" "0 \<le> off"
  shows "changePage off tot (Step 1) = Some (off + page_size)"
  using assms by (simp add: updatePagination_def changePage_def page_size_def)

lemma page_label:
  assumes "page_ok tot off" "0 \<le> tot"
  shows "1 \<le> pn_page (updatePagination off tot) \<and> pn_page (updatePagination off tot) \<le> pn_pages (updatePagination off tot)"
proof -
  obtain k where k: "off = 20 * k" "0 \<le> k" using assms by (auto simp: page_ok_def page_size_def elim: dvdE)
  have "0 \<le> (tot + 19) div 20" using assms(2) by (simp add: pos_imp_zdiv_nonneg_iff)
  then show ?thesis using assms unfolding k
    by (auto simp: page_ok_def updatePagination_def total_pages_def page_size_def Let_def)
qed

text \<open>
  A refresh that is answered after the visitor has turned the page puts the rows of the old page
  under the number of the new one.
\<close>

theorem late_refresh_shows_old_page:
  "let v = view_run [RefreshTick, Click (Step 1), Answered 1 45, Answered 0 45] (open_view 45)
   in view_offset v = 20 \<and> view_rows v = 0 \<and> view_flight v = []"
  by code_simp


text \<open>When every request is answered before the next one is sent, rows and number belong together.\<close>

lemma one_at_a_time:
  assumes "view_flight v = []" "view_rows v = view_offset v" "e = RefreshTick \<or> e = Click dir"
  shows "view_flight (view_run [e, Answered 0 tot] v) = [] \<and>
    view_rows (view_run [e, Answered 0 tot] v) = view_offset (view_run [e, Answered 0 tot] v)"
  using assms by (auto simp: view_run_def send_request_def drop_at_def Let_def split: option.split)

subsection \<open>Hash rates\<close>

text \<open>Rounding keeps a bound that is itself a small whole number.\<close>

lemma bf_round_below:
  assumes "0 < r" "r < pow2 53" "of_int n \<le> r" "0 < n"
  shows "of_int n \<le> bf_round 53 r"
proof -
  have "rat_of_int n = bf_round 53 (of_int n)"
  proof (rule bf_round_int [symmetric, OF assms(4)])
    have "rat_of_int n < of_int (2 ^ 53)" using assms(2,3) by (simp add: pow2_def)
    then show "n < 2 ^ 53" by (simp only: of_int_less_iff)
  qed
  also have "\<dots> \<le> bf_round 53 r" using assms by (intro bf_round_mono) simp_all
  finally show ?thesis .
qed

lemma quotient_normal:
  assumes "1000 \<le> r" "r \<le> 3000000" "1 \<le> d" "d \<le> 1000000"
  shows "f64_div (Fin r) (Fin d) = Fin (bf_round 53 (r / d))"
proof -
  have "pow2 (- 10) \<le> r / d" "r / d < pow2 53"
  proof -
    have "pow2 (- 10) * d \<le> r" using assms by (simp add: pow2_def)
    then show "pow2 (- 10) \<le> r / d" using assms(3) by (simp add: pos_le_divide_eq)
    have "r < pow2 53 * d" using assms by (simp add: pow2_def)
    then show "r / d < pow2 53" using assms(3) by (simp add: pos_divide_less_eq)
  qed
  from ilog2_range [OF this] have "f64_round False (r / d) = Fin (bf_round 53 (r / d))"
    using assms by (intro f64_round_between) simp_all
  then show ?thesis using assms by simp
qed

lemma bf_round_gap:
  assumes "0 < r" "r \<le> 999" 
  shows "bf_round 53 r < 1000"
proof -
  have "bf_round 53 r \<le> r + r * pow2 (- 53)" using bf_round_error [OF assms(1), of 53] by (simp add: abs_le_iff)
  also have "\<dots> < 1000" using assms by (simp add: pow2_def)
  finally show ?thesis .
qed

lemma multiples_of_1000:
  "f64_mul (f64_of_int 0) (Fin 1000) = Fin 0" "f64_mul (f64_of_int 1) (Fin 1000) = Fin 1000"
  "f64_mul (f64_of_int 2) (Fin 1000) = Fin 2000"
proof -
  have r: "f64_round False (of_int n) = Fin (of_int n)" if "0 < n" "n < 2 ^ 53" for n
    using f64_of_int_small [OF that] by (simp add: f64_of_int_def)
  show "f64_mul (f64_of_int 0) (Fin 1000) = Fin 0" by (simp add: f64_of_int_def f64_round_def f64_zero_def)
  show "f64_mul (f64_of_int 1) (Fin 1000) = Fin 1000" "f64_mul (f64_of_int 2) (Fin 1000) = Fin 2000"
    using r [of 1000] r [of 2000] by (simp_all add: f64_of_int_small)
qed

lemma not_small:
  assumes "1000 \<le> r" "r \<le> 3000000"
  shows "\<not> f64_lt (f64_mul (Fin r) (Fin 1000000)) (Fin 1)" "\<not> f64_lt (f64_mul (Fin r) (Fin 1000)) (Fin 1)"
    "\<not> f64_lt (Fin r) (Fin 1)" "\<not> f64_lt (Fin r) (Fin 1000)"
proof -
  have b: "\<exists>v. f64_mul (Fin r) (Fin m) = Fin v \<and> 1 \<le> v" if "1 \<le> m" "m \<le> 1000000" for m
  proof -
    have "1 * 1 \<le> r * m" "r * m \<le> 3000000 * 1000000" using assms that by (intro mult_mono; simp)+
    then have p: "pow2 0 \<le> r * m" "r * m < pow2 53" by (simp_all add: pow2_def)
    have "f64_round False (r * m) = Fin (bf_round 53 (r * m))"
      using ilog2_range [OF p] p(1) by (intro f64_round_between) simp_all
    moreover have "1 \<le> bf_round 53 (r * m)" using bf_round_below [of "r * m" 1] p by simp
    ultimately show ?thesis using assms that by simp
  qed
  show "\<not> f64_lt (f64_mul (Fin r) (Fin 1000000)) (Fin 1)" "\<not> f64_lt (f64_mul (Fin r) (Fin 1000)) (Fin 1)"
    using b [of 1000000] b [of 1000] by (auto simp del: f64_mul.simps)
  show "\<not> f64_lt (Fin r) (Fin 1)" "\<not> f64_lt (Fin r) (Fin 1000)" using assms by simp_all
qed

text \<open>
  C36: the hash rates of the console and of the first rendering of the page agree with those of the
  script below \<open>10^6\<close> GH/s. From there on \<open>stringifyHashrate\<close>, which divides by multiples of 1000
  instead of its powers, shows five hundred times the rate, with the unit of the right one.
\<close>

theorem hashrates_diverge:
  assumes "1000 \<le> r"
  shows "(r \<le> 999000 \<longrightarrow>
      hashrate_unit (Fin r) = (f64_div (Fin r) (Fin 1000), ''T'') \<and> js_hashrate_unit (Fin r) = hashrate_unit (Fin r)) \<and>
    (1000000 \<le> r \<and> r \<le> 1998000 \<longrightarrow>
      hashrate_unit (Fin r) = (f64_div (Fin r) (Fin 2000), ''P'') \<and>
      js_hashrate_unit (Fin r) = (f64_div (Fin r) (Fin 1000000), ''P''))"
proof -
  have by0: "f64_div (Fin r) (Fin 0) = FInf False" using assms by simp
  have u: "hashrate_unit (Fin r) = unit_loop (Fin r) 0 big_units (Fin 0) []"
    "js_hashrate_unit (Fin r) = js_unit_loop (Fin r)
        [(1000, ''T''), (1000000, ''P''), (1000000000, ''E''), (1000000000000, ''Z''), (1000000000000000, ''Y'')]"
    if "r \<le> 3000000"
    using not_small [OF assms that] by (simp_all add: hashrate_unit_def js_hashrate_unit_def del: f64_mul.simps f64_lt.simps)
  show ?thesis
  proof (intro conjI impI)
    assume a: "r \<le> 999000"
    have q: "f64_div (Fin r) (Fin 1000) = Fin (bf_round 53 (r / 1000))" using assms a by (intro quotient_normal) simp_all
    have "bf_round 53 (r / 1000) < 1000" using assms a by (intro bf_round_gap) simp_all
    then have lt: "f64_lt (f64_div (Fin r) (Fin 1000)) (Fin 1000)" by (simp add: q del: f64_div.simps)
    have three: "r \<le> 3000000" using a by simp
    show "hashrate_unit (Fin r) = (f64_div (Fin r) (Fin 1000), ''T'')"
      using lt by (simp add: u(1) [OF three] big_units_def multiples_of_1000 by0 Let_def del: f64_div.simps f64_mul.simps)
    then show "js_hashrate_unit (Fin r) = hashrate_unit (Fin r)"
      using lt by (simp add: u(2) [OF three] Let_def del: f64_div.simps)
  next
    assume b: "1000000 \<le> r \<and> r \<le> 1998000"
    have q: "f64_div (Fin r) (Fin 1000) = Fin (bf_round 53 (r / 1000))" "f64_div (Fin r) (Fin 2000) = Fin (bf_round 53 (r / 2000))"
      "f64_div (Fin r) (Fin 1000000) = Fin (bf_round 53 (r / 1000000))"
      using assms b by (intro quotient_normal; simp)+
    have "1000 \<le> bf_round 53 (r / 1000)" using bf_round_below [of "r / 1000" 1000] b by (simp add: pow2_def)
    then have ge: "\<not> f64_lt (f64_div (Fin r) (Fin 1000)) (Fin 1000)" by (simp add: q del: f64_div.simps)
    have "bf_round 53 (r / 2000) < 1000" "bf_round 53 (r / 1000000) < 1000" using b by (intro bf_round_gap; simp)+
    then have lt: "f64_lt (f64_div (Fin r) (Fin 2000)) (Fin 1000)" "f64_lt (f64_div (Fin r) (Fin 1000000)) (Fin 1000)"
      by (simp_all add: q del: f64_div.simps)
    have three: "r \<le> 3000000" using b by simp
    show "hashrate_unit (Fin r) = (f64_div (Fin r) (Fin 2000), ''P'')"
      using lt ge by (simp add: u(1) [OF three] big_units_def multiples_of_1000 by0 Let_def eval_nat_numeral del: f64_div.simps f64_mul.simps)
    show "js_hashrate_unit (Fin r) = (f64_div (Fin r) (Fin 1000000), ''P'')"
      using lt ge by (simp add: u(2) [OF three] Let_def del: f64_div.simps)
  qed
qed

theorem hashrates_diverge_witness:
  "hashrate_unit (Fin 1500000) = (f64_div (Fin 1500000) (Fin 2000), ''P'') \<and>
   js_hashrate_unit (Fin 1500000) = (f64_div (Fin 1500000) (Fin 1000000), ''P'')"
  using hashrates_diverge [of 1500000] by (simp del: f64_div.simps)

end
