(* ===== verification/Live_Page.thy ===== *)
theory Live_Page
  imports Web_Page
begin

text \<open>
  The rest of the statistics page (\<open>src/htnstratum/webui.go\<close>): the texts that the template and, at
  every refresh, \<open>_applyStats\<close> put into the page, and the table of blocks per worker, which the
  visitor sorts by clicking on its headers. Lower case of names is a parameter, as it follows the
  Unicode tables; counts are far below \<open>2^53\<close>.
\<close>

subsection \<open>The numbers of a wallet\<close>

record worker_text =
  wt_name :: string
  wt_live :: string
  wt_hour :: string
  wt_day :: string
  wt_blocks :: string

record page_texts =
  pt_nethash :: string
  pt_counts :: "string \<times> string \<times> string"
  pt_percent :: string
  pt_mined :: string
  pt_workers :: string
  pt_rows :: "worker_text list"
  pt_total :: worker_text

text \<open>As the server renders them.\<close>

definition net_hash_text :: "f64 \<Rightarrow> string" where
  "net_hash_text nh =
     ''Net Hash: '' @
     (if f64_le (Fin 1000) nh then fmt_fixed 2 (f64_div nh (Fin 1000)) @ '' GH/s'' else fmt_fixed 2 nh @ '' MH/s'')"

definition worker_cells :: "worker_live_stat \<Rightarrow> worker_text" where
  "worker_cells w =
     \<lparr>wt_name = wl_Name w, wt_live = stringifyHashrate (wl_LiveGHs w), wt_hour = stringifyHashrate (wl_OneHrGHs w),
      wt_day = stringifyHashrate (wl_TwentyFourHrGHs w), wt_blocks = int_str (wl_BlocksFound w)\<rparr>"

definition total_cells :: "live_totals \<Rightarrow> worker_text" where
  "total_cells t =
     \<lparr>wt_name = ''Total'', wt_live = stringifyHashrate (lt_live t), wt_hour = stringifyHashrate (lt_oneHr t),
      wt_day = stringifyHashrate (lt_day t), wt_blocks = int_str (lt_blocks t)\<rparr>"

definition count_texts :: "nat \<times> nat \<times> nat \<Rightarrow> string \<times> string \<times> string" where
  "count_texts c = (case c of (blue, red, pend) \<Rightarrow> (dec_str blue, dec_str red, dec_str pend))"

definition template_texts :: "stats_page \<Rightarrow> page_texts" where
  "template_texts p =
     \<lparr>pt_nethash = net_hash_text (sp_NetHash p), pt_counts = count_texts (sp_Counts p),
      pt_percent = fmt_fixed 1 (sp_BluePercent p) @ ''%'', pt_mined = fmtAtoms (sp_TotalAtoms p),
      pt_workers = dec_str (length (sp_LiveWorkers p)), pt_rows = map worker_cells (sp_LiveWorkers p),
      pt_total = total_cells (sp_Totals p)\<rparr>"

text \<open>As the script refreshes them; \<open>|| 0\<close> replaces what is not a number.\<close>

definition or_zero :: "f64 \<Rightarrow> f64" where
  "or_zero x = (if x = FNaN \<or> f64_is_zero x then Fin 0 else x)"

definition js_net_hash :: "f64 \<Rightarrow> string" where
  "js_net_hash x =
     (let nh = or_zero x
      in ''Net Hash: '' @
         (if f64_le (Fin 1000) nh then toFixed 2 (f64_div nh (Fin 1000)) @ '' GH/s'' else toFixed 2 nh @ '' MH/s''))"

definition js_cells :: "worker_live_stat \<Rightarrow> worker_text" where
  "js_cells w =
     \<lparr>wt_name = escHtml (wl_Name w), wt_live = js_fmtHashrate (or_zero (wl_LiveGHs w)),
      wt_hour = js_fmtHashrate (or_zero (wl_OneHrGHs w)), wt_day = js_fmtHashrate (or_zero (wl_TwentyFourHrGHs w)),
      wt_blocks = int_str (wl_BlocksFound w)\<rparr>"

definition js_total :: "worker_live_stat list \<Rightarrow> worker_text" where
  "js_total ws =
     (let tot = (\<lambda>f. js_fmtHashrate (fold (\<lambda>w t. f64_add t (or_zero (f w))) ws (Fin 0)))
      in \<lparr>wt_name = ''Total'', wt_live = tot wl_LiveGHs, wt_hour = tot wl_OneHrGHs, wt_day = tot wl_TwentyFourHrGHs,
          wt_blocks = int_str (sum_list (map wl_BlocksFound ws))\<rparr>)"

definition applyStats :: "api_stats_body \<Rightarrow> page_texts \<Rightarrow> page_texts" where
  "applyStats d p =
     (let p1 = p\<lparr>pt_nethash := js_net_hash (as_NetHash d), pt_counts := count_texts (as_Counts d),
                 pt_percent := toFixed 1 (or_zero (as_BluePercent d)) @ ''%'',
                 pt_mined := js_fmtAtoms (f64_of_int (int (as_TotalAtoms d))),
                 pt_workers := dec_str (length (as_LiveWorkers d))\<rparr>
      in if as_LiveWorkers d \<noteq> []
         then p1\<lparr>pt_rows := map js_cells (as_LiveWorkers d), pt_total := js_total (as_LiveWorkers d)\<rparr>
         else p1)"

subsection \<open>Blocks per worker\<close>

datatype wbs_column = ByName | ByBlue | ByRed | ByPercent

record wbs_view =
  wbs_data :: "worker_block_count list"
  wbs_col :: wbs_column
  wbs_asc :: bool

definition wbs_start :: wbs_view where
  "wbs_start = \<lparr>wbs_data = [], wbs_col = ByPercent, wbs_asc = False\<rparr>"

definition fetchWorkerBlockStats :: "worker_block_count list \<Rightarrow> wbs_view \<Rightarrow> wbs_view" where
  "fetchWorkerBlockStats ws v = v\<lparr>wbs_data := ws\<rparr>"

definition sortWbsTable :: "wbs_column \<Rightarrow> wbs_view \<Rightarrow> wbs_view" where
  "sortWbsTable col v =
     (if wbs_col v = col then v\<lparr>wbs_asc := \<not> wbs_asc v\<rparr>
      else v\<lparr>wbs_col := col, wbs_asc := (col = ByName)\<rparr>)"

text \<open>Strings of the script are compared by their UTF-16 code units.\<close>

definition utf16_units :: "string \<Rightarrow> nat list" where
  "utf16_units s =
     concat (map (\<lambda>(ok, v, bs).
       if \<not> ok then [65533]
       else if v < 65536 then [v]
       else [55296 + (v - 65536) div 1024, 56320 + (v - 65536) mod 1024]) (runes s))"

fun wbs_number :: "wbs_column \<Rightarrow> worker_block_count \<Rightarrow> f64" where
  "wbs_number ByBlue w = f64_of_int (int (wc_Blue w))"
| "wbs_number ByRed w = f64_of_int (int (wc_Red w))"
| "wbs_number _ w = wc_BluePercent w"

text \<open>The comparison that \<open>renderWbsTable\<close> hands to \<open>sort\<close>.\<close>

definition wbs_compare ::
  "(string \<Rightarrow> string) \<Rightarrow> wbs_column \<Rightarrow> bool \<Rightarrow> worker_block_count \<Rightarrow> worker_block_count \<Rightarrow> f64" where
  "wbs_compare lower col asc a b =
     (if col = ByName
      then (let av = utf16_units (lower (wc_WorkerName a)); bv = utf16_units (lower (wc_WorkerName b))
            in if av < bv then (if asc then Fin (- 1) else Fin 1)
               else if bv < av then (if asc then Fin 1 else Fin (- 1))
               else Fin 0)
      else (let av = or_zero (wbs_number col a); bv = or_zero (wbs_number col b)
            in if asc then f64_sub av bv else f64_sub bv av))"

text \<open>\<open>Array.prototype.sort\<close> is stable: it puts an element after those that do not compare greater.\<close>

fun js_insert :: "('a \<Rightarrow> 'a \<Rightarrow> f64) \<Rightarrow> 'a \<Rightarrow> 'a list \<Rightarrow> 'a list" where
  "js_insert cmp x [] = [x]"
| "js_insert cmp x (y # ys) = (if f64_lt (Fin 0) (cmp x y) then y # js_insert cmp x ys else x # y # ys)"

definition js_sort :: "('a \<Rightarrow> 'a \<Rightarrow> f64) \<Rightarrow> 'a list \<Rightarrow> 'a list" where
  "js_sort cmp xs = foldr (js_insert cmp) xs []"

record wbs_row =
  wr_name :: string
  wr_blue :: string
  wr_red :: string
  wr_percent :: string

definition wbs_cells :: "worker_block_count \<Rightarrow> wbs_row" where
  "wbs_cells w =
     \<lparr>wr_name = escHtml (wc_WorkerName w), wr_blue = dec_str (wc_Blue w), wr_red = dec_str (wc_Red w),
      wr_percent = toFixed 1 (or_zero (wc_BluePercent w)) @ ''%''\<rparr>"

text \<open>The rows of the table, or none when it says that there is no data.\<close>

definition renderWbsTable :: "(string \<Rightarrow> string) \<Rightarrow> wbs_view \<Rightarrow> wbs_row list" where
  "renderWbsTable lower v = map wbs_cells (js_sort (wbs_compare lower (wbs_col v) (wbs_asc v)) (wbs_data v))"

text \<open>The arrow at a header: up, down, or both ways.\<close>

definition wbs_arrow :: "wbs_column \<Rightarrow> wbs_view \<Rightarrow> string" where
  "wbs_arrow col v =
     map char_of (if col = wbs_col v then (if wbs_asc v then [226 :: nat, 134, 145] else [226, 134, 147]) else [226, 134, 149])"

subsection \<open>Laws\<close>

lemma mset_js_insert [simp]: "mset (js_insert cmp x ys) = add_mset x (mset ys)"
  by (induction ys) auto

lemma mset_js_sort [simp]: "mset (js_sort cmp xs) = mset xs"
  by (induction xs) (simp_all add: js_sort_def)

lemma set_js_sort [simp]: "set (js_sort cmp xs) = set xs"
  by (metis mset_js_sort set_mset_mset)

text \<open>A comparison that agrees with a total preorder sorts by it.\<close>

lemma sorted_js_insert:
  assumes "\<And>y. y \<in> set ys \<Longrightarrow> f64_lt (Fin 0) (cmp x y) \<longleftrightarrow> \<not> le x y" "transp le" "\<And>a b. le a b \<or> le b a" "sorted_wrt le ys"
  shows "sorted_wrt le (js_insert cmp x ys)"
  using assms(1,4)
proof (induction ys)
  case (Cons y ys)
  have "set (js_insert cmp x ys) = insert x (set ys)" by (metis mset_js_insert set_mset_add_mset_insert set_mset_mset)
  then show ?case using Cons assms(3) by (auto dest: transpD [OF assms(2)])
qed simp

lemma sorted_js_sort:
  assumes "\<And>x y. x \<in> set xs \<Longrightarrow> y \<in> set xs \<Longrightarrow> f64_lt (Fin 0) (cmp x y) \<longleftrightarrow> \<not> le x y" "transp le" "\<And>a b. le a b \<or> le b a"
  shows "sorted_wrt le (js_sort cmp xs)"
  using assms(1)
proof (induction xs)
  case (Cons x xs)
  have "sorted_wrt le (js_sort cmp xs)" using Cons by simp
  then have "sorted_wrt le (js_insert cmp x (js_sort cmp xs))" using Cons.prems
    by (intro sorted_js_insert assms(2,3)) auto
  then show ?case by (simp add: js_sort_def)
qed (simp add: js_sort_def)

lemma js_sort_by_key:
  fixes key :: "'a \<Rightarrow> 'k :: linorder"
  assumes "\<And>x y. x \<in> set xs \<Longrightarrow> y \<in> set xs \<Longrightarrow>
    f64_lt (Fin 0) (cmp x y) \<longleftrightarrow> (if asc then key y < key x else key x < key y)"
  shows "sorted (map key (if asc then js_sort cmp xs else rev (js_sort cmp xs)))"
proof (cases asc)
  case True
  have "sorted_wrt (\<lambda>a b. key a \<le> key b) (js_sort cmp xs)"
    by (rule sorted_js_sort) (use assms True in \<open>auto simp: not_le intro!: transpI\<close>)
  then show ?thesis using True by (simp add: sorted_wrt_map)
next
  case False
  have "sorted_wrt (\<lambda>a b. key b \<le> key a) (js_sort cmp xs)"
    by (rule sorted_js_sort) (use assms False in \<open>auto simp: not_le intro!: transpI\<close>)
  then show ?thesis using False by (simp add: sorted_wrt_map sorted_wrt_rev rev_map)
qed

text \<open>The sign of a difference of doubles is exact: doubles are multiples of the least one.\<close>

definition grid :: "rat \<Rightarrow> bool" where
  "grid r \<longleftrightarrow> (\<exists>k. r = of_int k * pow2 (- 1074))"

lemma grid_diff: "grid a \<Longrightarrow> grid b \<Longrightarrow> grid (a - b)"
  unfolding grid_def by (metis left_diff_distrib of_int_diff)

lemma grid_shift: "- 1074 \<le> e \<Longrightarrow> grid (of_int m * pow2 e)"
proof -
  assume e: "- 1074 \<le> e"
  have "pow2 e = of_int (2 ^ nat (e + 1074)) * pow2 (- 1074)"
    using e pow2_add [of "e + 1074" "- 1074"] pow2_nat [of "nat (e + 1074)"] by simp
  then have "of_int m * pow2 e = of_int (m * 2 ^ nat (e + 1074)) * pow2 (- 1074)" by simp
  then show ?thesis unfolding grid_def by blast
qed

lemma grid_double:
  assumes "f64_value x"
  shows "grid (f64_rat x)"
proof (cases x)
  case (Fin r)
  show ?thesis
  proof (cases "r = 0")
    case False
    define e where "e = max (ilog2 \<bar>r\<bar>) (- 1022) - 52"
    have "f64_round (r < 0) r = Fin r" using assms unfolding f64_value_def Fin by simp
    then have "r = of_int (round_half_even (r / pow2 e)) * pow2 e"
      using False by (auto simp: f64_round_def f64_zero_def Let_def e_def split: if_splits)
    moreover have "- 1074 \<le> e" by (simp add: e_def)
    ultimately show ?thesis using grid_shift [of e] by (metis Fin f64_rat.simps(1))
  qed (simp add: Fin grid_def)
qed (auto simp: grid_def)

lemma grid_least: "grid r \<Longrightarrow> r \<noteq> 0 \<Longrightarrow> pow2 (- 1074) \<le> \<bar>r\<bar>"
proof -
  assume "grid r" "r \<noteq> 0"
  then obtain k where k: "r = of_int k * pow2 (- 1074)" "k \<noteq> 0" by (auto simp: grid_def)
  have "1 \<le> \<bar>rat_of_int k\<bar>" using k(2) by linarith
  then have "1 * pow2 (- 1074) \<le> \<bar>rat_of_int k\<bar> * pow2 (- 1074)" by (rule mult_right_mono) simp
  then show ?thesis by (simp add: k(1) abs_mult)
qed

lemma f64_round_sign:
  assumes "grid r" "r \<noteq> 0"
  shows "f64_lt (Fin 0) (f64_round neg r) \<longleftrightarrow> 0 < r"
proof -
  define u where "u = pow2 (max (ilog2 \<bar>r\<bar>) (- 1022) - 52)"
  have u: "0 < u" by (simp add: u_def)
  have "u \<le> \<bar>r\<bar>"
  proof (cases "- 1022 \<le> ilog2 \<bar>r\<bar>")
    case True
    then have "u \<le> pow2 (ilog2 \<bar>r\<bar>)" unfolding u_def by (intro pow2_mono) simp
    then show ?thesis using ilog2_bounds(1) [of "\<bar>r\<bar>"] assms(2) by simp
  next
    case False
    then have "u = pow2 (- 1074)" by (simp add: u_def max_def)
    then show ?thesis using grid_least [OF assms] by simp
  qed
  then have q: "1 \<le> \<bar>r / u\<bar>" using u by (simp add: abs_divide)
  have "0 < round_half_even (r / u) \<longleftrightarrow> 0 < r" "round_half_even (r / u) \<noteq> 0"
  proof -
    have "1 \<le> round_half_even (r / u)" if "0 < r"
      using round_half_even_mono [of 1 "r / u"] round_half_even_of_int [of 1] q u that by simp
    moreover have "round_half_even (r / u) \<le> - 1" if "r < 0"
      using round_half_even_mono [of "r / u" "- 1"] round_half_even_of_int [of "- 1"] q u that
      by (simp add: abs_divide field_simps)
    ultimately show "0 < round_half_even (r / u) \<longleftrightarrow> 0 < r" "round_half_even (r / u) \<noteq> 0"
      using assms(2) by (cases "0 < r"; force)+
  qed
  then show ?thesis using assms(2) u
    by (auto simp: f64_round_def u_def [symmetric] Let_def zero_less_mult_iff)
qed

lemma f64_value_cases: "f64_value x \<Longrightarrow> x = FNegZero \<or> (\<exists>r. x = Fin r)"
  by (cases x) (simp_all add: f64_value_def f64_round_def f64_zero_def split: if_splits)

lemma f64_sub_sign:
  assumes "f64_value x" "f64_value y"
  shows "f64_lt (Fin 0) (f64_sub x y) \<longleftrightarrow> f64_rat y < f64_rat x"
proof -
  have r: "f64_sub x y = f64_round (f64_neg x \<and> f64_neg (f64_minus y)) (f64_rat x - f64_rat y)"
    using f64_value_cases [OF assms(1)] f64_value_cases [OF assms(2)] by (auto simp: f64_sub_def)
  show ?thesis
  proof (cases "f64_rat x = f64_rat y")
    case True
    then show ?thesis unfolding r by (simp add: f64_round_def f64_zero_def)
  next
    case False
    then show ?thesis unfolding r
      using f64_round_sign [OF grid_diff [OF grid_double [OF assms(1)] grid_double [OF assms(2)]]] by simp
  qed
qed

lemma or_zero_value: "f64_value x \<Longrightarrow> f64_value (or_zero x) \<and> f64_rat (or_zero x) = f64_rat x"
  using f64_value_cases [of x] by (auto simp: or_zero_def) (simp add: f64_value_def f64_round_def f64_zero_def)

text \<open>Fractions with a small numerator and a power of two below are doubles.\<close>

lemma ilog2_scale: "0 < x \<Longrightarrow> ilog2 (x * pow2 e) = ilog2 x + e"
  by (rule ilog2_unique) (use ilog2_bounds [of x] in \<open>simp_all add: pow2_add [of _ e] add.commute [of _ "1 :: int"] add.left_commute
      pow2_add [of 1] mult.assoc [symmetric]\<close>)

lemma f64_round_dyadic:
  assumes "0 < n" "n < 2 ^ 53" "- 1022 \<le> e" "e \<le> 900"
  shows "f64_round b (of_int n * pow2 e) = Fin (of_int n * pow2 e)"
proof -
  have "rat_of_int n < of_int (2 ^ 53)" using assms(2) by (simp only: of_int_less_iff)
  then have "pow2 0 \<le> rat_of_int n" "rat_of_int n < pow2 53" using assms(1) by (simp_all add: pow2_def)
  note i = ilog2_range [OF this]
  have pos: "0 < rat_of_int n" using assms(1) by simp
  have sc: "ilog2 (of_int n * pow2 e) = ilog2 (of_int n) + e" by (rule ilog2_scale [OF pos])
  have "pow2 (ilog2 (of_int n) + e - 52) = pow2 (ilog2 (of_int n) - 52) * pow2 e"
    using pow2_add [of "ilog2 (of_int n) - 52" e] by (simp add: algebra_simps)
  then have "bf_round 53 (of_int n * pow2 e) = bf_round 53 (of_int n) * pow2 e"
    using pos by (simp add: bf_round_def Let_def sc)
  then show ?thesis
    using f64_round_between [of "of_int n * pow2 e" b] i assms pos by (simp add: sc bf_round_int)
qed

subsection \<open>Properties\<close>

text \<open>What orders the rows: a name or a number.\<close>

definition name_key :: "(string \<Rightarrow> string) \<Rightarrow> worker_block_count \<Rightarrow> nat list" where
  "name_key lower w = utf16_units (lower (wc_WorkerName w))"

definition number_key :: "wbs_column \<Rightarrow> worker_block_count \<Rightarrow> rat" where
  "number_key col w = f64_rat (wbs_number col w)"

definition shown_workers :: "(string \<Rightarrow> string) \<Rightarrow> wbs_view \<Rightarrow> worker_block_count list" where
  "shown_workers lower v = js_sort (wbs_compare lower (wbs_col v) (wbs_asc v)) (wbs_data v)"

text \<open>
  The table of blocks per worker shows every worker once, sorted by the chosen column in the
  chosen direction; clicking on the header of that column again turns the direction round, and
  nothing in a worker's name can open a tag.
\<close>

theorem worker_table_sorted:
  assumes "list_all (\<lambda>w. f64_value (wbs_number (wbs_col v) w)) (wbs_data v)"
  shows "mset (shown_workers lower v) = mset (wbs_data v) \<and>
    (let ws = shown_workers lower v; up = (if wbs_asc v then ws else rev ws)
     in (if wbs_col v = ByName then sorted (map (name_key lower) up) else sorted (map (number_key (wbs_col v)) up))) \<and>
    renderWbsTable lower v = map wbs_cells (shown_workers lower v) \<and>
    wbs_asc (sortWbsTable (wbs_col v) v) = (\<not> wbs_asc v) \<and>
    (\<forall>r \<in> set (renderWbsTable lower v). CHR ''<'' \<notin> set (wr_name r))"
proof -
  let ?cmp = "wbs_compare lower (wbs_col v) (wbs_asc v)"
  have number: "f64_lt (Fin 0) (?cmp a b) \<longleftrightarrow>
      (if wbs_asc v then number_key (wbs_col v) b < number_key (wbs_col v) a else number_key (wbs_col v) a < number_key (wbs_col v) b)"
    if "wbs_col v \<noteq> ByName" "a \<in> set (wbs_data v)" "b \<in> set (wbs_data v)" for a b
    using that assms or_zero_value f64_sub_sign by (auto simp: list_all_iff wbs_compare_def number_key_def Let_def)
  have name: "f64_lt (Fin 0) (?cmp a b) \<longleftrightarrow>
      (if wbs_asc v then name_key lower b < name_key lower a else name_key lower a < name_key lower b)"
    if "wbs_col v = ByName" for a b
    using that by (auto simp: wbs_compare_def name_key_def Let_def)
  let ?up = "if wbs_asc v then shown_workers lower v else rev (shown_workers lower v)"
  have "sorted (map (name_key lower) ?up)" if "wbs_col v = ByName"
    unfolding shown_workers_def by (rule js_sort_by_key) (rule name [OF that])
  moreover have "sorted (map (number_key (wbs_col v)) ?up)" if "wbs_col v \<noteq> ByName"
    unfolding shown_workers_def by (rule js_sort_by_key) (rule number [OF that])
  ultimately have "if wbs_col v = ByName then sorted (map (name_key lower) ?up) else sorted (map (number_key (wbs_col v)) ?up)"
    by simp
  then show ?thesis
    by (auto simp: shown_workers_def renderWbsTable_def sortWbsTable_def wbs_cells_def Let_def dest: escHtml_inert)
qed

definition sample_workers :: wbs_view where
  "sample_workers =
     \<lparr>wbs_data = [\<lparr>wc_WorkerName = ''<b>'', wc_Blue = 1, wc_Red = 1, wc_BluePercent = Fin 50\<rparr>,
        \<lparr>wc_WorkerName = ''rig'', wc_Blue = 3, wc_Red = 1, wc_BluePercent = Fin 75\<rparr>],
      wbs_col = ByPercent, wbs_asc = False\<rparr>"

theorem worker_table_sorted_witness:
  "sorted (map (number_key ByPercent) (rev (shown_workers (\<lambda>s. s) sample_workers)))"
proof -
  have "f64_value (Fin 50)" "f64_value (Fin 75)"
    using f64_round_dyadic [of 50 0 False] f64_round_dyadic [of 75 0 False] by (simp_all add: f64_value_def)
  then show ?thesis using worker_table_sorted [of sample_workers "\<lambda>s. s"]
    by (simp add: sample_workers_def Let_def)
qed

text \<open>
  The template and the script round ties differently: with one blue block among sixteen the page
  says 6.2% when it is loaded and 6.3% after the first refresh.
\<close>

theorem percent_flickers:
  "pt_percent (template_texts p) = ''6.2%'' \<and> pt_percent (applyStats d t) = ''6.3%''"
  if "sp_BluePercent p = blue_percent 1 15" "as_BluePercent d = blue_percent 1 15"
proof -
  have "f64_round False (1 / 16) = Fin (1 / 16)" "f64_round False (25 / 4) = Fin (25 / 4)"
    using f64_round_dyadic [of 1 "- 4" False] f64_round_dyadic [of 25 "- 2" False] by (simp_all add: pow2_def)
  then have "blue_percent 1 15 = Fin (25 / 4)" by (simp add: blue_percent_def f64_of_int_small)
  moreover have "fmt_fixed 1 (Fin (25 / 4)) = ''6.2''" "toFixed 1 (or_zero (Fin (25 / 4))) = ''6.3''" by code_simp+
  ultimately have "fmt_fixed 1 (blue_percent 1 15) = ''6.2''" "toFixed 1 (or_zero (blue_percent 1 15)) = ''6.3''" by simp_all
  then show ?thesis using that by (simp add: template_texts_def applyStats_def Let_def)
qed

text \<open>
  What a refresh changes: counts and mined amounts are those that the server would render, but
  when the last worker has gone its row and the totals stay on the page.
\<close>

theorem refresh_agrees:
  assumes "as_Counts d = sp_Counts p" "as_TotalAtoms d = sp_TotalAtoms p" "as_LiveWorkers d = sp_LiveWorkers p"
    "sp_TotalAtoms p \<le> 3000000000000000"
  shows "pt_counts (applyStats d t) = pt_counts (template_texts p) \<and> pt_mined (applyStats d t) = pt_mined (template_texts p) \<and>
    pt_workers (applyStats d t) = pt_workers (template_texts p) \<and>
    (sp_LiveWorkers p = [] \<longrightarrow> pt_rows (applyStats d t) = pt_rows t \<and> pt_total (applyStats d t) = pt_total t) \<and>
    (sp_LiveWorkers p \<noteq> [] \<longrightarrow> map (\<lambda>r. html_text (wt_name r)) (pt_rows (applyStats d t)) = map wt_name (pt_rows (template_texts p)))"
  using assms amounts_exact [OF assms(4)]
  by (simp add: applyStats_def template_texts_def Let_def js_cells_def worker_cells_def html_text_escHtml)

end
