(* ===== verification/Page_Timers.thy ===== *)
theory Page_Timers
  imports Live_Page
begin

text \<open>
  The timers of the statistics page (\<open>src/htnstratum/webui.go\<close>): the refresh every half minute with
  the overlay that covers the page meanwhile, the countdown beside the title, and the buttons that
  copy a hash. Times are milliseconds since the page was loaded; timers fire when they are due and
  answers come at any time. What a refresh puts into the page is in \<open>Live_Page\<close> and \<open>Web_Page\<close>.
\<close>

subsection \<open>The refresh and its countdown\<close>

record page_timers =
  pt_now :: int
  overlay :: bool
  countdownSeconds :: int
  countdown_label :: string
  countdownTimer :: "int option" \<comment> \<open>when it ticks next\<close>
  kickoff :: "int option" \<comment> \<open>the first refresh\<close>
  refreshInterval :: int \<comment> \<open>when it fires next\<close>
  asked :: "int list" \<comment> \<open>the starts of the refreshes that are not answered\<close>
  finishing :: "int list" \<comment> \<open>when the timers that call \<open>finish\<close> fire\<close>

definition refreshIntervalMs :: int where
  "refreshIntervalMs = 30000"

definition MIN_VISIBLE_MS :: int where
  "MIN_VISIBLE_MS = 1200"

definition seconds_text :: "int \<Rightarrow> string" where
  "seconds_text s = ''Data reload in '' @ int_str s @ '' second'' @ (if s = 1 then [] else ''s'')"

definition updateCountdownLabel :: "page_timers \<Rightarrow> page_timers" where
  "updateCountdownLabel p = p\<lparr>countdown_label := seconds_text (countdownSeconds p)\<rparr>"

definition startCountdown :: "page_timers \<Rightarrow> page_timers" where
  "startCountdown p =
     (updateCountdownLabel (p\<lparr>countdownSeconds := refreshIntervalMs div 1000\<rparr>))\<lparr>countdownTimer := Some (pt_now p + 1000)\<rparr>"

definition countdown_tick :: "page_timers \<Rightarrow> page_timers" where
  "countdown_tick p =
     (let s = countdownSeconds p - 1
      in if s \<le> 0 then (updateCountdownLabel (p\<lparr>countdownSeconds := 0\<rparr>))\<lparr>countdownTimer := None\<rparr>
         else (updateCountdownLabel (p\<lparr>countdownSeconds := s\<rparr>))\<lparr>countdownTimer := Some (pt_now p + 1000)\<rparr>)"

definition showOverlay :: "page_timers \<Rightarrow> page_timers" where
  "showOverlay p = p\<lparr>overlay := True\<rparr>"

definition hideOverlay :: "page_timers \<Rightarrow> page_timers" where
  "hideOverlay p = p\<lparr>overlay := False\<rparr>"

definition finish_refresh :: "page_timers \<Rightarrow> page_timers" where
  "finish_refresh p = startCountdown (hideOverlay p)"

definition refreshStats :: "page_timers \<Rightarrow> page_timers" where
  "refreshStats p = (showOverlay p)\<lparr>asked := pt_now p # asked p\<rparr>"

text \<open>Both answers came, or one of them failed: the overlay stays for its least time.\<close>

definition refresh_answered :: "int \<Rightarrow> page_timers \<Rightarrow> page_timers" where
  "refresh_answered start p =
     (let remaining = MIN_VISIBLE_MS - (pt_now p - start); q = p\<lparr>asked := remove1 start (asked p)\<rparr>
      in if 0 < remaining then q\<lparr>finishing := (pt_now p + remaining) # finishing p\<rparr> else finish_refresh q)"

definition page_loaded :: page_timers where
  "page_loaded =
     startCountdown \<lparr>pt_now = 0, overlay = False, countdownSeconds = refreshIntervalMs div 1000, countdown_label = [],
       countdownTimer = None, kickoff = Some 0, refreshInterval = refreshIntervalMs, asked = [], finishing = []\<rparr>"

text \<open>A timer that is due fires before time goes on.\<close>

definition due_times :: "page_timers \<Rightarrow> int list" where
  "due_times p =
     (case countdownTimer p of None \<Rightarrow> [] | Some t \<Rightarrow> [t]) @ (case kickoff p of None \<Rightarrow> [] | Some t \<Rightarrow> [t]) @
     refreshInterval p # finishing p"

definition at_time :: "int \<Rightarrow> page_timers \<Rightarrow> bool" where
  "at_time t p \<longleftrightarrow> pt_now p \<le> t \<and> list_all ((\<le>) t) (due_times p)"

inductive timer_step :: "page_timers \<Rightarrow> page_timers \<Rightarrow> bool" where
  Tick: "at_time t p \<Longrightarrow> countdownTimer p = Some t \<Longrightarrow> timer_step p (countdown_tick (p\<lparr>pt_now := t\<rparr>))"
| Kickoff: "at_time t p \<Longrightarrow> kickoff p = Some t \<Longrightarrow> timer_step p (refreshStats (p\<lparr>pt_now := t, kickoff := None\<rparr>))"
| Reload: "at_time t p \<Longrightarrow> refreshInterval p = t \<Longrightarrow>
    timer_step p (refreshStats (p\<lparr>pt_now := t, refreshInterval := t + refreshIntervalMs\<rparr>))"
| Answer: "at_time t p \<Longrightarrow> start \<in> set (asked p) \<Longrightarrow> timer_step p (refresh_answered start (p\<lparr>pt_now := t\<rparr>))"
| Finish: "at_time t p \<Longrightarrow> t \<in> set (finishing p) \<Longrightarrow>
    timer_step p (finish_refresh (p\<lparr>pt_now := t, finishing := remove1 t (finishing p)\<rparr>))"

inductive timer_run :: "page_timers \<Rightarrow> bool" where
  Loaded: "timer_run page_loaded"
| Later: "timer_run p \<Longrightarrow> timer_step p q \<Longrightarrow> timer_run q"

subsection \<open>Laws of the timers\<close>

lemmas timer_defs = updateCountdownLabel_def startCountdown_def countdown_tick_def finish_refresh_def refreshStats_def
  showOverlay_def hideOverlay_def refresh_answered_def refreshIntervalMs_def MIN_VISIBLE_MS_def at_time_def due_times_def Let_def

text \<open>
  The countdown was last started at \<open>f\<close> and has ticked \<open>k\<close> times; the last refresh began half a
  minute before the next, and once it has finished the countdown is younger than it.
\<close>

definition countdown_at :: "int \<Rightarrow> int \<Rightarrow> page_timers \<Rightarrow> bool" where
  "countdown_at f k p \<longleftrightarrow>
     countdownSeconds p = 30 - k \<and> 0 \<le> k \<and> k \<le> 30 \<and> f + 1000 * k \<le> pt_now p \<and>
     countdownTimer p = (if k = 30 then None else Some (f + 1000 * (k + 1))) \<and>
     countdown_label p = seconds_text (countdownSeconds p)"

definition last_refresh_done :: "int \<Rightarrow> page_timers \<Rightarrow> bool" where
  "last_refresh_done f p \<longleftrightarrow>
     (let r = refreshInterval p - 30000
      in kickoff p = Some 0 \<and> r = 0 \<or> r \<in> set (asked p) \<or> r + 1200 \<in> set (finishing p) \<or> r + 1200 \<le> f)"

definition timers_ok :: "page_timers \<Rightarrow> bool" where
  "timers_ok p \<longleftrightarrow>
     (\<exists>f k. countdown_at f k p \<and> last_refresh_done f p) \<and>
     (overlay p \<longrightarrow> asked p \<noteq> [] \<or> finishing p \<noteq> []) \<and> (kickoff p = None \<or> kickoff p = Some 0)"

lemma countdown_started: "countdown_at (pt_now p) 0 (startCountdown p)"
  by (simp add: countdown_at_def timer_defs)

lemma countdown_ticks:
  assumes "countdown_at f k p" "countdownTimer p = Some t"
  shows "countdown_at f (k + 1) (countdown_tick (p\<lparr>pt_now := t\<rparr>))"
  using assms by (auto simp: countdown_at_def timer_defs split: if_splits)

lemma countdown_frame:
  "countdown_at f k p \<Longrightarrow> pt_now p \<le> pt_now q \<Longrightarrow> countdownSeconds q = countdownSeconds p \<Longrightarrow>
    countdownTimer q = countdownTimer p \<Longrightarrow> countdown_label q = countdown_label p \<Longrightarrow> countdown_at f k q"
  by (auto simp: countdown_at_def)

lemma restarted_ok:
  assumes "last_refresh_done (pt_now p) p" "kickoff p = None \<or> kickoff p = Some 0"
  shows "timers_ok (finish_refresh p)"
proof -
  have "countdown_at (pt_now p) 0 (finish_refresh p)"
    using countdown_started [of "hideOverlay p"] by (simp add: finish_refresh_def hideOverlay_def)
  moreover have "last_refresh_done (pt_now p) (finish_refresh p)"
    using assms(1) by (simp add: last_refresh_done_def timer_defs)
  moreover have "\<not> overlay (finish_refresh p)" "kickoff (finish_refresh p) = kickoff p"
    by (simp_all add: timer_defs)
  ultimately show ?thesis unfolding timers_ok_def using assms(2) by metis
qed

lemma timers_ok_step:
  assumes "timers_ok p" "timer_step p q"
  shows "timers_ok q"
proof -
  obtain f k where c: "countdown_at f k p" and l: "last_refresh_done f p"
    and o: "overlay p \<Longrightarrow> asked p \<noteq> [] \<or> finishing p \<noteq> []" and i: "kickoff p = None \<or> kickoff p = Some 0"
    using assms(1) unfolding timers_ok_def by blast
  have f: "f \<le> pt_now p" using c by (simp add: countdown_at_def)
  show ?thesis using assms(2)
  proof cases
    case (Tick t)
    then have "countdown_at f (k + 1) q" using countdown_ticks [OF c] by simp
    moreover have "last_refresh_done f q" "overlay q = overlay p" "asked q = asked p" "finishing q = finishing p" "kickoff q = kickoff p"
      using l Tick(1) by (simp_all add: last_refresh_done_def timer_defs)
    ultimately show ?thesis unfolding timers_ok_def using o i by metis
  next
    case (Kickoff t)
    have "countdown_at f k q" using c Kickoff by (intro countdown_frame [OF c]) (simp_all add: timer_defs)
    moreover have "last_refresh_done f q" using l i Kickoff by (auto simp: last_refresh_done_def timer_defs)
    ultimately show ?thesis unfolding timers_ok_def using Kickoff(1) by (auto simp: refreshStats_def showOverlay_def)
  next
    case (Reload t)
    have "countdown_at f k q" using c Reload by (intro countdown_frame [OF c]) (simp_all add: timer_defs)
    moreover have "last_refresh_done f q" using Reload by (auto simp: last_refresh_done_def timer_defs)
    ultimately show ?thesis unfolding timers_ok_def using Reload(1) i by (auto simp: refreshStats_def showOverlay_def)
  next
    case (Answer t start)
    show ?thesis
    proof (cases "0 < MIN_VISIBLE_MS - (t - start)")
      case True
      then have q: "q = p\<lparr>pt_now := t, asked := remove1 start (asked p), finishing := (start + 1200) # finishing p\<rparr>"
        using Answer(1) by (simp add: refresh_answered_def Let_def MIN_VISIBLE_MS_def)
      have "countdown_at f k q" using Answer(2) by (intro countdown_frame [OF c]) (simp_all add: q at_time_def)
      moreover have "last_refresh_done f q" using l by (cases "refreshInterval p - 30000 = start")
          (auto simp: last_refresh_done_def q Let_def)
      ultimately show ?thesis unfolding timers_ok_def using i q by auto
    next
      case False
      then have q: "q = finish_refresh (p\<lparr>pt_now := t, asked := remove1 start (asked p)\<rparr>)"
        using Answer(1) by (simp add: refresh_answered_def Let_def)
      have "last_refresh_done t (p\<lparr>pt_now := t, asked := remove1 start (asked p)\<rparr>)"
        using l f False Answer(2) by (cases "refreshInterval p - 30000 = start")
          (auto simp: last_refresh_done_def Let_def at_time_def MIN_VISIBLE_MS_def)
      then show ?thesis unfolding q using i by (intro restarted_ok) simp_all
    qed
  next
    case (Finish t)
    have "last_refresh_done t (p\<lparr>pt_now := t, finishing := remove1 t (finishing p)\<rparr>)"
      using l f Finish(2) by (cases "refreshInterval p - 30000 + 1200 = t")
        (auto simp: last_refresh_done_def Let_def at_time_def)
    then show ?thesis unfolding Finish(1) using i by (intro restarted_ok) simp_all
  qed
qed

lemma timers_ok_run: "timer_run p \<Longrightarrow> timers_ok p"
proof (induction rule: timer_run.induct)
  case Loaded
  have "countdown_at 0 0 page_loaded" "last_refresh_done 0 page_loaded"
    by (simp_all add: page_loaded_def countdown_at_def last_refresh_done_def timer_defs)
  then show ?case unfolding timers_ok_def by (auto simp: page_loaded_def timer_defs)
qed (rule timers_ok_step)

subsection \<open>Properties\<close>

text \<open>The overlay never stays on the page: it is shown only while a refresh is under way.\<close>

theorem overlay_goes:
  "timer_run p \<Longrightarrow> asked p = [] \<Longrightarrow> finishing p = [] \<Longrightarrow> \<not> overlay p"
  using timers_ok_run [of p] by (auto simp: timers_ok_def)

text \<open>
  The countdown does not count down to the refresh. It starts again when the overlay goes, more
  than a second after a refresh began, but the next refresh comes half a minute after the last one
  began: whenever the page reloads its data and the refreshes before have finished, the
  text beside the title still promises two seconds or more.
\<close>

theorem countdown_behind:
  assumes "timer_run p" "asked p = []" "finishing p = []" "kickoff p = None" "at_time (refreshInterval p) p"
  shows "\<exists>s. 2 \<le> s \<and> s \<le> 30 \<and> countdown_label p = seconds_text s"
proof -
  obtain f k where c: "countdown_at f k p" and l: "last_refresh_done f p"
    using timers_ok_run [OF assms(1)] unfolding timers_ok_def by blast
  have f: "refreshInterval p \<le> f + 28800" using l assms(2-4) by (simp add: last_refresh_done_def)
  have now: "pt_now p \<le> refreshInterval p" using assms(5) by (simp add: at_time_def)
  have "2 \<le> 30 - k" "30 - k \<le> 30" using c f now by (simp_all add: countdown_at_def)
  moreover have "countdown_label p = seconds_text (30 - k)" using c by (simp add: countdown_at_def)
  ultimately show ?thesis by blast
qed

text \<open>The page that is not touched, its first answers after a tenth of a second, as it counts.\<close>

definition counting_page :: "nat \<Rightarrow> page_timers" where
  "counting_page n =
     \<lparr>pt_now = 1200 + 1000 * int n, overlay = False, countdownSeconds = 30 - int n, countdown_label = seconds_text (30 - int n),
      countdownTimer = Some (2200 + 1000 * int n), kickoff = None, refreshInterval = 30000, asked = [], finishing = []\<rparr>"

lemma counting_page_run: "n \<le> 28 \<Longrightarrow> timer_run (counting_page n)"
proof (induction n)
  case 0
  let ?p1 = "refreshStats (page_loaded\<lparr>pt_now := 0, kickoff := None\<rparr>)"
  let ?p2 = "refresh_answered 0 (?p1\<lparr>pt_now := 100\<rparr>)"
  let ?p3 = "countdown_tick (?p2\<lparr>pt_now := 1000\<rparr>)"
  note defs = page_loaded_def timer_defs
  have "timer_step page_loaded ?p1" by (rule timer_step.Kickoff) (simp_all add: defs)
  then have "timer_run ?p1" by (rule Later [OF Loaded])
  moreover have "timer_step ?p1 ?p2" by (rule timer_step.Answer) (simp_all add: defs)
  moreover have "timer_step ?p2 ?p3" by (rule timer_step.Tick) (simp_all add: defs)
  moreover have "timer_step ?p3 (finish_refresh (?p3\<lparr>pt_now := 1200, finishing := remove1 1200 (finishing ?p3)\<rparr>))"
    by (rule timer_step.Finish) (simp_all add: defs)
  moreover have "finish_refresh (?p3\<lparr>pt_now := 1200, finishing := remove1 1200 (finishing ?p3)\<rparr>) = counting_page 0"
    by (simp add: defs counting_page_def)
  ultimately show ?case by (metis Later)
next
  case (Suc n)
  have "timer_step (counting_page n) (countdown_tick ((counting_page n)\<lparr>pt_now := 2200 + 1000 * int n\<rparr>))"
    by (rule timer_step.Tick) (use Suc.prems in \<open>simp_all add: counting_page_def timer_defs\<close>)
  moreover have "countdown_tick ((counting_page n)\<lparr>pt_now := 2200 + 1000 * int n\<rparr>) = counting_page (Suc n)"
    using Suc.prems by (simp add: counting_page_def timer_defs)
  ultimately show ?case using Suc by (simp add: Later)
qed

theorem countdown_behind_witness: "\<exists>s. 2 \<le> s \<and> s \<le> 30 \<and> countdown_label (counting_page 28) = seconds_text s"
  by (rule countdown_behind [OF counting_page_run]) (simp_all add: counting_page_def timer_defs)

subsection \<open>Copying a hash\<close>

text \<open>
  The button that copies a hash shows a check mark and, after a second and a half, what it showed
  before. \<open>copy_done\<close> is what both ways of copying do once the text is copied, \<open>copy_timer\<close> the
  timers that are due; \<open>copied_at\<close> is a button that was clicked at the given times.
\<close>

record copy_button =
  textContent :: string
  restoring :: "(int \<times> string) list"

definition check_mark :: string where
  "check_mark = map char_of [226 :: nat, 156, 147]"

definition copy_sign :: string where
  "copy_sign = map char_of [226 :: nat, 167, 137]"

datatype clipboard = Written | WriteFailed | NoClipboard

definition copy_done :: "int \<Rightarrow> copy_button \<Rightarrow> copy_button" where
  "copy_done t b = b\<lparr>textContent := check_mark, restoring := restoring b @ [(t + 1500, textContent b)]\<rparr>"

definition fallbackCopy :: "int \<Rightarrow> copy_button \<Rightarrow> copy_button" where
  "fallbackCopy t b = copy_done t b"

definition copyHash :: "clipboard \<Rightarrow> int \<Rightarrow> copy_button \<Rightarrow> copy_button" where
  "copyHash c t b =
     (case c of
        Written \<Rightarrow> copy_done t b
      | WriteFailed \<Rightarrow> fallbackCopy t b
      | NoClipboard \<Rightarrow> fallbackCopy t b)"

text \<open>The timers that are due at a time fire in their order.\<close>

definition copy_timer :: "int \<Rightarrow> copy_button \<Rightarrow> copy_button" where
  "copy_timer t b =
     (let fired = takeWhile (\<lambda>r. fst r \<le> t) (restoring b)
      in b\<lparr>textContent := (if fired = [] then textContent b else snd (last fired)),
           restoring := dropWhile (\<lambda>r. fst r \<le> t) (restoring b)\<rparr>)"

definition copied_at :: "(clipboard \<times> int) list \<Rightarrow> copy_button" where
  "copied_at clicks =
     fold (\<lambda>(c, t) b. copyHash c t (copy_timer t b)) clicks \<lparr>textContent = copy_sign, restoring = []\<rparr>"

text \<open>The icon that copies the address restores its own sign, and only if the text was copied.\<close>

definition copyToClipboard :: "bool \<Rightarrow> int \<Rightarrow> copy_button \<Rightarrow> copy_button" where
  "copyToClipboard copied t b =
     (if copied then b\<lparr>textContent := check_mark, restoring := restoring b @ [(t + 2000, copy_sign)]\<rparr> else b)"

definition address_copied_at :: "(bool \<times> int) list \<Rightarrow> copy_button" where
  "address_copied_at clicks =
     fold (\<lambda>(c, t) b. copyToClipboard c t (copy_timer t b)) clicks \<lparr>textContent = copy_sign, restoring = []\<rparr>"

text \<open>The text in the corner of the page, for the time a request took, if it was answered.\<close>

definition updatePing :: "int option \<Rightarrow> string" where
  "updatePing answer =
     (case answer of
        Some ms \<Rightarrow> ''Ping between browser and pool: '' @ int_str ms @ '' ms''
      | None \<Rightarrow> ''Ping: error'')"

lemma copyHash_done: "copyHash c t b = copy_done t b"
  by (cases c) (simp_all add: copyHash_def fallbackCopy_def)

text \<open>
  A second click within a second and a half reads the check mark as the text to restore: the button
  keeps it for good.
\<close>

theorem second_copy_sticks:
  assumes "t \<le> u" "u + 1500 \<le> now"
  shows "textContent (copy_timer now (copied_at [(c, t), (d, u)])) = (if u < t + 1500 then check_mark else copy_sign)"
  using assms by (simp add: copied_at_def copyHash_done copy_done_def copy_timer_def Let_def)

text \<open>The icon of the address never keeps the check mark, however often it is clicked.\<close>

lemma restores_sign:
  assumes "list_all (\<lambda>r. snd r = copy_sign) (restoring b)" "textContent b = copy_sign \<or> restoring b \<noteq> []"
  shows "list_all (\<lambda>r. snd r = copy_sign) (restoring (copy_timer t b)) \<and>
    (textContent (copy_timer t b) = copy_sign \<or> restoring (copy_timer t b) \<noteq> [])"
proof -
  let ?due = "\<lambda>r. fst r \<le> t"
  have left: "list_all (\<lambda>r. snd r = copy_sign) (restoring (copy_timer t b))"
    using assms(1) by (auto simp: copy_timer_def Let_def list_all_iff dest: set_dropWhileD)
  show ?thesis
  proof (cases "takeWhile ?due (restoring b) = []")
    case True
    then have "copy_timer t b = b" by (cases "restoring b") (simp_all add: copy_timer_def Let_def split: if_splits)
    then show ?thesis using assms by simp
  next
    case False
    then have "last (takeWhile ?due (restoring b)) \<in> set (restoring b)" by (metis last_in_set set_takeWhileD)
    then have "snd (last (takeWhile ?due (restoring b))) = copy_sign" using assms(1) by (simp add: list_all_iff)
    then show ?thesis using False left by (simp add: copy_timer_def Let_def)
  qed
qed

theorem address_copy_restores:
  assumes "list_all (\<lambda>(c, t). t + 2000 \<le> now) clicks"
  shows "textContent (copy_timer now (address_copied_at clicks)) = copy_sign"
proof -
  let ?ok = "\<lambda>b. list_all (\<lambda>r. snd r = copy_sign \<and> fst r \<le> now) (restoring b) \<and> (textContent b = copy_sign \<or> restoring b \<noteq> [])"
  have "?ok (fold (\<lambda>(c, t) b. copyToClipboard c t (copy_timer t b)) clicks b)" if "?ok b" for b
    using that assms
  proof (induction clicks arbitrary: b)
    case (Cons click clicks)
    obtain c t where click: "click = (c, t)" by fastforce
    have "list_all (\<lambda>r. snd r = copy_sign) (restoring b)" using Cons.prems(1) by (simp add: list_all_iff)
    then have "list_all (\<lambda>r. snd r = copy_sign) (restoring (copy_timer t b)) \<and>
        (textContent (copy_timer t b) = copy_sign \<or> restoring (copy_timer t b) \<noteq> [])"
      using restores_sign Cons.prems(1) by blast
    moreover have "list_all (\<lambda>r. fst r \<le> now) (restoring (copy_timer t b))"
      using Cons.prems(1) by (auto simp: copy_timer_def Let_def list_all_iff dest: set_dropWhileD)
    ultimately have "?ok (copyToClipboard c t (copy_timer t b))"
      using Cons.prems(2) click by (auto simp: copyToClipboard_def list_all_iff)
    then show ?case using Cons.IH Cons.prems(2) by (simp add: click)
  qed simp
  then have ok: "?ok (address_copied_at clicks)" by (simp add: address_copied_at_def)
  then have all: "takeWhile (\<lambda>r. fst r \<le> now) (restoring (address_copied_at clicks)) = restoring (address_copied_at clicks)"
    by (auto simp: takeWhile_eq_all_conv list_all_iff)
  show ?thesis
  proof (cases "restoring (address_copied_at clicks) = []")
    case False
    then have "snd (last (restoring (address_copied_at clicks))) = copy_sign" using ok by (simp add: list_all_iff)
    then show ?thesis using False by (simp add: copy_timer_def Let_def all)
  qed (use ok in \<open>simp add: copy_timer_def Let_def\<close>)
qed

subsection \<open>The window of the worker statistics\<close>

text \<open>Opening it asks for the numbers, also when they are there already; a click beside the box closes it.\<close>

record wbs_modal =
  wbs_open :: bool
  wbs_requests :: nat

definition openWorkerBlockModal :: "wbs_modal \<Rightarrow> wbs_modal" where
  "openWorkerBlockModal m = m\<lparr>wbs_open := True, wbs_requests := Suc (wbs_requests m)\<rparr>"

definition closeWorkerBlockModal :: "wbs_modal \<Rightarrow> wbs_modal" where
  "closeWorkerBlockModal m = m\<lparr>wbs_open := False\<rparr>"

definition click_overlay :: "bool \<Rightarrow> wbs_modal \<Rightarrow> wbs_modal" where
  "click_overlay onOverlay m = (if onOverlay then closeWorkerBlockModal m else m)"

end
