(* ===== verification/Index_Page.thy ===== *)
theory Index_Page
  imports Web_Page
begin

text \<open>
  The first page of the web interface (\<open>indexTmpl\<close> and its handler in \<open>src/htnstratum/webui.go\<close>): its
  texts, and the script that fetches a list of other pools, shows them, measures how fast each
  answers and says which is the fastest. The list, the answers to the pings and the browser's
  \<open>URL\<close> are parameters; a URL that does not parse throws.
\<close>

subsection \<open>The handler\<close>

text \<open>What the template shows: the fee and the address for miners.\<close>

definition index_texts :: "string \<Rightarrow> f64 \<Rightarrow> string \<times> string" where
  "index_texts stratumAddr feePercent =
     (''By Foztor '' @ fmt_fixed 1 feePercent @ ''% Pool Fee'', ''Connect your miner to '' @ stratumAddr)"

datatype index_answer = IndexNotFound | IndexPage "string \<times> string"

definition index_endpoint :: "string \<Rightarrow> int \<Rightarrow> string \<Rightarrow> index_answer" where
  "index_endpoint stratumAddr feePPM path =
     (if path \<noteq> ''/'' then IndexNotFound else IndexPage (index_texts stratumAddr (fee_percent feePPM)))"

subsection \<open>The list of pools\<close>

record pool =
  pool_url :: string
  location :: string
  operator :: string

record url_parts =
  url_origin :: string
  url_hostname :: string

text \<open>What is left of a URL for the id of a cell: its letters and digits.\<close>

definition ping_id :: "string \<Rightarrow> string" where
  "ping_id url = ''ping-'' @ filter (\<lambda>c. c \<in> set ''abcdefghijklmnopqrstuvwxyzABCDEFGHIJKLMNOPQRSTUVWXYZ0123456789'') url"

definition pool_row :: "pool \<Rightarrow> string" where
  "pool_row p =
     ''<tr>'' @
     ''<td><a href=\"'' @ pool_url p @ ''\">'' @ pool_url p @ ''</a></td>'' @
     ''<td>'' @ location p @ ''</td>'' @
     ''<td>'' @ operator p @ ''</td>'' @
     ''<td id=\"'' @ ping_id (pool_url p) @ ''\">Pinging...</td>'' @
     ''</tr>''"

definition pool_rows :: "pool list \<Rightarrow> string" where
  "pool_rows ps = concat (map pool_row ps)"

subsection \<open>Pings\<close>

text \<open>The time until the server answered, if it did within five seconds; whether it failed does not matter.\<close>

definition pingFQDN :: "int option \<Rightarrow> int" where
  "pingFQDN answer = (case answer of Some ms \<Rightarrow> ms | None \<Rightarrow> - 1)"

record ping_result =
  ping_url :: string
  latency :: int

text \<open>The texts of the cells by their ids, in the order of the document: an id finds the first of them.\<close>

fun set_cell :: "string \<Rightarrow> string \<Rightarrow> (string \<times> string) list \<Rightarrow> (string \<times> string) list" where
  "set_cell i t [] = []"
| "set_cell i t ((j, s) # cells) = (if i = j then (j, t) # cells else (j, s) # set_cell i t cells)"

definition ping_text :: "int \<Rightarrow> string" where
  "ping_text l = (if 0 \<le> l then int_str l @ '' ms'' else ''Error'')"

text \<open>The loop over the results: the cells, the least latency (none at first) and its pool.\<close>

definition ping_shown :: "ping_result \<Rightarrow> (string \<times> string) list \<times> int option \<times> string option \<Rightarrow>
    (string \<times> string) list \<times> int option \<times> string option" where
  "ping_shown r st =
     (case st of (cells, minLatency, bestPool) \<Rightarrow>
        (let cells1 = set_cell (ping_id (ping_url r)) (ping_text (latency r)) cells
         in if 0 \<le> latency r \<and> (case minLatency of None \<Rightarrow> True | Some m \<Rightarrow> latency r < m)
            then (cells1, Some (latency r), Some (ping_url r))
            else (cells1, minLatency, bestPool)))"

definition show_pings :: "ping_result list \<Rightarrow> (string \<times> string) list \<Rightarrow> (string \<times> string) list \<times> int option \<times> string option" where
  "show_pings rs cells = fold ping_shown rs (cells, None, None)"

definition pool_link :: "string \<Rightarrow> string" where
  "pool_link url = ''<a href=\"'' @ url @ ''\">'' @ url @ ''</a>''"

text \<open>The advice below the list. A pool whose list entry parsed has a host name.\<close>

definition advice :: "(string \<Rightarrow> url_parts option) \<Rightarrow> string \<Rightarrow> int option \<Rightarrow> string option \<Rightarrow> string" where
  "advice parse current minLatency bestPool =
     (case (bestPool, minLatency) of
        (Some best, Some m) \<Rightarrow>
          if current \<noteq> [] then
            (if Some current = map_option url_hostname (parse best)
             then ''You are connected to the lowest latency pool!''
             else ''Consider switching to '' @ pool_link best @ '' for lower latency ('' @ int_str m @ '' ms).'')
          else ''Lowest latency pool: '' @ pool_link best @ '' ('' @ int_str m @ '' ms).''
      | _ \<Rightarrow> [])"

record pools_view =
  pools_tbody :: string
  ping_cells :: "(string \<times> string) list"
  ping_advice :: string

definition pools_error :: pools_view where
  "pools_error = \<lparr>pools_tbody = ''<tr><td colspan=\"4\">Error loading pools.</td></tr>'', ping_cells = [], ping_advice = []\<rparr>"

text \<open>
  The script: \<open>data\<close> is what the list server answered, if it did with a list; \<open>answer\<close> is what each
  origin answers to a ping. The rows are on the page while the pings run, but a URL that does not
  parse throws before they start, and the list is replaced by an error.
\<close>

definition load_pools ::
  "(string \<Rightarrow> url_parts option) \<Rightarrow> (string \<Rightarrow> int option) \<Rightarrow> string \<Rightarrow> pool list option \<Rightarrow> pools_view" where
  "load_pools parse answer current data =
     (case data of
        None \<Rightarrow> pools_error
      | Some ps \<Rightarrow>
          if list_all (\<lambda>p. parse (pool_url p) \<noteq> None) ps
          then (let results = map (\<lambda>p. \<lparr>ping_url = pool_url p,
                        latency = pingFQDN (case parse (pool_url p) of None \<Rightarrow> None | Some u \<Rightarrow> answer (url_origin u))\<rparr>) ps;
                    cells = map (\<lambda>p. (ping_id (pool_url p), ''Pinging...'')) ps
                in case show_pings results cells of
                     (cells1, m, best) \<Rightarrow>
                       \<lparr>pools_tbody = pool_rows ps, ping_cells = cells1, ping_advice = advice parse current m best\<rparr>)
          else pools_error)"

subsection \<open>Laws\<close>

text \<open>The pool that was fastest so far: the first of those with the least latency.\<close>

definition fastest :: "ping_result list \<Rightarrow> int option \<Rightarrow> string option \<Rightarrow> bool" where
  "fastest rs m best \<longleftrightarrow>
     (case (m, best) of
        (None, None) \<Rightarrow> (\<forall>r \<in> set rs. latency r < 0)
      | (Some l, Some url) \<Rightarrow> (\<exists>before r after. rs = before @ r # after \<and> latency r = l \<and> ping_url r = url \<and> 0 \<le> l \<and>
            (\<forall>s \<in> set before. 0 \<le> latency s \<longrightarrow> l < latency s) \<and> (\<forall>s \<in> set after. 0 \<le> latency s \<longrightarrow> l \<le> latency s))
      | _ \<Rightarrow> False)"

lemma fastestI:
  assumes "rs = before @ r # after" "0 \<le> latency r"
    "\<And>s. s \<in> set before \<Longrightarrow> 0 \<le> latency s \<Longrightarrow> latency r < latency s"
    "\<And>s. s \<in> set after \<Longrightarrow> 0 \<le> latency s \<Longrightarrow> latency r \<le> latency s"
  shows "fastest rs (Some (latency r)) (Some (ping_url r))"
proof -
  have "rs = before @ r # after \<and> latency r = latency r \<and> ping_url r = ping_url r \<and> 0 \<le> latency r \<and>
      (\<forall>s \<in> set before. 0 \<le> latency s \<longrightarrow> latency r < latency s) \<and> (\<forall>s \<in> set after. 0 \<le> latency s \<longrightarrow> latency r \<le> latency s)"
    using assms by simp
  then show ?thesis unfolding fastest_def option.case prod.case by blast
qed

lemma fastest_new:
  assumes "0 \<le> latency r" "\<And>s. s \<in> set rs \<Longrightarrow> 0 \<le> latency s \<Longrightarrow> latency r < latency s"
  shows "fastest (rs @ [r]) (Some (latency r)) (Some (ping_url r))"
  by (rule fastestI [of _ rs _ "[]"]) (use assms in simp_all)

lemma fastest_step:
  assumes "fastest rs m best" "ping_shown r (cells, m, best) = (cells1, m1, best1)"
  shows "fastest (rs @ [r]) m1 best1"
proof (cases m)
  case None
  then have b: "best = None" "\<And>s. s \<in> set rs \<Longrightarrow> latency s < 0" using assms(1) by (auto simp: fastest_def split: option.splits)
  have "fastest (rs @ [r]) (Some (latency r)) (Some (ping_url r))" if "0 \<le> latency r"
    using that by (rule fastest_new) (use b(2) in force)
  moreover have "fastest (rs @ [r]) None None" if "latency r < 0" using b(2) that by (auto simp: fastest_def)
  ultimately show ?thesis using assms(2) None b(1) by (auto simp: ping_shown_def Let_def split: if_splits)
next
  case (Some l)
  then obtain url before q after where u: "best = Some url" "rs = before @ q # after" "latency q = l" "ping_url q = url" "0 \<le> l"
    "\<And>s. s \<in> set before \<Longrightarrow> 0 \<le> latency s \<Longrightarrow> l < latency s" "\<And>s. s \<in> set after \<Longrightarrow> 0 \<le> latency s \<Longrightarrow> l \<le> latency s"
    using assms(1) by (cases best) (auto simp: fastest_def)
  show ?thesis
  proof (cases "0 \<le> latency r \<and> latency r < l")
    case True
    then have "m1 = Some (latency r)" "best1 = Some (ping_url r)" using assms(2) Some u(1) by (auto simp: ping_shown_def Let_def)
    moreover have "latency r < latency s" if "s \<in> set rs" "0 \<le> latency s" for s
      using that u(2,3) u(6,7) [of s] True by auto
    ultimately show ?thesis using True fastest_new [of r rs] by simp
  next
    case False
    then have "m1 = Some (latency q)" "best1 = Some (ping_url q)"
      using assms(2) Some u(1,3,4) by (auto simp: ping_shown_def Let_def split: if_splits)
    moreover have "fastest (rs @ [r]) (Some (latency q)) (Some (ping_url q))"
      by (rule fastestI [of _ before _ "after @ [r]"]) (use u False in auto)
    ultimately show ?thesis by simp
  qed
qed

lemma show_pings_fastest:
  assumes "show_pings rs cells = (cells1, m, best)"
  shows "fastest rs m best"
proof -
  have "fastest (xs @ rs) m best"
    if "fastest xs m0 best0" "fold ping_shown rs (cells0, m0, best0) = (cells1, m, best)" for xs m0 best0 cells0
    using that
  proof (induction rs arbitrary: xs m0 best0 cells0)
    case (Cons r rs)
    obtain c2 m2 b2 where s: "ping_shown r (cells0, m0, best0) = (c2, m2, b2)" by (metis prod_cases3)
    then show ?case using Cons.IH [OF fastest_step [OF Cons.prems(1) s]] Cons.prems(2) by simp
  qed simp
  from this [of "[]" None None cells] show ?thesis using assms by (simp add: show_pings_def fastest_def)
qed

lemma show_pings_cells:
  assumes "show_pings rs cells = (cells1, m, best)" 
  shows "cells1 = fold (\<lambda>r. set_cell (ping_id (ping_url r)) (ping_text (latency r))) rs cells"
proof -
  have "fst (fold ping_shown rs st) = fold (\<lambda>r. set_cell (ping_id (ping_url r)) (ping_text (latency r))) rs (fst st)" for st
  proof (induction rs arbitrary: st)
    case (Cons r rs)
    have "fst (ping_shown r st) = set_cell (ping_id (ping_url r)) (ping_text (latency r)) (fst st)"
      by (auto simp: ping_shown_def Let_def split: prod.split)
    then show ?case by (simp add: Cons.IH)
  qed simp
  from this [of "(cells, None, None)"] show ?thesis using assms by (simp add: show_pings_def)
qed

lemma set_cell_ids [simp]: "map fst (set_cell i t cells) = map fst cells"
  by (induction cells) auto

lemma set_cell_other: "i \<notin> set (map fst cells) \<Longrightarrow> set_cell i t cells = cells"
  by (induction cells) auto

lemma set_cell_append:
  "i \<notin> set (map fst cells) \<Longrightarrow> set_cell i t (cells @ (i, s) # cs) = cells @ (i, t) # cs"
  by (induction cells) auto

text \<open>With different ids each cell shows its own result.\<close>

lemma cells_filled:
  assumes "distinct (map (\<lambda>r. i r) rs)"
  shows "fold (\<lambda>r. set_cell (i r) (t r)) rs (map (\<lambda>r. (i r, s)) rs) = map (\<lambda>r. (i r, t r)) rs"
proof -
  have "fold (\<lambda>r. set_cell (i r) (t r)) rs (map (\<lambda>r. (i r, t r)) ds @ map (\<lambda>r. (i r, s)) rs) =
      map (\<lambda>r. (i r, t r)) ds @ map (\<lambda>r. (i r, t r)) rs"
    if "distinct (map i (ds @ rs))" for ds
    using that
  proof (induction rs arbitrary: ds)
    case (Cons r rs)
    have "i r \<notin> set (map fst (map (\<lambda>r. (i r, t r)) ds))" using Cons.prems by (auto simp: comp_def)
    then have "set_cell (i r) (t r) (map (\<lambda>r. (i r, t r)) ds @ map (\<lambda>r. (i r, s)) (r # rs)) =
        map (\<lambda>r. (i r, t r)) (ds @ [r]) @ map (\<lambda>r. (i r, s)) rs"
      using set_cell_append [of "i r" "map (\<lambda>r. (i r, t r)) ds" "t r" s "map (\<lambda>r. (i r, s)) rs"] by simp
    then show ?case using Cons.IH [of "ds @ [r]"] Cons.prems by simp
  qed simp
  from this [of "[]"] show ?thesis using assms by simp
qed

subsection \<open>Properties\<close>

text \<open>How a pool's server answers.\<close>

definition pool_latency :: "(string \<Rightarrow> url_parts option) \<Rightarrow> (string \<Rightarrow> int option) \<Rightarrow> pool \<Rightarrow> int" where
  "pool_latency parse answer p =
     pingFQDN (case parse (pool_url p) of None \<Rightarrow> None | Some u \<Rightarrow> answer (url_origin u))"

text \<open>
  The page links to a pool as the fastest exactly when one answered, and then to the first of those
  that no other beats; a visitor who is there already is told so. When the ids of the cells
  differ, each pool's cell shows its own latency.
\<close>

theorem fastest_pool_advised:
  assumes "\<forall>p \<in> set ps. parse (pool_url p) \<noteq> None"
  shows "(let v = load_pools parse answer current (Some ps); lat = pool_latency parse answer
    in ((\<forall>p \<in> set ps. lat p < 0) \<longrightarrow> ping_advice v = []) \<and>
       ((\<exists>p \<in> set ps. 0 \<le> lat p) \<longrightarrow>
          (\<exists>before p after. ps = before @ p # after \<and> 0 \<le> lat p \<and>
             (\<forall>q \<in> set before. 0 \<le> lat q \<longrightarrow> lat p < lat q) \<and> (\<forall>q \<in> set after. 0 \<le> lat q \<longrightarrow> lat p \<le> lat q) \<and>
             ping_advice v = advice parse current (Some (lat p)) (Some (pool_url p)))) \<and>
       (distinct (map (\<lambda>p. ping_id (pool_url p)) ps) \<longrightarrow>
          ping_cells v = map (\<lambda>p. (ping_id (pool_url p), ping_text (lat p))) ps))"
proof -
  let ?lat = "pool_latency parse answer"
  define rs where "rs = map (\<lambda>p. \<lparr>ping_url = pool_url p, latency = ?lat p\<rparr>) ps"
  define cells where "cells = map (\<lambda>p. (ping_id (pool_url p), ''Pinging...'')) ps"
  obtain cells1 m best where s: "show_pings rs cells = (cells1, m, best)" by (metis prod_cases3)
  have v: "load_pools parse answer current (Some ps) =
      \<lparr>pools_tbody = pool_rows ps, ping_cells = cells1, ping_advice = advice parse current m best\<rparr>"
    using assms s by (simp add: load_pools_def list_all_iff rs_def cells_def pool_latency_def)
  have f: "fastest rs m best" by (rule show_pings_fastest [OF s])
  have none: "advice parse current m best = []" if "\<forall>p \<in> set ps. ?lat p < 0"
    using f that by (cases m; cases best) (auto simp: fastest_def rs_def advice_def map_eq_append_conv map_eq_Cons_conv)
  have some: "\<exists>before p after. ps = before @ p # after \<and> 0 \<le> ?lat p \<and>
      (\<forall>q \<in> set before. 0 \<le> ?lat q \<longrightarrow> ?lat p < ?lat q) \<and> (\<forall>q \<in> set after. 0 \<le> ?lat q \<longrightarrow> ?lat p \<le> ?lat q) \<and>
      advice parse current m best = advice parse current (Some (?lat p)) (Some (pool_url p))"
    if "\<exists>p \<in> set ps. 0 \<le> ?lat p"
  proof -
    from that obtain l u where "m = Some l" "best = Some u"
      using f by (cases m; cases best) (auto simp: fastest_def rs_def)
    with f obtain before r after where r: "rs = before @ r # after" "latency r = l" "ping_url r = u" "0 \<le> l"
      "\<And>s. s \<in> set before \<Longrightarrow> 0 \<le> latency s \<Longrightarrow> l < latency s" "\<And>s. s \<in> set after \<Longrightarrow> 0 \<le> latency s \<Longrightarrow> l \<le> latency s"
      by (auto simp: fastest_def)
    let ?res = "\<lambda>p. \<lparr>ping_url = pool_url p, latency = ?lat p\<rparr>"
    obtain b p a where e: "ps = b @ p # a" "before = map ?res b" "r = ?res p" "after = map ?res a"
      using r(1) by (auto simp: rs_def map_eq_append_conv map_eq_Cons_conv)
    have "?lat p < ?lat q" if "q \<in> set b" "0 \<le> ?lat q" for q using r(5) [of "?res q"] r(2) that by (simp add: e)
    moreover have "?lat p \<le> ?lat q" if "q \<in> set a" "0 \<le> ?lat q" for q using r(6) [of "?res q"] r(2) that by (simp add: e)
    moreover have "m = Some (?lat p)" "best = Some (pool_url p)" "0 \<le> ?lat p"
      using r(2-4) \<open>m = Some l\<close> \<open>best = Some u\<close> by (simp_all add: e)
    ultimately show ?thesis using e(1) by blast
  qed
  have "cells1 = map (\<lambda>p. (ping_id (pool_url p), ping_text (?lat p))) ps" if "distinct (map (\<lambda>p. ping_id (pool_url p)) ps)"
  proof -
    have "cells1 = fold (\<lambda>p. set_cell (ping_id (pool_url p)) (ping_text (?lat p))) ps cells"
      using show_pings_cells [OF s] by (simp add: rs_def fold_map comp_def)
    then show ?thesis using cells_filled [OF that] by (simp add: cells_def)
  qed
  then show ?thesis using none some by (simp add: v Let_def)
qed

definition sample_parse :: "string \<Rightarrow> url_parts option" where
  "sample_parse s = (if take 7 s = ''http://'' then Some \<lparr>url_origin = s, url_hostname = drop 7 s\<rparr> else None)"

definition sample_pools :: "pool list" where
  "sample_pools = [\<lparr>pool_url = ''http://a'', location = ''EU'', operator = ''x''\<rparr>,
     \<lparr>pool_url = ''http://b'', location = ''US'', operator = ''y''\<rparr>]"

theorem fastest_pool_advised_witness:
  "ping_cells (load_pools sample_parse (\<lambda>_. Some 7) ''a'' (Some sample_pools)) =
     [(''ping-httpa'', ''7 ms''), (''ping-httpb'', ''7 ms'')]"
proof -
  have ok: "\<forall>p \<in> set sample_pools. sample_parse (pool_url p) \<noteq> None" by (simp add: sample_pools_def sample_parse_def)
  have "ping_id ''http://a'' = ''ping-httpa''" "ping_id ''http://b'' = ''ping-httpb''" by (simp_all add: ping_id_def)
  then have ids: "map (\<lambda>p. ping_id (pool_url p)) sample_pools = [''ping-httpa'', ''ping-httpb'']" by (simp add: sample_pools_def)
  have lat: "pool_latency sample_parse (\<lambda>_. Some 7) p = 7" if "p \<in> set sample_pools" for p
    using that by (auto simp: sample_pools_def sample_parse_def pool_latency_def pingFQDN_def)
  have seven: "ping_text 7 = ''7 ms''" by code_simp
  have "distinct (map (\<lambda>p. ping_id (pool_url p)) sample_pools)" unfolding ids by simp
  then have "ping_cells (load_pools sample_parse (\<lambda>_. Some 7) ''a'' (Some sample_pools)) =
      map (\<lambda>p. (ping_id (pool_url p), ping_text (pool_latency sample_parse (\<lambda>_. Some 7) p))) sample_pools"
    using fastest_pool_advised [OF ok] unfolding Let_def by blast
  also have "\<dots> = map (\<lambda>i. (i, ''7 ms'')) (map (\<lambda>p. ping_id (pool_url p)) sample_pools)" using lat seven by simp
  finally show ?thesis unfolding ids by simp
qed

text \<open>What the list says of a pool is part of the page as it is, tags included; one bad URL hides the whole list.\<close>

lemma pool_rows_verbatim:
  assumes "p \<in> set ps"
  shows "\<exists>before after. pool_rows ps = before @ location p @ after"
proof -
  obtain xs ys where "ps = xs @ p # ys" using assms by (auto simp: in_set_conv_decomp)
  then have "pool_rows ps = (pool_rows xs @ ''<tr><td><a href=\"'' @ pool_url p @ ''\">'' @ pool_url p @ ''</a></td><td>'') @ location p @
      ''</td><td>'' @ operator p @ ''</td><td id=\"'' @ ping_id (pool_url p) @ ''\">Pinging...</td></tr>'' @ pool_rows ys"
    by (simp add: pool_rows_def pool_row_def)
  then show ?thesis by blast
qed

lemma bad_url_hides_pools:
  "p \<in> set ps \<Longrightarrow> parse (pool_url p) = None \<Longrightarrow> load_pools parse answer current (Some ps) = pools_error"
  by (auto simp: load_pools_def list_all_iff)

text \<open>Two pools whose URLs differ in punctuation only share an id; the cell of the second stays as it was.\<close>

lemma shared_ping_id:
  "ping_id ''http://a.bc'' = ping_id ''http://ab.c'' \<and>
   set_cell i t2 (set_cell i t1 [(i, s), (i, s)]) = [(i, t2), (i, s)]"
  by (simp add: ping_id_def)

end
