(* ===== verification/Mock_Connection.thy ===== *)
theory Mock_Connection
  imports Stratum_Listener
begin

text \<open>
  The connection that the tests of the package use instead of a socket
  (\<open>src/gostratum/mock_connection.go\<close>) and the context over it (\<open>NewMockContext\<close> of
  \<open>stratum_context.go\<close>). Channels are unbuffered, so that a send and a receive of the same channel
  happen together; closing a channel releases its receivers and panics in its senders. Goroutines
  are a list of program points, and the step relation interleaves them; what \<open>Close\<close> does while it
  holds the lock is one step.
\<close>

subsection \<open>State\<close>

record mock_connection =
  mc_id :: string
  mc_lock :: bool
  inChan :: nat
  outChan :: nat

datatype mock_result =
    ReadReturned string \<comment> \<open>what was copied into the buffer\<close>
  | ReadExceeded \<comment> \<open>\<open>context.DeadlineExceeded\<close>\<close>
  | WriteReturned nat
  | Handled string
  | ClosedOnce
  | DeadlinePassed

datatype mock_side = Reading | Writing

datatype mock_thread =
    AsyncSend string
  | AsyncReceive
  | Sending nat string
  | Receiving nat nat \<comment> \<open>the channel and the size of the buffer\<close>
  | Handling nat
  | LockForClose
  | LockForDeadline mock_side int
  | Sleeping mock_side int
  | Finished mock_result

record mock_world =
  mw_now :: int
  mw_counter :: int
  mw_next :: nat \<comment> \<open>the next channel\<close>
  mw_closed :: "nat list"
  mw_conn :: mock_connection
  mw_threads :: "mock_thread list"
  mw_panic :: "string option"

text \<open>\<open>atomic.AddInt32\<close> returns the new value.\<close>

definition NewMockConnection :: "int \<Rightarrow> mock_world" where
  "NewMockConnection counter =
     (let n = wrap32 (counter + 1)
      in \<lparr>mw_now = 0, mw_counter = n, mw_next = 2, mw_closed = [],
          mw_conn = \<lparr>mc_id = ''mc_'' @ int_str n, mc_lock = False, inChan = 0, outChan = 1\<rparr>, mw_threads = [], mw_panic = None\<rparr>)"

definition mock_Network :: string where "mock_Network = ''mock''"
definition mock_LocalAddr :: "mock_connection \<Rightarrow> string" where "mock_LocalAddr mc = mc_id mc"
definition mock_RemoteAddr :: "mock_connection \<Rightarrow> string" where "mock_RemoteAddr mc = mc_id mc"

text \<open>The context of the tests; the wallet and the worker are fresh UUIDs.\<close>

definition NewMockContext :: "(nat \<Rightarrow> attempt) \<Rightarrow> string \<Rightarrow> string \<Rightarrow> mining_state \<Rightarrow> int \<Rightarrow> stratum_context \<times> mock_world" where
  "NewMockContext connection wallet worker state counter =
     (\<lparr>RemoteAddr = ''127.0.0.1'', WalletAddr = wallet, WorkerName = worker, RemoteApp = ''mock.context'', Id = 0,
       disconnecting = False, State = state, Extranonce = [], authorizeCount = 0, conn = connection, attempts = 0, sent = [],
       closes = 0, notified = 0, pending = 0\<rparr>, NewMockConnection counter)"

subsection \<open>Operations\<close>

text \<open>What a call begins with: where it blocks, or which goroutines it starts.\<close>

datatype mock_call =
    MRead nat
  | MWrite string
  | MAsyncWriteTestDataToReadBuffer string
  | MReadTestDataFromBuffer
  | MAsyncReadTestDataFromBuffer
  | MClose
  | MSetDeadline int
  | MSetReadDeadline int
  | MSetWriteDeadline int

fun mock_begin :: "mock_connection \<Rightarrow> mock_call \<Rightarrow> mock_thread list" where
  "mock_begin mc (MRead n) = [Receiving (inChan mc) n]"
| "mock_begin mc (MWrite b) = [Sending (outChan mc) b]"
| "mock_begin mc (MAsyncWriteTestDataToReadBuffer s) = [AsyncSend s]"
| "mock_begin mc MReadTestDataFromBuffer = [Handling (outChan mc)]"
| "mock_begin mc MAsyncReadTestDataFromBuffer = [AsyncReceive]"
| "mock_begin mc MClose = [LockForClose]"
| "mock_begin mc (MSetReadDeadline t) = [LockForDeadline Reading t]"
| "mock_begin mc (MSetWriteDeadline t) = [LockForDeadline Writing t]"
| "mock_begin mc (MSetDeadline t) = [LockForDeadline Reading t, LockForDeadline Writing t]"

definition close_chan :: "nat \<Rightarrow> mock_world \<Rightarrow> mock_world" where
  "close_chan c w =
     (if c \<in> set (mw_closed w) then w\<lparr>mw_panic := Some ''close of closed channel''\<rparr>
      else w\<lparr>mw_closed := c # mw_closed w\<rparr>)"

definition mock_chan :: "mock_side \<Rightarrow> mock_connection \<Rightarrow> nat" where
  "mock_chan side mc = (case side of Reading \<Rightarrow> inChan mc | Writing \<Rightarrow> outChan mc)"

definition set_chan :: "mock_side \<Rightarrow> nat \<Rightarrow> mock_connection \<Rightarrow> mock_connection" where
  "set_chan side c mc = (case side of Reading \<Rightarrow> mc\<lparr>inChan := c\<rparr> | Writing \<Rightarrow> mc\<lparr>outChan := c\<rparr>)"

text \<open>\<open>Close\<close>, from taking the lock to releasing it.\<close>

definition mock_Close :: "mock_world \<Rightarrow> mock_world" where
  "mock_Close w =
     (let w1 = close_chan (inChan (mw_conn w)) w
      in if mw_panic w1 \<noteq> None then w1 else close_chan (outChan (mw_conn w)) w1)"

text \<open>A deadline that is reached: the channel is closed and replaced, and the lock released.\<close>

definition deadline_reached :: "mock_side \<Rightarrow> mock_world \<Rightarrow> mock_world" where
  "deadline_reached side w =
     (let w1 = close_chan (mock_chan side (mw_conn w)) w
      in if mw_panic w1 \<noteq> None then w1
         else w1\<lparr>mw_conn := (set_chan side (mw_next w) (mw_conn w))\<lparr>mc_lock := False\<rparr>, mw_next := Suc (mw_next w)\<rparr>)"

text \<open>What a receiver gets: its data, or the zero value of a closed channel.\<close>

fun receives :: "mock_thread \<Rightarrow> nat option" where
  "receives (Receiving c n) = Some c"
| "receives (Handling c) = Some c"
| "receives _ = None"

fun received :: "mock_thread \<Rightarrow> string \<Rightarrow> mock_result" where
  "received (Receiving c n) s = ReadReturned (take n s)"
| "received _ s = Handled s"

fun received_closed :: "mock_thread \<Rightarrow> mock_result" where
  "received_closed (Receiving c n) = ReadExceeded"
| "received_closed _ = Handled []"

definition goes :: "nat \<Rightarrow> mock_thread \<Rightarrow> mock_world \<Rightarrow> mock_world" where
  "goes i t w = w\<lparr>mw_threads := (mw_threads w)[i := t]\<rparr>"

definition at_point :: "mock_world \<Rightarrow> nat \<Rightarrow> mock_thread \<Rightarrow> bool" where
  "at_point w i t \<longleftrightarrow> mw_panic w = None \<and> i < length (mw_threads w) \<and> mw_threads w ! i = t"

inductive mock_step :: "mock_call option \<Rightarrow> mock_world \<Rightarrow> mock_world \<Rightarrow> bool" where
  Call: "mw_panic w = None \<Longrightarrow> mock_step (Some call) w (w\<lparr>mw_threads := mw_threads w @ mock_begin (mw_conn w) call\<rparr>)"
| Time: "mw_panic w = None \<Longrightarrow> mw_now w \<le> t \<Longrightarrow> mock_step None w (w\<lparr>mw_now := t\<rparr>)"
| StartSend: "at_point w i (AsyncSend s) \<Longrightarrow> mock_step None w (goes i (Sending (inChan (mw_conn w)) s) w)"
| StartReceive: "at_point w i AsyncReceive \<Longrightarrow> mock_step None w (goes i (Handling (outChan (mw_conn w))) w)"
| Rendezvous: "at_point w i (Sending c s) \<Longrightarrow> at_point w j r \<Longrightarrow> receives r = Some c \<Longrightarrow> c \<notin> set (mw_closed w) \<Longrightarrow>
    mock_step None w (goes j (Finished (received r s)) (goes i (Finished (WriteReturned (length s))) w))"
| SendClosed: "at_point w i (Sending c s) \<Longrightarrow> c \<in> set (mw_closed w) \<Longrightarrow>
    mock_step None w (w\<lparr>mw_panic := Some ''send on closed channel''\<rparr>)"
| ReceiveClosed: "at_point w j r \<Longrightarrow> receives r = Some c \<Longrightarrow> c \<in> set (mw_closed w) \<Longrightarrow>
    mock_step None w (goes j (Finished (received_closed r)) w)"
| CloseConnection: "at_point w i LockForClose \<Longrightarrow> \<not> mc_lock (mw_conn w) \<Longrightarrow>
    mock_step None w (mock_Close (goes i (Finished ClosedOnce) w))"
| LockDeadline: "at_point w i (LockForDeadline side t) \<Longrightarrow> \<not> mc_lock (mw_conn w) \<Longrightarrow>
    mock_step None w (goes i (Sleeping side t) (w\<lparr>mw_conn := (mw_conn w)\<lparr>mc_lock := True\<rparr>\<rparr>))"
| Deadline: "at_point w i (Sleeping side t) \<Longrightarrow> t \<le> mw_now w \<Longrightarrow>
    mock_step None w (deadline_reached side (goes i (Finished DeadlinePassed) w))"

text \<open>The connection after some calls, in their order, and steps of its goroutines.\<close>

inductive mock_run :: "mock_call list \<Rightarrow> mock_world \<Rightarrow> bool" where
  New: "mock_run [] (NewMockConnection counter)"
| Called: "mock_run calls w \<Longrightarrow> mock_step (Some call) w w' \<Longrightarrow> mock_run (calls @ [call]) w'"
| Stepped: "mock_run calls w \<Longrightarrow> mock_step None w w' \<Longrightarrow> mock_run calls w'"

subsection \<open>Laws\<close>

lemma goes_simps [simp]:
  "mw_now (goes i t w) = mw_now w" "mw_next (goes i t w) = mw_next w" "mw_closed (goes i t w) = mw_closed w"
  "mw_conn (goes i t w) = mw_conn w" "mw_threads (goes i t w) = (mw_threads w)[i := t]" "mw_panic (goes i t w) = mw_panic w"
  by (simp_all add: goes_def)

text \<open>Until it is closed the two channels are different, open, and not handed out again.\<close>

definition chans_open :: "mock_world \<Rightarrow> bool" where
  "chans_open w \<longleftrightarrow>
     (let mc = mw_conn w
      in inChan mc \<noteq> outChan mc \<and> inChan mc \<notin> set (mw_closed w) \<and> outChan mc \<notin> set (mw_closed w) \<and>
         inChan mc < mw_next w \<and> outChan mc < mw_next w \<and> (\<forall>c \<in> set (mw_closed w). c < mw_next w))"

lemma chans_open_deadline:
  "chans_open w \<Longrightarrow> mw_panic w = None \<Longrightarrow> chans_open (deadline_reached side w) \<and> mw_panic (deadline_reached side w) = None"
  by (cases side) (auto simp: chans_open_def deadline_reached_def close_chan_def mock_chan_def set_chan_def Let_def)

text \<open>A thread that waits to close is there only if it was called.\<close>

definition no_closer :: "mock_world \<Rightarrow> bool" where
  "no_closer w \<longleftrightarrow> LockForClose \<notin> set (mw_threads w)"

lemma no_closer_goes: "no_closer w \<Longrightarrow> t \<noteq> LockForClose \<Longrightarrow> no_closer (goes i t w)"
  unfolding no_closer_def by (auto dest: set_update_subset_insert [THEN subsetD])

lemma no_closer_begin: "call \<noteq> MClose \<Longrightarrow> LockForClose \<notin> set (mock_begin mc call)"
  by (cases call) auto

definition only_sends_panic :: "mock_world \<Rightarrow> bool" where
  "only_sends_panic w \<longleftrightarrow> mw_panic w = None \<or> mw_panic w = Some ''send on closed channel''"

lemma unclosed_step:
  assumes "mock_step call w w'" "call \<noteq> Some MClose" "chans_open w" "no_closer w"
  shows "chans_open w' \<and> no_closer w' \<and> only_sends_panic w'"
  using assms(1)
proof cases
  case (Call c)
  then show ?thesis using assms no_closer_begin [of c "mw_conn w"]
    by (auto simp: chans_open_def no_closer_def only_sends_panic_def)
next
  case (CloseConnection i)
  then show ?thesis using assms(4) by (auto simp: at_point_def no_closer_def dest: nth_mem)
next
  case (Deadline i side t)
  have "chans_open (goes i (Finished DeadlinePassed) w)" using assms(3) by (simp add: chans_open_def)
  moreover have "no_closer (goes i (Finished DeadlinePassed) w)" using assms(4) by (simp add: no_closer_goes)
  moreover have "mw_threads (deadline_reached side v) = mw_threads v" for v
    by (simp add: deadline_reached_def close_chan_def Let_def)
  ultimately show ?thesis using Deadline chans_open_deadline [of "goes i (Finished DeadlinePassed) w" side]
    by (simp add: only_sends_panic_def at_point_def no_closer_def)
qed (use assms(3,4) in \<open>auto simp: chans_open_def only_sends_panic_def at_point_def no_closer_def Let_def
  dest!: set_update_subset_insert [THEN subsetD]\<close>)

lemma unclosed_run:
  assumes "mock_run calls w" "MClose \<notin> set calls"
  shows "chans_open w \<and> no_closer w \<and> only_sends_panic w"
  using assms
proof (induction rule: mock_run.induct)
  case (New counter)
  show ?case by (simp add: NewMockConnection_def chans_open_def no_closer_def only_sends_panic_def Let_def)
next
  case (Called calls w call w')
  then have "call \<noteq> MClose" "chans_open w" "no_closer w" by auto
  then show ?case using unclosed_step [OF Called.hyps(2)] by simp
next
  case (Stepped calls w w')
  then show ?case using unclosed_step [of None w w'] by simp
qed

text \<open>After \<open>Close\<close> both channels stay closed.\<close>

definition chans_closed :: "mock_world \<Rightarrow> bool" where
  "chans_closed w \<longleftrightarrow> mw_panic w = None \<and> inChan (mw_conn w) \<in> set (mw_closed w) \<and> outChan (mw_conn w) \<in> set (mw_closed w)"

lemma closed_panics:
  assumes "chans_closed w"
  shows "mw_panic (mock_Close w) = Some ''close of closed channel''"
    "mw_panic (deadline_reached side w) = Some ''close of closed channel''"
  using assms by (cases side; simp add: chans_closed_def mock_Close_def deadline_reached_def close_chan_def mock_chan_def Let_def)+

lemma chans_closed_step: "mock_step call w w' \<Longrightarrow> chans_closed w \<Longrightarrow> mw_panic w' = None \<Longrightarrow> chans_closed w'"
proof (induction rule: mock_step.induct)
  case (CloseConnection w i)
  then show ?case using closed_panics(1) [of "goes i (Finished ClosedOnce) w"] by (simp add: chans_closed_def)
next
  case (Deadline w i side t)
  then show ?case using closed_panics(2) [of "goes i (Finished DeadlinePassed) w"] by (simp add: chans_closed_def)
qed (simp_all add: chans_closed_def)

subsection \<open>Properties\<close>

text \<open>
  The lock does what its comment says as long as nobody calls \<open>Close\<close>: deadlines, however many
  and however they interleave, never close a channel twice. The only panic then is that of a
  write whose deadline passes, where a socket returns an error.
\<close>

theorem deadlines_close_once:
  assumes "mock_run calls w" "MClose \<notin> set calls"
  shows "mw_panic w = None \<or> mw_panic w = Some ''send on closed channel''"
  using unclosed_run [OF assms] by (simp add: only_sends_panic_def)

text \<open>
  After \<open>Close\<close> the lock protects nothing: a second \<open>Close\<close> panics, and so does every deadline that
  was set before and is reached later.
\<close>

theorem closed_connection_panics:
  assumes "chans_closed w"
    "at_point w i LockForClose \<and> w' = mock_Close (goes i (Finished ClosedOnce) w) \<or>
     at_point w i (Sleeping side t) \<and> w' = deadline_reached side (goes i (Finished DeadlinePassed) w)"
  shows "mw_panic w' = Some ''close of closed channel''"
proof -
  have "chans_closed (goes i r w)" for r using assms(1) by (simp add: chans_closed_def)
  then show ?thesis using assms(2) closed_panics by auto
qed

text \<open>A pending write panics when its deadline passes, and a pending read returns an error.\<close>

lemma deadline_wakes:
  assumes "chans_open w" "at_point w i (Sleeping side t)" "t \<le> mw_now w"
    "at_point w j (Sending (outChan (mw_conn w)) b)" "at_point w k (Receiving (inChan (mw_conn w)) n)"
  shows "\<exists>w1 w2. mock_step None w w1 \<and> mock_step None w1 w2 \<and>
    (if side = Writing then mw_panic w2 = Some ''send on closed channel'' else mw_threads w2 ! k = Finished ReadExceeded)"
proof -
  let ?w1 = "deadline_reached side (goes i (Finished DeadlinePassed) w)"
  have s: "mock_step None w ?w1" using assms(2,3) by (rule mock_step.Deadline)
  have none: "mw_panic w = None" using assms(2) by (simp add: at_point_def)
  have p: "mw_panic ?w1 = None"
    using assms(1) none chans_open_deadline [of "goes i (Finished DeadlinePassed) w" side] by (simp add: chans_open_def)
  have th: "mw_threads ?w1 = (mw_threads w)[i := Finished DeadlinePassed]"
    by (simp add: deadline_reached_def close_chan_def Let_def)
  have c: "mock_chan side (mw_conn w) \<in> set (mw_closed ?w1)"
    using none by (auto simp: deadline_reached_def close_chan_def Let_def)
  have ne: "i \<noteq> j" "i \<noteq> k" using assms(2,4,5) by (auto simp: at_point_def)
  show ?thesis
  proof (cases side)
    case Writing
    have "at_point ?w1 j (Sending (outChan (mw_conn w)) b)" using assms(4) p th ne(1) by (simp add: at_point_def)
    then have "mock_step None ?w1 (?w1\<lparr>mw_panic := Some ''send on closed channel''\<rparr>)"
      by (rule mock_step.SendClosed) (use c Writing in \<open>simp add: mock_chan_def\<close>)
    then show ?thesis using s Writing by (intro exI conjI) auto
  next
    case Reading
    have k: "at_point ?w1 k (Receiving (inChan (mw_conn w)) n)" using assms(5) p th ne(2) by (simp add: at_point_def)
    then have "mock_step None ?w1 (goes k (Finished (received_closed (Receiving (inChan (mw_conn w)) n))) ?w1)"
      by (rule mock_step.ReceiveClosed) (use c Reading in \<open>simp_all add: mock_chan_def\<close>)
    moreover have "k < length (mw_threads ?w1)" using k by (simp add: at_point_def)
    ultimately show ?thesis using s Reading by (intro exI conjI) auto
  qed
qed

end
