(* ===== verification/Listener_Setup.thy ===== *)
theory Listener_Setup
  imports Startup Mock_Connection
begin

text \<open>
  How listeners are put together (\<open>NewListener\<close> of \<open>src/gostratum/stratum_listener.go\<close>, \<open>DefaultConfig\<close> of
  \<open>default_client.go\<close>, the configuration in \<open>ListenAndServe\<close> of \<open>src/htnstratum/stratum_server.go\<close>): what a
  new connection carries as its state, an \<open>any\<close>, and what \<open>GetMiningState\<close> of \<open>mining_state.go\<close> makes of it. The
  other theories work with connections of the bridge, whose state is a mining state, which is
  shown here. Also the methods by which a connection is a \<open>context.Context\<close>.
\<close>

subsection \<open>Configurations\<close>

datatype context_state = NoState | Mining mining_state

text \<open>\<open>ctx.State.(*MiningState)\<close> panics on everything else.\<close>

definition GetMiningState :: "context_state \<Rightarrow> mining_state outcome" where
  "GetMiningState s =
     (case s of
        Mining ms \<Rightarrow> Ret ms
      | NoState \<Rightarrow> Panic ''interface conversion: interface {} is nil, not *htnstratum.MiningState'')"

text \<open>Handlers and client listeners of any kind; a state generator reads the clock.\<close>

record ('h, 'c) listener_config =
  lc_HandlerMap :: "string \<Rightarrow> 'h option"
  lc_ClientListener :: "'c option"
  lc_StateGenerator :: "(int \<Rightarrow> context_state) option"
  lc_Port :: string

record ('h, 'c) stratum_listener =
  sl_config :: "('h, 'c) listener_config"
  sl_shuttingDown :: bool
  sl_Disconnects :: int

definition NewListener :: "('h, 'c) listener_config \<Rightarrow> ('h, 'c) stratum_listener" where
  "NewListener cfg =
     \<lparr>sl_config = (if lc_StateGenerator cfg = None then cfg\<lparr>lc_StateGenerator := Some (\<lambda>now. NoState)\<rparr> else cfg),
      sl_shuttingDown = False, sl_Disconnects = 0\<rparr>"

definition DefaultConfig :: "address_decoder \<Rightarrow> (event_handler, 'c) listener_config" where
  "DefaultConfig decodes =
     \<lparr>lc_HandlerMap = DefaultHandlers decodes, lc_ClientListener = None, lc_StateGenerator = Some (\<lambda>now. NoState),
      lc_Port = '':5555''\<rparr>"

definition stratum_config ::
  "address_decoder \<Rightarrow> node_env \<Rightarrow> client_listener \<Rightarrow> bridge_config \<Rightarrow> ('s message_handler, client_listener) listener_config" where
  "stratum_config decodes env clientHandler cfg =
     \<lparr>lc_HandlerMap = bridge_handlers decodes env (cfg_SoloMining cfg), lc_ClientListener = Some clientHandler,
      lc_StateGenerator = Some (\<lambda>now. Mining (MiningStateGenerator now)), lc_Port = cfg_StratumPort cfg\<rparr>"

text \<open>The state of a connection that is accepted at a time.\<close>

definition new_state :: "('h, 'c) stratum_listener \<Rightarrow> int \<Rightarrow> context_state outcome" where
  "new_state s now =
     (case lc_StateGenerator (sl_config s) of
        None \<Rightarrow> Panic ''invalid memory address or nil pointer dereference''
      | Some g \<Rightarrow> Ret (g now))"

subsection \<open>A connection as a context\<close>

text \<open>
  A context with a parent: the deadline, whether \<open>Done\<close> is a channel that is ever closed, the error,
  and the values. A connection has only the values of its parent.
\<close>

record go_context =
  cx_Deadline :: "int option"
  cx_Done :: bool
  cx_Err :: "go_error option"
  cx_Value :: "string \<Rightarrow> json option"

definition as_context :: "go_context \<Rightarrow> go_context" where
  "as_context parent = \<lparr>cx_Deadline = None, cx_Done = False, cx_Err = None, cx_Value = cx_Value parent\<rparr>"

subsection \<open>Laws\<close>

lemma new_state_total: "\<exists>s. new_state (NewListener cfg) now = Ret s"
  by (auto simp: new_state_def NewListener_def split: option.split)

text \<open>
  Every connection of the bridge has the mining state that \<open>newClient\<close> of the model gives it, so that
  \<open>GetMiningState\<close> never panics there; over the default configuration it always would.
\<close>

theorem bridge_connections_have_state:
  "out_bind (new_state (NewListener (stratum_config decodes env l cfg)) now) GetMiningState = Ret (MiningStateGenerator now) \<and>
   (\<exists>m. out_bind (new_state (NewListener (DefaultConfig decodes)) now) GetMiningState = Panic m)"
  by (simp add: new_state_def NewListener_def stratum_config_def DefaultConfig_def GetMiningState_def)

text \<open>A connection does not notice that the context of the listener was cancelled.\<close>

lemma cancelled_unnoticed: "cx_Err (as_context parent) = None \<and> \<not> cx_Done (as_context parent)"
  by (simp add: as_context_def)

lemma Close_closes: "chans_closed (mock_Close (NewMockConnection counter))"
  by (simp add: NewMockConnection_def mock_Close_def close_chan_def chans_closed_def Let_def)

end
