(* ===== verification/Solved_Block.thy ===== *)
theory Solved_Block
  imports Bridge_Server
begin

text \<open>
  From the bytes of a miner to the node: the life of one solved block through all layers (the job
  that was sent, the text of the miner's \<open>mining.submit\<close>, its decoding, the dispatch to
  \<open>HandleSubmit\<close> of \<open>src/htnstratum/share_handler.go\<close>, the check of the proof of work and the
  submission to the node).
\<close>

subsection \<open>What a miner writes\<close>

text \<open>
  A miner names the job by its decimal id and gives the nonce and the hash in hexadecimal, with a
  prefix. The first parameter is the worker, in whatever bytes.
\<close>

definition solution_event :: "string \<Rightarrow> int \<Rightarrow> 64 word \<Rightarrow> bytes \<Rightarrow> json_rpc_event" where
  "solution_event worker jobId nonce hash =
     NewEvent ''7'' ''mining.submit''
       [JStr worker, JStr (int_str jobId), JStr (''0x'' @ hex_str (unat nonce)), JStr (''0x'' @ hex_encode hash)]"

subsection \<open>Reading it back\<close>

definition ascii :: "string \<Rightarrow> bool" where
  "ascii s \<longleftrightarrow> list_all (\<lambda>c. byte_of c < 128) s"

lemma ascii_simps [simp]: "ascii []" "ascii (c # s) \<longleftrightarrow> byte_of c < 128 \<and> ascii s" "ascii (s @ t) \<longleftrightarrow> ascii s \<and> ascii t"
  by (simp_all add: ascii_def)

lemma ascii_hex_char: "d < 16 \<Longrightarrow> byte_of (hex_char d) < 128"
  by (simp add: hex_char_def of_char_char_of_nat)

lemma ascii_dec_str: "ascii (dec_str n)"
proof (induction n rule: dec_str.induct)
  case (1 n)
  then show ?case by (subst dec_str.simps) (simp add: ascii_hex_char)
qed

lemma ascii_hex_str: "ascii (hex_str n)"
proof (induction n rule: hex_str.induct)
  case (1 n)
  then show ?case by (subst hex_str.simps) (simp add: ascii_hex_char)
qed

lemma ascii_int_str: "ascii (int_str i)"
  by (simp add: int_str_def ascii_dec_str)

lemma ascii_hex_encode: "ascii (hex_encode bs)"
proof (induction bs)
  case (Cons b bs)
  have "unat b div 16 < 16" using less_mult_imp_div_less [of "unat b" 16 16] by simp
  then show ?case using Cons by (simp add: hex_encode_def hex_byte_def ascii_hex_char)
qed (simp add: hex_encode_def)

lemma ascii_fixed: "ascii s \<Longrightarrow> fixed_utf8 s = s"
  by (simp add: ascii_def fixed_ascii)

lemma received_JStr: "received (JStr s) = JStr (fixed_utf8 s)"
  by (simp add: received_def)

lemma cut_prefix: "replace_first (''0x'' @ s) ''0x'' [] = s"
  by (simp add: replace_first_def hasPrefix_def)

lemma hex_str_not_empty: "hex_str n \<noteq> []"
  by (subst hex_str.simps) simp

lemma ParseUint_hex_str: "ParseUint (hex_str (unat x)) 16 = Some (x :: 64 word)"
  using unsigned_less [of x, where ?'a = nat] by (simp add: ParseUint_def parse_hex_str hex_str_not_empty)

text \<open>A line that is decoded: the event that arrives differs from the one that was written at most in the worker.\<close>

lemma solution_arrives:
  "UnmarshalEvent (encode_msg (Event (solution_event worker jobId nonce hash))) =
     Inr (solution_event (fixed_utf8 worker) jobId nonce hash)"
proof -
  have s: "msg_sendable (Event (solution_event worker jobId nonce hash))"
    by (simp add: solution_event_def NewEvent_def sendable_def maxNestingDepth_def)
  have "received_msg (Event (solution_event worker jobId nonce hash)) = Event (solution_event (fixed_utf8 worker) jobId nonce hash)"
    by (simp add: solution_event_def NewEvent_def received_JStr ascii_fixed ascii_int_str ascii_hex_str ascii_hex_encode)
  then show ?thesis using decode_msg [OF s] by (cases "UnmarshalEvent (encode_msg (Event (solution_event worker jobId nonce hash)))") simp_all
qed

lemma read_one_line:
  assumes "msg_sendable m"
  shows "readFromConnection (read_of (wire m)) cb s = each_line cb [encode_msg m] s"
proof -
  have p: "list_all plain_line [encode_msg m]" "plain_line []" using encode_plain [OF assms] by (simp_all add: plain_line_def)
  have "wire m = send_lines [encode_msg m] @ []" by (simp add: wire_def send_lines_def)
  then show ?thesis unfolding readFromConnection_def read_of_def
    using filter_NUL [OF p] scan_send_lines [OF p] by (simp add: Let_def)
qed

lemma solution_parsed:
  assumes "GetJob ms (wrap64 n) = Some (Some b)" "NewDomainHashFromString lib (hex_encode hash) = Inr hash"
  shows "parse_submit lib (solution_event worker (wrap64 n) nonce hash) ms =
    Some \<lparr>si_jobId = wrap64 n, si_block = Some b, si_noncestr = hex_str (unat nonce), si_nonceVal = nonce, si_powHash = hash\<rparr>"
proof -
  have id: "ParseInt10 (int_str (wrap64 n)) = Some (wrap64 n)"
    using wrap64_bounds [of n] by (intro ParseInt10_int_str) simp_all
  show ?thesis using assms
    by (simp add: parse_submit_def solution_event_def NewEvent_def param_str_def id cut_prefix [simplified]
        ParseUint_hex_str)
qed

subsection \<open>The way to the node\<close>

text \<open>Reading one line, and what the iteration of the read loop does after it.\<close>

lemma bridge_read_line:
  assumes "msg_sendable m"
  shows "sh_submitted (sw_sh (snd (bridge_read decodes env solo (read_of (wire m)) cancelled w))) =
    sh_submitted (sw_sh (snd (bridge_line decodes env solo (encode_msg m) w)))"
proof -
  obtain r w' where r: "bridge_line decodes env solo (encode_msg m) w = (r, w')" by fastforce
  have "\<exists>r'. readFromConnection (read_of (wire m)) (\<lambda>w line. bridge_line decodes env solo line w) w = (r', w')"
    by (auto simp: read_one_line [OF assms] r split: outcome.split option.split)
  then obtain r' where "readFromConnection (read_of (wire m)) (\<lambda>w line. bridge_line decodes env solo line w) w = (r', w')"
    by blast
  then show ?thesis by (cases r') (auto simp: bridge_read_def wbind_def wret_def upd_ctx_def wmodify_def r)
qed

lemma bridge_line_solution:
  "sh_submitted (sw_sh (snd (bridge_line decodes env solo (encode_msg (Event (solution_event worker jobId nonce hash))) w))) =
     sh_submitted (sw_sh (snd (HandleSubmit env (solution_event (fixed_utf8 worker) jobId nonce hash) solo w)))"
proof -
  have m: "ev_Method (solution_event x jobId nonce hash) = ''mining.submit''" for x
    by (simp add: solution_event_def NewEvent_def)
  show ?thesis
    by (cases "HandleSubmit env (solution_event (fixed_utf8 worker) jobId nonce hash) solo w";
        cases "fst (HandleSubmit env (solution_event (fixed_utf8 worker) jobId nonce hash) solo w)")
      (simp_all add: bridge_line_def solution_arrives bridge_event_def bridge_handlers_def m StratumMethodSubmit_def
        StratumMethodAuthorize_def submit_handler_def wbind_def wret_def
        del: encode_msg.simps)
qed

text \<open>Serving a client leaves the submitted blocks and the tip alone.\<close>

definition same_chain :: "'s share_world_scheme \<Rightarrow> 's share_world_scheme \<Rightarrow> bool" where
  "same_chain w w' \<longleftrightarrow>
     sh_submitted (sw_sh w') = sh_submitted (sw_sh w) \<and> sh_tipBlueScore (sw_sh w') = sh_tipBlueScore (sw_sh w)"

interpretation chain: serve_frame same_chain
  by unfold_locales (simp_all add: same_chain_def)

lemma served_same_chain:
  assumes "job_env_ok env" "session_ok w" "WalletAddr (sw_ctx w) \<noteq> []"
    "GetBlockTemplate (je_gbt env) (je_poll env) (je_vote env) w = (Ret (Inr (Some b, fee)), w1)"
  shows "same_chain w (snd (serve_client env w))"
proof -
  have run: "serve_client env w = send_work env b fee w1" using assms(3,4) by (simp add: serve_client_def wbind_Ret)
  have e: "gbt_env_ok (je_gbt env)" "cache_ok (aw_api w)" using assms(1,2) by (simp_all add: job_env_ok_def session_ok_def)
  from asks_ok_GetBlockTemplate [OF e(1)] e(2) obtain r w2 where
    "GetBlockTemplate (je_gbt env) (je_poll env) (je_vote env) w = (Ret r, w2)" "sw_sh w2 = sw_sh w" by (rule asks_okD)
  then have sh: "sw_sh w1 = sw_sh w" using assms(4) by simp
  show ?thesis unfolding run send_work_split
    by (rule chain.frame_trans [OF _ keepsD [OF chain.kept_after_job]]) (simp add: same_chain_def sh)
qed

text \<open>
  C2: a solved block gets from the miner to the node. The node has answered a request for a template
  with a block, and the client was served; it finds a nonce whose recomputed proof-of-work value
  meets the network's target and writes it on its connection. Then the read loop, from these bytes,
  submits exactly that block with this nonce and this hash to the node, provided the node is synced
  and the bridge knows of no chain that is more than eight blue scores ahead.
\<close>

theorem solved_block_reaches_node:
  fixes env :: job_env
  defines "node \<equiv> je_node env"
  assumes "job_env_ok env" "session_ok w" "WalletAddr (sw_ctx w) \<noteq> []"
    "GetBlockTemplate (je_gbt env) (je_poll env) (je_vote env) w = (Ret (Inr (Some b, fee)), w1)"
    "node_synced node" "unat (sh_tipBlueScore (sw_sh w)) \<le> unat (h_BlueScore (b_Header b)) + 8"
    "NewDomainHashFromString (env_lib node) (hex_encode hash) = Inr hash"
    "RPCBlockToDomainBlock (env_lib node) b (HashString (env_lib node) hash) = Inr conv"
    "NewState (env_lib node) (env_gm node) (db_Header (with_nonce conv nonce)) = Some ps"
    "CalculateProofOfWorkValue (env_lib node) (env_gm node) ps = Some (toBig hash, h)" "toBig hash \<le> Target ps"
  shows "(let served = snd (serve_client env w); jobId = wrap64 (jobCounter (State (sw_ctx w)) + 1);
      line = wire (Event (solution_event worker jobId nonce hash))
    in sh_submitted (sw_sh (snd (bridge_read decodes node solo (read_of line) cancelled served))) =
      sh_submitted (sw_sh w) @ [(with_nonce conv nonce, HashString (env_lib node) hash)])"
proof -
  define served where "served = snd (serve_client env w)"
  define jobId where "jobId = wrap64 (jobCounter (State (sw_ctx w)) + 1)"
  have s: "ready served" "GetJob (State (sw_ctx served)) jobId = Some (Some b)"
    using serve_client_delivers [OF assms(2-5)] by (simp_all add: served_def jobId_def)
  have same: "same_chain w served" unfolding served_def by (rule served_same_chain [OF assms(2-5)])
  have p: "parse_submit (env_lib node) (solution_event (fixed_utf8 worker) jobId nonce hash) (State (sw_ctx served)) =
    Some \<lparr>si_jobId = jobId, si_block = Some b, si_noncestr = hex_str (unat nonce), si_nonceVal = nonce, si_powHash = hash\<rparr>"
    using solution_parsed s(2) assms(8) unfolding jobId_def by blast
  have ok: "accepts_ok (env_accepts node)" "labels_ok (sw_ctx served)"
    using assms(2) s(1) ready_idle_ok by (auto simp: job_env_ok_def idle_ok_def node_def)
  have sub: "sh_submitted (sw_sh (snd (HandleSubmit node (solution_event (fixed_utf8 worker) jobId nonce hash) solo served))) =
      sh_submitted (sw_sh served) @ [(with_nonce conv nonce, HashString (env_lib node) hash)]"
    using proven_submitted [OF p _ ok assms(6), of b conv ps h solo] assms(7,9-12) same by (simp add: same_chain_def)
  have m: "msg_sendable (Event (solution_event worker jobId nonce hash))"
    by (simp add: solution_event_def NewEvent_def sendable_def maxNestingDepth_def)
  have old: "sh_submitted (sw_sh served) = sh_submitted (sw_sh w)" using same by (simp add: same_chain_def)
  show ?thesis unfolding Let_def served_def [symmetric] jobId_def [symmetric]
    by (simp only: bridge_read_line [OF m] bridge_line_solution sub old)
qed

text \<open>A miner that solves its first job.\<close>

lemma sample_api_session: "session_ok sample_api_world"
  by (simp add: session_ok_def idle_ok_def sample_api_world_def plain_ctx_labels sample_handler_ok sample_api_def cache_ok_def
      plain_ctx_def [of "''w''", THEN arg_cong [of _ _ State]] MiningStateGenerator_def)

theorem solved_block_reaches_node_witness:
  "\<exists>blk. sh_submitted (sw_sh (snd (bridge_read sample_decodes sample_env False
      (read_of (wire (Event (solution_event ''rig1'' 1 42 (replicate 32 0))))) False (snd (serve_client sample_job_env sample_api_world))))) = [blk]"
proof (rule sample_solution)
  fix conv ps h
  assume s: "si_block sample_si = Some sample_block" "node_synced sample_env"
    "unat (sh_tipBlueScore (sw_sh sample_world)) \<le> unat (h_BlueScore (b_Header sample_block)) + 8"
    "RPCBlockToDomainBlock (env_lib sample_env) sample_block (HashString (env_lib sample_env) (si_powHash sample_si)) = Inr conv"
    "NewState (env_lib sample_env) (env_gm sample_env) (db_Header (with_nonce conv (si_nonceVal sample_si))) = Some ps"
    "CalculateProofOfWorkValue (env_lib sample_env) (env_gm sample_env) ps = Some (toBig (si_powHash sample_si), h)"
    "toBig (si_powHash sample_si) \<le> Target ps"
  obtain w1 where g: "GetBlockTemplate (je_gbt sample_job_env) (je_poll sample_job_env) (je_vote sample_job_env) sample_api_world =
      (Ret (Inr (Some sample_block, False)), w1)"
    using sample_template by (metis prod.collapse sample_job_env_def job_env.select_convs(6,7))
  have node: "je_node sample_job_env = sample_env" by (simp add: sample_job_env_def)
  have hash: "NewDomainHashFromString (env_lib sample_env) (hex_encode (replicate 32 0)) = Inr (replicate 32 0)"
    by (simp add: sample_env_def zero_lib_def sample_lib_def sample_digest_def)
  have w: "WalletAddr (sw_ctx sample_api_world) \<noteq> []" "sh_tipBlueScore (sw_sh sample_api_world) = 0"
    "sh_submitted (sw_sh sample_api_world) = []" "wrap64 (jobCounter (State (sw_ctx sample_api_world)) + 1) = 1"
    by (simp_all add: sample_api_world_def plain_ctx_def newShareHandler_def MiningStateGenerator_def wrap64_def)
  have si: "si_nonceVal sample_si = 42" "si_powHash sample_si = replicate 32 0" by (simp_all add: sample_si_def)
  note t = solved_block_reaches_node [OF sample_job_env_ok sample_api_session w(1) g, unfolded node, OF s(2), of "replicate 32 0" conv 42 ps h]
  have "unat (sh_tipBlueScore (sw_sh sample_api_world)) \<le> unat (h_BlueScore (b_Header sample_block)) + 8" by (simp add: w(2))
  then show ?thesis using t hash s(4-7) unfolding si w(3,4) Let_def by auto
qed

end
