(* ===== verification/Proven_Blocks.thy ===== *)
theory Proven_Blocks
  imports Startup
begin

text \<open>
  What the node gets from the bridge as a whole: in the life of a bridge, from its start over any
  interleaving of its clients' events, every block that was ever handed to a node carries a proof of
  work that was recomputed and meets the network's target.
\<close>

subsection \<open>Proven blocks\<close>

text \<open>
  A block with the text of the hash that is handed over with it: it is a job, converted for the node,
  with a nonce, and the hash is the recomputed proof-of-work value of this block.
\<close>

definition block_proven :: "node_lib \<Rightarrow> go_math \<Rightarrow> domain_block \<times> string \<Rightarrow> bool" where
  "block_proven lib gm sub \<longleftrightarrow>
     (case sub of (blk, pow) \<Rightarrow>
        \<exists>hash b conv nonce ps h. pow = HashString lib hash \<and> RPCBlockToDomainBlock lib b pow = Inr conv \<and>
          blk = with_nonce conv nonce \<and> NewState lib gm (db_Header blk) = Some ps \<and>
          CalculateProofOfWorkValue lib gm ps = Some (toBig hash, h) \<and> toBig hash \<le> Target ps)"

definition only_proven :: "node_lib \<Rightarrow> go_math \<Rightarrow> 's share_world_scheme \<Rightarrow> 's share_world_scheme \<Rightarrow> bool" where
  "only_proven lib gm w w' \<longleftrightarrow>
     (\<exists>subs. sh_submitted (sw_sh w') = sh_submitted (sw_sh w) @ subs \<and> list_all (block_proven lib gm) subs)"

lemma only_proven_same: "sh_submitted (sw_sh w') = sh_submitted (sw_sh w) \<Longrightarrow> only_proven lib gm w w'"
  by (auto simp: only_proven_def intro!: exI [of _ "[]"])

lemma only_proven_refl: "only_proven lib gm w w"
  by (simp add: only_proven_same)

lemma only_proven_trans: "only_proven lib gm u v \<Longrightarrow> only_proven lib gm v w \<Longrightarrow> only_proven lib gm u w"
  by (auto simp: only_proven_def)

text \<open>The node of a submission computes with the library and the mathematics of the bridge.\<close>

definition computes :: "node_lib \<Rightarrow> go_math \<Rightarrow> node_env \<Rightarrow> bool" where
  "computes lib gm env \<longleftrightarrow> env_lib env = lib \<and> env_gm env = gm"

lemma submission_proven:
  assumes "computes lib gm env"
  shows "only_proven lib gm w (snd (HandleSubmit env event solo w))"
proof -
  obtain r w' where h: "HandleSubmit env event solo w = (r, w')" by fastforce
  have e: "env_lib env = lib" "env_gm env = gm" using assms by (simp_all add: computes_def)
  consider (none) "sh_submitted (sw_sh w') = sh_submitted (sw_sh w)"
    | (one) si :: submit_info and b conv ps hh where "RPCBlockToDomainBlock lib b (HashString lib (si_powHash si)) = Inr conv"
      "NewState lib gm (db_Header (with_nonce conv (si_nonceVal si))) = Some ps"
      "CalculateProofOfWorkValue lib gm ps = Some (toBig (si_powHash si), hh)" "toBig (si_powHash si) \<le> Target ps"
      "sh_submitted (sw_sh w') = sh_submitted (sw_sh w) @ [(with_nonce conv (si_nonceVal si), HashString lib (si_powHash si))]"
    using HandleSubmit_submits [OF h] unfolding e by blast
  then show ?thesis
  proof cases
    case none
    then show ?thesis by (simp add: h only_proven_same)
  next
    case one
    have "block_proven lib gm (with_nonce conv (si_nonceVal si), HashString lib (si_powHash si))"
      unfolding block_proven_def prod.case using one(1-4) by blast
    then show ?thesis using one(5) by (auto simp: h only_proven_def)
  qed
qed

text \<open>All other steps of the bridge leave the submitted blocks alone.\<close>

interpretation proven: bystander_frame "only_proven lib gm" "computes lib gm" for lib gm
proof unfold_locales
  show "only_proven lib gm w w" for w :: "'s share_world_scheme" by (rule only_proven_refl)
  show "only_proven lib gm u w" if "only_proven lib gm u v" "only_proven lib gm v w" for u v w :: "'s share_world_scheme"
    using that by (rule only_proven_trans)
  show "keeps (only_proven lib gm) (HandleSubmit env event solo)" if "computes lib gm env"
    for env event solo using that by (intro keepsI submission_proven)
qed (simp_all add: only_proven_same)

lemma on_client_proven:
  assumes "keeps (only_proven lib gm) m"
  shows "only_proven lib gm w (snd (on_client m i w))"
proof (cases "cl_clients (cw_listener w) i")
  case (Some ctx)
  obtain r w1 where m: "m (w\<lparr>sw_ctx := ctx\<rparr>) = (r, w1)" by fastforce
  have "only_proven lib gm w w1" using keepsD [OF assms, of "w\<lparr>sw_ctx := ctx\<rparr>"] by (simp add: m only_proven_def)
  then show ?thesis using Some m by (cases r) (simp_all add: on_client_def wbind_def only_proven_def)
qed (simp add: on_client_def wret_def only_proven_refl)

lemma run_clients_proven: "keeps (only_proven lib gm) (run_clients env ids)"
proof (induction ids)
  case (Cons i ids)
  have "keeps (only_proven lib gm) (run_client env i)"
    unfolding run_client_on by (intro keepsI on_client_proven proven.kept_serve)
  then show ?case unfolding run_clients.simps by (intro proven.keeps_wbind Cons)
qed (simp add: proven.keeps_wret)

lemma keeps_upd_listener: "keeps (only_proven lib gm) (upd_listener f)"
  by (simp add: keeps_def upd_listener_def wmodify_def only_proven_same)

lemma check_balances_proven: "keeps (only_proven lib gm) (check_balances accepts now balances addresses)"
proof (rule keepsI)
  fix w :: "'s client_world_scheme"
  have "keeps (only_proven lib gm) (wbind (upd_listener f) (\<lambda>_.
      if addresses = [] then wret () else case balances addresses of Inl e \<Rightarrow> wret () | Inr entries \<Rightarrow> RecordBalances accepts entries))"
    for f :: "client_listener \<Rightarrow> client_listener"
    by (intro proven.keeps_wbind keeps_upd_listener) (simp add: proven.keeps_wret RecordBalances_def proven.prom split: sum.split)
  note asked = keepsD [OF this]
  have "only_proven lib gm w (snd (wret () w))" by (simp add: wret_def only_proven_refl)
  then show "only_proven lib gm w (snd (check_balances accepts now balances addresses w))"
    unfolding check_balances_def using asked
    by (cases "balanceDelay < now - cl_lastBalanceCheck (cw_listener w)") (simp_all only: if_True if_False)
qed

text \<open>The nodes that an operation of the bridge hands blocks to.\<close>

fun op_on :: "(node_env \<Rightarrow> bool) \<Rightarrow> bridge_op \<Rightarrow> bool" where
  "op_on P (Happens i e) = event_on P e"
| "op_on P _ = True"

lemma bridge_step_proven:
  fixes w :: "'s client_world_scheme"
  assumes "op_on (computes lib gm) op"
  shows "only_proven lib gm w (snd (bridge_step op w))"
proof (cases op)
  case (Accept remote connection now)
  then show ?thesis using keepsD [OF keeps_upd_listener] by simp
next
  case (Happens i e)
  then show ?thesis using assms by (simp add: on_client_proven proven.kept_event)
next
  case (NewBlock env accepts now balances order)
  have "keeps (only_proven lib gm) (wbind (run_clients env ids) (\<lambda>_. check_balances accepts now balances as))" for ids as
    by (intro proven.keeps_wbind run_clients_proven check_balances_proven)
  from keepsD [OF this] NewBlock show ?thesis by (simp add: NewBlockAvailable_def Let_def)
next
  case (Gone accepts i)
  have "keeps (only_proven lib gm) (upd_sh (removeStats ctx) :: ('s client_world_scheme, unit) handler)" for ctx
    by (rule keepsI, rule only_proven_same) (simp add: upd_sh_def wmodify_def removeStats_def Let_def)
  then have "keeps (only_proven lib gm) (OnDisconnect accepts ctx :: ('s client_world_scheme, unit) handler)" for ctx
    unfolding OnDisconnect_def RecordDisconnect_def by (intro proven.keeps_wbind keeps_upd_listener proven.prom)
  from keepsD [OF this] Gone show ?thesis by (simp add: wret_def only_proven_refl split: option.split)
qed

lemma bridge_run_proven:
  "list_all (op_on (computes lib gm)) ops \<Longrightarrow> only_proven lib gm w (snd (bridge_run ops w))"
proof (induction ops arbitrary: w)
  case (Cons op ops)
  obtain r w1 where s: "bridge_step op w = (r, w1)" by fastforce
  have w1: "only_proven lib gm w w1" using bridge_step_proven [of lib gm op w] Cons.prems by (simp add: s)
  then show ?case using only_proven_trans [OF w1 Cons.IH] Cons.prems by (cases r) (simp_all add: wbind_def s)
qed (simp add: wret_def only_proven_refl)

subsection \<open>Property\<close>

text \<open>
  C1: whatever happens in the life of a bridge, the node gets only blocks with work in them. From the
  start of the bridge, over any interleaving of connections, events of the clients with any bytes,
  announcements and disconnections, also up to a panic, every block that was handed to a node is a
  job converted for the node with a nonce, and comes with the hash that is recomputed from just this
  block and meets the network's target.
\<close>

theorem bridge_submits_only_proven:
  assumes "ListenAndServe z env cfg = (acts, Serving api sh l)" "sw_sh w = sh"
    "list_all (op_on (computes lib gm)) ops"
  shows "list_all (block_proven lib gm) (sh_submitted (sw_sh (snd (bridge_run ops w))))"
  using assms(1)
proof (rule ListenAndServe_Serving)
  fix d1
  assume "sh = start_share_handler cfg d1"
  then have "sh_submitted (sw_sh w) = []" using assms(2) by (simp add: start_share_handler_def newShareHandler_def)
  then show ?thesis using bridge_run_proven [OF assms(3), of w] by (auto simp: only_proven_def)
qed

theorem bridge_submits_only_proven_witness:
  "list_all (block_proven zero_lib sample_math) (sh_submitted (sw_sh (snd (bridge_run sample_ops sample_started_bridge))))"
proof (rule bridge_submits_only_proven [OF sample_started])
  show "sw_sh sample_started_bridge = start_share_handler sample_config ((fresh_db (\<lambda>n. None))\<lparr>calls := 6\<rparr>)"
    by (simp add: sample_started_bridge_def sample_bridge_def)
  show "list_all (op_on (computes zero_lib sample_math)) sample_ops"
    by (simp add: sample_ops_def sample_session_def sample_announcement_def computes_def sample_env_def)
qed

end
