(* ===== verification/Spec2Isabelle.thy ===== *)
theory Spec2Isabelle
  imports Bridge_Fee Share_Counts Pow_Arm Command_Line Page_Timers Index_Page Listener_Setup Solved_Block Proven_Blocks
begin

text \<open>
  A model of htn-stratum-bridge, the program between mining software that speaks the stratum
  protocol over TCP and a Hoosat node that speaks gRPC. It accepts connections of miners, fetches
  block templates from the node, hands them out as jobs, checks the nonces that come back,
  submits the blocks that meet the network's target, keeps statistics and a database of found
  blocks, and serves a web interface over both.

  \<^bold>\<open>The parts and their theories\<close> (paths under \<open>src/\<close> of the Go module):

  \<^item> \<open>Prelude\<close>: machine integers of Go (\<open>wrap32\<close>, \<open>wrap64\<close>, truncating division), errors as values
    (\<open>go_error\<close>), results of a call (\<open>outcome\<close>: a value, a panic, or not returning) and handlers, which
    are functions from a state to an outcome and a state, composed with \<open>wbind\<close>. The locale \<open>frame\<close>
    says that handlers keep a relation between the state before and after.
  \<^item> \<open>Go_Bytes\<close>, \<open>Go_Strings\<close>, \<open>Go_Float\<close>, \<open>Go_Math\<close>, \<open>Go_Fmt\<close>: what the program uses of Go's standard
    library, written out: byte orders and hexadecimal, byte strings and UTF-8, IEEE doubles with their
    rounding and \<open>big.Float\<close>, the parts of \<open>math\<close>, widths, decimals and durations of \<open>fmt\<close>.
  \<^item> \<open>Json_Text\<close>, \<open>Number_Text\<close>, \<open>Wire_Format\<close> (\<open>gostratum/jsonrpc_event.go\<close>, \<open>stratum_context.go\<close>): the
    bytes of the messages: the decoder of \<open>encoding/json\<close>, the texts of numbers, the encoder.
  \<^item> \<open>Node_Types\<close>: the node's block types and its library functions, which are parameters.
  \<^item> \<open>Mining_State\<close> (\<open>htnstratum/mining_state.go\<close>): the jobs of a connection, a ring of 32.
  \<^item> \<open>Hasher\<close> (\<open>hasher.go\<close>): difficulties and targets, the serialised header, both job formats.
  \<^item> \<open>Bridge_Fee\<close> (\<open>bridgefee/bridgefee.go\<close>): which templates pay the bridge, with HMAC-SHA256.
  \<^item> \<open>Heavy_Hash\<close>, \<open>Pow\<close>, \<open>Pow_Arm\<close> (\<open>pow/\<close>): the matrix of a header, the hash functions of every version,
    the proof-of-work value and its check, portable and for aarch64.
  \<^item> \<open>Stratum_Context\<close>, \<open>Default_Client\<close>, \<open>Stratum_Listener\<close> (\<open>gostratum/\<close>): a connection with its
    writes, replies and disconnection; the default handlers; the read loop and the splitting of
    what was read into lines and events. \<open>Mock_Connection\<close> (\<open>mock_connection.go\<close>): the connection of the
    tests, whose goroutines, channels and lock are a step relation.
  \<^item> \<open>Mining_DB\<close> (\<open>db.go\<close>): the opening of the file with its migration, the table of found blocks and
    every statement, with faults of the engine.
  \<^item> \<open>Prom\<close> (\<open>prom.go\<close>, \<open>errors.go\<close>): the metrics, as a log of calls of the library, which panics on
    labels that are not valid UTF-8.
  \<^item> \<open>Work_Stats\<close>, \<open>Share_Handler\<close>, \<open>Share_Laws\<close>, \<open>Share_Counts\<close> (\<open>share_handler.go\<close>): statistics and
    the variable difficulty; a submission from its parameters to the node; the laws of both.
    \<open>Stats_Report\<close>: the texts that its threads print.
  \<^item> \<open>Miner_Rewards\<close> (\<open>miner_rewards.go\<close>): the report of payments, and the attribution of a payment to
    workers. \<open>Reward_Booking\<close> (\<open>share_handler.go\<close>): the goroutine that books a block's reward.
  \<^item> \<open>Htn_Api\<close> (\<open>htnapi.go\<close>): template requests, the cache of templates, synchronisation.
  \<^item> \<open>Client_Handler\<close> (\<open>client_handler.go\<close>): the registry of clients, and work for each of them.
    \<open>Work_Laws\<close> and \<open>Session_Laws\<close> hold its laws.
  \<^item> \<open>Bridge_Server\<close>, \<open>Bridge_Laws\<close> (\<open>stratum_server.go\<close>): the composition: configuration, handlers,
    recovery at the start, the life of a connection as any sequence of reads, new work and
    disconnections, and the life of the bridge as any interleaving of those of its clients.
    \<open>Solved_Block\<close> follows a solved block through all layers, \<open>Proven_Blocks\<close> what the node gets.
  \<^item> \<open>Startup\<close> (\<open>ListenAndServe\<close>, \<open>htnapi.go\<close>, \<open>gostratum/stratum_listener.go\<close>): the order of the start, what
    can stop it, and the accept loop. \<open>Command_Line\<close> (\<open>cmd/htnbridge/main.go\<close>): file, flags, defaults.
    \<open>Listener_Setup\<close>: how listeners are configured, and the state their connections get.
  \<^item> \<open>Web_Ui\<close> (\<open>webui.go\<close>): the data of the statistics page and of the JSON endpoints. \<open>Web_Page\<close>,
    \<open>Live_Page\<close>: what the template and the script of the page show of them, turning pages,
    refreshing, and sorting the workers. \<open>Page_Timers\<close>: when the page refreshes, its countdown and its
    copy buttons. \<open>Index_Page\<close>: the first page, with the list of other pools and their pings.

  \<^bold>\<open>State.\<close> The state of a goroutine that serves a client is a record that the theories extend: the
  log of metrics (\<open>prom_state\<close>), the client's context, the share handler with the database and the
  blocks that reached the node (\<open>share_world\<close>), the connection to the node (\<open>api_world\<close>), and the
  registry of all clients (\<open>client_world\<close>). Definitions of an early theory run on every extension of
  its record. Fields of a Go struct keep their names, with a prefix where two structs share one.

  \<^bold>\<open>What the groups of lemmas show.\<close>

  \<^item> End to end (\<open>Proven_Blocks\<close>, \<open>Solved_Block\<close>): in the whole life of a bridge, only blocks whose
    recomputed proof of work meets the network's target reach a node; and a miner that was sent a job
    and writes such a solution on its connection gets its block to the node.
  \<^item> Submissions (\<open>Share_Laws\<close>, \<open>Share_Counts\<close>): the same for one submission, with every other case; a
    handler never panics; each submission is counted at most once. They rest on the locales
    \<open>step_frame\<close> and \<open>share_frame\<close>, whose assumptions are what every elementary step of the
    share handler keeps; they are interpreted on several relations (\<open>work\<close>, \<open>tally\<close>, \<open>calm\<close>).
  \<^item> Connections (\<open>Work_Laws\<close>, \<open>Session_Laws\<close>, \<open>Bridge_Server\<close>, \<open>Bridge_Laws\<close>, \<open>Startup\<close>): a bridge that
    has started never panics, whatever bytes its clients send and however their events interleave;
    when it comes to serve; an announcement reaches every client, and the work that was sent is work
    that can be submitted. The locales \<open>submit_frame\<close>, \<open>serve_frame\<close> and \<open>message_frame\<close> extend
    these frames to submissions, new work and messages, \<open>bystander_frame\<close> to all events of a client.
  \<^item> Text (\<open>Json_Text\<close>, \<open>Number_Text\<close>, \<open>Wire_Format\<close>): decoded values have the types Go gives them; the
    shortest decimal of a double denotes it; what a client reads decodes into what was sent.
  \<^item> The page (\<open>Web_Page\<close>, \<open>Live_Page\<close>): server and script show the same rows, names cannot inject
    markup, pages stay in range for every order of answers; where the two disagree (hash rates
    from a PH/s, ties of percentages, a late refresh) is proved as well. The overlay of a refresh always
    goes, but the countdown never reaches zero when the page reloads (\<open>Page_Timers\<close>, by an invariant of
    its step relation); the pool advised is the first of the fastest (\<open>Index_Page\<close>).
  \<^item> The connection of the tests (\<open>Mock_Connection\<close>): deadlines never close a channel twice as long as
    nobody calls \<open>Close\<close>; after it every deadline does.
  \<^item> Work (\<open>Hasher\<close>, \<open>Heavy_Hash\<close>, \<open>Pow\<close>, \<open>Pow_Arm\<close>): the accuracy and monotonicity of targets, injectivity of the
    hashed header, equality of the 16-bit matrix product with the one over the natural numbers,
    termination of the newest hash function, equality of the platform variants.
  \<^item> Rewards (\<open>Miner_Rewards\<close>, \<open>Reward_Booking\<close>, \<open>Mining_DB\<close>): the rows of a payment add up, a payment
    is booked once, the table keeps its constraints from the opening of the file on and under faults,
    pages cover a wallet, and rows of an older file cannot be read after its migration. The locale
    \<open>order_by\<close> is what the program relies on of \<open>ORDER BY\<close>.
  \<^item> Jobs (\<open>Mining_State\<close>): the locale \<open>job_ring\<close> states a ring of jobs; the model's operations are an
    interpretation. Codecs (\<open>Go_Bytes\<close>): the locale \<open>byte_codec\<close>.
  \<^item> Templates (\<open>Htn_Api\<close>): the cache under every interleaving of its goroutines is a step relation
    with an invariant, and a call of \<open>GetBlockTemplate\<close> is a run of these steps.

  \<^bold>\<open>Parameters.\<close> The node's library (hashes, block conversion, address decoding), the node's answers,
  the clock, the result of every write to a connection, the faults of the database engine, the
  orders of maps and of SQL's unordered results, the functions of the C mathematics library and
  the Unicode tables, and the YAML decoder are arguments. Hypotheses about them are named definitions
  (\<open>digests_32\<close>, \<open>accepts_ok\<close>, \<open>job_env_ok\<close>, \<open>file_ok\<close> and others); nothing is assumed of the bytes of a
  client, and the witnesses instantiate them.

  \<^bold>\<open>Loops and bounds.\<close> Loops are recursive functions with a termination proof. Where the code
  itself bounds nothing the loop is a partial function with its result in an option, so that not
  returning is \<open>None\<close>: drawing matrices until one has full rank, two loops of the hash functions,
  the walk over the chain of the rewards report, and waiting for the node to sync. That they return
  is proved: \<open>HoohashMatrixMultiplicationV110_returns\<close> and \<open>pow_value_total\<close> for the hash
  functions of the current block versions, \<open>rewards_endpoint_answers\<close> for the report, and
  \<open>waitForSync_first\<close> says exactly when the last one does; nothing is claimed of the matrices of the
  old versions, whose generator might never reach full rank. There is no fuel; the bounds that occur
  (15 attempts to book a reward, 32 jobs, 2000 blocks of a page, four identities) are the code's.
  Machine integers wrap at their width.

  \<^bold>\<open>Not modelled\<close>: the markup and the styles of the pages (most of the rest of \<open>webui.go\<close>), HTTP and TLS
  themselves, the logger, SQL text, the C library of the aarch64 variant (a parameter), \<open>String\<close> of a
  connection, the text of a log entry, and two unused functions of \<open>heavyhash.go\<close> on 32-bit floats,
  which rest on a third-party package. The texts of errors that Go's library words are not claimed to
  be its own. Goroutines that share state under a mutex are atomic steps, except for the template
  cache, where the interleaving is modelled, and the submissions of one connection, which the read
  loop runs in order.
\<close>

end
